(* ===== verification/FinaX_Prelude.thy ===== *)
theory FinaX_Prelude
  imports Main "HOL-Library.AList" "HOL-Library.Sublist"
begin

text \<open>
  Shared ground of the development: the exceptions the backend raises and catches as values,
  the result type of fallible code, effectful calls into code outside the repository
  as functions of an abstract world, and Python dictionaries, which keep insertion order, as
  association lists. The named collections gather the rewrite rules each group of proofs uses.
\<close>

section \<open>Collections\<close>

named_theorems dict_simps \<open>reading a Python dictionary after an update\<close>
named_theorems float_intro \<open>order facts of binary64 rounding\<close>
named_theorems service_simps \<open>projections of the service state after an operation\<close>
named_theorems frame_simps \<open>parts of a state an operation leaves alone\<close>

section \<open>Exceptions and results\<close>

text \<open>
  One constructor per exception class the code names in a \<^verbatim>\<open>raise\<close> or an
  \<^verbatim>\<open>except\<close>; \<open>OtherError\<close> is every other class. The string is \<^verbatim>\<open>str(exc)\<close>.
\<close>

datatype exn =
    ValueError string
  | OverflowError string
  | ZeroDivisionError string
  | KeyError string
  | TimeoutError string
  | ConnectionError string
  | OSError string
  | ContractLogicError string
  | Web3RPCError string
  | ChainClientError string
  | SubmitterError string
  | AgentTimeout string
  | AgentError string
  | OtherError string

type_synonym 'a res = "exn + 'a"

fun exn_str :: "exn \<Rightarrow> string" where
  "exn_str (ValueError m) = m"
| "exn_str (OverflowError m) = m"
| "exn_str (ZeroDivisionError m) = m"
| "exn_str (KeyError m) = m"
| "exn_str (TimeoutError m) = m"
| "exn_str (ConnectionError m) = m"
| "exn_str (OSError m) = m"
| "exn_str (ContractLogicError m) = m"
| "exn_str (Web3RPCError m) = m"
| "exn_str (ChainClientError m) = m"
| "exn_str (SubmitterError m) = m"
| "exn_str (AgentTimeout m) = m"
| "exn_str (AgentError m) = m"
| "exn_str (OtherError m) = m"

fun is_ok :: "'a res \<Rightarrow> bool" where
  "is_ok (Inl e) = False"
| "is_ok (Inr a) = True"

fun res_bind :: "'a res \<Rightarrow> ('a \<Rightarrow> 'b res) \<Rightarrow> 'b res" where
  "res_bind (Inl e) f = Inl e"
| "res_bind (Inr a) f = f a"

lemma res_bind_Inr_iff: "res_bind m f = Inr b \<longleftrightarrow> (\<exists>a. m = Inr a \<and> f a = Inr b)"
  by (cases m) auto

lemma res_bind_Inl_iff:
  "res_bind m f = Inl e \<longleftrightarrow> m = Inl e \<or> (\<exists>a. m = Inr a \<and> f a = Inl e)"
  by (cases m) auto

lemma res_bind_assoc: "res_bind (res_bind m f) g = res_bind m (\<lambda>a. res_bind (f a) g)"
  by (cases m) auto

lemma is_ok_iff: "is_ok r \<longleftrightarrow> (\<exists>a. r = Inr a)"
  by (cases r) auto

section \<open>Calls into the outside world\<close>

text \<open>
  An awaited call (an RPC, a database, a clock) is a function of a world of arbitrary type
  that returns a result or an exception and the world after the call. Two calls one after the
  other may see different worlds.
\<close>

type_synonym ('w, 'a) io = "'w \<Rightarrow> 'a res \<times> 'w"

definition io_return :: "'a \<Rightarrow> ('w, 'a) io" where
  "io_return a w = (Inr a, w)"

definition io_raise :: "exn \<Rightarrow> ('w, 'a) io" where
  "io_raise e w = (Inl e, w)"

definition io_lift :: "'a res \<Rightarrow> ('w, 'a) io" where
  "io_lift r w = (r, w)"

definition io_bind :: "('w, 'a) io \<Rightarrow> ('a \<Rightarrow> ('w, 'b) io) \<Rightarrow> ('w, 'b) io" where
  "io_bind m f w = (case m w of (Inl e, w') \<Rightarrow> (Inl e, w') | (Inr a, w') \<Rightarrow> f a w')"

definition io_try :: "('w, 'a) io \<Rightarrow> (exn \<Rightarrow> ('w, 'a) io) \<Rightarrow> ('w, 'a) io" where
  "io_try m h w = (case m w of (Inl e, w') \<Rightarrow> h e w' | (Inr a, w') \<Rightarrow> (Inr a, w'))"

lemma io_return_eq [simp]: "io_return a w = (r, w') \<longleftrightarrow> r = Inr a \<and> w' = w"
  by (auto simp: io_return_def)

lemma io_raise_eq [simp]: "io_raise e w = (r, w') \<longleftrightarrow> r = Inl e \<and> w' = w"
  by (auto simp: io_raise_def)

lemma io_lift_eq [simp]: "io_lift x w = (r, w') \<longleftrightarrow> r = x \<and> w' = w"
  by (auto simp: io_lift_def)

lemma io_bind_Inr_iff:
  "io_bind m f w = (Inr b, w'') \<longleftrightarrow> (\<exists>a w'. m w = (Inr a, w') \<and> f a w' = (Inr b, w''))"
  by (auto simp: io_bind_def split: prod.splits sum.splits)

lemma io_bind_Inl_iff:
  "io_bind m f w = (Inl e, w'') \<longleftrightarrow>
     m w = (Inl e, w'') \<or> (\<exists>a w'. m w = (Inr a, w') \<and> f a w' = (Inl e, w''))"
  by (auto simp: io_bind_def split: prod.splits sum.splits)

lemma io_bind_return [simp]: "io_bind (io_return a) f = f a"
  by (rule ext) (simp add: io_bind_def io_return_def)

lemma io_bind_raise [simp]: "io_bind (io_raise e) f = io_raise e"
  by (rule ext) (simp add: io_bind_def io_raise_def)

text \<open>
  \<open>io_post m P\<close>: whenever \<open>m\<close> returns, its value satisfies \<open>P\<close>, from every world. The rules follow the
  shape of the program.
\<close>

definition io_post :: "('w, 'a) io \<Rightarrow> ('a \<Rightarrow> bool) \<Rightarrow> bool" where
  "io_post m P \<longleftrightarrow> (\<forall>w a w'. m w = (Inr a, w') \<longrightarrow> P a)"

lemma io_postD: "io_post m P \<Longrightarrow> m w = (Inr a, w') \<Longrightarrow> P a"
  by (auto simp: io_post_def)

lemma io_post_return: "P a \<Longrightarrow> io_post (io_return a) P"
  by (simp add: io_post_def)

lemma io_post_raise: "io_post (io_raise e) P"
  by (simp add: io_post_def)

lemma io_post_lift: "(\<And>a. r = Inr a \<Longrightarrow> P a) \<Longrightarrow> io_post (io_lift r) P"
  by (simp add: io_post_def)

lemma io_post_bind: "io_post m Q \<Longrightarrow> (\<And>a. Q a \<Longrightarrow> io_post (f a) P) \<Longrightarrow> io_post (io_bind m f) P"
  by (fastforce simp: io_post_def io_bind_Inr_iff)

lemma io_post_mono: "io_post m Q \<Longrightarrow> (\<And>a. Q a \<Longrightarrow> P a) \<Longrightarrow> io_post m P"
  unfolding io_post_def by blast

lemma io_post_any: "io_post m (\<lambda>_. True)"
  by (simp add: io_post_def)

lemma io_post_bind_lift: "(\<And>a. r = Inr a \<Longrightarrow> io_post (f a) P) \<Longrightarrow> io_post (io_bind (io_lift r) f) P"
  by (rule io_post_bind [where Q = "\<lambda>a. r = Inr a"]) (auto intro: io_post_lift)

lemma io_post_bind_any: "(\<And>a. io_post (f a) P) \<Longrightarrow> io_post (io_bind m f) P"
  by (rule io_post_bind [OF io_post_any])

lemma io_post_if: "(b \<Longrightarrow> io_post m P) \<Longrightarrow> (\<not> b \<Longrightarrow> io_post m' P) \<Longrightarrow> io_post (if b then m else m') P"
  by simp

section \<open>Python dictionaries\<close>

text \<open>
  \<^verbatim>\<open>d[k] = v\<close> overwrites in place or appends, \<^verbatim>\<open>d.pop(k, None)\<close> removes, iteration follows
  insertion order: \<open>AList.update\<close> and \<open>AList.delete\<close> are exactly these.
\<close>

type_synonym ('k, 'v) pydict = "('k \<times> 'v) list"

abbreviation dict_set :: "'k \<Rightarrow> 'v \<Rightarrow> ('k, 'v) pydict \<Rightarrow> ('k, 'v) pydict" where
  "dict_set k v d \<equiv> AList.update k v d"

abbreviation dict_pop :: "'k \<Rightarrow> ('k, 'v) pydict \<Rightarrow> ('k, 'v) pydict" where
  "dict_pop k d \<equiv> AList.delete k d"

abbreviation dict_get :: "('k, 'v) pydict \<Rightarrow> 'k \<Rightarrow> 'v option" where
  "dict_get d k \<equiv> map_of d k"

definition dict_setdefault :: "'k \<Rightarrow> 'v \<Rightarrow> ('k, 'v) pydict \<Rightarrow> ('k, 'v) pydict" where
  "dict_setdefault k v d = (case dict_get d k of None \<Rightarrow> dict_set k v d | Some _ \<Rightarrow> d)"

abbreviation dict_wf :: "('k, 'v) pydict \<Rightarrow> bool" where
  "dict_wf d \<equiv> distinct (map fst d)"

lemma dict_get_set [dict_simps]:
  "dict_get (dict_set k v d) k' = (if k' = k then Some v else dict_get d k')"
  by (simp add: update_conv')

lemma dict_get_pop [dict_simps]:
  "dict_get (dict_pop k d) k' = (if k' = k then None else dict_get d k')"
  by (simp add: delete_conv')

lemma dict_get_setdefault [dict_simps]:
  "dict_get (dict_setdefault k v d) k' =
     (if k' = k \<and> dict_get d k = None then Some v else dict_get d k')"
  by (auto simp: dict_setdefault_def dict_simps split: option.splits)

lemma dict_wf_set [intro]: "dict_wf d \<Longrightarrow> dict_wf (dict_set k v d)"
  by (rule distinct_update)

lemma dict_wf_pop [intro]: "dict_wf d \<Longrightarrow> dict_wf (dict_pop k d)"
  by (rule distinct_delete)

lemma dict_wf_setdefault [intro]: "dict_wf d \<Longrightarrow> dict_wf (dict_setdefault k v d)"
  by (auto simp: dict_setdefault_def split: option.splits)

lemma dict_in_iff: "k \<in> fst ` set d \<longleftrightarrow> dict_get d k \<noteq> None"
  by (force simp: map_of_eq_None_iff)

lemma dict_keys_in_iff: "k \<in> set (map fst d) \<longleftrightarrow> dict_get d k \<noteq> None"
  by (metis dict_in_iff list.set_map)

section \<open>Strings\<close>

definition removeprefix :: "string \<Rightarrow> string \<Rightarrow> string" where
  "removeprefix p s = (if prefix p s then drop (length p) s else s)"

definition removesuffix :: "string \<Rightarrow> string \<Rightarrow> string" where
  "removesuffix p s = (if suffix p s \<and> p \<noteq> [] then take (length s - length p) s else s)"

abbreviation str_contains :: "string \<Rightarrow> string \<Rightarrow> bool" where
  "str_contains needle s \<equiv> sublist needle s"

lemma removeprefix_append [simp]: "removeprefix p (p @ s) = s"
  by (simp add: removeprefix_def)

section \<open>Integer division\<close>

text \<open>
  Python's \<^verbatim>\<open>//\<close> floors, as \<open>div\<close> on \<open>int\<close> does; \<^verbatim>\<open>-(-a // b)\<close> is the ceiling.
\<close>

definition ceil_div :: "int \<Rightarrow> int \<Rightarrow> int" where
  "ceil_div a b = - ((- a) div b)"

lemma div_bounds:
  fixes a b :: int
  assumes "0 < b"
  shows "a div b * b \<le> a" and "a < (a div b + 1) * b"
proof -
  have eq: "a = a div b * b + a mod b" by simp
  have m: "0 \<le> a mod b" "a mod b < b" using assms by auto
  show "a div b * b \<le> a" using eq m(1) by linarith
  have "(a div b + 1) * b = a div b * b + b" by (simp add: algebra_simps)
  then show "a < (a div b + 1) * b" using eq m(2) by linarith
qed

lemma ceil_div_bounds:
  assumes "0 < b"
  shows "a \<le> ceil_div a b * b" and "(ceil_div a b - 1) * b < a"
  using div_bounds [OF assms, of "- a"] by (auto simp: ceil_div_def algebra_simps)

lemma ceil_div_nonneg: "0 \<le> a \<Longrightarrow> 0 < b \<Longrightarrow> 0 \<le> ceil_div a b"
  by (simp add: ceil_div_def div_nonpos_pos_le0)

lemma ceil_div_pos: "0 < a \<Longrightarrow> 0 < b \<Longrightarrow> 0 < ceil_div a b"
  using ceil_div_bounds(1) [of b a] by (metis less_le_trans mult_less_cancel_right_pos mult_zero_left)

lemma floor_le_ceil_div:
  assumes "0 < b"
  shows "a div b \<le> ceil_div a b" and "ceil_div a b \<le> a div b + 1"
proof -
  have "a div b * b \<le> ceil_div a b * b"
    using div_bounds(1) [OF assms, of a] ceil_div_bounds(1) [OF assms, of a] by (rule order_trans)
  then show "a div b \<le> ceil_div a b" using assms by simp
  have "(ceil_div a b - 1) * b < (a div b + 1) * b"
    using ceil_div_bounds(2) [OF assms, of a] div_bounds(2) [OF assms, of a] by (rule less_trans)
  then show "ceil_div a b \<le> a div b + 1" using assms by simp
qed

lemma div_le_self_nonneg: "0 \<le> a \<Longrightarrow> 1 \<le> b \<Longrightarrow> a div b \<le> (a::int)"
  using zdiv_mono2 [of a 1 b] by simp

end
