(* ===== verification/Py_Float.thy ===== *)
theory Py_Float
  imports FinaX_Prelude Complex_Main
begin

text \<open>
  Python's \<^verbatim>\<open>float\<close> is an IEEE-754 binary64. A finite value is kept as the rational number it
  denotes; every arithmetic result is the exact rational result rounded to the nearest
  representable value, ties to even, with gradual underflow and overflow to infinity. The two zeros are
  not told apart: no operation the backend performs distinguishes them.

  The first half defines rounding and shows what the arithmetic rests on: the result is within half
  a unit in the last place, rounding is monotone and odd, and representable values stay put. The
  locale \<open>rounding\<close> states these laws as an interface and draws the order facts that the
  components use; \<open>b64\<close> interprets it on the definition.
\<close>

section \<open>Binary logarithm\<close>

function blen :: "int \<Rightarrow> int" where
  "blen n = (if n \<le> 0 then 0 else 1 + blen (n div 2))"
  by pat_completeness auto
termination
  by (relation "measure nat") auto

declare blen.simps [simp del]

lemma blen_nonneg: "0 \<le> blen n"
  by (induction n rule: blen.induct) (subst blen.simps, auto)

lemma blen_bounds:
  "0 < n \<Longrightarrow> 1 \<le> blen n \<and> 2 ^ nat (blen n - 1) \<le> n \<and> n < 2 ^ nat (blen n)"
proof (induction n rule: blen.induct)
  case (1 n)
  have u: "blen n = 1 + blen (n div 2)" using "1.prems" by (subst blen.simps) simp
  show ?case
  proof (cases "n div 2 = 0")
    case True
    then have "n = 1" using "1.prems" by auto
    moreover have "blen 0 = 0" by (subst blen.simps) simp
    ultimately show ?thesis using u by simp
  next
    case False
    then have pos: "0 < n div 2" using "1.prems" by linarith
    with "1.IH" "1.prems" have IH: "1 \<le> blen (n div 2)"
      "2 ^ nat (blen (n div 2) - 1) \<le> n div 2" "n div 2 < 2 ^ nat (blen (n div 2))"
      by auto
    obtain k where k: "blen (n div 2) = 1 + int k" using IH(1) by (metis zle_iff_zadd)
    have e: "nat (1 + int k) = Suc k" "nat (2 + int k) = Suc (Suc k)" by auto
    show ?thesis using u IH k e by auto
  qed
qed

definition ilog2 :: "rat \<Rightarrow> int" where
  "ilog2 x = (if 1 \<le> x then blen \<lfloor>x\<rfloor> - 1 else - blen (\<lceil>1 / x\<rceil> - 1))"

lemma powi_nat_eq: "0 \<le> k \<Longrightarrow> (2::rat) powi k = of_int (2 ^ nat k)"
  by (simp add: power_int_def)

lemma powi_pos [simp]: "0 < (2::rat) powi k"
  by simp

lemma powi_minus_eq: "(2::rat) powi (- k) = 1 / 2 powi k"
  by (simp add: power_int_minus field_simps)

lemma powi_plus_one: "(2::rat) powi (k + 1) = 2 * 2 powi k"
  by (simp add: power_int_add)

lemma powi_minus_one: "(2::rat) powi (k - 1) = 2 powi k / 2"
  by (simp add: power_int_diff)

lemma ilog2_bounds:
  assumes "0 < x"
  shows "2 powi ilog2 x \<le> x" and "x < 2 powi (ilog2 x + 1)"
proof -
  have "2 powi ilog2 x \<le> x \<and> x < 2 powi (ilog2 x + 1)"
  proof (cases "1 \<le> x")
    case True
    then have n: "0 < \<lfloor>x\<rfloor>" by simp
    note b = blen_bounds [OF n]
    have "(of_int (2 ^ nat (blen \<lfloor>x\<rfloor> - 1)) :: rat) \<le> of_int \<lfloor>x\<rfloor>" using b by (simp only: of_int_le_iff)
    then have 1: "2 powi (blen \<lfloor>x\<rfloor> - 1) \<le> x" using b powi_nat_eq [of "blen \<lfloor>x\<rfloor> - 1"] by linarith
    have "of_int (\<lfloor>x\<rfloor> + 1) \<le> (of_int (2 ^ nat (blen \<lfloor>x\<rfloor>)) :: rat)"
      using b by (simp only: of_int_le_iff) linarith
    then have 2: "x < 2 powi (blen \<lfloor>x\<rfloor>)" using powi_nat_eq [OF blen_nonneg] by (simp only:) linarith
    show ?thesis using 1 2 True by (simp add: ilog2_def)
  next
    case False
    define m where "m = \<lceil>1 / x\<rceil> - 1"
    have gt: "1 < 1 / x" using False assms by (simp add: field_simps)
    then have n: "0 < m" by (simp add: m_def less_ceiling_iff)
    note b = blen_bounds [OF n]
    have lo: "of_int m < 1 / x" and hi: "1 / x \<le> of_int (m + 1)"
      by (simp_all add: m_def) linarith+
    have "(of_int (2 ^ nat (blen m - 1)) :: rat) \<le> of_int m" using b by (simp only: of_int_le_iff)
    with lo have 1: "2 powi (blen m - 1) < 1 / x"
      using b powi_nat_eq [of "blen m - 1"] by linarith
    have "of_int (m + 1) \<le> (of_int (2 ^ nat (blen m)) :: rat)"
      using b by (simp only: of_int_le_iff) linarith
    with hi have 2: "1 / x \<le> 2 powi (blen m)"
      using powi_nat_eq [OF blen_nonneg, of m] by linarith
    have e: "ilog2 x = - blen m" using False by (simp add: ilog2_def m_def)
    have "2 powi ilog2 x \<le> x" using 2 assms by (simp add: e powi_minus_eq field_simps)
    moreover have "x < 2 powi (- (blen m - 1))"
      using 1 assms unfolding powi_minus_eq by (simp add: field_simps)
    ultimately show ?thesis by (simp add: e)
  qed
  then show "2 powi ilog2 x \<le> x" and "x < 2 powi (ilog2 x + 1)" by auto
qed

lemma powi_mono: "a \<le> b \<Longrightarrow> (2::rat) powi a \<le> 2 powi b"
  by (rule power_int_increasing) auto

lemma powi_less_cancel: "(2::rat) powi a < 2 powi b \<Longrightarrow> a < b"
  by (meson leD not_less powi_mono)

lemma ilog2_unique: "2 powi k \<le> x \<Longrightarrow> x < 2 powi (k + 1) \<Longrightarrow> ilog2 x = k"
proof -
  assume a: "2 powi k \<le> x" and b: "x < 2 powi (k + 1)"
  have p: "0 < x" using a powi_pos [of k] by linarith
  note i = ilog2_bounds [OF p]
  have "k < ilog2 x + 1" using a i(2) by (intro powi_less_cancel) linarith
  moreover have "ilog2 x < k + 1" using i(1) b by (intro powi_less_cancel) linarith
  ultimately show ?thesis by linarith
qed

lemma ilog2_mono: "0 < x \<Longrightarrow> x \<le> y \<Longrightarrow> ilog2 x \<le> ilog2 y"
proof -
  assume x: "0 < x" and le: "x \<le> y"
  then have y: "0 < y" by linarith
  have "ilog2 x < ilog2 y + 1"
    using ilog2_bounds(1) [OF x] ilog2_bounds(2) [OF y] le by (intro powi_less_cancel) linarith
  then show ?thesis by linarith
qed

section \<open>Rounding to an integer, ties to even\<close>

definition round_even :: "rat \<Rightarrow> int" where
  "round_even x =
     (let f = \<lfloor>x\<rfloor>; d = x - of_int f
      in if d < 1 / 2 then f else if 1 / 2 < d then f + 1 else if even f then f else f + 1)"

lemma round_even_add:
  assumes "0 \<le> d" and "d < 1"
  shows "round_even (of_int f + d) =
    (if d < 1 / 2 then f else if 1 / 2 < d then f + 1 else if even f then f else f + 1)"
proof -
  have "\<lfloor>of_int f + d\<rfloor> = f" using assms by (intro floor_unique) auto
  then show ?thesis by (simp add: round_even_def)
qed

lemma floor_split: obtains f d where "x = of_int f + d" and "0 \<le> d" and "d < (1::rat)"
proof
  show "x = of_int \<lfloor>x\<rfloor> + (x - of_int \<lfloor>x\<rfloor>)" by simp
  show "0 \<le> x - of_int \<lfloor>x\<rfloor>" by simp
  show "x - of_int \<lfloor>x\<rfloor> < 1" by linarith
qed

lemma round_even_error: "\<bar>of_int (round_even x) - x\<bar> \<le> 1 / 2"
proof -
  obtain f d where "x = of_int f + d" "0 \<le> d" "d < 1" by (rule floor_split)
  then show ?thesis by (auto simp: round_even_add abs_if)
qed

lemma round_even_of_int [simp]: "round_even (of_int n) = n"
  by (simp add: round_even_def)

lemma round_even_unique: "\<bar>of_int n - x\<bar> < 1 / 2 \<Longrightarrow> round_even x = n"
proof -
  assume h: "\<bar>of_int n - x\<bar> < 1 / 2"
  have "\<bar>(of_int (round_even x) :: rat) - of_int n\<bar> < 1"
    using round_even_error [of x] h by linarith
  then have "\<bar>round_even x - n\<bar> < 1" by (metis of_int_abs of_int_diff of_int_less_1_iff)
  then show ?thesis by linarith
qed

lemma round_even_mono: "x \<le> y \<Longrightarrow> round_even x \<le> round_even y"
proof (rule ccontr)
  assume le: "x \<le> y" and "\<not> round_even x \<le> round_even y"
  then have "round_even y + 1 \<le> round_even x" by linarith
  then have g: "(of_int (round_even y) :: rat) + 1 \<le> of_int (round_even x)"
    by (metis of_int_1 of_int_add of_int_le_iff)
  have "of_int (round_even x) \<le> x + 1 / 2" "y - 1 / 2 \<le> of_int (round_even y)"
    using round_even_error [of x] round_even_error [of y] by linarith+
  then have xy: "x = y" using g le by linarith
  then show False using g by simp
qed

lemma round_even_minus: "round_even (- x) = - round_even x"
proof -
  obtain f d where d: "x = of_int f + d" "0 \<le> d" "d < 1" by (rule floor_split)
  show ?thesis
  proof (cases "d = 0")
    case True
    then have "x = of_int f" using d by simp
    then show ?thesis by (metis of_int_minus round_even_of_int)
  next
    case False
    have "- x = of_int (- f - 1) + (1 - d)" using d by simp
    then have "round_even (- x) = (if 1 - d < 1 / 2 then - f - 1
      else if 1 / 2 < 1 - d then - f - 1 + 1
      else if even (- f - 1) then - f - 1 else - f - 1 + 1)"
      using d False by (simp only: round_even_add)
    then show ?thesis using d by (auto simp: round_even_add)
  qed
qed

section \<open>Rounding to binary64\<close>

definition ulp_exp :: "rat \<Rightarrow> int" where
  "ulp_exp x = max (ilog2 \<bar>x\<bar> - 52) (- 1074)"

definition rnd :: "rat \<Rightarrow> rat" where
  "rnd x = (if x = 0 then 0
     else of_int (round_even (x / 2 powi ulp_exp x)) * 2 powi ulp_exp x)"

definition representable :: "rat \<Rightarrow> bool" where
  "representable x \<longleftrightarrow> (\<exists>m e. x = of_int m * 2 powi e \<and> \<bar>m\<bar> \<le> 2 ^ 53 \<and> - 1074 \<le> e)"

lemma rnd_zero [simp]: "rnd 0 = 0"
  by (simp add: rnd_def)

lemma rnd_minus: "rnd (- x) = - rnd x"
  by (simp add: rnd_def ulp_exp_def round_even_minus)

lemma rnd_error: "\<bar>rnd x - x\<bar> \<le> 2 powi (ulp_exp x - 1)"
proof (cases "x = 0")
  case False
  define u :: rat where "u = 2 powi ulp_exp x"
  have u: "0 < u" by (simp add: u_def)
  have "rnd x - x = (of_int (round_even (x / u)) - x / u) * u"
    using False u by (simp add: rnd_def u_def [symmetric] field_simps)
  then have "\<bar>rnd x - x\<bar> = \<bar>of_int (round_even (x / u)) - x / u\<bar> * u"
    using u by (simp add: abs_mult)
  also have "\<dots> \<le> 1 / 2 * u" using round_even_error [of "x / u"] u by (intro mult_right_mono) auto
  finally show ?thesis by (simp add: u_def powi_minus_one)
qed simp

lemma rnd_rel_error:
  assumes "2 powi (- 1022) \<le> \<bar>x\<bar>"
  shows "\<bar>rnd x - x\<bar> \<le> \<bar>x\<bar> / 2 ^ 53"
proof -
  have p: "0 < \<bar>x\<bar>" using assms powi_pos [of "- 1022"] by linarith
  have "- 1022 < ilog2 \<bar>x\<bar> + 1"
    using assms ilog2_bounds(2) [OF p] by (intro powi_less_cancel) linarith
  then have e: "ulp_exp x = ilog2 \<bar>x\<bar> - 52" by (simp add: ulp_exp_def)
  have "(2::rat) powi (ulp_exp x - 1) = 2 powi ilog2 \<bar>x\<bar> / 2 powi 53"
    by (simp add: e power_int_diff)
  also have "\<dots> \<le> \<bar>x\<bar> / 2 powi 53"
    using ilog2_bounds(1) [OF p] by (intro divide_right_mono) auto
  also have "(2::rat) powi 53 = 2 ^ 53" by (simp add: power_int_def)
  finally show ?thesis using rnd_error [of x] by linarith
qed

lemma rnd_eq_self_if_int:
  assumes "x / 2 powi ulp_exp x = of_int m"
  shows "rnd x = x"
proof -
  have "of_int m * 2 powi ulp_exp x = x" using assms by (simp add: field_simps)
  then show ?thesis using assms by (simp add: rnd_def)
qed

lemma rnd_representable:
  assumes "representable x"
  shows "rnd x = x"
proof (cases "x = 0")
  case False
  from assms obtain m e where x: "x = of_int m * 2 powi e" "\<bar>m\<bar> \<le> 2 ^ 53" "- 1074 \<le> e"
    by (auto simp: representable_def)
  have "\<exists>m e. x = of_int m * 2 powi e \<and> \<bar>m\<bar> < 2 ^ 53 \<and> - 1074 \<le> e"
  proof (cases "\<bar>m\<bar> = 2 ^ 53")
    case True
    then have "m = 2 * (sgn m * 2 ^ 52)" by (auto simp: sgn_if abs_if split: if_splits)
    then have "(of_int m :: rat) = 2 * of_int (sgn m * 2 ^ 52)"
      by (metis of_int_mult of_int_numeral)
    then have "x = of_int (sgn m * 2 ^ 52) * 2 powi (e + 1)"
      unfolding x(1) powi_plus_one by simp
    moreover have "\<bar>sgn m * 2 ^ 52\<bar> < (2::int) ^ 53" by (simp add: sgn_if)
    ultimately show ?thesis using x(3) by (intro exI [of _ "sgn m * 2 ^ 52"] exI [of _ "e + 1"]) auto
  next
    case False
    then show ?thesis using x by (intro exI [of _ m] exI [of _ e]) auto
  qed
  then obtain m e where x: "x = of_int m * 2 powi e" "\<bar>m\<bar> < 2 ^ 53" "- 1074 \<le> e" by blast
  have "(of_int \<bar>m\<bar> :: rat) < of_int (2 ^ 53)" using x(2) by (simp only: of_int_less_iff)
  then have "\<bar>x\<bar> < 2 ^ 53 * 2 powi e" by (simp add: x(1) abs_mult)
  then have "\<bar>x\<bar> < 2 powi (53 + e)" by (simp add: power_int_add)
  moreover have "0 < \<bar>x\<bar>" using \<open>x \<noteq> 0\<close> by simp
  ultimately have "ilog2 \<bar>x\<bar> < 53 + e"
    using ilog2_bounds(1) [of "\<bar>x\<bar>"] by (intro powi_less_cancel) linarith
  then have le: "ulp_exp x \<le> e" using x(3) by (simp add: ulp_exp_def)
  have "x / 2 powi ulp_exp x = of_int m * 2 powi (e - ulp_exp x)"
    by (simp add: x(1) power_int_diff)
  also have "\<dots> = of_int (m * 2 ^ nat (e - ulp_exp x))" using le by (simp add: powi_nat_eq)
  finally show ?thesis by (rule rnd_eq_self_if_int)
qed simp

lemma representable_rnd: "representable (rnd x)"
proof (cases "x = 0")
  case True
  then show ?thesis by (auto simp: representable_def intro!: exI [of _ 0])
next
  case False
  define q where "q = x / 2 powi ulp_exp x"
  have "0 < \<bar>x\<bar>" using False by simp
  then have "\<bar>x\<bar> < 2 powi (ilog2 \<bar>x\<bar> + 1)" by (rule ilog2_bounds)
  also have "\<dots> \<le> 2 powi (53 + ulp_exp x)" by (rule powi_mono) (simp add: ulp_exp_def)
  finally have "\<bar>q\<bar> < 2 ^ 53" by (simp add: q_def power_int_add field_simps)
  then have "q \<le> of_int (2 ^ 53)" "of_int (- (2 ^ 53)) \<le> q" by auto
  then have "round_even q \<le> 2 ^ 53" "- (2 ^ 53) \<le> round_even q"
    using round_even_mono round_even_of_int by metis+
  then have "\<bar>round_even q\<bar> \<le> 2 ^ 53" by linarith
  moreover have "rnd x = of_int (round_even q) * 2 powi ulp_exp x"
    using False by (simp add: rnd_def q_def)
  moreover have "- 1074 \<le> ulp_exp x" by (simp add: ulp_exp_def)
  ultimately show ?thesis by (auto simp: representable_def)
qed

lemma representable_of_int: "\<bar>n\<bar> \<le> 2 ^ 53 \<Longrightarrow> representable (of_int n)"
  unfolding representable_def by (rule exI [of _ n], rule exI [of _ 0]) simp

lemma powi_split: "a \<le> b \<Longrightarrow> (2::rat) powi b = of_int (2 ^ nat (b - a)) * 2 powi a"
proof -
  assume "a \<le> b"
  then have "of_int (2 ^ nat (b - a)) * (2::rat) powi a = 2 powi (b - a) * 2 powi a"
    by (simp only: powi_nat_eq)
  also have "\<dots> = 2 powi b" by (simp add: power_int_diff)
  finally show ?thesis by simp
qed

lemma rnd_le_powi:
  assumes "0 < x" and "x \<le> 2 powi p" and "ulp_exp x \<le> p"
  shows "rnd x \<le> 2 powi p"
proof -
  define u :: rat where "u = 2 powi ulp_exp x"
  have P: "2 powi p = of_int (2 ^ nat (p - ulp_exp x)) * u"
    using assms(3) unfolding u_def by (rule powi_split)
  have "x / u \<le> of_int (2 ^ nat (p - ulp_exp x))" using assms(2) P by (simp add: u_def field_simps)
  then have "round_even (x / u) \<le> 2 ^ nat (p - ulp_exp x)"
    using round_even_mono round_even_of_int by metis
  then have "of_int (round_even (x / u)) * u \<le> of_int (2 ^ nat (p - ulp_exp x)) * u"
    by (intro mult_right_mono) (simp_all only: of_int_le_iff, simp add: u_def)
  then show ?thesis using assms(1) P by (simp add: rnd_def u_def)
qed

lemma powi_le_rnd:
  assumes "2 powi p \<le> y" and "ulp_exp y \<le> p"
  shows "2 powi p \<le> rnd y"
proof -
  define u :: rat where "u = 2 powi ulp_exp y"
  have y: "0 < y" using assms(1) powi_pos [of p] by linarith
  have P: "2 powi p = of_int (2 ^ nat (p - ulp_exp y)) * u"
    using assms(2) unfolding u_def by (rule powi_split)
  have "of_int (2 ^ nat (p - ulp_exp y)) \<le> y / u" using assms(1) P by (simp add: u_def field_simps)
  then have "2 ^ nat (p - ulp_exp y) \<le> round_even (y / u)"
    using round_even_mono round_even_of_int by metis
  then have "of_int (2 ^ nat (p - ulp_exp y)) * u \<le> of_int (round_even (y / u)) * u"
    by (intro mult_right_mono) (simp_all only: of_int_le_iff, simp add: u_def)
  then show ?thesis using y P by (simp add: rnd_def u_def)
qed

lemma rnd_mono_pos:
  assumes "0 < x" and "x \<le> y"
  shows "rnd x \<le> rnd y"
proof (cases "ulp_exp x = ulp_exp y")
  case True
  have "round_even (x / 2 powi ulp_exp x) \<le> round_even (y / 2 powi ulp_exp x)"
    using assms(2) by (intro round_even_mono divide_right_mono) auto
  then show ?thesis using assms True by (simp add: rnd_def)
next
  case False
  have ab: "\<bar>x\<bar> = x" "\<bar>y\<bar> = y" using assms by auto
  have "ilog2 x \<le> ilog2 y" using assms by (rule ilog2_mono)
  then have lt: "ulp_exp x < ulp_exp y" and ey: "ulp_exp y = ilog2 y - 52"
    using False by (auto simp: ulp_exp_def ab max_def split: if_splits)
  then have lx: "ilog2 x + 1 \<le> ilog2 y" by (auto simp: ulp_exp_def ab)
  have "x < 2 powi (ilog2 x + 1)" using assms(1) by (rule ilog2_bounds)
  also have "\<dots> \<le> 2 powi ilog2 y" using lx by (rule powi_mono)
  finally have "rnd x \<le> 2 powi ilog2 y" using assms(1) lt ey by (intro rnd_le_powi) auto
  also have "\<dots> \<le> rnd y" using ilog2_bounds(1) [of y] assms ey by (intro powi_le_rnd) auto
  finally show ?thesis .
qed

lemma rnd_nonneg: "0 \<le> x \<Longrightarrow> 0 \<le> rnd x"
proof -
  assume "0 \<le> x"
  then have "round_even (of_int 0) \<le> round_even (x / 2 powi ulp_exp x)"
    by (intro round_even_mono) simp
  then have "0 \<le> round_even (x / 2 powi ulp_exp x)" by (simp only: round_even_of_int)
  then show ?thesis by (simp add: rnd_def)
qed

lemma rnd_mono:
  assumes "x \<le> y"
  shows "rnd x \<le> rnd y"
proof -
  consider "0 < x" | "x \<le> 0" "0 \<le> y" | "y < 0" using assms by linarith
  then show ?thesis
  proof cases
    case 1
    then show ?thesis using assms by (rule rnd_mono_pos)
  next
    case 2
    then have "0 \<le> rnd (- x)" "0 \<le> rnd y" by (auto intro: rnd_nonneg)
    then show ?thesis by (simp add: rnd_minus)
  next
    case 3
    then have "rnd (- y) \<le> rnd (- x)" using assms by (intro rnd_mono_pos) auto
    then show ?thesis by (simp add: rnd_minus)
  qed
qed

lemma rnd_eqI:
  assumes "x \<noteq> 0" "a = of_int q * 2 powi ulp_exp x" "\<bar>x - a\<bar> < 2 powi ulp_exp x / 2"
  shows "rnd x = a"
proof -
  define u :: rat where "u = 2 powi ulp_exp x"
  have u: "0 < u" by (simp add: u_def)
  have "x / u - of_int q = (x - a) / u" using u by (simp add: assms(2) u_def [symmetric] field_simps)
  then have "\<bar>of_int q - x / u\<bar> = \<bar>(x - a) / u\<bar>" by linarith
  also have "\<dots> = \<bar>x - a\<bar> / u" using u by (simp add: abs_divide)
  also have "\<dots> < 1 / 2" using assms(3) u by (simp add: u_def [symmetric] field_simps)
  finally have "round_even (x / u) = q" by (rule round_even_unique)
  then show ?thesis using assms(1,2) by (simp add: rnd_def u_def)
qed

lemma grid_gap:
  assumes "a = of_int j * u" "b = of_int k * u" "0 < (u::rat)" "a < b"
  shows "u \<le> b - a"
proof -
  have "j < k" using assms by simp
  then have "(of_int (j + 1) :: rat) \<le> of_int k" by (simp only: of_int_le_iff)
  then have "(of_int j + 1) * u \<le> of_int k * u" using assms(3) by (intro mult_right_mono) auto
  then show ?thesis by (simp add: assms(1,2) field_simps)
qed

text \<open>A number that is closer to a representable one than its relative distance \<open>2 ^ -54\<close> rounds to it.\<close>

lemma rnd_near:
  assumes "representable a" "0 < a" "\<bar>x - a\<bar> < a / 2 ^ 54"
  shows "rnd x = a"
proof -
  define m where "m = ilog2 a"
  define u :: rat where "u = 2 powi ulp_exp a"
  define j where "j = round_even (a / u)"
  have u: "0 < u" by (simp add: u_def)
  have a: "a = of_int j * u" using rnd_representable [OF assms(1)] assms(2) by (simp add: rnd_def j_def u_def)
  have j: "1 \<le> j"
  proof (rule ccontr)
    assume "\<not> 1 \<le> j"
    then have "of_int j * u \<le> 0" using u by (intro mult_nonpos_nonneg) auto
    then show False using a assms(2) by linarith
  qed
  have b: "2 powi m \<le> a" "a < 2 powi (m + 1)" using ilog2_bounds [OF assms(2)] by (simp_all add: m_def)
  have "1 * u \<le> of_int j * u" using j u by (intro mult_right_mono) auto
  then have "u \<le> a" using a by linarith
  then have "ulp_exp a < m + 1" using b(2) unfolding u_def by (intro powi_less_cancel) linarith
  then have em: "ulp_exp a \<le> m" "m - 52 \<le> ulp_exp a" using assms(2) by (auto simp: ulp_exp_def m_def)
  have d: "a / 2 ^ 54 < u / 2"
  proof -
    have "a / 2 ^ 54 < 2 powi (m - 52 - 1)" using b(2) by (simp add: power_int_diff power_int_add)
    also have "\<dots> \<le> 2 powi (ulp_exp a - 1)" by (rule powi_mono) (use em in simp)
    finally show ?thesis by (simp add: u_def powi_minus_one)
  qed
  have "a / 2 ^ 54 \<le> a / 2" using assms(2) by (simp add: field_simps)
  then have x: "a / 2 < x" using assms(3) by linarith
  then have xp: "0 < x" using assms(2) by linarith
  note bx = ilog2_bounds [OF xp]
  have grid: "\<exists>k. 2 powi p = of_int k * (2::rat) powi e" if "e \<le> p" for p e using powi_split [OF that] by blast
  consider "ilog2 x = m" | "m < ilog2 x" | "ilog2 x < m" by linarith
  then show ?thesis
  proof cases
    case 1
    then have e: "2 powi ulp_exp x = u" using xp assms(2) by (simp add: ulp_exp_def m_def u_def)
    show ?thesis by (rule rnd_eqI [of x a j]) (use xp a assms(3) d in \<open>unfold e, linarith+\<close>)
  next
    case 2
    obtain k where k: "2 powi (m + 1) = of_int k * u" using grid [of "ulp_exp a" "m + 1"] em unfolding u_def by auto
    have "u \<le> 2 powi (m + 1) - a" by (rule grid_gap [OF a k u b(2)])
    moreover have "2 powi (m + 1) \<le> x" using powi_mono [of "m + 1" "ilog2 x"] 2 bx(1) by linarith
    ultimately show ?thesis using assms(3) d u by linarith
  next
    case 3
    obtain k where k: "2 powi m = of_int k * u" using grid [OF em(1)] unfolding u_def by auto
    have lt: "x < 2 powi m" using powi_mono [of "ilog2 x + 1" m] 3 bx(2) by linarith
    have am: "a = 2 powi m"
    proof (rule ccontr)
      assume "a \<noteq> 2 powi m"
      then have "u \<le> a - 2 powi m" using grid_gap [OF k a u] b(1) by linarith
      then show False using assms(3) d u lt by linarith
    qed
    have "(2::rat) powi (m - 1) < 2 powi (ilog2 x + 1)" using x bx(2) by (simp add: am powi_minus_one)
    then have "m - 1 < ilog2 x + 1" by (rule powi_less_cancel)
    then have i: "ilog2 x = m - 1" using 3 by linarith
    then have e: "ulp_exp x = max (m - 53) (- 1074)" using xp by (simp add: ulp_exp_def)
    have "- 1074 \<le> ulp_exp a" by (simp add: ulp_exp_def)
    then have "ulp_exp x \<le> m" using em(1) unfolding e by linarith
    then obtain q where q: "2 powi m = of_int q * (2::rat) powi ulp_exp x" using grid by blast
    have "(2::rat) powi (m - 53 - 1) \<le> 2 powi (ulp_exp x - 1)" by (rule powi_mono) (simp add: e)
    moreover have "a / 2 ^ 54 = 2 powi (m - 53 - 1)" by (simp add: am power_int_diff)
    ultimately have "\<bar>x - a\<bar> < 2 powi ulp_exp x / 2" using assms(3) by (simp add: powi_minus_one)
    moreover have "a = of_int q * 2 powi ulp_exp x" using q am by linarith
    ultimately show ?thesis using xp by (intro rnd_eqI) auto
  qed
qed

section \<open>The laws of rounding as an interface\<close>

locale rounding =
  fixes round_to :: "rat \<Rightarrow> rat" and fits :: "rat \<Rightarrow> bool"
  assumes mono: "x \<le> y \<Longrightarrow> round_to x \<le> round_to y"
    and fits_fixed: "fits x \<Longrightarrow> round_to x = x"
    and fits_result: "fits (round_to x)"
    and odd: "round_to (- x) = - round_to x"
    and rel_error: "2 powi (- 1022) \<le> \<bar>x\<bar> \<Longrightarrow> \<bar>round_to x - x\<bar> \<le> \<bar>x\<bar> / 2 ^ 53"
begin

lemma idem: "round_to (round_to x) = round_to x"
  by (simp add: fits_fixed fits_result)

lemma zero: "round_to 0 = 0"
  using odd [of 0] by simp

lemma upper: "x \<le> r \<Longrightarrow> fits r \<Longrightarrow> round_to x \<le> r"
  using mono [of x r] fits_fixed [of r] by simp

lemma lower: "r \<le> x \<Longrightarrow> fits r \<Longrightarrow> r \<le> round_to x"
  using mono [of r x] fits_fixed [of r] by simp

lemma nonneg: "0 \<le> x \<Longrightarrow> 0 \<le> round_to x"
  using mono [of 0 x] zero by simp

lemma nonpos: "x \<le> 0 \<Longrightarrow> round_to x \<le> 0"
  using mono [of x 0] zero by simp

lemma two_step_error:
  assumes "2 powi (- 1022) \<le> \<bar>x\<bar>" and "2 powi (- 1022) \<le> \<bar>round_to x * c\<bar>" and "0 < c"
  shows "\<bar>round_to (round_to x * c) - x * c\<bar> \<le> \<bar>x * c\<bar> * (1 / 2 ^ 52 + 1 / 2 ^ 106)"
proof -
  define t where "t = round_to x"
  have 1: "\<bar>t - x\<bar> \<le> \<bar>x\<bar> / 2 ^ 53" unfolding t_def by (rule rel_error [OF assms(1)])
  have 2: "\<bar>round_to (t * c) - t * c\<bar> \<le> \<bar>t * c\<bar> / 2 ^ 53"
    unfolding t_def by (rule rel_error [OF assms(2)])
  have ac: "\<bar>a * c\<bar> = \<bar>a\<bar> * c" for a using assms(3) by (simp add: abs_mult)
  have "t * c - x * c = (t - x) * c" by (simp add: algebra_simps)
  then have "\<bar>t * c - x * c\<bar> = \<bar>t - x\<bar> * c" by (simp only: ac)
  also have "\<dots> \<le> \<bar>x\<bar> / 2 ^ 53 * c" using 1 assms(3) by (intro mult_right_mono) auto
  finally have tc: "\<bar>t * c - x * c\<bar> \<le> \<bar>x * c\<bar> / 2 ^ 53" by (simp add: ac)
  then have "\<bar>t * c\<bar> \<le> \<bar>x * c\<bar> + \<bar>x * c\<bar> / 2 ^ 53" by linarith
  then have "\<bar>t * c\<bar> / 2 ^ 53 \<le> (\<bar>x * c\<bar> + \<bar>x * c\<bar> / 2 ^ 53) / 2 ^ 53"
    by (rule divide_right_mono) simp
  with 2 have "\<bar>round_to (t * c) - t * c\<bar> \<le> (\<bar>x * c\<bar> + \<bar>x * c\<bar> / 2 ^ 53) / 2 ^ 53"
    by (rule order_trans)
  then have "\<bar>round_to (t * c) - x * c\<bar> \<le> (\<bar>x * c\<bar> + \<bar>x * c\<bar> / 2 ^ 53) / 2 ^ 53 + \<bar>x * c\<bar> / 2 ^ 53"
    using tc by linarith
  then show ?thesis by (simp add: t_def field_simps)
qed

end

interpretation b64: rounding rnd representable
  by unfold_locales
    (fact rnd_mono rnd_representable representable_rnd rnd_minus rnd_rel_error)+

section \<open>Python floats\<close>

datatype pyfloat = Fin rat | PInf | NInf | NaN

definition to_float :: "rat \<Rightarrow> pyfloat" where
  "to_float x = (let r = rnd x in if 2 ^ 1024 \<le> r then PInf else if r \<le> - (2 ^ 1024) then NInf else Fin r)"

fun fneg :: "pyfloat \<Rightarrow> pyfloat" where
  "fneg (Fin a) = Fin (- a)"
| "fneg PInf = NInf"
| "fneg NInf = PInf"
| "fneg NaN = NaN"

fun fadd :: "pyfloat \<Rightarrow> pyfloat \<Rightarrow> pyfloat" where
  "fadd NaN b = NaN"
| "fadd a NaN = NaN"
| "fadd PInf NInf = NaN"
| "fadd NInf PInf = NaN"
| "fadd PInf b = PInf"
| "fadd NInf b = NInf"
| "fadd a PInf = PInf"
| "fadd a NInf = NInf"
| "fadd (Fin a) (Fin b) = to_float (a + b)"

definition fsub :: "pyfloat \<Rightarrow> pyfloat \<Rightarrow> pyfloat" where
  "fsub a b = fadd a (fneg b)"

fun fsign :: "pyfloat \<Rightarrow> rat" where
  "fsign (Fin a) = sgn a"
| "fsign PInf = 1"
| "fsign NInf = - 1"
| "fsign NaN = 0"

definition finf :: "rat \<Rightarrow> pyfloat" where
  "finf s = (if s = 0 then NaN else if 0 < s then PInf else NInf)"

fun fmul :: "pyfloat \<Rightarrow> pyfloat \<Rightarrow> pyfloat" where
  "fmul NaN b = NaN"
| "fmul a NaN = NaN"
| "fmul (Fin a) (Fin b) = to_float (a * b)"
| "fmul a b = finf (fsign a * fsign b)"

text \<open>Float division raises on a zero divisor; infinities divide as IEEE says.\<close>

fun fdiv :: "pyfloat \<Rightarrow> pyfloat \<Rightarrow> pyfloat res" where
  "fdiv NaN (Fin b) = (if b = 0 then Inl (ZeroDivisionError ''float division by zero'') else Inr NaN)"
| "fdiv NaN b = Inr NaN"
| "fdiv a NaN = Inr NaN"
| "fdiv (Fin a) (Fin b) =
     (if b = 0 then Inl (ZeroDivisionError ''float division by zero'') else Inr (to_float (a / b)))"
| "fdiv (Fin a) b = Inr (Fin 0)"
| "fdiv a (Fin b) =
     (if b = 0 then Inl (ZeroDivisionError ''float division by zero'')
      else Inr (finf (fsign a * sgn b)))"
| "fdiv a b = Inr NaN"

fun flt :: "pyfloat \<Rightarrow> pyfloat \<Rightarrow> bool" where
  "flt NaN b = False"
| "flt a NaN = False"
| "flt (Fin a) (Fin b) = (a < b)"
| "flt NInf b = (b \<noteq> NInf)"
| "flt a PInf = (a \<noteq> PInf)"
| "flt PInf b = False"
| "flt a NInf = False"

definition feq :: "pyfloat \<Rightarrow> pyfloat \<Rightarrow> bool" where
  "feq a b \<longleftrightarrow> a = b \<and> a \<noteq> NaN"

definition fle :: "pyfloat \<Rightarrow> pyfloat \<Rightarrow> bool" where
  "fle a b \<longleftrightarrow> flt a b \<or> feq a b"

text \<open>
  \<^verbatim>\<open>float(n)\<close> and \<^verbatim>\<open>a / b\<close> on integers round the exact value and raise where it is out of range;
  \<^verbatim>\<open>int(x)\<close> truncates and \<^verbatim>\<open>round(x)\<close> goes to the nearest integer, ties to even; both raise
  on an infinity and on NaN.
\<close>

definition float_of_int :: "int \<Rightarrow> pyfloat res" where
  "float_of_int n = (case to_float (of_int n) of
       Fin a \<Rightarrow> Inr (Fin a) | _ \<Rightarrow> Inl (OverflowError ''int too large to convert to float''))"

definition int_truediv :: "int \<Rightarrow> int \<Rightarrow> pyfloat res" where
  "int_truediv a b =
     (if b = 0 then Inl (ZeroDivisionError ''division by zero'')
      else case to_float (of_int a / of_int b) of
       Fin r \<Rightarrow> Inr (Fin r)
     | _ \<Rightarrow> Inl (OverflowError ''integer division result too large for a float''))"

definition trunc :: "rat \<Rightarrow> int" where
  "trunc a = (if 0 \<le> a then \<lfloor>a\<rfloor> else \<lceil>a\<rceil>)"

fun int_of_float :: "pyfloat \<Rightarrow> int res" where
  "int_of_float (Fin a) = Inr (trunc a)"
| "int_of_float PInf = Inl (OverflowError ''cannot convert float infinity to integer'')"
| "int_of_float NInf = Inl (OverflowError ''cannot convert float infinity to integer'')"
| "int_of_float NaN = Inl (ValueError ''cannot convert float NaN to integer'')"

fun round_float :: "pyfloat \<Rightarrow> int res" where
  "round_float (Fin a) = Inr (round_even a)"
| "round_float PInf = Inl (OverflowError ''cannot convert float infinity to integer'')"
| "round_float NInf = Inl (OverflowError ''cannot convert float infinity to integer'')"
| "round_float NaN = Inl (ValueError ''cannot convert float NaN to integer'')"

text \<open>\<^verbatim>\<open>n * x\<close> with an integer and a float converts the integer first.\<close>

definition int_fmul :: "int \<Rightarrow> pyfloat \<Rightarrow> pyfloat res" where
  "int_fmul n x = res_bind (float_of_int n) (\<lambda>f. Inr (fmul f x))"

text \<open>Comparing an integer with a float is exact in Python.\<close>

fun int_flt :: "int \<Rightarrow> pyfloat \<Rightarrow> bool" where
  "int_flt n (Fin a) = (of_int n < a)"
| "int_flt n PInf = True"
| "int_flt n _ = False"

fun flt_int :: "pyfloat \<Rightarrow> int \<Rightarrow> bool" where
  "flt_int (Fin a) n = (a < of_int n)"
| "flt_int NInf n = True"
| "flt_int _ n = False"

section \<open>Facts the components use\<close>

lemma to_float_finite: "\<bar>x\<bar> \<le> 2 ^ 1023 \<Longrightarrow> to_float x = Fin (rnd x)"
proof -
  assume h: "\<bar>x\<bar> \<le> 2 ^ 1023"
  have rep: "representable (2 ^ 1023)"
    unfolding representable_def
    by (rule exI [of _ 1], rule exI [of _ 1023]) (simp add: power_int_def)
  have "rnd x \<le> 2 ^ 1023" using h rep by (intro b64.upper) auto
  moreover have "rnd (- x) \<le> 2 ^ 1023" using h rep by (intro b64.upper) auto
  ultimately have "rnd x \<le> 2 ^ 1023" "- (2 ^ 1023) \<le> rnd x" by (auto simp: rnd_minus)
  moreover have "(2::rat) ^ 1023 < 2 ^ 1024" by (rule power_strict_increasing) auto
  ultimately have "\<not> 2 ^ 1024 \<le> rnd x" "\<not> rnd x \<le> - (2 ^ 1024)" by linarith+
  then show ?thesis by (simp only: to_float_def Let_def if_False)
qed

lemma representable_scaled: "n \<le> 2 ^ 53 \<Longrightarrow> representable (of_nat n * 2 ^ p)"
  unfolding representable_def
  by (rule exI [of _ "int n"], rule exI [of _ "int p"])
    (auto simp: power_int_def)

lemma to_float_exact: "representable x \<Longrightarrow> \<bar>x\<bar> \<le> 2 ^ 1023 \<Longrightarrow> to_float x = Fin x"
  by (simp add: to_float_finite rnd_representable)

lemma to_float_bounded:
  assumes "\<bar>x\<bar> \<le> of_nat n * 2 ^ p" and "n \<le> 2 ^ 53" and "of_nat n * 2 ^ p \<le> (2::rat) ^ 1023"
  shows "to_float x = Fin (rnd x)" and "\<bar>rnd x\<bar> \<le> of_nat n * 2 ^ p"
proof -
  have "\<bar>x\<bar> \<le> 2 ^ 1023" using assms(1,3) by (rule order_trans)
  then show "to_float x = Fin (rnd x)" by (rule to_float_finite)
  have "rnd x \<le> of_nat n * 2 ^ p" "rnd (- x) \<le> of_nat n * 2 ^ p"
    using assms(1) representable_scaled [OF assms(2)] by (intro b64.upper; auto)+
  then show "\<bar>rnd x\<bar> \<le> of_nat n * 2 ^ p" by (auto simp: rnd_minus)
qed

lemma to_float_dyadic:
  assumes "x = of_int m / 2 ^ n" "\<bar>m\<bar> \<le> 2 ^ 53" "n \<le> 1074"
  shows "to_float x = Fin x"
proof (rule to_float_exact)
  show "representable x"
    unfolding representable_def using assms
    by (intro exI [of _ m] exI [of _ "- int n"]) (simp add: power_int_minus field_simps)
  have "\<bar>x\<bar> \<le> \<bar>of_int m\<bar> / 1" unfolding assms(1) by (simp add: divide_le_eq mult_le_cancel_left1)
  also have "\<dots> \<le> 2 ^ 53" using assms(2) by (metis div_by_1 of_int_abs of_int_le_numeral_power_cancel_iff)
  also have "(2::rat) ^ 53 \<le> 2 ^ 1023" by (rule power_increasing) auto
  finally show "\<bar>x\<bar> \<le> 2 ^ 1023" .
qed

lemma float_of_int_small:
  assumes "\<bar>n\<bar> \<le> 2 ^ 53"
  shows "float_of_int n = Inr (Fin (of_int n))"
proof -
  have "\<bar>of_int n :: rat\<bar> \<le> 2 ^ 53"
    using assms by (metis of_int_abs of_int_le_numeral_power_cancel_iff)
  also have "(2::rat) ^ 53 \<le> 2 ^ 1023" by (rule power_increasing) auto
  finally show ?thesis
    using assms by (simp add: float_of_int_def to_float_exact representable_of_int)
qed

lemma to_float_Fin: "to_float x = Fin r \<Longrightarrow> r = rnd x"
  by (auto simp: to_float_def Let_def split: if_splits)

lemma trunc_nonneg: "0 \<le> a \<Longrightarrow> 0 \<le> trunc a"
  by (simp add: trunc_def)

lemma trunc_mono: "a \<le> b \<Longrightarrow> trunc a \<le> trunc b"
  by (auto simp: trunc_def intro: floor_mono ceiling_mono) (meson ceiling_le_zero floor_le_iff
    dual_order.trans linorder_not_le order_less_imp_le zero_le_floor)

lemma trunc_le: "0 \<le> a \<Longrightarrow> of_int (trunc a) \<le> a"
  by (simp add: trunc_def)

lemma float_of_int_ok: "\<bar>n\<bar> \<le> 2 ^ 1000 \<Longrightarrow> \<exists>d. float_of_int n = Inr (Fin d) \<and> d = rnd (of_int n)"
proof -
  assume "\<bar>n\<bar> \<le> 2 ^ 1000"
  then have "\<bar>of_int n :: rat\<bar> \<le> 2 ^ 1000" by (metis of_int_abs of_int_le_numeral_power_cancel_iff)
  also have "(2::rat) ^ 1000 \<le> 2 ^ 1023" by (rule power_increasing) auto
  finally show ?thesis by (simp add: float_of_int_def to_float_finite)
qed

lemma trunc_abs: "\<bar>a\<bar> \<le> of_int k \<Longrightarrow> \<bar>trunc a\<bar> \<le> k"
  by (auto simp: trunc_def abs_le_iff floor_le_iff ceiling_le_iff minus_le_iff le_floor_iff le_ceiling_iff)

end
