(* ===== verification/Py_Text.thy ===== *)
theory Py_Text
  imports Py_Float
begin

text \<open>
  The part of Python's \<^verbatim>\<open>str\<close> the backend's messages and validators use: decimal rendering of
  integers, fixed-point rendering of floats, ASCII lower-casing, and \<^verbatim>\<open>bytes.fromhex\<close>. A string is
  its UTF-8 bytes.
\<close>

section \<open>Decimal rendering\<close>

function show_pos :: "int \<Rightarrow> string" where
  "show_pos n = (if n < 10 then [''0123456789'' ! nat n]
                 else show_pos (n div 10) @ [''0123456789'' ! nat (n mod 10)])"
  by pat_completeness auto
termination
  by (relation "measure nat") auto

declare show_pos.simps [simp del]

definition show_int :: "int \<Rightarrow> string" where
  "show_int n = (if n < 0 then ''-'' @ show_pos (- n) else show_pos n)"

text \<open>\<^verbatim>\<open>{n:,}\<close>: groups of three digits from the right.\<close>

function group3 :: "int \<Rightarrow> string" where
  "group3 n = (if n < 1000 then show_pos n
     else group3 (n div 1000) @ '','' @ drop 1 (show_pos (1000 + n mod 1000)))"
  by pat_completeness auto
termination
  by (relation "measure nat") auto

declare group3.simps [simp del]

text \<open>
  \<^verbatim>\<open>{x:.0f}\<close> and \<^verbatim>\<open>{x:,.2f}\<close>: the exact binary value rounded to the decimal place, ties to even.
\<close>

fun fmt_f0 :: "pyfloat \<Rightarrow> string" where
  "fmt_f0 (Fin a) = (if a < 0 then ''-'' else []) @ show_pos (round_even \<bar>a\<bar>)"
| "fmt_f0 PInf = ''inf''"
| "fmt_f0 NInf = ''-inf''"
| "fmt_f0 NaN = ''nan''"

fun fmt_comma_f2 :: "pyfloat \<Rightarrow> string" where
  "fmt_comma_f2 (Fin a) = (let c = round_even (\<bar>a\<bar> * 100)
     in (if a < 0 then ''-'' else []) @ group3 (c div 100) @ ''.'' @ drop 1 (show_pos (100 + c mod 100)))"
| "fmt_comma_f2 PInf = ''inf''"
| "fmt_comma_f2 NInf = ''-inf''"
| "fmt_comma_f2 NaN = ''nan''"

text \<open>\<^verbatim>\<open>{x:.0%}\<close> multiplies by 100 in floating point first.\<close>

definition fmt_percent0 :: "pyfloat \<Rightarrow> string" where
  "fmt_percent0 x = fmt_f0 (fmul x (Fin 100)) @ ''%''"

section \<open>Case folding\<close>

definition lower_char :: "char \<Rightarrow> char" where
  "lower_char c = (let n = (of_char c :: nat) in if 65 \<le> n \<and> n \<le> 90 then char_of (n + 32) else c)"

definition upper_char :: "char \<Rightarrow> char" where
  "upper_char c = (let n = (of_char c :: nat) in if 97 \<le> n \<and> n \<le> 122 then char_of (n - 32) else c)"

definition str_lower :: "string \<Rightarrow> string" where
  "str_lower s = map lower_char s"

definition str_upper :: "string \<Rightarrow> string" where
  "str_upper s = map upper_char s"

lemma lower_char_idem: "lower_char (lower_char c) = lower_char c"
  by (auto simp: lower_char_def Let_def)

lemma str_lower_idem: "str_lower (str_lower s) = str_lower s"
  by (simp add: str_lower_def lower_char_idem)

section \<open>Hexadecimal\<close>

definition hex_digit :: "char \<Rightarrow> nat option" where
  "hex_digit c = (let n = (of_char c :: nat) in
     if 48 \<le> n \<and> n \<le> 57 then Some (n - 48)
     else if 97 \<le> n \<and> n \<le> 102 then Some (n - 87)
     else if 65 \<le> n \<and> n \<le> 70 then Some (n - 55)
     else None)"

definition is_space :: "char \<Rightarrow> bool" where
  "is_space c = (let n = (of_char c :: nat) in n = 32 \<or> (9 \<le> n \<and> n \<le> 13))"

text \<open>
  \<^verbatim>\<open>bytes.fromhex\<close> skips white space between bytes and wants two digits side by side; it raises
  \<^verbatim>\<open>ValueError\<close> otherwise.
\<close>

fun bytes_fromhex :: "string \<Rightarrow> nat list res" where
  "bytes_fromhex [] = Inr []"
| "bytes_fromhex (c # cs) =
     (if is_space c then bytes_fromhex cs
      else case cs of
        [] \<Rightarrow> Inl (ValueError ''non-hexadecimal number found in fromhex() arg'')
      | d # ds \<Rightarrow>
         (case (hex_digit c, hex_digit d) of
            (Some a, Some b) \<Rightarrow> res_bind (bytes_fromhex ds) (\<lambda>bs. Inr ((16 * a + b) # bs))
          | _ \<Rightarrow> Inl (ValueError ''non-hexadecimal number found in fromhex() arg'')))"

lemma hex_digit_bound: "hex_digit c = Some a \<Longrightarrow> a < 16"
  by (auto simp: hex_digit_def Let_def split: if_splits)

lemma bytes_fromhex_bytes: "bytes_fromhex s = Inr bs \<Longrightarrow> \<forall>b \<in> set bs. b < 256"
proof (induction s arbitrary: bs rule: bytes_fromhex.induct)
  case (2 c cs)
  then show ?case
    by (fastforce simp: res_bind_Inr_iff dest: hex_digit_bound
        split: if_splits list.splits option.splits)
qed simp

lemma bytes_fromhex_length: "bytes_fromhex s = Inr bs \<Longrightarrow> 2 * length bs \<le> length s"
proof (induction s arbitrary: bs rule: bytes_fromhex.induct)
  case (2 c cs)
  then show ?case
    by (fastforce simp: res_bind_Inr_iff split: if_splits list.splits option.splits)
qed simp

end
