(* ===== verification/Arbitrum_Config.thy ===== *)
theory Arbitrum_Config
  imports Py_Text
begin

text \<open>
  \<^verbatim>\<open>app/config/arbitrum.py\<close>: the scaling and economic constants, the token address book and the
  Uniswap fee tiers. \<^verbatim>\<open>to_checksum_address\<close> of the \<^verbatim>\<open>eth_utils\<close> package is the parameter \<open>checksum\<close>
  wherever code calls it at run time. The address literals are written in their checksummed form,
  which the module's own calls leave as they are.
\<close>

section \<open>Scales and economic constants\<close>

definition WAD :: int where "WAD = 10 ^ 18"

definition BPS :: int where "BPS = 10 ^ 4"

definition BPS_TO_WAD :: int where "BPS_TO_WAD = 10 ^ 14"

definition AAVE_BASE_CURRENCY_DECIMALS :: nat where "AAVE_BASE_CURRENCY_DECIMALS = 8"

definition FLASH_PREMIUM_BPS :: int where "FLASH_PREMIUM_BPS = 5"

definition DEFAULT_BUNDLED_COST_BPS :: int where "DEFAULT_BUNDLED_COST_BPS = 100"

definition DEFAULT_GAS_COST_BASE :: int where "DEFAULT_GAS_COST_BASE = 50000000"

lemmas scale_defs = WAD_def BPS_def BPS_TO_WAD_def AAVE_BASE_CURRENCY_DECIMALS_def

lemma WAD_eq: "WAD = BPS * BPS_TO_WAD"
  by (simp add: scale_defs)

section \<open>Tokens and fee tiers\<close>

definition WETH :: string where "WETH = ''0x82aF49447D8a07e3bd95BD0d56f35241523fBab1''"

definition USDC :: string where "USDC = ''0xaf88d065e77c8cC2239327C5EDb3A432268e5831''"

definition USDC_e :: string where "USDC_e = ''0xFF970A61A04b1cA14834A43f5dE4533eBDDB5CC8''"

definition wstETH :: string where "wstETH = ''0x5979D7b546E38E414F7E9822514be443A4800529''"

definition TOKENS :: "(string, string) pydict" where
  "TOKENS = [(''WETH'', WETH), (''USDC'', USDC), (''USDC_e'', USDC_e), (''wstETH'', wstETH)]"

definition TOKEN_SYMBOLS :: "(string, string) pydict" where
  "TOKEN_SYMBOLS = map (\<lambda>(sym, addr). (addr, sym)) TOKENS"

definition TOKEN_DECIMALS :: "(string, nat) pydict" where
  "TOKEN_DECIMALS = [(WETH, 18), (USDC, 6), (USDC_e, 6), (wstETH, 18)]"

definition FEE_TIERS :: "(string \<times> string, int) pydict" where
  "FEE_TIERS = [((WETH, USDC), 500), ((USDC, WETH), 500)]"

definition DEFAULT_FEE_TIER :: int where "DEFAULT_FEE_TIER = 500"

definition fee_tier_for :: "(string \<Rightarrow> string res) \<Rightarrow> string \<Rightarrow> string \<Rightarrow> int res" where
  "fee_tier_for checksum token_in token_out =
     res_bind (checksum token_in) (\<lambda>a. res_bind (checksum token_out) (\<lambda>b.
       Inr (case dict_get FEE_TIERS (a, b) of Some t \<Rightarrow> t | None \<Rightarrow> DEFAULT_FEE_TIER)))"

lemmas token_defs = WETH_def USDC_def USDC_e_def wstETH_def

lemma TOKENS_USDC: "dict_get TOKENS ''USDC'' = Some USDC"
  by (simp add: TOKENS_def)

lemma token_keys_distinct: "dict_wf TOKENS" "dict_wf TOKEN_DECIMALS" "dict_wf TOKEN_SYMBOLS"
  by (simp_all add: TOKENS_def TOKEN_DECIMALS_def TOKEN_SYMBOLS_def token_defs)

lemma fee_tier_for_value: "fee_tier_for checksum a b = Inr t \<Longrightarrow> t = 500"
  by (auto simp: fee_tier_for_def res_bind_Inr_iff FEE_TIERS_def DEFAULT_FEE_TIER_def
      split: option.splits if_splits)

end
