(* ===== verification/Position_State.thy ===== *)
theory Position_State
  imports FinaX_Prelude
begin

text \<open>
  \<^verbatim>\<open>app/core/state.py\<close>: the lifecycle of a monitored position, the declared transition table and
  its two queries. The table is data; which transitions the service really makes is the subject of
  the theories above this one.
\<close>

datatype PositionState =
    HEALTHY | WATCH | ASSESSING | DECLINED | READY | SUBMITTED | RESTORED | REVERTED

fun state_value :: "PositionState \<Rightarrow> string" where
  "state_value HEALTHY = ''HEALTHY''"
| "state_value WATCH = ''WATCH''"
| "state_value ASSESSING = ''ASSESSING''"
| "state_value DECLINED = ''DECLINED''"
| "state_value READY = ''READY''"
| "state_value SUBMITTED = ''SUBMITTED''"
| "state_value RESTORED = ''RESTORED''"
| "state_value REVERTED = ''REVERTED''"

fun VALID_TRANSITIONS :: "PositionState \<Rightarrow> PositionState list" where
  "VALID_TRANSITIONS HEALTHY = [WATCH]"
| "VALID_TRANSITIONS WATCH = [HEALTHY, ASSESSING]"
| "VALID_TRANSITIONS ASSESSING = [DECLINED, WATCH, READY]"
| "VALID_TRANSITIONS DECLINED = [WATCH]"
| "VALID_TRANSITIONS READY = [SUBMITTED, WATCH]"
| "VALID_TRANSITIONS SUBMITTED = [RESTORED, REVERTED]"
| "VALID_TRANSITIONS RESTORED = [HEALTHY]"
| "VALID_TRANSITIONS REVERTED = [WATCH]"

definition IN_FLIGHT_STATES :: "PositionState list" where
  "IN_FLIGHT_STATES = [READY, SUBMITTED]"

definition can_transition :: "PositionState \<Rightarrow> PositionState \<Rightarrow> bool" where
  "can_transition src dst \<longleftrightarrow> (if src = dst then True else dst \<in> set (VALID_TRANSITIONS src))"

definition is_terminal_outcome :: "PositionState \<Rightarrow> bool" where
  "is_terminal_outcome s \<longleftrightarrow> s \<in> set [RESTORED, REVERTED]"

definition all_states :: "PositionState list" where
  "all_states = [HEALTHY, WATCH, ASSESSING, DECLINED, READY, SUBMITTED, RESTORED, REVERTED]"

lemma in_all_states: "s \<in> set all_states"
  by (cases s) (simp_all add: all_states_def)

lemma state_value_inj: "state_value a = state_value b \<Longrightarrow> a = b"
  by (cases a; cases b) simp_all

section \<open>The declared graph\<close>

inductive lifecycle :: "PositionState \<Rightarrow> PositionState \<Rightarrow> bool" where
  lifecycle_refl: "lifecycle s s"
| lifecycle_step: "lifecycle s t \<Longrightarrow> can_transition t u \<Longrightarrow> lifecycle s u"

inductive_cases lifecycle_stepE: "lifecycle s t"

lemma lifecycle_edge: "can_transition s t \<Longrightarrow> lifecycle s t"
  by (rule lifecycle_step [OF lifecycle_refl])

lemma lifecycle_trans: "lifecycle s t \<Longrightarrow> lifecycle t u \<Longrightarrow> lifecycle s u"
  by (rotate_tac, induction rule: lifecycle.induct) (auto intro: lifecycle_step)

text \<open>A submission can only come out of \<open>READY\<close>, and its outcome is terminal.\<close>

lemma into_submitted: "can_transition s SUBMITTED \<longleftrightarrow> s = READY \<or> s = SUBMITTED"
  by (cases s) (simp_all add: can_transition_def)

lemma out_of_submitted:
  "can_transition SUBMITTED t \<longleftrightarrow> t = SUBMITTED \<or> is_terminal_outcome t"
  by (cases t) (simp_all add: can_transition_def is_terminal_outcome_def)

lemma next_state_exists: "\<exists>t. t \<noteq> s \<and> can_transition s t"
  by (cases s) (auto simp: can_transition_def)

lemma lifecycle_from_healthy: "lifecycle HEALTHY s"
proof -
  have W: "lifecycle HEALTHY WATCH" by (rule lifecycle_edge) (simp add: can_transition_def)
  have A: "lifecycle HEALTHY ASSESSING" by (rule lifecycle_step [OF W]) (simp add: can_transition_def)
  have D: "lifecycle HEALTHY DECLINED" by (rule lifecycle_step [OF A]) (simp add: can_transition_def)
  have R: "lifecycle HEALTHY READY" by (rule lifecycle_step [OF A]) (simp add: can_transition_def)
  have S: "lifecycle HEALTHY SUBMITTED" by (rule lifecycle_step [OF R]) (simp add: can_transition_def)
  have O1: "lifecycle HEALTHY RESTORED" by (rule lifecycle_step [OF S]) (simp add: can_transition_def)
  have O2: "lifecycle HEALTHY REVERTED" by (rule lifecycle_step [OF S]) (simp add: can_transition_def)
  show ?thesis
    using W A D R S O1 O2 by (cases s) (auto intro: lifecycle_refl)
qed

lemma lifecycle_to_healthy: "lifecycle s HEALTHY"
proof -
  have W: "lifecycle WATCH HEALTHY" by (rule lifecycle_edge) (simp add: can_transition_def)
  have via: "can_transition s WATCH \<Longrightarrow> lifecycle s HEALTHY" for s
    using lifecycle_edge W lifecycle_trans by blast
  have R: "lifecycle RESTORED HEALTHY" by (rule lifecycle_edge) (simp add: can_transition_def)
  have S: "lifecycle SUBMITTED HEALTHY"
    by (rule lifecycle_trans [OF lifecycle_edge R]) (simp add: can_transition_def)
  show ?thesis
    by (cases s) (auto intro: via W R S lifecycle_refl simp: can_transition_def)
qed

text \<open>
  In the declared state graph a submission is entered only from a ready position and leaves only
  into one of the two outcomes; every state is reachable from a healthy position and leads back to it.
\<close>

lemma lifecycle_graph:
  "(can_transition s SUBMITTED \<longleftrightarrow> s = READY \<or> s = SUBMITTED) \<and>
   (can_transition SUBMITTED s \<longleftrightarrow> s = SUBMITTED \<or> is_terminal_outcome s) \<and>
   lifecycle HEALTHY s \<and> lifecycle s HEALTHY"
  by (simp only: into_submitted out_of_submitted lifecycle_from_healthy lifecycle_to_healthy simp_thms)

end
