(* ===== verification/Models.thy ===== *)
theory Models
  imports Arbitrum_Config Position_State
begin

text \<open>
  \<^verbatim>\<open>app/core/models.py\<close>: the wire models with their validators, the typed chain reads with their
  unit conversions, and the records the decision pipeline and the service pass around. A pydantic
  model is a record; construction from unchecked data is a function into \<open>res\<close> that raises
  \<open>ValueError\<close> (pydantic's \<^verbatim>\<open>ValidationError\<close> is one) where a field or model validator fails. The
  message names the first field that fails; pydantic's own wording is not modelled.
\<close>

section \<open>JSON-like values\<close>

datatype json = JNone | JBool bool | JInt int | JFloat pyfloat | JStr string
  | JList "json list" | JDict "(string \<times> json) list"

section \<open>Wire models\<close>

record RiskParams =
  rp_borrower :: string
  rp_hf_trigger_bps :: int
  rp_hf_target_base_bps :: int
  rp_vol_coeff_k :: int
  rp_hf_target_max_bps :: int
  rp_max_slippage_bps :: int
  rp_max_cost_bps :: int
  rp_allowed_collaterals :: "string list"
  rp_nonce :: int
  rp_deadline :: int

fun checksum_all :: "(string \<Rightarrow> string res) \<Rightarrow> string list \<Rightarrow> string list res" where
  "checksum_all checksum [] = Inr []"
| "checksum_all checksum (a # as) =
     res_bind (checksum a) (\<lambda>b. res_bind (checksum_all checksum as) (\<lambda>bs. Inr (b # bs)))"

definition target_band_ordered :: "RiskParams \<Rightarrow> RiskParams res" where
  "target_band_ordered p =
     (if rp_hf_target_max_bps p < rp_hf_target_base_bps p
      then Inl (ValueError (''hfTargetMaxBps must be >= hfTargetBaseBps (got max='' @
             show_int (rp_hf_target_max_bps p) @ '', base='' @ show_int (rp_hf_target_base_bps p) @ '')''))
      else Inr p)"

definition validate_risk_params :: "(string \<Rightarrow> string res) \<Rightarrow> RiskParams \<Rightarrow> RiskParams res" where
  "validate_risk_params checksum p =
     res_bind (checksum (rp_borrower p)) (\<lambda>borrower.
     if rp_hf_trigger_bps p < 0 then Inl (ValueError ''hfTriggerBps'')
     else if rp_hf_target_base_bps p < 0 then Inl (ValueError ''hfTargetBaseBps'')
     else if rp_vol_coeff_k p < 0 then Inl (ValueError ''volCoeffK'')
     else if rp_hf_target_max_bps p < 0 then Inl (ValueError ''hfTargetMaxBps'')
     else if rp_max_slippage_bps p < 0 \<or> BPS < rp_max_slippage_bps p then Inl (ValueError ''maxSlippageBps'')
     else if rp_max_cost_bps p < 0 \<or> BPS < rp_max_cost_bps p then Inl (ValueError ''maxCostBps'')
     else res_bind (checksum_all checksum (rp_allowed_collaterals p)) (\<lambda>collaterals.
     if rp_nonce p < 0 then Inl (ValueError ''nonce'')
     else if rp_deadline p < 0 then Inl (ValueError ''deadline'')
     else target_band_ordered (p\<lparr>rp_borrower := borrower, rp_allowed_collaterals := collaterals\<rparr>)))"

type_synonym solidity_tuple =
  "string \<times> int \<times> int \<times> int \<times> int \<times> int \<times> int \<times> string list \<times> int \<times> int"

definition to_solidity_tuple :: "RiskParams \<Rightarrow> solidity_tuple" where
  "to_solidity_tuple p =
     (rp_borrower p, rp_hf_trigger_bps p, rp_hf_target_base_bps p, rp_vol_coeff_k p,
      rp_hf_target_max_bps p, rp_max_slippage_bps p, rp_max_cost_bps p,
      rp_allowed_collaterals p, rp_nonce p, rp_deadline p)"

definition eip712_message :: "RiskParams \<Rightarrow> (string, json) pydict" where
  "eip712_message p =
     [(''borrower'', JStr (rp_borrower p)),
      (''hfTriggerBps'', JInt (rp_hf_trigger_bps p)),
      (''hfTargetBaseBps'', JInt (rp_hf_target_base_bps p)),
      (''volCoeffK'', JInt (rp_vol_coeff_k p)),
      (''hfTargetMaxBps'', JInt (rp_hf_target_max_bps p)),
      (''maxSlippageBps'', JInt (rp_max_slippage_bps p)),
      (''maxCostBps'', JInt (rp_max_cost_bps p)),
      (''allowedCollaterals'', JList (map JStr (rp_allowed_collaterals p))),
      (''nonce'', JInt (rp_nonce p)),
      (''deadline'', JInt (rp_deadline p))]"

record ProtectRequest =
  pq_params :: RiskParams
  pq_signature :: string

definition valid_hex_signature :: "string \<Rightarrow> string res" where
  "valid_hex_signature v =
     (let body = removeprefix ''0x'' v in
      if length body mod 2 \<noteq> 0 then Inl (ValueError ''signature must have an even number of hex digits'')
      else case bytes_fromhex body of
        Inl _ \<Rightarrow> Inl (ValueError ''signature must be 0x-prefixed hexadecimal'')
      | Inr _ \<Rightarrow> Inr v)"

record AssessmentResponse =
  ar_hf :: pyfloat
  ar_hf_target :: pyfloat
  ar_repay_amount :: int
  ar_collateral_asset :: string
  ar_est_cost_bps :: int
  ar_viable :: bool
  ar_reason :: "string option"

section \<open>Chain reads\<close>

record UserAccountData =
  ua_total_collateral_base :: int
  ua_total_debt_base :: int
  ua_available_borrows_base :: int
  ua_liquidation_threshold_bps :: int
  ua_ltv_bps :: int
  ua_health_factor :: int

definition ua_hf :: "UserAccountData \<Rightarrow> pyfloat res" where
  "ua_hf a = (if ua_total_debt_base a = 0 then Inr PInf else int_truediv (ua_health_factor a) WAD)"

definition ua_has_debt :: "UserAccountData \<Rightarrow> bool" where
  "ua_has_debt a \<longleftrightarrow> 0 < ua_total_debt_base a"

definition ua_collateral_usd :: "UserAccountData \<Rightarrow> pyfloat res" where
  "ua_collateral_usd a = int_truediv (ua_total_collateral_base a) (10 ^ AAVE_BASE_CURRENCY_DECIMALS)"

definition ua_debt_usd :: "UserAccountData \<Rightarrow> pyfloat res" where
  "ua_debt_usd a = int_truediv (ua_total_debt_base a) (10 ^ AAVE_BASE_CURRENCY_DECIMALS)"

record ReserveInfo =
  ri_asset :: string
  ri_aToken_address :: string
  ri_variable_debt_token_address :: string
  ri_decimals :: nat
  ri_liq_threshold_bps :: int
  ri_liq_bonus_bps :: int

definition ri_liq_threshold :: "ReserveInfo \<Rightarrow> pyfloat res" where
  "ri_liq_threshold r = int_truediv (ri_liq_threshold_bps r) BPS"

definition ri_liq_bonus :: "ReserveInfo \<Rightarrow> pyfloat res" where
  "ri_liq_bonus r = int_truediv (ri_liq_bonus_bps r) BPS"

record Quote =
  qt_token_in :: string
  qt_token_out :: string
  qt_fee :: int
  qt_amount_out :: int
  qt_amount_in :: int
  qt_sqrt_price_x96_after :: int
  qt_initialized_ticks_crossed :: int
  qt_gas_estimate :: int

record OraclePrice =
  op_asset :: string
  op_price :: int
  op_decimals :: nat
  op_updated_at :: int
  op_stale :: bool

definition op_price_float :: "OraclePrice \<Rightarrow> pyfloat res" where
  "op_price_float p = int_truediv (op_price p) (10 ^ op_decimals p)"

section \<open>Pipeline results\<close>

record RiskSignal =
  rs_sigma :: pyfloat
  rs_breach_probability :: pyfloat
  rs_hf_target_bps :: int

definition rs_hf_target :: "RiskSignal \<Rightarrow> pyfloat res" where
  "rs_hf_target s = int_truediv (rs_hf_target_bps s) BPS"

record SizingResult =
  sz_repay_amount :: int
  sz_delta_base :: int
  sz_hf_target_bps :: int
  sz_feasible :: bool
  sz_reason :: "string option"

record CollateralChoice =
  cc_collateral_asset :: string
  cc_fee_tier :: int
  cc_amount_in :: int
  cc_amount_in_value_base :: int
  cc_out_needed_value_base :: int
  cc_slippage_cost_bps :: int
  cc_liq_threshold_bps :: int
  cc_has_allowance :: bool
  cc_eligible :: bool
  cc_reason :: "string option"

record ViabilityResult =
  vr_value_protected_base :: int
  vr_cost_base :: int
  vr_est_cost_bps :: int
  vr_viable :: bool
  vr_reason :: "string option"

record PositionSnapshot =
  ps_borrower :: string
  ps_account :: UserAccountData
  ps_state :: PositionState
  ps_hf :: pyfloat
  ps_hf_trigger_bps :: int

section \<open>Service, simulation and submission\<close>

record ProtectResponse =
  pr_borrower :: string
  pr_state :: PositionState
  pr_submitted :: bool
  pr_tx_hash :: "string option"
  pr_assessment :: "AssessmentResponse option"
  pr_reason :: "string option"
  pr_via_fallback :: bool

record RescuePlan =
  pl_borrower :: string
  pl_debt_asset :: string
  pl_repay_amount :: int
  pl_collateral_asset :: string
  pl_fee_tier :: int
  pl_amount_in :: int
  pl_hf_target_bps :: int
  pl_max_slippage_bps :: int

record SimulationResult =
  sr_success :: bool
  sr_repay_amount :: int
  sr_amount_in_maximum :: int
  sr_hf_after :: "pyfloat option"
  sr_bumps :: int
  sr_revert_reason :: "string option"

record SubmissionResult =
  sb_tx_hash :: string
  sb_status :: int
  sb_state :: PositionState
  sb_hf_after :: "pyfloat option"
  sb_gas_used :: "int option"
  sb_via_fallback :: bool

record KeeperConfig =
  kc_poll_interval_seconds :: int
  kc_breaker_max_consecutive_failures :: int
  kc_inflight_cooldown_seconds :: int
  kc_max_simulation_bumps :: int
  kc_autonomous_enabled :: bool

definition validate_keeper_config :: "KeeperConfig \<Rightarrow> KeeperConfig res" where
  "validate_keeper_config c =
     (if kc_poll_interval_seconds c < 1 \<or> 3600 < kc_poll_interval_seconds c
      then Inl (ValueError ''poll_interval_seconds'')
      else if kc_breaker_max_consecutive_failures c < 1 \<or> 20 < kc_breaker_max_consecutive_failures c
      then Inl (ValueError ''breaker_max_consecutive_failures'')
      else if kc_inflight_cooldown_seconds c < 0 \<or> 3600 < kc_inflight_cooldown_seconds c
      then Inl (ValueError ''inflight_cooldown_seconds'')
      else if kc_max_simulation_bumps c < 0 \<or> 10 < kc_max_simulation_bumps c
      then Inl (ValueError ''max_simulation_bumps'')
      else Inr c)"

record MetricsSnapshot =
  ms_breaker_paused :: bool
  ms_breaker_consecutive_failures :: int
  ms_breaker_trip_reason :: "string option"
  ms_in_flight_borrowers :: "string list"
  ms_registered_positions :: nat
  ms_counters :: "(string, int) pydict"
  ms_states :: "(string, string) pydict"

section \<open>What validation guarantees\<close>

definition risk_params_ok :: "RiskParams \<Rightarrow> bool" where
  "risk_params_ok p \<longleftrightarrow>
     0 \<le> rp_hf_trigger_bps p \<and> 0 \<le> rp_hf_target_base_bps p \<and> 0 \<le> rp_vol_coeff_k p \<and>
     rp_hf_target_base_bps p \<le> rp_hf_target_max_bps p \<and>
     0 \<le> rp_max_slippage_bps p \<and> rp_max_slippage_bps p \<le> BPS \<and>
     0 \<le> rp_max_cost_bps p \<and> rp_max_cost_bps p \<le> BPS \<and>
     0 \<le> rp_nonce p \<and> 0 \<le> rp_deadline p"

lemma checksum_all_fixed:
  assumes "\<And>a b. checksum a = Inr b \<Longrightarrow> checksum b = Inr b"
  shows "checksum_all checksum as = Inr bs \<Longrightarrow> checksum_all checksum bs = Inr bs"
  by (induction as arbitrary: bs) (auto simp: res_bind_Inr_iff dest: assms)

lemma checksum_all_length: "checksum_all checksum as = Inr bs \<Longrightarrow> length bs = length as"
  by (induction as arbitrary: bs) (auto simp: res_bind_Inr_iff)

lemma validate_risk_params_Inr:
  "validate_risk_params checksum p = Inr q \<longleftrightarrow>
     (\<exists>b cs. checksum (rp_borrower p) = Inr b \<and>
        checksum_all checksum (rp_allowed_collaterals p) = Inr cs \<and>
        q = p\<lparr>rp_borrower := b, rp_allowed_collaterals := cs\<rparr> \<and> risk_params_ok q)"
  by (auto simp: validate_risk_params_def target_band_ordered_def risk_params_ok_def
      res_bind_Inr_iff split: if_splits)

lemma validate_keeper_config_Inr:
  "validate_keeper_config c = Inr d \<longleftrightarrow>
     d = c \<and> kc_poll_interval_seconds c \<in> {1..3600} \<and>
     kc_breaker_max_consecutive_failures c \<in> {1..20} \<and>
     kc_inflight_cooldown_seconds c \<in> {0..3600} \<and> kc_max_simulation_bumps c \<in> {0..10}"
  by (auto simp: validate_keeper_config_def)

section \<open>The typed-data layout shared with the vault\<close>

text \<open>
  The vault hashes the mandate under the type string of \<^verbatim>\<open>RISK_PARAMS_TYPEHASH\<close>. \<open>type_fields\<close>
  reads the member names of such a string: after the opening bracket, the second word of each
  comma-separated item.
\<close>

definition RISK_PARAMS_TYPE :: string where
  "RISK_PARAMS_TYPE = ''RiskParams(address borrower,uint256 hfTriggerBps,uint256 hfTargetBaseBps,'' @
     ''uint256 volCoeffK,uint256 hfTargetMaxBps,uint16 maxSlippageBps,uint16 maxCostBps,'' @
     ''address[] allowedCollaterals,uint256 nonce,uint256 deadline)''"

fun split_on :: "char \<Rightarrow> string \<Rightarrow> string list" where
  "split_on sep [] = [[]]"
| "split_on sep (c # cs) =
     (if c = sep then [] # split_on sep cs
      else case split_on sep cs of [] \<Rightarrow> [[c]] | w # ws \<Rightarrow> (c # w) # ws)"

definition type_fields :: "string \<Rightarrow> string list" where
  "type_fields ty =
     map (\<lambda>item. last (split_on (CHR '' '') item))
       (split_on (CHR '','') (butlast (tl (dropWhile (\<lambda>c. c \<noteq> CHR ''('') ty))))"

lemma eip712_keys: "map fst (eip712_message p) =
  [''borrower'', ''hfTriggerBps'', ''hfTargetBaseBps'', ''volCoeffK'', ''hfTargetMaxBps'',
   ''maxSlippageBps'', ''maxCostBps'', ''allowedCollaterals'', ''nonce'', ''deadline'']"
  by (simp add: eip712_message_def)

lemma type_fields_RISK_PARAMS_TYPE: "type_fields RISK_PARAMS_TYPE =
  [''borrower'', ''hfTriggerBps'', ''hfTargetBaseBps'', ''volCoeffK'', ''hfTargetMaxBps'',
   ''maxSlippageBps'', ''maxCostBps'', ''allowedCollaterals'', ''nonce'', ''deadline'']"
  by (simp add: type_fields_def RISK_PARAMS_TYPE_def)

lemma map_JStr_eq: "map JStr xs = map JStr ys \<longleftrightarrow> xs = ys"
  by (simp add: inj_map_eq_map inj_def)

lemma eip712_message_inj: "eip712_message p = eip712_message q \<longleftrightarrow> p = (q :: RiskParams)"
  by (cases p; cases q) (auto simp: eip712_message_def map_JStr_eq)

lemma to_solidity_tuple_inj: "to_solidity_tuple p = to_solidity_tuple q \<longleftrightarrow> p = (q :: RiskParams)"
  by (cases p; cases q) (auto simp: to_solidity_tuple_def)

section \<open>Unit conversions\<close>

lemma int_truediv_ok:
  assumes "\<bar>a\<bar> \<le> 2 ^ 1000" and "1 \<le> b"
  shows "int_truediv a b = Inr (Fin (rnd (of_int a / of_int b)))"
proof -
  have b: "1 \<le> (of_int b :: rat)" using assms(2) by simp
  have "\<bar>of_int a / of_int b :: rat\<bar> = \<bar>of_int a\<bar> / of_int b" using b by simp
  also have "\<dots> \<le> \<bar>of_int a\<bar> / 1" using b by (intro divide_left_mono) auto
  also have "\<dots> = \<bar>of_int a\<bar>" by simp
  also have "\<dots> \<le> 2 ^ 1000" using assms(1) by (metis of_int_abs of_int_le_numeral_power_cancel_iff)
  also have "\<dots> \<le> (2::rat) ^ 1023" by (rule power_increasing) auto
  finally have "to_float (of_int a / of_int b) = Fin (rnd (of_int a / of_int b))"
    by (rule to_float_finite)
  then show ?thesis using assms(2) by (simp add: int_truediv_def)
qed

section \<open>Properties of the wire models\<close>

text \<open>
  The typed-data message the borrower signs has exactly the members of the vault's type string, in
  its order, and neither it nor the tuple sent to the vault drops or merges a field: two parameter
  sets with the same message or the same tuple are the same.
\<close>

lemma typed_data_layout:
  "map fst (eip712_message p) = type_fields RISK_PARAMS_TYPE \<and>
   (eip712_message p = eip712_message q \<longleftrightarrow> p = q) \<and>
   (to_solidity_tuple p = to_solidity_tuple q \<longleftrightarrow> p = (q :: RiskParams))"
  by (simp only: eip712_keys type_fields_RISK_PARAMS_TYPE eip712_message_inj to_solidity_tuple_inj simp_thms)

text \<open>
  C32: parameters that pass validation satisfy every declared bound with an ordered target band, keep all
  fields but the normalised addresses, and pass validation again unchanged.
\<close>

theorem validation_sound_stable:
  assumes "\<forall>a b. checksum a = Inr b \<longrightarrow> checksum b = Inr b"
    and "validate_risk_params checksum p = Inr q"
  shows "risk_params_ok q \<and> length (rp_allowed_collaterals q) = length (rp_allowed_collaterals p) \<and>
     rp_nonce q = rp_nonce p \<and> rp_deadline q = rp_deadline p \<and> validate_risk_params checksum q = Inr q"
proof -
  obtain b cs where v: "checksum (rp_borrower p) = Inr b" "checksum_all checksum (rp_allowed_collaterals p) = Inr cs"
    "q = p\<lparr>rp_borrower := b, rp_allowed_collaterals := cs\<rparr>" "risk_params_ok q"
    using assms(2) by (auto simp: validate_risk_params_Inr)
  have "checksum b = Inr b" "checksum_all checksum cs = Inr cs" "length cs = length (rp_allowed_collaterals p)"
    using v(1,2) assms(1) by (auto intro: checksum_all_fixed checksum_all_length)
  then show ?thesis using v by (auto simp: validate_risk_params_Inr)
qed

theorem validation_sound_stable_witness:
  "risk_params_ok \<lparr>rp_borrower = ''b'', rp_hf_trigger_bps = 10500, rp_hf_target_base_bps = 12500,
     rp_vol_coeff_k = 1, rp_hf_target_max_bps = 14000, rp_max_slippage_bps = 50, rp_max_cost_bps = 100,
     rp_allowed_collaterals = [''c''], rp_nonce = 0, rp_deadline = 0\<rparr>"
proof -
  let ?p = "\<lparr>rp_borrower = ''b'', rp_hf_trigger_bps = 10500, rp_hf_target_base_bps = 12500,
     rp_vol_coeff_k = 1, rp_hf_target_max_bps = 14000, rp_max_slippage_bps = 50, rp_max_cost_bps = 100,
     rp_allowed_collaterals = [''c''], rp_nonce = 0, rp_deadline = 0\<rparr>"
  have "validate_risk_params Inr ?p = Inr ?p"
    by (simp add: validate_risk_params_def target_band_ordered_def BPS_def)
  then show ?thesis using validation_sound_stable [of Inr ?p ?p] by simp
qed

end
