(* ===== verification/Agent_Models.thy ===== *)
theory Agent_Models
  imports Models
begin

text \<open>
  \<^verbatim>\<open>app/agent/models.py\<close>: the enumerations, the verdict of the policy gate and the rows the agent's
  store keeps. Fields typed \<^verbatim>\<open>dict[str, Any]\<close> hold JSON values; writing one to the store and reading it
  back is the identity on them.
\<close>

section \<open>Enumerations\<close>

datatype ProposalStatus = PENDING | APPROVED | REJECTED | EXECUTED | FAILED | STALE | EXPIRED

fun proposal_status_value :: "ProposalStatus \<Rightarrow> string" where
  "proposal_status_value PENDING = ''PENDING''"
| "proposal_status_value APPROVED = ''APPROVED''"
| "proposal_status_value REJECTED = ''REJECTED''"
| "proposal_status_value EXECUTED = ''EXECUTED''"
| "proposal_status_value FAILED = ''FAILED''"
| "proposal_status_value STALE = ''STALE''"
| "proposal_status_value EXPIRED = ''EXPIRED''"

definition all_proposal_statuses :: "ProposalStatus list" where
  "all_proposal_statuses = [PENDING, APPROVED, REJECTED, EXECUTED, FAILED, STALE, EXPIRED]"

text \<open>\<^verbatim>\<open>ProposalStatus(s)\<close> raises for a string that is no member's value.\<close>

definition parse_proposal_status :: "string \<Rightarrow> ProposalStatus res" where
  "parse_proposal_status s =
     (case find (\<lambda>st. proposal_status_value st = s) all_proposal_statuses of
        Some st \<Rightarrow> Inr st
      | None \<Rightarrow> Inl (ValueError (s @ '' is not a valid ProposalStatus'')))"

lemma parse_proposal_status_value [simp]: "parse_proposal_status (proposal_status_value st) = Inr st"
  by (cases st) (simp_all add: parse_proposal_status_def all_proposal_statuses_def)

datatype TuningStatus = OPEN | DISMISSED | RESIGNED

fun tuning_status_value :: "TuningStatus \<Rightarrow> string" where
  "tuning_status_value OPEN = ''open''"
| "tuning_status_value DISMISSED = ''dismissed''"
| "tuning_status_value RESIGNED = ''resigned''"

datatype AuditAction =
    CREW_RUN | PROPOSED | GATE_BLOCKED | TUNING_SUGGESTED | TUNING_DISMISSED | AA_APPROVED | AA_REJECTED
  | AA_EXECUTED | AA_FAILED | STALE_ON_APPROVE | EXPIRED_ON_APPROVE | PANIC

datatype TunableField =
    F_hf_trigger_bps | F_hf_target_base_bps | F_hf_target_max_bps | F_vol_coeff_k | F_max_slippage_bps | F_max_cost_bps

datatype severity = Sev_ok | Soft_block | Hard_block

section \<open>Policy gate\<close>

record GateCheck =
  gc_name :: string
  gc_passed :: bool
  gc_detail :: string

record PolicyDecision =
  pd_allowed :: bool
  pd_checks :: "GateCheck list"
  pd_blocking :: "string list"
  pd_severity :: severity

record PolicyLimits =
  pm_max_repay_fraction_of_debt :: pyfloat
  pm_max_cost_bps_ceiling :: int
  pm_min_hf_gap_bps :: int
  pm_max_proposals_per_borrower_per_hour :: int
  pm_max_proposals_global_per_hour :: int
  pm_proposal_ttl_seconds :: int

definition default_limits :: PolicyLimits where
  "default_limits = \<lparr>pm_max_repay_fraction_of_debt = Fin (1 / 2), pm_max_cost_bps_ceiling = 200,
     pm_min_hf_gap_bps = 25, pm_max_proposals_per_borrower_per_hour = 3,
     pm_max_proposals_global_per_hour = 12, pm_proposal_ttl_seconds = 900\<rparr>"

definition validate_policy_limits :: "PolicyLimits \<Rightarrow> PolicyLimits res" where
  "validate_policy_limits l =
     (if \<not> flt (Fin 0) (pm_max_repay_fraction_of_debt l) \<or> \<not> fle (pm_max_repay_fraction_of_debt l) (Fin 1)
      then Inl (ValueError ''max_repay_fraction_of_debt'')
      else if pm_max_cost_bps_ceiling l < 0 then Inl (ValueError ''max_cost_bps_ceiling'')
      else if pm_min_hf_gap_bps l < 0 then Inl (ValueError ''min_hf_gap_bps'')
      else if pm_max_proposals_per_borrower_per_hour l < 0 then Inl (ValueError ''max_proposals_per_borrower_per_hour'')
      else if pm_max_proposals_global_per_hour l < 0 then Inl (ValueError ''max_proposals_global_per_hour'')
      else if pm_proposal_ttl_seconds l < 1 then Inl (ValueError ''proposal_ttl_seconds'')
      else Inr l)"

lemma validate_policy_limits_Inr:
  "validate_policy_limits l = Inr m \<Longrightarrow>
     m = l \<and> (\<exists>f. pm_max_repay_fraction_of_debt l = Fin f \<and> 0 < f \<and> f \<le> 1) \<and> 0 \<le> pm_max_cost_bps_ceiling l \<and>
     0 \<le> pm_min_hf_gap_bps l \<and> 1 \<le> pm_proposal_ttl_seconds l"
  by (cases "pm_max_repay_fraction_of_debt l")
    (auto simp: validate_policy_limits_def fle_def feq_def split: if_splits)

section \<open>Rows\<close>

record ProposalRow =
  pw_id :: int
  pw_run_id :: string
  pw_borrower :: string
  pw_created_at :: pyfloat
  pw_expires_at :: pyfloat
  pw_status :: ProposalStatus
  pw_strategy :: string
  pw_facts :: "(string, json) pydict"
  pw_gate :: PolicyDecision
  pw_rationale :: string
  pw_guard_flagged :: bool
  pw_decided_at :: "pyfloat option"
  pw_decided_by :: "string option"
  pw_decision_note :: "string option"
  pw_tx_hash :: "string option"
  pw_result :: "(string, json) pydict option"

record TuningRow =
  tw_id :: int
  tw_run_id :: string
  tw_borrower :: string
  tw_created_at :: pyfloat
  tw_field_name :: TunableField
  tw_current_value :: int
  tw_suggested_value :: int
  tw_rationale :: string
  tw_eip712_payload :: "(string, json) pydict"
  tw_status :: TuningStatus
  tw_decided_at :: "pyfloat option"

record AuditRow =
  aw_id :: int
  aw_ts :: pyfloat
  aw_actor :: string
  aw_action :: AuditAction
  aw_borrower :: "string option"
  aw_proposal_id :: "int option"
  aw_detail :: "(string, json) pydict"

record ChatMessageRow =
  cm_id :: int
  cm_thread_id :: string
  cm_ts :: pyfloat
  cm_role :: string
  cm_content :: string
  cm_tool_calls :: "json list option"
  cm_facts :: "(string, json) pydict option"
  cm_guard_flagged :: bool

record DecisionRow =
  dw_id :: int
  dw_run_id :: string
  dw_borrower :: string
  dw_created_at :: pyfloat
  dw_node :: string
  dw_latency_ms :: "int option"
  dw_llm_used :: bool
  dw_output :: "(string, json) pydict"
  dw_error :: "string option"

section \<open>Wire models\<close>

text \<open>Length limits count characters: the UTF-8 bytes that do not continue one.\<close>

definition char_count :: "string \<Rightarrow> nat" where
  "char_count s = length (filter (\<lambda>c. let n = (of_char c :: nat) in \<not> (128 \<le> n \<and> n < 192)) s)"

record ApprovalRequest =
  aq_approved_by :: string
  aq_note :: "string option"
  aq_acknowledge_stale :: bool

definition validate_approval_request :: "ApprovalRequest \<Rightarrow> ApprovalRequest res" where
  "validate_approval_request q =
     (if char_count (aq_approved_by q) < 1 \<or> 64 < char_count (aq_approved_by q) then Inl (ValueError ''approved_by'')
      else if (case aq_note q of None \<Rightarrow> False | Some n \<Rightarrow> 500 < char_count n) then Inl (ValueError ''note'')
      else Inr q)"

record RejectRequest =
  rq_rejected_by :: string
  rq_note :: "string option"

definition validate_reject_request :: "RejectRequest \<Rightarrow> RejectRequest res" where
  "validate_reject_request q =
     (if char_count (rq_rejected_by q) < 1 \<or> 64 < char_count (rq_rejected_by q) then Inl (ValueError ''rejected_by'')
      else if (case rq_note q of None \<Rightarrow> False | Some n \<Rightarrow> 500 < char_count n) then Inl (ValueError ''note'')
      else Inr q)"

record ApprovalResult =
  al_proposal :: ProposalRow
  al_revalidated_gate :: PolicyDecision
  al_protect :: "ProtectResponse option"
  al_reason :: "string option"

end
