(* ===== verification/Agent_Store.thy ===== *)
theory Agent_Store
  imports Agent_Models
begin

text \<open>
  \<^verbatim>\<open>app/agent/store.py\<close>: the SQLite store of the agent layer. A table is the list of its rows in insertion
  order with the last key \<^verbatim>\<open>AUTOINCREMENT\<close> gave out; each method is one SQL statement, and so one atomic step
  on the contents. \<open>store_call\<close> is what surrounds a statement: connecting on demand and the binding of integers, which
  must fit sixty-four bits.
\<close>

section \<open>Contents and connection\<close>

record ChatThread =
  ct_thread_id :: string
  ct_created_at :: pyfloat
  ct_last_active :: pyfloat
  ct_borrower :: "string option"
  ct_title :: "string option"

record agent_db =
  db_proposals :: "ProposalRow list"
  db_proposal_seq :: int
  db_tuning :: "TuningRow list"
  db_tuning_seq :: int
  db_decisions :: "DecisionRow list"
  db_decision_seq :: int
  db_audit :: "AuditRow list"
  db_audit_seq :: int
  db_threads :: "ChatThread list"
  db_messages :: "ChatMessageRow list"
  db_message_seq :: int

definition empty_db :: agent_db where
  "empty_db = \<lparr>db_proposals = [], db_proposal_seq = 0, db_tuning = [], db_tuning_seq = 0, db_decisions = [],
     db_decision_seq = 0, db_audit = [], db_audit_seq = 0, db_threads = [], db_messages = [], db_message_seq = 0\<rparr>"

text \<open>A file keeps its contents while it is closed, an in-memory database starts empty each time.\<close>

record AgentStore =
  as_path :: string
  as_open :: bool
  as_db :: agent_db

definition store_init :: "string \<Rightarrow> agent_db \<Rightarrow> AgentStore" where
  "store_init path contents = \<lparr>as_path = path, as_open = False, as_db = contents\<rparr>"

definition store_connect :: "AgentStore \<Rightarrow> AgentStore" where
  "store_connect st =
     (if as_open st then st
      else st\<lparr>as_open := True, as_db := (if as_path st = '':memory:'' then empty_db else as_db st)\<rparr>)"

definition store_close :: "AgentStore \<Rightarrow> AgentStore" where
  "store_close st = st\<lparr>as_open := False\<rparr>"

definition sql_int_ok :: "int \<Rightarrow> bool" where
  "sql_int_ok n \<longleftrightarrow> - (2 ^ 63) \<le> n \<and> n < 2 ^ 63"

definition store_call :: "int list \<Rightarrow> (agent_db \<Rightarrow> 'a res \<times> agent_db) \<Rightarrow> AgentStore \<Rightarrow> 'a res \<times> AgentStore" where
  "store_call ints statement st0 =
     (let st = store_connect st0 in
      if \<exists>n\<in>set ints. \<not> sql_int_ok n
      then (Inl (OverflowError ''Python int too large to convert to SQLite INTEGER''), st)
      else case statement (as_db st) of (r, db) \<Rightarrow> (r, st\<lparr>as_db := db\<rparr>))"

section \<open>Fragments of SQL\<close>

text \<open>\<^verbatim>\<open>LIMIT\<close> with a negative number is no limit; \<^verbatim>\<open>COALESCE\<close> keeps the old value for a null.\<close>

definition sql_limit :: "int \<Rightarrow> 'a list \<Rightarrow> 'a list" where
  "sql_limit n xs = (if n < 0 then xs else take (nat n) xs)"

definition newest_first :: "('a \<Rightarrow> int) \<Rightarrow> 'a list \<Rightarrow> 'a list" where
  "newest_first key xs = rev (sort_key key xs)"

definition coalesce :: "'a option \<Rightarrow> 'a option \<Rightarrow> 'a option" where
  "coalesce new old = (case new of None \<Rightarrow> old | Some v \<Rightarrow> Some v)"

definition if_given :: "'b option \<Rightarrow> ('b \<Rightarrow> 'a \<Rightarrow> bool) \<Rightarrow> 'a \<Rightarrow> bool" where
  "if_given q P row = (case q of None \<Rightarrow> True | Some v \<Rightarrow> P v row)"

text \<open>\<^verbatim>\<open>UPDATE\<close>: the rows that match are changed, and the row count is their number.\<close>

definition sql_update :: "('a \<Rightarrow> bool) \<Rightarrow> ('a \<Rightarrow> 'a) \<Rightarrow> 'a list \<Rightarrow> int \<times> 'a list" where
  "sql_update P f rows = (int (length (filter P rows)), map (\<lambda>r. if P r then f r else r) rows)"

section \<open>Proposals\<close>

definition insert_proposal ::
  "string \<Rightarrow> string \<Rightarrow> string \<Rightarrow> (string, json) pydict \<Rightarrow> PolicyDecision \<Rightarrow> string \<Rightarrow> int \<Rightarrow> bool \<Rightarrow> pyfloat \<Rightarrow>
     agent_db \<Rightarrow> int res \<times> agent_db" where
  "insert_proposal run_id borrower strategy facts gate rationale ttl_seconds guard_flagged ts db =
     (case float_of_int ttl_seconds of
        Inl e \<Rightarrow> (Inl e, db)
      | Inr ttl \<Rightarrow>
          let i = db_proposal_seq db + 1;
              row = \<lparr>pw_id = i, pw_run_id = run_id, pw_borrower = borrower, pw_created_at = ts,
                pw_expires_at = fadd ts ttl, pw_status = PENDING, pw_strategy = strategy, pw_facts = facts,
                pw_gate = gate, pw_rationale = rationale, pw_guard_flagged = guard_flagged, pw_decided_at = None,
                pw_decided_by = None, pw_decision_note = None, pw_tx_hash = None, pw_result = None\<rparr>
          in (Inr i, db\<lparr>db_proposals := db_proposals db @ [row], db_proposal_seq := i\<rparr>))"

definition get_proposal :: "int \<Rightarrow> agent_db \<Rightarrow> ProposalRow option res \<times> agent_db" where
  "get_proposal proposal_id db = (Inr (find (\<lambda>r. pw_id r = proposal_id) (db_proposals db)), db)"

definition list_proposals ::
  "ProposalStatus option \<Rightarrow> string option \<Rightarrow> int \<Rightarrow> agent_db \<Rightarrow> ProposalRow list res \<times> agent_db" where
  "list_proposals status borrower limit db =
     (Inr (sql_limit limit (newest_first pw_id
        (filter (\<lambda>r. if_given status (\<lambda>v r. pw_status r = v) r \<and> if_given borrower (\<lambda>v r. pw_borrower r = v) r)
          (db_proposals db)))), db)"

definition claim_proposal :: "int \<Rightarrow> ProposalStatus \<Rightarrow> agent_db \<Rightarrow> bool res \<times> agent_db" where
  "claim_proposal proposal_id status db =
     (let (rowcount, rows) = sql_update (\<lambda>r. pw_id r = proposal_id \<and> pw_status r = PENDING)
            (\<lambda>r. r\<lparr>pw_status := status\<rparr>) (db_proposals db)
      in (Inr (rowcount = 1), db\<lparr>db_proposals := rows\<rparr>))"

definition finish_proposal ::
  "int \<Rightarrow> ProposalStatus \<Rightarrow> string option \<Rightarrow> string option \<Rightarrow> string option \<Rightarrow> (string, json) pydict option \<Rightarrow>
     pyfloat \<Rightarrow> agent_db \<Rightarrow> unit res \<times> agent_db" where
  "finish_proposal proposal_id status decided_by note tx_hash result now db =
     (let (rowcount, rows) = sql_update (\<lambda>r. pw_id r = proposal_id)
            (\<lambda>r. r\<lparr>pw_status := status, pw_decided_at := Some now,
                   pw_decided_by := coalesce decided_by (pw_decided_by r),
                   pw_decision_note := coalesce note (pw_decision_note r),
                   pw_tx_hash := coalesce tx_hash (pw_tx_hash r),
                   pw_result := coalesce result (pw_result r)\<rparr>) (db_proposals db)
      in (Inr (), db\<lparr>db_proposals := rows\<rparr>))"

definition count_recent_proposals :: "pyfloat \<Rightarrow> string option \<Rightarrow> agent_db \<Rightarrow> int res \<times> agent_db" where
  "count_recent_proposals since borrower db =
     (Inr (int (length (filter (\<lambda>r. fle since (pw_created_at r) \<and> if_given borrower (\<lambda>v r. pw_borrower r = v) r)
        (db_proposals db)))), db)"

definition expire_stale_proposals :: "pyfloat \<Rightarrow> agent_db \<Rightarrow> int res \<times> agent_db" where
  "expire_stale_proposals ts db =
     (let (rowcount, rows) = sql_update (\<lambda>r. pw_status r = PENDING \<and> flt (pw_expires_at r) ts)
            (\<lambda>r. r\<lparr>pw_status := EXPIRED\<rparr>) (db_proposals db)
      in (Inr rowcount, db\<lparr>db_proposals := rows\<rparr>))"

section \<open>Tuning suggestions\<close>

definition insert_tuning ::
  "string \<Rightarrow> string \<Rightarrow> TunableField \<Rightarrow> int \<Rightarrow> int \<Rightarrow> string \<Rightarrow> (string, json) pydict \<Rightarrow> pyfloat \<Rightarrow>
     agent_db \<Rightarrow> int res \<times> agent_db" where
  "insert_tuning run_id borrower field_name current_value suggested_value rationale payload now db =
     (let i = db_tuning_seq db + 1;
          row = \<lparr>tw_id = i, tw_run_id = run_id, tw_borrower = borrower, tw_created_at = now, tw_field_name = field_name,
            tw_current_value = current_value, tw_suggested_value = suggested_value, tw_rationale = rationale,
            tw_eip712_payload = payload, tw_status = OPEN, tw_decided_at = None\<rparr>
      in (Inr i, db\<lparr>db_tuning := db_tuning db @ [row], db_tuning_seq := i\<rparr>))"

definition list_tuning :: "string option \<Rightarrow> TuningStatus option \<Rightarrow> int \<Rightarrow> agent_db \<Rightarrow> TuningRow list res \<times> agent_db" where
  "list_tuning borrower status limit db =
     (Inr (sql_limit limit (newest_first tw_id
        (filter (\<lambda>r. if_given borrower (\<lambda>v r. tw_borrower r = v) r \<and> if_given status (\<lambda>v r. tw_status r = v) r)
          (db_tuning db)))), db)"

definition get_tuning :: "int \<Rightarrow> agent_db \<Rightarrow> TuningRow option res \<times> agent_db" where
  "get_tuning tuning_id db = (Inr (find (\<lambda>r. tw_id r = tuning_id) (db_tuning db)), db)"

definition set_tuning_status :: "int \<Rightarrow> TuningStatus \<Rightarrow> pyfloat \<Rightarrow> agent_db \<Rightarrow> bool res \<times> agent_db" where
  "set_tuning_status tuning_id status now db =
     (let (rowcount, rows) = sql_update (\<lambda>r. tw_id r = tuning_id \<and> tw_status r = OPEN)
            (\<lambda>r. r\<lparr>tw_status := status, tw_decided_at := Some now\<rparr>) (db_tuning db)
      in (Inr (rowcount = 1), db\<lparr>db_tuning := rows\<rparr>))"

section \<open>Decisions and the audit trail\<close>

definition insert_decision ::
  "string \<Rightarrow> string \<Rightarrow> string \<Rightarrow> (string, json) pydict \<Rightarrow> int option \<Rightarrow> bool \<Rightarrow> string option \<Rightarrow> pyfloat \<Rightarrow>
     agent_db \<Rightarrow> int res \<times> agent_db" where
  "insert_decision run_id borrower node output latency_ms llm_used error now db =
     (let i = db_decision_seq db + 1;
          row = \<lparr>dw_id = i, dw_run_id = run_id, dw_borrower = borrower, dw_created_at = now, dw_node = node,
            dw_latency_ms = latency_ms, dw_llm_used = llm_used, dw_output = output, dw_error = error\<rparr>
      in (Inr i, db\<lparr>db_decisions := db_decisions db @ [row], db_decision_seq := i\<rparr>))"

definition list_decisions :: "string \<Rightarrow> agent_db \<Rightarrow> DecisionRow list res \<times> agent_db" where
  "list_decisions run_id db = (Inr (sort_key dw_id (filter (\<lambda>r. dw_run_id r = run_id) (db_decisions db))), db)"

definition audit_write ::
  "string \<Rightarrow> AuditAction \<Rightarrow> string option \<Rightarrow> int option \<Rightarrow> (string, json) pydict \<Rightarrow> pyfloat \<Rightarrow>
     agent_db \<Rightarrow> int res \<times> agent_db" where
  "audit_write actor action borrower proposal_id detail now db =
     (let i = db_audit_seq db + 1;
          row = \<lparr>aw_id = i, aw_ts = now, aw_actor = actor, aw_action = action, aw_borrower = borrower,
            aw_proposal_id = proposal_id, aw_detail = detail\<rparr>
      in (Inr i, db\<lparr>db_audit := db_audit db @ [row], db_audit_seq := i\<rparr>))"

definition list_audit :: "string option \<Rightarrow> int \<Rightarrow> agent_db \<Rightarrow> AuditRow list res \<times> agent_db" where
  "list_audit borrower limit db =
     (Inr (sql_limit limit (newest_first aw_id (filter (if_given borrower (\<lambda>v r. aw_borrower r = Some v)) (db_audit db)))), db)"

section \<open>Chat\<close>

definition ensure_thread :: "string \<Rightarrow> string option \<Rightarrow> pyfloat \<Rightarrow> agent_db \<Rightarrow> unit res \<times> agent_db" where
  "ensure_thread thread_id borrower ts db =
     (if \<exists>t\<in>set (db_threads db). ct_thread_id t = thread_id
      then (Inr (), db\<lparr>db_threads := map (\<lambda>t. if ct_thread_id t = thread_id
             then t\<lparr>ct_last_active := ts, ct_borrower := coalesce borrower (ct_borrower t)\<rparr> else t) (db_threads db)\<rparr>)
      else (Inr (), db\<lparr>db_threads := db_threads db @ [\<lparr>ct_thread_id = thread_id, ct_created_at = ts,
             ct_last_active = ts, ct_borrower = borrower, ct_title = None\<rparr>]\<rparr>))"

text \<open>A message of an unknown thread violates the foreign key.\<close>

definition append_message ::
  "string \<Rightarrow> string \<Rightarrow> string \<Rightarrow> json list option \<Rightarrow> (string, json) pydict option \<Rightarrow> bool \<Rightarrow> pyfloat \<Rightarrow>
     agent_db \<Rightarrow> int res \<times> agent_db" where
  "append_message thread_id role content tool_calls facts guard_flagged now db =
     (if \<not> (\<exists>t\<in>set (db_threads db). ct_thread_id t = thread_id)
      then (Inl (OtherError ''FOREIGN KEY constraint failed''), db)
      else let i = db_message_seq db + 1;
               row = \<lparr>cm_id = i, cm_thread_id = thread_id, cm_ts = now, cm_role = role, cm_content = content,
                 cm_tool_calls = tool_calls, cm_facts = facts, cm_guard_flagged = guard_flagged\<rparr>
           in (Inr i, db\<lparr>db_messages := db_messages db @ [row], db_message_seq := i\<rparr>))"

definition thread_history :: "string \<Rightarrow> int \<Rightarrow> agent_db \<Rightarrow> ChatMessageRow list res \<times> agent_db" where
  "thread_history thread_id limit db =
     (Inr (rev (sql_limit limit (newest_first cm_id (filter (\<lambda>m. cm_thread_id m = thread_id) (db_messages db))))), db)"

definition delete_thread :: "string \<Rightarrow> agent_db \<Rightarrow> bool res \<times> agent_db" where
  "delete_thread thread_id db =
     (let gone = filter (\<lambda>t. ct_thread_id t = thread_id) (db_threads db) in
      (Inr (length gone = 1),
       db\<lparr>db_threads := filter (\<lambda>t. ct_thread_id t \<noteq> thread_id) (db_threads db),
          db_messages := filter (\<lambda>m. cm_thread_id m \<noteq> thread_id) (db_messages db)\<rparr>))"

section \<open>Well-formed contents\<close>

text \<open>Keys grow along a table and never exceed the last one given out.\<close>

definition rows_ok :: "('a \<Rightarrow> int) \<Rightarrow> int \<Rightarrow> 'a list \<Rightarrow> bool" where
  "rows_ok key seq rows \<longleftrightarrow> sorted_wrt (<) (map key rows) \<and> (\<forall>r\<in>set rows. key r \<le> seq)"

lemma rows_ok_Nil [simp]: "rows_ok key seq []"
  by (simp add: rows_ok_def)

lemma rows_ok_insert: "rows_ok key seq rows \<Longrightarrow> key r = seq + 1 \<Longrightarrow> rows_ok key (seq + 1) (rows @ [r])"
  by (fastforce simp: rows_ok_def sorted_wrt_append)

lemma rows_ok_map: "rows_ok key seq rows \<Longrightarrow> (\<And>r. key (f r) = key r) \<Longrightarrow> rows_ok key seq (map f rows)"
  by (simp add: rows_ok_def comp_def)

lemma rows_ok_filter: "rows_ok key seq rows \<Longrightarrow> rows_ok key seq (filter P rows)"
  unfolding rows_ok_def by (simp add: sorted_wrt_map sorted_wrt_filter)

lemma rows_ok_update:
  "rows_ok key seq rows \<Longrightarrow> (\<And>r. key (f r) = key r) \<Longrightarrow> rows_ok key seq (snd (sql_update P f rows))"
  unfolding sql_update_def snd_conv by (rule rows_ok_map) auto

lemma rows_ok_distinct: "rows_ok key seq rows \<Longrightarrow> distinct (map key rows)"
  unfolding rows_ok_def using strict_sorted_iff by blast

lemma sort_key_rows: "rows_ok key seq rows \<Longrightarrow> sort_key key rows = rows"
  unfolding rows_ok_def by (intro sort_key_id_if_sorted) (auto simp: strict_sorted_iff)

lemma rows_ok_find:
  assumes "rows_ok key seq rows" "r \<in> set rows"
  shows "find (\<lambda>x. key x = key r) rows = Some r"
  using rows_ok_distinct [OF assms(1)] assms(2) by (induction rows) auto

definition db_ok :: "agent_db \<Rightarrow> bool" where
  "db_ok db \<longleftrightarrow>
     rows_ok pw_id (db_proposal_seq db) (db_proposals db) \<and> rows_ok tw_id (db_tuning_seq db) (db_tuning db) \<and>
     rows_ok dw_id (db_decision_seq db) (db_decisions db) \<and> rows_ok aw_id (db_audit_seq db) (db_audit db) \<and>
     rows_ok cm_id (db_message_seq db) (db_messages db) \<and> distinct (map ct_thread_id (db_threads db)) \<and>
     (\<forall>m\<in>set (db_messages db). cm_thread_id m \<in> set (map ct_thread_id (db_threads db)))"

lemma sql_update_set:
  "r \<in> set rows \<Longrightarrow> (if P r then f r else r) \<in> set (snd (sql_update P f rows))"
  by (auto simp: sql_update_def)

section \<open>Statements as data\<close>

text \<open>Every statement of the store that writes, so that a history of the store is a list.\<close>

datatype statement =
    Insert_proposal string string string "(string, json) pydict" PolicyDecision string int bool pyfloat
  | Claim_proposal int ProposalStatus
  | Finish_proposal int ProposalStatus "string option" "string option" "string option" "(string, json) pydict option" pyfloat
  | Expire_stale pyfloat
  | Insert_tuning string string TunableField int int string "(string, json) pydict" pyfloat
  | Set_tuning_status int TuningStatus pyfloat
  | Insert_decision string string string "(string, json) pydict" "int option" bool "string option" pyfloat
  | Audit string AuditAction "string option" "int option" "(string, json) pydict" pyfloat
  | Ensure_thread string "string option" pyfloat
  | Append_message string string string "json list option" "(string, json) pydict option" bool pyfloat
  | Delete_thread string

fun execute :: "statement \<Rightarrow> agent_db \<Rightarrow> agent_db" where
  "execute (Insert_proposal a b c d e f g h t) db = snd (insert_proposal a b c d e f g h t db)"
| "execute (Claim_proposal i st) db = snd (claim_proposal i st db)"
| "execute (Finish_proposal i st a b c d t) db = snd (finish_proposal i st a b c d t db)"
| "execute (Expire_stale t) db = snd (expire_stale_proposals t db)"
| "execute (Insert_tuning a b c d e f g t) db = snd (insert_tuning a b c d e f g t db)"
| "execute (Set_tuning_status i st t) db = snd (set_tuning_status i st t db)"
| "execute (Insert_decision a b c d e f g t) db = snd (insert_decision a b c d e f g t db)"
| "execute (Audit a b c d e t) db = snd (audit_write a b c d e t db)"
| "execute (Ensure_thread a b t) db = snd (ensure_thread a b t db)"
| "execute (Append_message a b c d e f t) db = snd (append_message a b c d e f t db)"
| "execute (Delete_thread a) db = snd (delete_thread a db)"

lemmas insert_defs = insert_proposal_def insert_tuning_def insert_decision_def audit_write_def append_message_def

lemmas update_defs = claim_proposal_def finish_proposal_def expire_stale_proposals_def set_tuning_status_def

lemma threads_kept: "map ct_thread_id (map (\<lambda>t. if ct_thread_id t = i then t\<lparr>ct_last_active := a, ct_borrower := b t\<rparr> else t) ts) =
    map ct_thread_id ts"
  by (induction ts) auto

lemma execute_ok:
  assumes "db_ok db"
  shows "db_ok (execute q db)"
proof (cases q)
  case (Ensure_thread i b t)
  have "db_ok (db\<lparr>db_threads := map (\<lambda>t'. if ct_thread_id t' = i
      then t'\<lparr>ct_last_active := t, ct_borrower := coalesce b (ct_borrower t')\<rparr> else t') (db_threads db)\<rparr>)"
    using assms unfolding db_ok_def by (simp add: threads_kept del: map_map)
  then show ?thesis
    using assms Ensure_thread by (auto simp: ensure_thread_def db_ok_def)
next
  case (Delete_thread i)
  then show ?thesis using assms
    by (auto simp: delete_thread_def db_ok_def Let_def intro: rows_ok_filter distinct_map_filter)
next
  case (Append_message a b c d e f t)
  then show ?thesis using assms
    by (auto simp: db_ok_def append_message_def Let_def intro!: rows_ok_insert)
qed (use assms in \<open>auto simp: db_ok_def insert_defs update_defs Let_def sql_update_def
       intro!: rows_ok_insert rows_ok_map split: sum.splits\<close>)

text \<open>
  C19: every statement keeps the tables well formed: keys stay unique and increasing, no key is given out
  twice, thread names stay unique and every message belongs to a thread that exists.
\<close>

theorem store_keeps_wellformed:
  assumes "db_ok db"
  shows "db_ok (execute q db)"
  using assms by (rule execute_ok)

theorem store_keeps_wellformed_witness:
  "db_ok (execute (Append_message ''t'' ''user'' ''hi'' None None False (Fin 1)) (execute (Ensure_thread ''t'' None (Fin 0)) empty_db))"
proof -
  have "db_ok empty_db" by (simp add: db_ok_def empty_db_def)
  from store_keeps_wellformed [OF store_keeps_wellformed [OF this]] show ?thesis .
qed

section \<open>The contract of a claim\<close>

text \<open>
  A keyed table whose entries start undecided and are decided by a compare-and-set. The client is
  whoever runs claims among other statements; the provider promises what a claim does and that nothing
  else makes a decided entry undecided again.
\<close>

datatype ('k, 'a, 'o) claim_event = Claim 'k 'a bool | Other 'o

locale claim_table =
  fixes tab_ok :: "'s \<Rightarrow> bool" and status_of :: "'s \<Rightarrow> 'k \<Rightarrow> 'st option" and undecided :: 'st
    and claim :: "'k \<Rightarrow> 'a \<Rightarrow> 's \<Rightarrow> bool \<times> 's" and decision :: "'a \<Rightarrow> 'st" and other :: "'o \<Rightarrow> 's \<Rightarrow> 's"
    and harmless :: "'o \<Rightarrow> bool"
  assumes ok_claim: "tab_ok s \<Longrightarrow> tab_ok (snd (claim k a s))"
    and ok_other: "tab_ok s \<Longrightarrow> tab_ok (other e s)"
    and claim_wins: "tab_ok s \<Longrightarrow> fst (claim k a s) \<longleftrightarrow> status_of s k = Some undecided"
    and claim_sets: "tab_ok s \<Longrightarrow> status_of (snd (claim k a s)) k' =
      (if k' = k \<and> status_of s k = Some undecided then Some (decision a) else status_of s k')"
    and other_keeps: "tab_ok s \<Longrightarrow> harmless e \<Longrightarrow> status_of s k = Some st \<Longrightarrow> st \<noteq> undecided \<Longrightarrow>
      \<exists>st'. status_of (other e s) k = Some st' \<and> st' \<noteq> undecided"
begin

definition decided :: "'s \<Rightarrow> 'k \<Rightarrow> bool" where
  "decided s k \<longleftrightarrow> (\<exists>st. status_of s k = Some st \<and> st \<noteq> undecided)"

fun apply_event :: "('k, 'a, 'o) claim_event \<Rightarrow> 's \<Rightarrow> 's" where
  "apply_event (Claim k a won) s = snd (claim k a s)"
| "apply_event (Other e) s = other e s"

fun event_fits :: "('k, 'a, 'o) claim_event \<Rightarrow> 's \<Rightarrow> bool" where
  "event_fits (Claim k a won) s = (fst (claim k a s) = won \<and> decision a \<noteq> undecided)"
| "event_fits (Other e) s = harmless e"

inductive claim_run :: "'s \<Rightarrow> ('k, 'a, 'o) claim_event list \<Rightarrow> 's \<Rightarrow> bool" where
  cr_nil: "claim_run s [] s"
| cr_step: "event_fits e s \<Longrightarrow> claim_run (apply_event e s) es s' \<Longrightarrow> claim_run s (e # es) s'"

inductive_cases claim_run_consE: "claim_run s (e # es) s'"

lemma ok_event: "tab_ok s \<Longrightarrow> tab_ok (apply_event e s)"
  by (cases e) (auto intro: ok_claim ok_other)

lemma claim_run_ok: "claim_run s es s' \<Longrightarrow> tab_ok s \<Longrightarrow> tab_ok s'"
  by (induction rule: claim_run.induct) (auto intro: ok_event)

lemma claim_run_append: "claim_run s (es @ fs) s' \<Longrightarrow> \<exists>m. claim_run s es m \<and> claim_run m fs s'"
proof (induction es arbitrary: s)
  case (Cons e es)
  from Cons.prems show ?case by (auto elim!: claim_run_consE dest!: Cons.IH intro: claim_run.intros)
qed (auto intro: cr_nil)

lemma decided_event: "tab_ok s \<Longrightarrow> event_fits e s \<Longrightarrow> decided s k \<Longrightarrow> decided (apply_event e s) k"
  by (cases e) (auto simp: decided_def claim_sets dest: other_keeps)

lemma decided_run: "claim_run s es s' \<Longrightarrow> tab_ok s \<Longrightarrow> decided s k \<Longrightarrow> decided s' k"
  by (induction rule: claim_run.induct) (auto intro: ok_event decided_event)

lemma won_decides: "tab_ok s \<Longrightarrow> event_fits (Claim k a True) s \<Longrightarrow> decided (apply_event (Claim k a True) s) k"
  by (auto simp: decided_def claim_sets claim_wins)

text \<open>After one successful claim of a key there is no second.\<close>

lemma single_winner:
  assumes "tab_ok s" "claim_run s (as @ Claim k a True # bs @ Claim k a' True # cs) s'"
  shows False
proof -
  obtain m where m: "claim_run s as m" "claim_run m (Claim k a True # bs @ Claim k a' True # cs) s'"
    using claim_run_append [OF assms(2)] by blast
  have ok: "tab_ok m" using m(1) assms(1) by (rule claim_run_ok)
  from m(2) have f: "event_fits (Claim k a True) m"
    and r: "claim_run (apply_event (Claim k a True) m) (bs @ Claim k a' True # cs) s'"
    by (auto elim: claim_run_consE simp del: event_fits.simps apply_event.simps)
  obtain q where q: "claim_run (apply_event (Claim k a True) m) bs q" "claim_run q (Claim k a' True # cs) s'"
    using claim_run_append [OF r] by blast
  have ok1: "tab_ok (apply_event (Claim k a True) m)" using ok by (rule ok_event)
  have "decided q k" by (rule decided_run [OF q(1) ok1 won_decides [OF ok f]])
  moreover have "fst (claim k a' q)" using q(2) by (auto elim: claim_run_consE)
  ultimately show False
    using claim_wins [OF claim_run_ok [OF q(1) ok1]] by (auto simp: decided_def)
qed

end

section \<open>Both tables keep it\<close>

definition proposal_status :: "agent_db \<Rightarrow> int \<Rightarrow> ProposalStatus option" where
  "proposal_status db i = map_option pw_status (find (\<lambda>r. pw_id r = i) (db_proposals db))"

definition tuning_status :: "agent_db \<Rightarrow> int \<Rightarrow> TuningStatus option" where
  "tuning_status db i = map_option tw_status (find (\<lambda>r. tw_id r = i) (db_tuning db))"

definition won :: "bool res \<times> agent_db \<Rightarrow> bool \<times> agent_db" where
  "won r = (case r of (Inr b, db) \<Rightarrow> (b, db) | (Inl e, db) \<Rightarrow> (False, db))"

text \<open>The code only ever finishes a proposal with a status that is a decision.\<close>

fun decides :: "statement \<Rightarrow> bool" where
  "decides (Finish_proposal i st a b c d t) = (st \<noteq> PENDING)"
| "decides (Claim_proposal i st) = (st \<noteq> PENDING)"
| "decides (Set_tuning_status i st t) = (st \<noteq> OPEN)"
| "decides q = True"

lemma find_map_key:
  "(\<And>r. key (f r) = key r) \<Longrightarrow> find (\<lambda>r. key r = i) (map f rows) = map_option f (find (\<lambda>r. key r = i) rows)"
  by (induction rows) auto

lemma find_append: "find P (xs @ ys) = (case find P xs of None \<Rightarrow> find P ys | Some x \<Rightarrow> Some x)"
  by (induction xs) auto

lemma find_SomeD: "find P xs = Some x \<Longrightarrow> P x"
  by (induction xs) (auto split: if_splits)

lemma update_count:
  assumes "rows_ok key seq rows"
  shows "length (filter (\<lambda>r. key r = i \<and> P r) rows) = 1 \<longleftrightarrow> (\<exists>r. find (\<lambda>r. key r = i) rows = Some r \<and> P r)"
proof -
  have "distinct (map key rows) \<Longrightarrow> ?thesis"
  proof (induction rows)
    case (Cons r rows)
    show ?case
    proof (cases "key r = i")
      case True
      then have "filter (\<lambda>r. key r = i \<and> P r) rows = []" using Cons.prems by (simp add: filter_empty_conv) (metis image_eqI)
      then show ?thesis using True by simp
    next
      case False
      then show ?thesis using Cons by simp
    qed
  qed simp
  then show ?thesis using rows_ok_distinct [OF assms] by blast
qed

lemma find_update:
  assumes "rows_ok key seq rows" "\<And>r. key (f r) = key r"
  shows "map_option g (find (\<lambda>r. key r = i) (snd (sql_update P f rows))) =
    map_option (\<lambda>r. g (if P r then f r else r)) (find (\<lambda>r. key r = i) rows)"
  unfolding sql_update_def snd_conv using assms(2) by (subst find_map_key) (auto simp: option.map_comp comp_def)

lemma claim_proposal_result:
  assumes "db_ok db"
  shows "fst (won (claim_proposal i st db)) \<longleftrightarrow> proposal_status db i = Some PENDING"
    and "proposal_status (snd (won (claim_proposal i st db))) j =
      (if j = i \<and> proposal_status db i = Some PENDING then Some st else proposal_status db j)"
proof -
  have ok: "rows_ok pw_id (db_proposal_seq db) (db_proposals db)" using assms by (simp add: db_ok_def)
  show "fst (won (claim_proposal i st db)) \<longleftrightarrow> proposal_status db i = Some PENDING"
    using update_count [OF ok, of i "\<lambda>r. pw_status r = PENDING"]
    by (auto simp: claim_proposal_def won_def sql_update_def Let_def proposal_status_def)
  show "proposal_status (snd (won (claim_proposal i st db))) j =
      (if j = i \<and> proposal_status db i = Some PENDING then Some st else proposal_status db j)"
    using find_update [OF ok, of "\<lambda>r. r\<lparr>pw_status := st\<rparr>" pw_status j "\<lambda>r. pw_id r = i \<and> pw_status r = PENDING"]
    by (cases "j = i"; cases "find (\<lambda>r. pw_id r = j) (db_proposals db)")
      (auto simp: claim_proposal_def won_def Let_def proposal_status_def case_prod_beta dest: find_SomeD)
qed

lemma set_tuning_result:
  assumes "db_ok db"
  shows "fst (won (set_tuning_status i st t db)) \<longleftrightarrow> tuning_status db i = Some OPEN"
    and "tuning_status (snd (won (set_tuning_status i st t db))) j =
      (if j = i \<and> tuning_status db i = Some OPEN then Some st else tuning_status db j)"
proof -
  have ok: "rows_ok tw_id (db_tuning_seq db) (db_tuning db)" using assms by (simp add: db_ok_def)
  show "fst (won (set_tuning_status i st t db)) \<longleftrightarrow> tuning_status db i = Some OPEN"
    using update_count [OF ok, of i "\<lambda>r. tw_status r = OPEN"]
    by (auto simp: set_tuning_status_def won_def sql_update_def Let_def tuning_status_def)
  show "tuning_status (snd (won (set_tuning_status i st t db))) j =
      (if j = i \<and> tuning_status db i = Some OPEN then Some st else tuning_status db j)"
    using find_update [OF ok, of "\<lambda>r. r\<lparr>tw_status := st, tw_decided_at := Some t\<rparr>" tw_status j
        "\<lambda>r. tw_id r = i \<and> tw_status r = OPEN"]
    by (cases "j = i"; cases "find (\<lambda>r. tw_id r = j) (db_tuning db)")
      (auto simp: set_tuning_status_def won_def Let_def tuning_status_def case_prod_beta dest: find_SomeD)
qed

lemma won_execute:
  "snd (won (claim_proposal i st db)) = execute (Claim_proposal i st) db"
  "snd (won (set_tuning_status i st' t db)) = execute (Set_tuning_status i st' t) db"
  by (simp_all add: won_def claim_proposal_def set_tuning_status_def Let_def split: prod.splits)

lemma won_ok:
  "db_ok db \<Longrightarrow> db_ok (snd (won (claim_proposal i st db)))"
  "db_ok db \<Longrightarrow> db_ok (snd (won (set_tuning_status i st' t db)))"
  by (simp_all only: won_execute execute_ok)

lemma updated_status:
  assumes "db_ok db" "\<And>r. pw_id (f r) = pw_id r"
  shows "proposal_status (db\<lparr>db_proposals := snd (sql_update P f (db_proposals db))\<rparr>) k =
    map_option (\<lambda>r. pw_status (if P r then f r else r)) (find (\<lambda>r. pw_id r = k) (db_proposals db))"
  using assms find_update [of pw_id "db_proposal_seq db" "db_proposals db" f pw_status k P]
  by (simp add: proposal_status_def db_ok_def)

lemma execute_keeps_decided:
  assumes "db_ok db" "decides q" "proposal_status db k = Some st" "st \<noteq> PENDING"
  shows "\<exists>st'. proposal_status (execute q db) k = Some st' \<and> st' \<noteq> PENDING"
proof (cases q)
  case (Claim_proposal i st')
  then show ?thesis
    using assms claim_proposal_result(2) [OF assms(1), of i st' k] by (auto simp: won_execute)
next
  case (Finish_proposal i st' a b c d t)
  then show ?thesis using assms
    by (auto simp: finish_proposal_def updated_status case_prod_beta Let_def proposal_status_def [of db])
next
  case (Expire_stale t)
  then show ?thesis using assms
    by (auto simp: expire_stale_proposals_def updated_status case_prod_beta Let_def proposal_status_def [of db])
qed (use assms(3,4) in \<open>auto simp: proposal_status_def insert_defs set_tuning_status_def ensure_thread_def
      delete_thread_def Let_def find_append case_prod_beta split: sum.splits option.splits\<close>)

lemma execute_keeps_tuning_decided:
  assumes "db_ok db" "decides q" "tuning_status db k = Some st" "st \<noteq> OPEN"
  shows "\<exists>st'. tuning_status (execute q db) k = Some st' \<and> st' \<noteq> OPEN"
proof (cases q)
  case (Set_tuning_status i st' t)
  then show ?thesis
    using assms set_tuning_result(2) [OF assms(1), of i st' t k] by (auto simp: won_execute)
qed (use assms(3,4) in \<open>auto simp: tuning_status_def insert_defs update_defs ensure_thread_def
      delete_thread_def Let_def find_append case_prod_beta split: sum.splits option.splits\<close>)

interpretation pt: claim_table db_ok proposal_status PENDING "\<lambda>i st db. won (claim_proposal i st db)" "\<lambda>st. st" execute decides
  by unfold_locales (auto simp: claim_proposal_result won_ok execute_ok intro: execute_keeps_decided)

interpretation tt: claim_table db_ok tuning_status OPEN "\<lambda>i a db. won (set_tuning_status i (fst a) (snd a) db)" fst execute decides
  by unfold_locales (auto simp: set_tuning_result won_ok execute_ok intro: execute_keeps_tuning_decided)

text \<open>
  C12: in every history of the store, two claims of the same proposal never both win, whoever makes them and
  whatever statements run between, and the same holds for closing a tuning suggestion.
\<close>

theorem one_claim_wins:
  assumes "db_ok db"
  shows "\<not> pt.claim_run db (as @ Claim k st True # bs @ Claim k st' True # cs) db' \<and>
     \<not> tt.claim_run db (ds @ Claim i a True # es @ Claim i a' True # fs) db''"
  using assms pt.single_winner tt.single_winner by blast

section \<open>Reading back\<close>

text \<open>
  A proposal that was inserted is read back with the values given, pending, under a key no row had,
  and every other row is read as before.
\<close>

lemma insert_then_get:
  assumes "db_ok db" "insert_proposal run b strat facts gate why ttl flag ts db = (Inr i, db')"
  shows "(\<exists>r. fst (get_proposal i db') = Inr (Some r) \<and> pw_id r = i \<and> pw_run_id r = run \<and> pw_borrower r = b \<and>
        pw_strategy r = strat \<and> pw_facts r = facts \<and> pw_gate r = gate \<and> pw_rationale r = why \<and>
        pw_guard_flagged r = flag \<and> pw_created_at r = ts \<and> pw_status r = PENDING) \<and>
     fst (get_proposal i db) = Inr None \<and> (\<forall>j. j \<noteq> i \<longrightarrow> fst (get_proposal j db') = fst (get_proposal j db))"
proof -
  have "\<forall>r\<in>set (db_proposals db). pw_id r \<le> db_proposal_seq db" using assms(1) by (simp add: db_ok_def rows_ok_def)
  then have none: "find (\<lambda>r. pw_id r = db_proposal_seq db + 1) (db_proposals db) = None"
    by (auto simp: find_None_iff)
  show ?thesis using assms(2) none
    by (auto simp: insert_proposal_def get_proposal_def find_append Let_def split: sum.splits option.splits)
qed

text \<open>A history is the newest end of the thread's messages, oldest first.\<close>

lemma history_is_newest:
  assumes "db_ok db" "0 \<le> limit"
  shows "thread_history i limit db = (Inr (let ms = filter (\<lambda>m. cm_thread_id m = i) (db_messages db)
    in drop (length ms - nat limit) ms), db)"
proof -
  have "rows_ok cm_id (db_message_seq db) (filter (\<lambda>m. cm_thread_id m = i) (db_messages db))"
    using assms(1) by (intro rows_ok_filter) (simp add: db_ok_def)
  then show ?thesis using assms(2)
    by (simp add: thread_history_def sql_limit_def newest_first_def sort_key_rows Let_def rev_take)
qed

section \<open>An example\<close>

definition demo_proposal :: PolicyDecision where
  "demo_proposal = \<lparr>pd_allowed = True, pd_checks = [], pd_blocking = [], pd_severity = Sev_ok\<rparr>"

definition demo_db :: agent_db where
  "demo_db = snd (insert_proposal ''run'' ''alice'' ''protect_now'' [] demo_proposal ''why'' 900 False (Fin 100) empty_db)"

lemma empty_db_ok: "db_ok empty_db"
  by (simp add: db_ok_def empty_db_def)

lemma demo_db_ok: "db_ok demo_db"
  using execute_ok [OF empty_db_ok, of "Insert_proposal ''run'' ''alice'' ''protect_now'' [] demo_proposal ''why'' 900 False (Fin 100)"]
  by (simp add: demo_db_def)

lemma demo_floats_store: "float_of_int 900 = Inr (Fin 900)" "to_float 1000 = Fin 1000"
  using float_of_int_small [of 900] to_float_dyadic [of 1000 1000 0] by simp_all

definition demo_row :: ProposalRow where
  "demo_row = \<lparr>pw_id = 1, pw_run_id = ''run'', pw_borrower = ''alice'', pw_created_at = Fin 100,
     pw_expires_at = Fin 1000, pw_status = PENDING, pw_strategy = ''protect_now'', pw_facts = [],
     pw_gate = demo_proposal, pw_rationale = ''why'', pw_guard_flagged = False, pw_decided_at = None,
     pw_decided_by = None, pw_decision_note = None, pw_tx_hash = None, pw_result = None\<rparr>"

lemma demo_insert:
  "insert_proposal ''run'' ''alice'' ''protect_now'' [] demo_proposal ''why'' 900 False (Fin 100) empty_db = (Inr 1, demo_db)"
  "db_proposals demo_db = [demo_row]"
  by (simp_all only: demo_db_def) (simp_all add: insert_proposal_def demo_floats_store demo_row_def Let_def empty_db_def)

theorem one_claim_wins_witness:
  "(\<exists>db'. pt.claim_run demo_db [Claim 1 APPROVED True, Claim 1 REJECTED False] db') \<and>
   (\<forall>db'. \<not> pt.claim_run demo_db [Claim 1 APPROVED True, Claim 1 REJECTED True] db')"
proof
  have "pt.event_fits (Claim 1 APPROVED True) demo_db"
    "pt.event_fits (Claim 1 REJECTED False) (snd (won (claim_proposal 1 APPROVED demo_db)))"
    unfolding pt.event_fits.simps by (simp_all add: claim_proposal_def sql_update_def won_def demo_insert demo_row_def)
  then show "\<exists>db'. pt.claim_run demo_db [Claim 1 APPROVED True, Claim 1 REJECTED False] db'"
    by (auto intro!: exI pt.claim_run.intros)
  show "\<forall>db'. \<not> pt.claim_run demo_db [Claim 1 APPROVED True, Claim 1 REJECTED True] db'"
    using one_claim_wins [OF demo_db_ok, of "[]" 1 APPROVED "[]" REJECTED "[]"] by simp
qed

lemma insert_then_get_witness:
  "fst (get_proposal 1 empty_db) = Inr None \<and> (\<exists>r. fst (get_proposal 1 demo_db) = Inr (Some r) \<and> pw_status r = PENDING)"
  using insert_then_get [OF empty_db_ok demo_insert(1)] by blast

end
