(* ===== verification/Chain_Client.thy ===== *)
theory Chain_Client
  imports FinaX_Prelude
begin

text \<open>
  \<^verbatim>\<open>app/chain/client.py\<close>: the RPC client with retry, failover and a sticky active endpoint. The state
  is an extensible record whose first part is the client, so that an awaited call, which is a
  function of the whole state, may also change the client: a re-entrant call does, and so does
  any other task that runs meanwhile.
\<close>

section \<open>State\<close>

type_synonym contract_key = "nat \<times> string \<times> nat"

record ChainClient =
  cl_urls :: "string list"
  cl_max_retries :: int
  cl_active :: nat
  cl_contracts :: "(contract_key, contract_key) pydict"

record chain_state =
  ch_client :: ChainClient

definition opt_or :: "string option \<Rightarrow> string \<Rightarrow> string" where
  "opt_or a b = (case a of None \<Rightarrow> b | Some x \<Rightarrow> if x = [] then b else x)"

definition chain_client_init ::
  "string option \<Rightarrow> string option \<Rightarrow> string \<Rightarrow> string \<Rightarrow> int option \<Rightarrow> int \<Rightarrow> ChainClient res" where
  "chain_client_init primary_url fallback_url rpc_url rpc_url_fallback max_retries rpc_max_retries =
     (let urls = filter (\<lambda>u. u \<noteq> []) [opt_or primary_url rpc_url, opt_or fallback_url rpc_url_fallback] in
      if urls = [] then Inl (ChainClientError ''No RPC URL configured (set ARBITRUM_RPC_URL).'')
      else Inr \<lparr>cl_urls = urls,
                cl_max_retries = (case max_retries of None \<Rightarrow> rpc_max_retries | Some n \<Rightarrow> n),
                cl_active = 0, cl_contracts = []\<rparr>)"

text \<open>A contract object is identified by the endpoint, address and ABI it is bound to.\<close>

definition client_contract ::
  "(string \<Rightarrow> string res) \<Rightarrow> string \<Rightarrow> nat \<Rightarrow> ChainClient \<Rightarrow> contract_key res \<times> ChainClient" where
  "client_contract checksum address abi c =
     (case checksum address of
        Inl e \<Rightarrow> (Inl e, c)
      | Inr addr \<Rightarrow>
          let key = (cl_active c, addr, abi) in
          case dict_get (cl_contracts c) key of
            Some cached \<Rightarrow> (Inr cached, c)
          | None \<Rightarrow> (Inr key, c\<lparr>cl_contracts := dict_set key key (cl_contracts c)\<rparr>))"

section \<open>The retry loop\<close>

fun retryable :: "exn \<Rightarrow> bool" where
  "retryable (TimeoutError m) = True"
| "retryable (ConnectionError m) = True"
| "retryable (OSError m) = True"
| "retryable e = False"

abbreviation set_active :: "nat \<Rightarrow> 'z chain_state_scheme \<Rightarrow> 'z chain_state_scheme" where
  "set_active i s \<equiv> s\<lparr>ch_client := (ch_client s)\<lparr>cl_active := i\<rparr>\<rparr>"

abbreviation active :: "'z chain_state_scheme \<Rightarrow> nat" where
  "active s \<equiv> cl_active (ch_client s)"

datatype 'a attempt_outcome = Finished "'a res" | Exhausted "exn option"

text \<open>
  The inner loop: \<open>n\<close> attempts are left on endpoint \<open>idx\<close>, \<open>attempt\<close> counts from one. The back-off
  \<^verbatim>\<open>sleep\<close> is awaited and may itself be interrupted.
\<close>

fun try_endpoint ::
  "(nat \<Rightarrow> ('z chain_state_scheme, 'a) io) \<Rightarrow> (nat \<Rightarrow> ('z chain_state_scheme, unit) io) \<Rightarrow>
     nat \<Rightarrow> nat \<Rightarrow> nat \<Rightarrow> exn option \<Rightarrow> 'z chain_state_scheme \<Rightarrow>
     'a attempt_outcome \<times> 'z chain_state_scheme" where
  "try_endpoint fn sleep idx attempt 0 last_exc s = (Exhausted last_exc, s)"
| "try_endpoint fn sleep idx attempt (Suc n) last_exc s =
     (case fn idx s of
        (Inr a, s') \<Rightarrow> (Finished (Inr a), set_active idx s')
      | (Inl e, s') \<Rightarrow>
          if retryable e
          then (case sleep attempt s' of
                  (Inl x, s'') \<Rightarrow> (Finished (Inl x), s'')
                | (Inr _, s'') \<Rightarrow> try_endpoint fn sleep idx (attempt + 1) n (Some e) s'')
          else (Finished (Inl e), s'))"

text \<open>
  The outer loop: \<open>k\<close> of the \<open>total_n\<close> endpoints are left. The endpoint index is computed from the
  active index as it is when the iteration starts.
\<close>

fun try_endpoints ::
  "(nat \<Rightarrow> ('z chain_state_scheme, 'a) io) \<Rightarrow> (nat \<Rightarrow> ('z chain_state_scheme, unit) io) \<Rightarrow>
     nat \<Rightarrow> nat \<Rightarrow> exn option \<Rightarrow> ('z chain_state_scheme, 'a) io" where
  "try_endpoints fn sleep total_n 0 last_exc s =
     (Inl (ChainClientError (''All RPC endpoints failed; last error: '' @
        (case last_exc of None \<Rightarrow> ''None'' | Some e \<Rightarrow> exn_str e))), s)"
| "try_endpoints fn sleep total_n (Suc k) last_exc s =
     (let offset = total_n - Suc k;
          idx = (active s + offset) mod total_n
      in case try_endpoint fn sleep idx 1 (nat (cl_max_retries (ch_client s))) last_exc s of
           (Finished r, s') \<Rightarrow> (r, s')
         | (Exhausted last_exc', s') \<Rightarrow> try_endpoints fn sleep total_n k last_exc' s')"

definition client_call ::
  "(nat \<Rightarrow> ('z chain_state_scheme, unit) io) \<Rightarrow> (nat \<Rightarrow> ('z chain_state_scheme, 'a) io) \<Rightarrow>
     ('z chain_state_scheme, 'a) io" where
  "client_call sleep fn s =
     (let total_n = length (cl_urls (ch_client s)) in try_endpoints fn sleep total_n total_n None s)"

definition client_is_connected ::
  "(nat \<Rightarrow> ('z chain_state_scheme, unit) io) \<Rightarrow> (nat \<Rightarrow> ('z chain_state_scheme, int) io) \<Rightarrow>
     ('z chain_state_scheme, bool) io" where
  "client_is_connected sleep chain_id =
     io_try (io_bind (client_call sleep chain_id) (\<lambda>_. io_return True)) (\<lambda>_. io_return False)"

fun disconnect_all :: "(nat \<Rightarrow> ('z chain_state_scheme, unit) io) \<Rightarrow> nat list \<Rightarrow> ('z chain_state_scheme, unit) io" where
  "disconnect_all disconnect [] = io_return ()"
| "disconnect_all disconnect (i # is) =
     io_bind (io_try (disconnect i) (\<lambda>_. io_return ())) (\<lambda>_. disconnect_all disconnect is)"

definition client_close :: "(nat \<Rightarrow> ('z chain_state_scheme, unit) io) \<Rightarrow> ('z chain_state_scheme, unit) io" where
  "client_close disconnect s =
     io_bind (disconnect_all disconnect [0..<length (cl_urls (ch_client s))])
       (\<lambda>_ s'. (Inr (), s'\<lparr>ch_client := (ch_client s')\<lparr>cl_contracts := []\<rparr>\<rparr>)) s"

section \<open>Where a result or an exception comes from\<close>

lemma try_endpoint_Inr:
  "try_endpoint fn sleep i n k l s = (Finished (Inr a), s') \<Longrightarrow>
     (\<exists>u v. fn i u = (Inr a, v) \<and> s' = set_active i v)"
  by (induction fn sleep i n k l s rule: try_endpoint.induct)
    (auto split: prod.splits sum.splits if_splits)

lemma try_endpoints_Inr:
  "try_endpoints fn sleep total_n k l s = (Inr a, s') \<Longrightarrow>
     \<exists>i u v. fn i u = (Inr a, v) \<and> s' = set_active i v"
proof (induction fn sleep total_n k l s rule: try_endpoints.induct)
  case (2 fn sleep total_n k l s)
  then show ?case
    by (auto simp: Let_def split: prod.splits attempt_outcome.splits dest!: try_endpoint_Inr)
qed simp

text \<open>A returned value is a value some endpoint returned, and that endpoint is active afterwards.\<close>

lemma client_call_Inr:
  "client_call sleep fn s = (Inr a, s') \<Longrightarrow> \<exists>i u v. fn i u = (Inr a, v) \<and> s' = set_active i v"
  unfolding client_call_def Let_def by (blast dest: try_endpoints_Inr)

section \<open>Failover\<close>

text \<open>
  A plain read neither re-enters the client nor lets another task move it: \<open>steady\<close> says that a
  call leaves the client alone.
\<close>

definition steady :: "('z chain_state_scheme, 'a) io \<Rightarrow> bool" where
  "steady m \<longleftrightarrow> (\<forall>s. ch_client (snd (m s)) = ch_client s)"

definition patient :: "(nat \<Rightarrow> ('z chain_state_scheme, unit) io) \<Rightarrow> bool" where
  "patient sleep \<longleftrightarrow> (\<forall>n s. fst (sleep n s) = Inr ()) \<and> (\<forall>n. steady (sleep n))"

definition transient :: "('z chain_state_scheme, 'a) io \<Rightarrow> bool" where
  "transient m \<longleftrightarrow> (\<forall>s e. fst (m s) = Inl e \<longrightarrow> retryable e)"

definition healthy :: "('z chain_state_scheme, 'a) io \<Rightarrow> bool" where
  "healthy m \<longleftrightarrow> (\<forall>s. is_ok (fst (m s)))"

lemma try_endpoint_steady:
  assumes "steady (fn i)" "patient sleep" "transient (fn i)"
  shows "case try_endpoint fn sleep i n k l s of
     (Finished r, s') \<Rightarrow> is_ok r \<and> active s' = i
   | (Exhausted l', s') \<Rightarrow> ch_client s' = ch_client s"
proof (induction k arbitrary: n l s)
  case (Suc k)
  obtain r t where t: "fn i s = (r, t)" by fastforce
  then have ct: "ch_client t = ch_client s" using assms(1) by (metis steady_def snd_conv)
  show ?case
  proof (cases r)
    case (Inl e)
    have e: "retryable e" using assms(3) t Inl by (metis transient_def fst_conv)
    obtain q where q: "sleep n t = (Inr (), q)" "ch_client q = ch_client t"
      using assms(2) by (metis patient_def steady_def prod.collapse)
    show ?thesis using Suc [where n = "n + 1" and l = "Some e" and s = q] t Inl e q ct by (auto split: prod.splits attempt_outcome.splits)
  qed (simp add: t)
qed simp

lemma try_endpoint_healthy:
  "healthy (fn i) \<Longrightarrow> \<exists>a s'. try_endpoint fn sleep i n (Suc k) l s = (Finished (Inr a), set_active i s')"
proof -
  assume "healthy (fn i)"
  then obtain a s' where "fn i s = (Inr a, s')" by (metis healthy_def is_ok_iff prod.collapse)
  then show ?thesis by auto
qed

lemma try_endpoints_failover:
  assumes "\<forall>i. steady (fn i)" "patient sleep" "\<forall>i. transient (fn i)"
    and "healthy (fn ((active s + d) mod total_n))" "total_n - k \<le> d" "d < total_n" "k \<le> total_n"
    and "1 \<le> cl_max_retries (ch_client s)"
  shows "\<exists>a s'. try_endpoints fn sleep total_n k l s = (Inr a, s')"
  using assms(4-8)
proof (induction k arbitrary: l s)
  case (Suc k)
  let ?i = "(active s + (total_n - Suc k)) mod total_n" and ?n = "nat (cl_max_retries (ch_client s))"
  obtain o' s' where o: "try_endpoint fn sleep ?i 1 ?n l s = (o', s')" by fastforce
  have "steady (fn ?i)" "transient (fn ?i)" using assms(1,3) by auto
  from try_endpoint_steady [of fn ?i, OF this(1) assms(2) this(2)]
  have st: "case (o', s') of (Finished r, s') \<Rightarrow> is_ok r \<and> active s' = ?i
     | (Exhausted l', s') \<Rightarrow> ch_client s' = ch_client s"
    unfolding o [symmetric] .
  show ?case
  proof (cases o')
    case (Finished r)
    then show ?thesis using st o by (auto simp: is_ok_iff Let_def)
  next
    case (Exhausted l')
    have same: "ch_client s' = ch_client s" using st o Exhausted by simp
    have "d \<noteq> total_n - Suc k"
    proof
      assume "d = total_n - Suc k"
      then have "healthy (fn ?i)" using Suc.prems(1) by simp
      moreover obtain m where "?n = Suc m" using Suc.prems(5) by (cases ?n) auto
      ultimately obtain a t where "try_endpoint fn sleep ?i 1 ?n l s = (Finished (Inr a), set_active ?i t)"
        using try_endpoint_healthy [of fn ?i] by metis
      then show False using o Exhausted by simp
    qed
    then have "\<exists>a t. try_endpoints fn sleep total_n k l' s' = (Inr a, t)"
      using Suc.prems same by (intro Suc.IH) auto
    then show ?thesis using o Exhausted by (simp add: Let_def)
  qed
qed simp

lemma rotate_reach:
  fixes a j :: nat
  assumes "a < n" "j < n"
  shows "\<exists>d<n. (a + d) mod n = j"
proof (cases "a \<le> j")
  case True
  then show ?thesis using assms by (intro exI [of _ "j - a"]) auto
next
  case False
  then have "(a + (n - a + j)) mod n = j" using assms by simp
  then show ?thesis using assms False by (intro exI [of _ "n - a + j"]) auto
qed

text \<open>
  C26: one healthy endpoint is enough. Whatever the active endpoint, if reads leave the client
  alone, fail only at the transport level and some endpoint always answers, the call returns a
  value an endpoint gave, and that endpoint is the active one afterwards.
\<close>

theorem call_fails_over:
  assumes "\<forall>i. steady (fn i)" and "patient sleep" and "\<forall>i. transient (fn i)"
    and "j < length (cl_urls (ch_client s))" and "healthy (fn j)"
    and "active s < length (cl_urls (ch_client s))" and "1 \<le> cl_max_retries (ch_client s)"
  shows "\<exists>a i u v. client_call sleep fn s = (Inr a, set_active i v) \<and> fn i u = (Inr a, v)"
proof -
  obtain d where d: "d < length (cl_urls (ch_client s))" "(active s + d) mod length (cl_urls (ch_client s)) = j"
    using rotate_reach assms(4,6) by blast
  have "healthy (fn ((active s + d) mod length (cl_urls (ch_client s))))" using d assms(5) by simp
  from try_endpoints_failover [OF assms(1-3) this _ d(1) order_refl assms(7), of None]
  obtain a s' where "client_call sleep fn s = (Inr a, s')" unfolding client_call_def Let_def by auto
  then show ?thesis using client_call_Inr by metis
qed

definition two_endpoints :: "unit chain_state_scheme" where
  "two_endpoints = \<lparr>ch_client = \<lparr>cl_urls = [''p'', ''f''], cl_max_retries = 2, cl_active = 0, cl_contracts = []\<rparr>, \<dots> = ()\<rparr>"

theorem call_fails_over_witness:
  "\<exists>a i u v. client_call (\<lambda>_. io_return ()) (\<lambda>i. if i = 0 then io_raise (TimeoutError '''') else io_return (7::int))
     two_endpoints = (Inr a, set_active i v) \<and>
     (if i = 0 then io_raise (TimeoutError '''') else io_return (7::int)) u = (Inr a, v)"
  by (rule call_fails_over [where j = 1])
    (auto simp: steady_def patient_def transient_def healthy_def io_return_def io_raise_def two_endpoints_def)

lemma client_call_first:
  assumes "fn (active s) s = (Inr a, s')" and "active s < length (cl_urls (ch_client s))"
    and "1 \<le> cl_max_retries (ch_client s)"
  shows "client_call sleep fn s = (Inr a, set_active (active s) s')"
proof -
  obtain n where n: "length (cl_urls (ch_client s)) = Suc n" using assms(2) by (cases "cl_urls (ch_client s)") auto
  obtain m where m: "nat (cl_max_retries (ch_client s)) = Suc m"
    using assms(3) by (cases "nat (cl_max_retries (ch_client s))") auto
  have "active s mod Suc n = active s" using assms(2) n by simp
  then show ?thesis using assms(1) by (simp add: client_call_def Let_def n m)
qed

section \<open>A re-entrant call can lose the fallback\<close>

text \<open>
  Endpoint 1 answers everything and endpoint 0 nothing. A read that first makes a call of its own
  moves the active index to 1 while the outer loop is still at offset 0; the outer loop then
  computes \<open>(1 + 1) mod 2 = 0\<close> and returns to the dead endpoint.
\<close>

definition dead_primary :: "nat \<Rightarrow> ('z chain_state_scheme, int) io" where
  "dead_primary i = (if i = 0 then io_raise (ConnectionError ''refused'') else io_return 7)"

definition reentrant_read :: "nat \<Rightarrow> ('z chain_state_scheme, int) io" where
  "reentrant_read i = io_bind (client_call (\<lambda>_. io_return ()) dead_primary) (\<lambda>_. dead_primary i)"

text \<open>
  With the primary endpoint down and the fallback answering every request, a plain read
  succeeds on the fallback, but a read that itself goes through the client (as every pool and oracle
  read does until the address is cached) reports that all endpoints failed.
\<close>

lemma reentrant_call_misses_fallback:
  "fst (client_call (\<lambda>_. io_return ()) dead_primary two_endpoints) = Inr 7 \<and>
   fst (client_call (\<lambda>_. io_return ()) reentrant_read two_endpoints) =
     Inl (ChainClientError ''All RPC endpoints failed; last error: refused'')"
  by (simp add: client_call_def two_endpoints_def dead_primary_def reentrant_read_def io_bind_def
      io_raise_def io_return_def numeral_2_eq_2 Let_def)

end
