(* ===== verification/App_Settings.thy ===== *)
theory App_Settings
  imports Py_Float
begin

text \<open>
  \<^verbatim>\<open>app/config/settings.py\<close>: the configuration record and its defaults. Every other theory takes the
  settings it reads as an argument of this type.
\<close>

record Settings =
  st_chain_id :: int
  st_arbitrum_rpc_url :: string
  st_arbitrum_rpc_url_fallback :: string
  st_fork_block :: int
  st_rpc_timeout_seconds :: pyfloat
  st_rpc_max_retries :: int
  st_poll_interval_seconds :: int
  st_vault_address :: string
  st_pool_addresses_provider :: string
  st_swap_router :: string
  st_quoter_v2 :: string
  st_chainlink_eth_usd :: string
  st_chainlink_usdc_usd :: string
  st_oracle_max_staleness_seconds :: int
  st_keeper_private_key :: string
  st_breaker_max_consecutive_failures :: int
  st_inflight_cooldown_seconds :: int
  st_max_simulation_bumps :: int
  st_autonomous_enabled :: bool
  st_worker_enabled :: bool
  st_demo_mode :: bool
  st_agent_enabled :: bool
  st_gemini_api_key :: string
  st_agent_model :: string
  st_agent_temperature :: pyfloat
  st_agent_timeout_seconds :: pyfloat
  st_agent_max_tool_loops :: int
  st_agent_db_path :: string
  st_agent_chat_history_turns :: int
  st_agent_max_repay_fraction :: pyfloat
  st_agent_max_cost_bps :: int
  st_agent_min_hf_gap_bps :: int
  st_agent_proposal_ttl_seconds :: int
  st_agent_max_proposals_per_hour :: int
  st_agent_max_proposals_global_per_hour :: int
  st_agent_crew_on_tick :: bool

definition default_settings :: Settings where
  "default_settings = \<lparr>
     st_chain_id = 42161,
     st_arbitrum_rpc_url = '''',
     st_arbitrum_rpc_url_fallback = '''',
     st_fork_block = 0,
     st_rpc_timeout_seconds = Fin 20,
     st_rpc_max_retries = 3,
     st_poll_interval_seconds = 12,
     st_vault_address = '''',
     st_pool_addresses_provider = ''0xa97684ead0e402dC232d5A977953DF7ECBaB3CDb'',
     st_swap_router = ''0x68b3465833fb72A70ecDF485E0e4C7bD8665Fc45'',
     st_quoter_v2 = ''0x61fFE014bA17989E743c5F6cB21bF9697530B21e'',
     st_chainlink_eth_usd = ''0x639Fe6ab55C921f74e7fac1ee960C0B6293ba612'',
     st_chainlink_usdc_usd = ''0x50834F3163758fcC1Df9973b6e91f0F0F0434aD3'',
     st_oracle_max_staleness_seconds = 3600,
     st_keeper_private_key = '''',
     st_breaker_max_consecutive_failures = 3,
     st_inflight_cooldown_seconds = 30,
     st_max_simulation_bumps = 3,
     st_autonomous_enabled = True,
     st_worker_enabled = True,
     st_demo_mode = False,
     st_agent_enabled = False,
     st_gemini_api_key = '''',
     st_agent_model = ''gemini-2.5-flash'',
     st_agent_temperature = to_float (1 / 5),
     st_agent_timeout_seconds = Fin 30,
     st_agent_max_tool_loops = 6,
     st_agent_db_path = ''.agent/finax_agent.db'',
     st_agent_chat_history_turns = 20,
     st_agent_max_repay_fraction = Fin (1 / 2),
     st_agent_max_cost_bps = 200,
     st_agent_min_hf_gap_bps = 25,
     st_agent_proposal_ttl_seconds = 900,
     st_agent_max_proposals_per_hour = 3,
     st_agent_max_proposals_global_per_hour = 12,
     st_agent_crew_on_tick = False\<rparr>"

end
