(* ===== verification/Chain_Reads.thy ===== *)
theory Chain_Reads
  imports Chain_Client Models App_Settings "HOL-Library.Word"
begin

unbundle bit_operations_syntax

text \<open>
  \<^verbatim>\<open>app/chain/aave.py\<close>, \<^verbatim>\<open>oracle.py\<close>, \<^verbatim>\<open>erc20.py\<close> and \<^verbatim>\<open>uniswap.py\<close>: the typed reads over the RPC client. The
  contracts behind an endpoint, the checksum routine and the ABI encoder are parameters gathered in
  the record \<open>node\<close>; its first argument is the index of the endpoint asked. Every contract read may
  change the whole state, because other tasks run while it is awaited.
\<close>

section \<open>What an endpoint answers\<close>

type_synonym account_tuple = "int \<times> int \<times> int \<times> int \<times> int \<times> int"

record 's node =
  nd_checksum :: "string \<Rightarrow> string res"
  nd_sleep :: "nat \<Rightarrow> ('s, unit) io"
  nd_encode_abi :: "string \<Rightarrow> json list \<Rightarrow> string res"
  nd_getPool :: "nat \<Rightarrow> ('s, string) io"
  nd_getPriceOracle :: "nat \<Rightarrow> ('s, string) io"
  nd_getUserAccountData :: "string \<Rightarrow> string \<Rightarrow> nat \<Rightarrow> ('s, account_tuple) io"
  nd_getReserveData :: "string \<Rightarrow> string \<Rightarrow> nat \<Rightarrow> ('s, int \<times> string \<times> string) io"
  nd_getAssetPrice :: "string \<Rightarrow> string \<Rightarrow> nat \<Rightarrow> ('s, int) io"
  nd_latestRoundData :: "string \<Rightarrow> nat \<Rightarrow> ('s, int \<times> int \<times> int \<times> int \<times> int) io"
  nd_feedDecimals :: "string \<Rightarrow> nat \<Rightarrow> ('s, nat) io"
  nd_latestTimestamp :: "nat \<Rightarrow> ('s, int) io"
  nd_decimals :: "string \<Rightarrow> nat \<Rightarrow> ('s, nat) io"
  nd_balanceOf :: "string \<Rightarrow> string \<Rightarrow> nat \<Rightarrow> ('s, int) io"
  nd_allowance :: "string \<Rightarrow> string \<Rightarrow> string \<Rightarrow> nat \<Rightarrow> ('s, int) io"
  nd_quoteExactOutputSingle ::
    "string \<times> string \<times> int \<times> int \<times> int \<Rightarrow> nat \<Rightarrow> ('s, int \<times> int \<times> int \<times> int) io"

section \<open>Cached state of the clients\<close>

record clients_state = chain_state +
  ch_pool_address :: "string option"
  ch_oracle_address :: "string option"
  ch_decimals :: "(string, nat) pydict"

type_synonym 'z cs = "'z clients_state_scheme"

abbreviation via :: "'z cs node \<Rightarrow> (nat \<Rightarrow> ('z cs, 'a) io) \<Rightarrow> ('z cs, 'a) io" where
  "via nd fn \<equiv> client_call (nd_sleep nd) fn"

section \<open>AaveClient\<close>

definition pool_address :: "'z cs node \<Rightarrow> ('z cs, string) io" where
  "pool_address nd s =
     (case ch_pool_address s of
        Some p \<Rightarrow> (Inr p, s)
      | None \<Rightarrow> io_bind (via nd (nd_getPool nd)) (\<lambda>a.
          io_bind (io_lift (nd_checksum nd a)) (\<lambda>p s'. (Inr p, s'\<lparr>ch_pool_address := Some p\<rparr>))) s)"

definition get_user_account_data :: "'z cs node \<Rightarrow> string \<Rightarrow> ('z cs, UserAccountData) io" where
  "get_user_account_data nd borrower =
     io_bind (io_lift (nd_checksum nd borrower)) (\<lambda>user.
     io_bind (via nd (\<lambda>i. io_bind (pool_address nd) (\<lambda>pool. nd_getUserAccountData nd pool user i)))
       (\<lambda>(coll, debt, avail, lt, ltv, hf). io_return
         \<lparr>ua_total_collateral_base = coll, ua_total_debt_base = debt, ua_available_borrows_base = avail,
          ua_liquidation_threshold_bps = lt, ua_ltv_bps = ltv, ua_health_factor = hf\<rparr>))"

text \<open>The packed \<^verbatim>\<open>ReserveConfigurationMap\<close> word.\<close>

definition config_decimals :: "int \<Rightarrow> int" where
  "config_decimals d = (drop_bit 48 d) AND ((push_bit 8 1) - 1)"

definition config_liq_threshold :: "int \<Rightarrow> int" where
  "config_liq_threshold d = (drop_bit 16 d) AND ((push_bit 16 1) - 1)"

definition config_bonus_raw :: "int \<Rightarrow> int" where
  "config_bonus_raw d = (drop_bit 32 d) AND ((push_bit 16 1) - 1)"

definition liq_bonus_of_raw :: "int \<Rightarrow> int" where
  "liq_bonus_of_raw raw = (if 10000 < raw then raw - 10000 else 0)"

definition get_reserve_info :: "'z cs node \<Rightarrow> string \<Rightarrow> ('z cs, ReserveInfo) io" where
  "get_reserve_info nd asset =
     io_bind (io_lift (nd_checksum nd asset)) (\<lambda>token.
     io_bind (via nd (\<lambda>i. io_bind (pool_address nd) (\<lambda>pool. nd_getReserveData nd pool token i)))
       (\<lambda>(config_data, aToken, variableDebt).
     io_bind (io_lift (nd_checksum nd aToken)) (\<lambda>aToken_address.
     io_bind (io_lift (nd_checksum nd variableDebt)) (\<lambda>debt_token_address. io_return
       \<lparr>ri_asset = token, ri_aToken_address = aToken_address,
        ri_variable_debt_token_address = debt_token_address,
        ri_decimals = (if config_decimals config_data \<noteq> 0 then nat (config_decimals config_data)
          else case dict_get TOKEN_DECIMALS token of Some d \<Rightarrow> d | None \<Rightarrow> 18),
        ri_liq_threshold_bps = config_liq_threshold config_data,
        ri_liq_bonus_bps = liq_bonus_of_raw (config_bonus_raw config_data)\<rparr>))))"

definition VARIABLE_RATE_MODE :: int where "VARIABLE_RATE_MODE = 2"

definition encode_repay :: "'s node \<Rightarrow> string \<Rightarrow> int \<Rightarrow> string \<Rightarrow> string res" where
  "encode_repay nd asset amount on_behalf_of =
     res_bind (nd_checksum nd asset) (\<lambda>a. res_bind (nd_checksum nd on_behalf_of) (\<lambda>o'.
       nd_encode_abi nd ''repay'' [JStr a, JInt amount, JInt VARIABLE_RATE_MODE, JStr o']))"

definition encode_withdraw :: "'s node \<Rightarrow> string \<Rightarrow> int \<Rightarrow> string \<Rightarrow> string res" where
  "encode_withdraw nd asset amount to =
     res_bind (nd_checksum nd asset) (\<lambda>a. res_bind (nd_checksum nd to) (\<lambda>t.
       nd_encode_abi nd ''withdraw'' [JStr a, JInt amount, JStr t]))"

section \<open>OracleClient\<close>

definition oracle_address :: "'z cs node \<Rightarrow> ('z cs, string) io" where
  "oracle_address nd s =
     (case ch_oracle_address s of
        Some p \<Rightarrow> (Inr p, s)
      | None \<Rightarrow> io_bind (via nd (nd_getPriceOracle nd)) (\<lambda>a.
          io_bind (io_lift (nd_checksum nd a)) (\<lambda>p s'. (Inr p, s'\<lparr>ch_oracle_address := Some p\<rparr>))) s)"

definition get_asset_price :: "'z cs node \<Rightarrow> string \<Rightarrow> ('z cs, OraclePrice) io" where
  "get_asset_price nd asset =
     io_bind (io_lift (nd_checksum nd asset)) (\<lambda>token.
     io_bind (via nd (\<lambda>i. io_bind (oracle_address nd) (\<lambda>oracle. nd_getAssetPrice nd oracle token i)))
       (\<lambda>price. io_return
         \<lparr>op_asset = token, op_price = price, op_decimals = AAVE_BASE_CURRENCY_DECIMALS,
          op_updated_at = 0, op_stale = False\<rparr>))"

definition CHAINLINK_FEEDS :: "Settings \<Rightarrow> (string, string) pydict" where
  "CHAINLINK_FEEDS st = [(''ETH_USD'', st_chainlink_eth_usd st), (''USDC_USD'', st_chainlink_usdc_usd st)]"

definition chainlink_price :: "Settings \<Rightarrow> string \<Rightarrow> int \<times> int \<times> int \<times> int \<times> int \<Rightarrow> nat \<Rightarrow> int \<Rightarrow> OraclePrice" where
  "chainlink_price st feed_key round_data decimals now =
     (case round_data of (_, answer, _, updated_at, _) \<Rightarrow>
        let age = now - updated_at;
            stale = (answer \<le> 0 \<or> st_oracle_max_staleness_seconds st < age)
        in \<lparr>op_asset = feed_key, op_price = max answer 0, op_decimals = decimals,
            op_updated_at = updated_at, op_stale = stale\<rparr>)"

definition get_chainlink_price :: "Settings \<Rightarrow> 'z cs node \<Rightarrow> string \<Rightarrow> ('z cs, OraclePrice) io" where
  "get_chainlink_price st nd feed_key =
     (case dict_get (CHAINLINK_FEEDS st) feed_key of
        None \<Rightarrow> io_raise (KeyError feed_key)
      | Some addr \<Rightarrow>
          io_bind (io_lift (nd_checksum nd addr)) (\<lambda>feed.
          io_bind (via nd (\<lambda>i.
            io_bind (nd_latestRoundData nd feed i) (\<lambda>round_data.
            io_bind (nd_feedDecimals nd feed i) (\<lambda>decimals.
            io_bind (nd_latestTimestamp nd i) (\<lambda>now. io_return (round_data, decimals, now))))))
          (\<lambda>(round_data, decimals, now). io_return (chainlink_price st feed_key round_data decimals now))))"

section \<open>ERC20Client\<close>

definition erc20_decimals :: "'z cs node \<Rightarrow> string \<Rightarrow> ('z cs, nat) io" where
  "erc20_decimals nd token =
     io_bind (io_lift (nd_checksum nd token)) (\<lambda>addr s.
       case dict_get (ch_decimals s) addr of
         Some d \<Rightarrow> (Inr d, s)
       | None \<Rightarrow> io_bind (via nd (nd_decimals nd addr))
           (\<lambda>v s'. (Inr v, s'\<lparr>ch_decimals := dict_set addr v (ch_decimals s')\<rparr>)) s)"

definition balance_of :: "'z cs node \<Rightarrow> string \<Rightarrow> string \<Rightarrow> ('z cs, int) io" where
  "balance_of nd token account =
     io_bind (io_lift (nd_checksum nd token)) (\<lambda>addr.
     io_bind (io_lift (nd_checksum nd account)) (\<lambda>holder. via nd (nd_balanceOf nd addr holder)))"

definition allowance :: "'z cs node \<Rightarrow> string \<Rightarrow> string \<Rightarrow> string \<Rightarrow> ('z cs, int) io" where
  "allowance nd token owner spender =
     io_bind (io_lift (nd_checksum nd token)) (\<lambda>addr.
     io_bind (io_lift (nd_checksum nd owner)) (\<lambda>owner_a.
     io_bind (io_lift (nd_checksum nd spender)) (\<lambda>spender_a. via nd (nd_allowance nd addr owner_a spender_a))))"

section \<open>UniswapClient\<close>

definition quote_exact_output_single ::
  "'z cs node \<Rightarrow> string \<Rightarrow> string \<Rightarrow> int \<Rightarrow> int option \<Rightarrow> ('z cs, Quote) io" where
  "quote_exact_output_single nd token_in token_out amount_out fee =
     io_bind (io_lift (nd_checksum nd token_in)) (\<lambda>t_in.
     io_bind (io_lift (nd_checksum nd token_out)) (\<lambda>t_out.
     io_bind (case fee of Some f \<Rightarrow> io_return f | None \<Rightarrow> io_lift (fee_tier_for (nd_checksum nd) t_in t_out)) (\<lambda>fee_tier.
     io_bind (via nd (nd_quoteExactOutputSingle nd (t_in, t_out, amount_out, fee_tier, 0)))
       (\<lambda>(amount_in, sqrt_after, ticks, gas). io_return
         \<lparr>qt_token_in = t_in, qt_token_out = t_out, qt_fee = fee_tier, qt_amount_out = amount_out,
          qt_amount_in = amount_in, qt_sqrt_price_x96_after = sqrt_after,
          qt_initialized_ticks_crossed = ticks, qt_gas_estimate = gas\<rparr>))))"

definition encode_exact_output_single ::
  "'s node \<Rightarrow> string \<Rightarrow> string \<Rightarrow> int \<Rightarrow> string \<Rightarrow> int \<Rightarrow> int \<Rightarrow> string res" where
  "encode_exact_output_single nd token_in token_out fee recipient amount_out amount_in_maximum =
     res_bind (nd_checksum nd token_in) (\<lambda>a. res_bind (nd_checksum nd token_out) (\<lambda>b.
     res_bind (nd_checksum nd recipient) (\<lambda>r. nd_encode_abi nd ''exactOutputSingle''
       [JList [JStr a, JStr b, JInt fee, JStr r, JInt amount_out, JInt amount_in_maximum, JInt 0]])))"

definition swap_router_address :: "Settings \<Rightarrow> (string \<Rightarrow> string res) \<Rightarrow> string res" where
  "swap_router_address st checksum = checksum (st_swap_router st)"

section \<open>The packed configuration word\<close>

definition pack_config :: "int \<Rightarrow> int \<Rightarrow> int \<Rightarrow> int \<Rightarrow> int \<Rightarrow> int" where
  "pack_config ltv lt bonus dec rest = ltv + lt * 2 ^ 16 + bonus * 2 ^ 32 + dec * 2 ^ 48 + rest * 2 ^ 56"

lemma and_mask_int: "x AND ((push_bit n 1) - 1) = x mod 2 ^ n" for x :: int
  by (simp add: push_bit_eq_mult take_bit_eq_mod flip: take_bit_eq_mask mask_eq_exp_minus_1)

lemma field_of_sum:
  fixes low v high :: int
  assumes "0 \<le> low" "low < 2 ^ k" "0 \<le> v" "v < 2 ^ n"
  shows "(low + v * 2 ^ k + high * 2 ^ (k + n)) div 2 ^ k mod 2 ^ n = v"
proof -
  have "low + v * 2 ^ k + high * 2 ^ (k + n) = low + (v + high * 2 ^ n) * 2 ^ k"
    by (simp add: algebra_simps power_add)
  also have "\<dots> div 2 ^ k = v + high * 2 ^ n" using assms(1,2) by (simp add: div_pos_pos_trivial)
  finally show ?thesis using assms(3,4) by simp
qed

text \<open>
  C31: on every word that packs a loan-to-value, a threshold, a bonus and a decimals field of 16, 16, 16
  and 8 bits below any upper bits, the decoder returns exactly the packed threshold, bonus and
  decimals; the reported bonus is the excess over one hundred per cent and never negative.
\<close>

theorem reserve_config_roundtrip:
  assumes "0 \<le> ltv" "ltv < 2 ^ 16" "0 \<le> lt" "lt < 2 ^ 16" "0 \<le> bonus" "bonus < 2 ^ 16"
    "0 \<le> dec" "dec < 2 ^ 8"
  shows "config_liq_threshold (pack_config ltv lt bonus dec rest) = lt \<and>
     config_bonus_raw (pack_config ltv lt bonus dec rest) = bonus \<and>
     config_decimals (pack_config ltv lt bonus dec rest) = dec \<and>
     liq_bonus_of_raw bonus = max (bonus - 10000) 0"
proof -
  have 1: "pack_config ltv lt bonus dec rest =
      ltv + lt * 2 ^ 16 + (bonus + dec * 2 ^ 16 + rest * 2 ^ 24) * 2 ^ (16 + 16)"
    by (simp add: pack_config_def algebra_simps)
  have 2: "pack_config ltv lt bonus dec rest =
      (ltv + lt * 2 ^ 16) + bonus * 2 ^ 32 + (dec + rest * 2 ^ 8) * 2 ^ (32 + 16)"
    by (simp add: pack_config_def algebra_simps)
  have 3: "pack_config ltv lt bonus dec rest =
      (ltv + lt * 2 ^ 16 + bonus * 2 ^ 32) + dec * 2 ^ 48 + rest * 2 ^ (48 + 8)"
    by (simp add: pack_config_def)
  have "config_liq_threshold (pack_config ltv lt bonus dec rest) = lt"
    unfolding config_liq_threshold_def and_mask_int drop_bit_eq_div 1
    by (rule field_of_sum) (use assms in auto)
  moreover have "config_bonus_raw (pack_config ltv lt bonus dec rest) = bonus"
    unfolding config_bonus_raw_def and_mask_int drop_bit_eq_div 2
    by (rule field_of_sum) (use assms in auto)
  moreover have "config_decimals (pack_config ltv lt bonus dec rest) = dec"
    unfolding config_decimals_def and_mask_int drop_bit_eq_div 3
    by (rule field_of_sum) (use assms in auto)
  ultimately show ?thesis by (simp add: liq_bonus_of_raw_def)
qed

theorem reserve_config_roundtrip_witness:
  "config_liq_threshold (pack_config 8000 8250 10500 18 77) = 8250 \<and>
   config_bonus_raw (pack_config 8000 8250 10500 18 77) = 10500 \<and>
   config_decimals (pack_config 8000 8250 10500 18 77) = 18 \<and> liq_bonus_of_raw 10500 = 500"
  using reserve_config_roundtrip [of 8000 8250 10500 18 77] by simp

lemma config_ranges:
  "0 \<le> config_liq_threshold d" "config_liq_threshold d < 2 ^ 16"
  "0 \<le> liq_bonus_of_raw (config_bonus_raw d)" "liq_bonus_of_raw (config_bonus_raw d) < 2 ^ 16"
  "0 \<le> config_decimals d" "config_decimals d < 2 ^ 8"
proof -
  have "0 \<le> config_bonus_raw d" "config_bonus_raw d < 2 ^ 16"
    unfolding config_bonus_raw_def and_mask_int by (simp_all add: pos_mod_bound)
  then show "0 \<le> liq_bonus_of_raw (config_bonus_raw d)" "liq_bonus_of_raw (config_bonus_raw d) < 2 ^ 16"
    by (auto simp: liq_bonus_of_raw_def)
qed (unfold config_liq_threshold_def config_decimals_def and_mask_int, simp_all add: pos_mod_bound)

section \<open>What the typed reads return\<close>

lemma get_reserve_info_ranges:
  assumes "get_reserve_info nd asset s = (Inr r, s')"
  shows "0 \<le> ri_liq_threshold_bps r" "0 \<le> ri_liq_bonus_bps r" "ri_liq_bonus_bps r < 2 ^ 16"
  using assms
  by (auto simp: get_reserve_info_def io_bind_Inr_iff config_ranges [simplified] split: prod.splits)

text \<open>
  A feed answer is fresh exactly when it is positive and no older than the configured limit at
  the latest block; the reported price is the answer cut off at zero.
\<close>

lemma chainlink_staleness:
  "let p = chainlink_price st k (r, answer, q, updated, z) dec now in
     (\<not> op_stale p \<longleftrightarrow> 0 < answer \<and> now - updated \<le> st_oracle_max_staleness_seconds st) \<and>
     op_price p = max answer 0 \<and> op_decimals p = dec \<and> op_updated_at p = updated"
  by (auto simp: chainlink_price_def Let_def)

section \<open>A chain with constant answers\<close>

text \<open>
  Concrete instances of the parameters, for evaluating the program on an example: one account, one
  reserve configuration, one price, one quote and one allowance for every question.
\<close>

definition const_node :: "account_tuple \<Rightarrow> int \<Rightarrow> int \<Rightarrow> int \<Rightarrow> int \<Rightarrow> 's node" where
  "const_node account config price quote allow = \<lparr>
     nd_checksum = Inr,
     nd_sleep = (\<lambda>_. io_return ()),
     nd_encode_abi = (\<lambda>f _. Inr f),
     nd_getPool = (\<lambda>_. io_return ''pool''),
     nd_getPriceOracle = (\<lambda>_. io_return ''oracle''),
     nd_getUserAccountData = (\<lambda>_ _ _. io_return account),
     nd_getReserveData = (\<lambda>_ _ _. io_return (config, ''aToken'', ''debtToken'')),
     nd_getAssetPrice = (\<lambda>_ _ _. io_return price),
     nd_latestRoundData = (\<lambda>_ _. io_return (1, price, 0, 0, 1)),
     nd_feedDecimals = (\<lambda>_ _. io_return 8),
     nd_latestTimestamp = (\<lambda>_. io_return 0),
     nd_decimals = (\<lambda>_ _. io_return 18),
     nd_balanceOf = (\<lambda>_ _ _. io_return allow),
     nd_allowance = (\<lambda>_ _ _ _. io_return allow),
     nd_quoteExactOutputSingle = (\<lambda>_ _. io_return (quote, 0, 0, 0))\<rparr>"

definition ready :: "'z cs \<Rightarrow> bool" where
  "ready s \<longleftrightarrow> length (cl_urls (ch_client s)) = 1 \<and> 1 \<le> cl_max_retries (ch_client s) \<and> active s = 0 \<and>
     ch_pool_address s = Some ''pool'' \<and> ch_oracle_address s = Some ''oracle''"

lemma ready_set_active: "ready s \<Longrightarrow> set_active 0 s = s"
  by (cases s) (simp add: ready_def)

lemma via_ready:
  assumes "ready s" "fn 0 s = (Inr a, s)"
  shows "client_call sleep fn s = (Inr a, s)"
  using client_call_first [of fn s a s sleep] assms ready_set_active [OF assms(1)] by (simp add: ready_def)

lemma pool_ready: "ready s \<Longrightarrow> pool_address nd s = (Inr ''pool'', s)"
  and oracle_ready: "ready s \<Longrightarrow> oracle_address nd s = (Inr ''oracle'', s)"
  by (simp_all add: pool_address_def oracle_address_def ready_def)

lemma const_account:
  assumes "ready s"
  shows "get_user_account_data (const_node (c, d, a, lt, ltv, h) config price quote allow) b s =
     (Inr \<lparr>ua_total_collateral_base = c, ua_total_debt_base = d, ua_available_borrows_base = a,
       ua_liquidation_threshold_bps = lt, ua_ltv_bps = ltv, ua_health_factor = h\<rparr>, s)"
proof -
  let ?nd = "const_node (c, d, a, lt, ltv, h) config price quote allow"
  have "client_call (nd_sleep ?nd) (\<lambda>i. io_bind (pool_address ?nd) (\<lambda>pool. nd_getUserAccountData ?nd pool b i)) s =
    (Inr (c, d, a, lt, ltv, h), s)"
    using assms by (intro via_ready) (simp_all add: io_bind_def pool_ready const_node_def io_return_def)
  then show ?thesis by (simp add: get_user_account_data_def io_bind_def io_lift_def const_node_def io_return_def)
qed

definition const_reserve :: "string \<Rightarrow> int \<Rightarrow> ReserveInfo" where
  "const_reserve asset config =
     \<lparr>ri_asset = asset, ri_aToken_address = ''aToken'', ri_variable_debt_token_address = ''debtToken'',
      ri_decimals = (if config_decimals config \<noteq> 0 then nat (config_decimals config)
        else case dict_get TOKEN_DECIMALS asset of Some d \<Rightarrow> d | None \<Rightarrow> 18),
      ri_liq_threshold_bps = config_liq_threshold config,
      ri_liq_bonus_bps = liq_bonus_of_raw (config_bonus_raw config)\<rparr>"

lemma const_reserve_info:
  assumes "ready s"
  shows "get_reserve_info (const_node acc config price quote allow) asset s = (Inr (const_reserve asset config), s)"
proof -
  let ?nd = "const_node acc config price quote allow"
  have "client_call (nd_sleep ?nd) (\<lambda>i. io_bind (pool_address ?nd) (\<lambda>pool. nd_getReserveData ?nd pool asset i)) s =
    (Inr (config, ''aToken'', ''debtToken''), s)"
    using assms by (intro via_ready) (simp_all add: io_bind_def pool_ready const_node_def io_return_def)
  then show ?thesis
    by (simp add: get_reserve_info_def io_bind_def io_lift_def const_node_def io_return_def const_reserve_def)
qed

lemma const_price:
  assumes "ready s"
  shows "get_asset_price (const_node acc config price quote allow) asset s =
     (Inr \<lparr>op_asset = asset, op_price = price, op_decimals = 8, op_updated_at = 0, op_stale = False\<rparr>, s)"
proof -
  let ?nd = "const_node acc config price quote allow"
  have "client_call (nd_sleep ?nd) (\<lambda>i. io_bind (oracle_address ?nd) (\<lambda>oracle. nd_getAssetPrice ?nd oracle asset i)) s =
    (Inr price, s)"
    using assms by (intro via_ready) (simp_all add: io_bind_def oracle_ready const_node_def io_return_def)
  then show ?thesis
    by (simp add: get_asset_price_def io_bind_def io_lift_def const_node_def io_return_def scale_defs)
qed

lemma const_allowance:
  assumes "ready s"
  shows "allowance (const_node acc config price quote allow) token owner' spender s = (Inr allow, s)"
proof -
  let ?nd = "const_node acc config price quote allow"
  have "client_call (nd_sleep ?nd) (nd_allowance ?nd token owner' spender) s = (Inr allow, s)"
    using assms by (intro via_ready) (simp_all add: const_node_def io_return_def)
  then show ?thesis by (simp add: allowance_def io_bind_def io_lift_def const_node_def io_return_def)
qed

lemma const_quote:
  assumes "ready s"
  shows "quote_exact_output_single (const_node acc config price quote allow) a b out (Some fee) s =
     (Inr \<lparr>qt_token_in = a, qt_token_out = b, qt_fee = fee, qt_amount_out = out, qt_amount_in = quote,
       qt_sqrt_price_x96_after = 0, qt_initialized_ticks_crossed = 0, qt_gas_estimate = 0\<rparr>, s)"
proof -
  let ?nd = "const_node acc config price quote allow"
  have "client_call (nd_sleep ?nd) (nd_quoteExactOutputSingle ?nd (a, b, out, fee, 0)) s = (Inr (quote, 0, 0, 0), s)"
    using assms by (intro via_ready) (simp_all add: const_node_def io_return_def)
  then show ?thesis
    by (simp add: quote_exact_output_single_def io_bind_def io_lift_def const_node_def io_return_def)
qed

lemma const_checksum [simp]: "nd_checksum (const_node acc config price quote allow) = Inr"
  by (simp add: const_node_def)

lemmas const_reads = const_account const_reserve_info const_price const_allowance const_quote

end
