(* ===== verification/Risk.thy ===== *)
theory Risk
  imports Models
begin

text \<open>
  \<^verbatim>\<open>app/core/risk.py\<close>: rolling volatility, breach probability and the volatility-scaled health
  factor target. \<^verbatim>\<open>sum\<close> adds from left to right, as in the Python 3.11 the project targets;
  squaring and \<^verbatim>\<open>math.sqrt\<close> are correctly rounded; \<^verbatim>\<open>math.log\<close> and \<^verbatim>\<open>math.erfc\<close> come from the C
  library and are parameters.
\<close>

section \<open>Arithmetic of the standard library\<close>

definition py_sum :: "pyfloat list \<Rightarrow> pyfloat" where
  "py_sum xs = foldl fadd (Fin 0) xs"

fun fpow2 :: "pyfloat \<Rightarrow> pyfloat res" where
  "fpow2 (Fin a) = (case to_float (a * a) of
       Fin r \<Rightarrow> Inr (Fin r) | _ \<Rightarrow> Inl (OverflowError ''Numerical result out of range''))"
| "fpow2 NaN = Inr NaN"
| "fpow2 _ = Inr PInf"

fun isqrt :: "nat \<Rightarrow> nat" where
  "isqrt n = (if n = 0 then 0
     else let r = 2 * isqrt (n div 4) in if (r + 1) * (r + 1) \<le> n then r + 1 else r)"

declare isqrt.simps [simp del]

text \<open>
  Every finite float is a multiple of \<open>2\<^sup>-\<^sup>1\<^sup>0\<^sup>7\<^sup>4\<close>, so \<open>a * 4\<^sup>6\<^sup>0\<^sup>0\<close> is an integer and its root has more than
  54 bits unless \<open>a\<close> is zero; the last bit says whether the root is exact, which is all that
  rounding to nearest still needs.
\<close>

definition rsqrt :: "rat \<Rightarrow> rat" where
  "rsqrt a = (let n = nat \<lfloor>a * 4 ^ 600\<rfloor>; s = isqrt n
     in rnd (of_nat (2 * s + (if s * s = n then 0 else 1)) / 2 ^ 601))"

fun fsqrt :: "pyfloat \<Rightarrow> pyfloat res" where
  "fsqrt (Fin a) = (if a < 0 then Inl (ValueError ''math domain error'') else Inr (Fin (rsqrt a)))"
| "fsqrt NInf = Inl (ValueError ''math domain error'')"
| "fsqrt x = Inr x"

section \<open>RollingVolatility\<close>

record RollingVolatility =
  rv_window :: int
  rv_prices :: "pyfloat list"

definition vol_init :: "int \<Rightarrow> RollingVolatility res" where
  "vol_init window =
     (if window < 2 then Inl (ValueError ''window must be >= 2'')
      else Inr \<lparr>rv_window = window, rv_prices = []\<rparr>)"

text \<open>Appending to a full \<^verbatim>\<open>deque(maxlen=window + 1)\<close> drops the oldest entry.\<close>

definition vol_update :: "pyfloat \<Rightarrow> RollingVolatility \<Rightarrow> RollingVolatility" where
  "vol_update price v =
     (if flt (Fin 0) price
      then let ps = rv_prices v @ [price] in
        v\<lparr>rv_prices := (if rv_window v + 1 < int (length ps) then tl ps else ps)\<rparr>
      else v)"

definition vol_extend :: "pyfloat list \<Rightarrow> RollingVolatility \<Rightarrow> RollingVolatility" where
  "vol_extend prices v = fold vol_update prices v"

fun price_returns :: "pyfloat list \<Rightarrow> pyfloat list res" where
  "price_returns (p # q # ps) =
     (if flt (Fin 0) p
      then res_bind (fdiv q p) (\<lambda>x. res_bind (price_returns (q # ps)) (\<lambda>r. Inr (fsub x (Fin 1) # r)))
      else price_returns (q # ps))"
| "price_returns _ = Inr []"

definition vol_returns :: "RollingVolatility \<Rightarrow> pyfloat list res" where
  "vol_returns v = price_returns (rv_prices v)"

fun squares :: "pyfloat \<Rightarrow> pyfloat list \<Rightarrow> pyfloat list res" where
  "squares mean [] = Inr []"
| "squares mean (x # xs) =
     res_bind (fpow2 (fsub x mean)) (\<lambda>y. res_bind (squares mean xs) (\<lambda>ys. Inr (y # ys)))"

definition stdev :: "pyfloat list \<Rightarrow> pyfloat res" where
  "stdev r =
     (if length r < 2 then Inr (Fin 0)
      else res_bind (float_of_int (int (length r))) (\<lambda>n.
        res_bind (fdiv (py_sum r) n) (\<lambda>mean.
        res_bind (squares mean r) (\<lambda>sq.
        res_bind (float_of_int (int (length r) - 1)) (\<lambda>m.
        res_bind (fdiv (py_sum sq) m) (\<lambda>var. fsqrt var))))))"

definition vol_sigma :: "RollingVolatility \<Rightarrow> pyfloat res" where
  "vol_sigma v = res_bind (vol_returns v) stdev"

section \<open>Breach probability\<close>

record libm =
  lm_log :: "pyfloat \<Rightarrow> pyfloat"
  lm_erfc :: "pyfloat \<Rightarrow> pyfloat"

text \<open>\<^verbatim>\<open>math.log\<close> raises on a non-positive argument; the code only reaches it with a positive one.\<close>

definition math_log :: "libm \<Rightarrow> pyfloat \<Rightarrow> pyfloat res" where
  "math_log lm x =
     (if x = NaN then Inr NaN
      else if flt (Fin 0) x then Inr (lm_log lm x) else Inl (ValueError ''math domain error''))"

definition breach_probability :: "libm \<Rightarrow> pyfloat \<Rightarrow> pyfloat \<Rightarrow> int \<Rightarrow> pyfloat res" where
  "breach_probability lm hf sigma horizon_periods =
     (if fle hf (Fin 0) then Inr (Fin 1)
      else if feq hf PInf then Inr (Fin 0)
      else if fle sigma (Fin 0) \<or> horizon_periods \<le> 0
      then Inr (if flt (Fin 1) hf then Fin 0 else Fin 1)
      else res_bind (math_log lm hf) (\<lambda>l.
        res_bind (float_of_int horizon_periods) (\<lambda>h.
        res_bind (fsqrt h) (\<lambda>root.
        res_bind (fdiv l (fmul sigma root)) (\<lambda>z.
        res_bind (fsqrt (Fin 2)) (\<lambda>root2.
        res_bind (fdiv z root2) (\<lambda>y. Inr (fmul (Fin (1 / 2)) (lm_erfc lm y)))))))))"

section \<open>Dynamic target\<close>

definition dynamic_hf_target_bps :: "pyfloat \<Rightarrow> int \<Rightarrow> int \<Rightarrow> int \<Rightarrow> int res" where
  "dynamic_hf_target_bps sigma base_bps max_bps k =
     (if max_bps < base_bps then Inl (ValueError ''max_bps must be >= base_bps'')
      else res_bind (int_fmul k sigma) (\<lambda>x.
        res_bind (int_of_float x) (\<lambda>d.
        let delta = max d 0 in Inr (max base_bps (min (base_bps + delta) max_bps)))))"

definition assess_risk ::
  "libm \<Rightarrow> pyfloat \<Rightarrow> pyfloat \<Rightarrow> int \<Rightarrow> int \<Rightarrow> int \<Rightarrow> int \<Rightarrow> RiskSignal res" where
  "assess_risk lm hf sigma base_bps max_bps k horizon_periods =
     res_bind (dynamic_hf_target_bps sigma base_bps max_bps k) (\<lambda>target.
     res_bind (breach_probability lm hf sigma horizon_periods) (\<lambda>p.
     Inr \<lparr>rs_sigma = sigma, rs_breach_probability = p, rs_hf_target_bps = target\<rparr>))"

definition hf_target_float :: "pyfloat \<Rightarrow> int \<Rightarrow> int \<Rightarrow> int \<Rightarrow> pyfloat res" where
  "hf_target_float sigma base_bps max_bps k =
     res_bind (dynamic_hf_target_bps sigma base_bps max_bps k) (\<lambda>t. int_truediv t BPS)"

section \<open>Square roots\<close>

lemma isqrt_bounds: "isqrt n * isqrt n \<le> n \<and> n < (isqrt n + 1) * (isqrt n + 1)"
proof (induction n rule: isqrt.induct)
  case (1 n)
  show ?case
  proof (cases "n = 0")
    case False
    define q where "q = isqrt (n div 4)"
    have q: "q * q \<le> n div 4" "n div 4 < (q + 1) * (q + 1)" using 1 False by (auto simp: q_def)
    then have lo: "2 * q * (2 * q) \<le> n" by simp
    have "n div 4 + 1 \<le> (q + 1) * (q + 1)" using q(2) by simp
    then have hi: "n < (2 * q + 2) * (2 * q + 2)" by simp
    have e: "isqrt n = (if (2 * q + 1) * (2 * q + 1) \<le> n then 2 * q + 1 else 2 * q)"
      using False by (subst isqrt.simps) (simp add: q_def Let_def)
    show ?thesis using lo hi by (auto simp: e)
  qed (simp add: isqrt.simps)
qed

lemma rsqrt_nonneg: "0 \<le> rsqrt a"
  unfolding rsqrt_def Let_def by (rule rnd_nonneg) simp

lemma isqrt_le: "isqrt n \<le> n"
  using isqrt_bounds [of n] by (metis le_square order_trans)

section \<open>Magnitudes\<close>

definition fin_le :: "nat \<Rightarrow> nat \<Rightarrow> pyfloat \<Rightarrow> bool" where
  "fin_le n p x \<longleftrightarrow> (\<exists>a. x = Fin a \<and> \<bar>a\<bar> \<le> of_nat n * 2 ^ p)"

definition fits64 :: "nat \<Rightarrow> nat \<Rightarrow> bool" where
  "fits64 n p \<longleftrightarrow> n \<le> 2 ^ 53 \<and> p \<le> 970"

lemma fits64_bound: "fits64 n p \<Longrightarrow> of_nat n * 2 ^ p \<le> (2::rat) ^ 1023"
proof -
  assume h: "fits64 n p"
  then have "(of_nat n :: rat) \<le> 2 ^ 53" 
    by (metis fits64_def of_nat_le_iff of_nat_numeral of_nat_power)
  moreover have "(2::rat) ^ p \<le> 2 ^ 970" using h by (intro power_increasing) (auto simp: fits64_def)
  ultimately have "of_nat n * 2 ^ p \<le> (2::rat) ^ 53 * 2 ^ 970" by (intro mult_mono) auto
  then show ?thesis by (simp flip: power_add)
qed

lemma to_float_fin_le: "fits64 n p \<Longrightarrow> \<bar>x\<bar> \<le> of_nat n * 2 ^ p \<Longrightarrow> fin_le n p (to_float x)"
  using to_float_bounded [of x n p] fits64_bound [of n p] by (auto simp: fin_le_def fits64_def)

lemma fadd_fin_le:
  assumes "fin_le m p x" "fin_le n p y" "fits64 (m + n) p"
  shows "fin_le (m + n) p (fadd x y)"
proof -
  obtain a b where ab: "x = Fin a" "y = Fin b" "\<bar>a\<bar> \<le> of_nat m * 2 ^ p" "\<bar>b\<bar> \<le> of_nat n * 2 ^ p"
    using assms(1,2) by (auto simp: fin_le_def)
  have "\<bar>a + b\<bar> \<le> of_nat (m + n) * 2 ^ p" using ab by (simp add: algebra_simps)
  then show ?thesis using assms(3) by (simp add: ab to_float_fin_le)
qed

lemma fneg_fin_le: "fin_le n p x \<Longrightarrow> fin_le n p (fneg x)"
  by (auto simp: fin_le_def)

lemma fsub_fin_le: "fin_le m p x \<Longrightarrow> fin_le n p y \<Longrightarrow> fits64 (m + n) p \<Longrightarrow> fin_le (m + n) p (fsub x y)"
  unfolding fsub_def by (rule fadd_fin_le [OF _ fneg_fin_le])

lemma py_sum_fin_le:
  assumes "\<forall>x\<in>set xs. fin_le k p x" and "fits64 (k * length xs) p"
  shows "fin_le (k * length xs) p (py_sum xs)"
  using assms
proof (induction xs rule: rev_induct)
  case (snoc x xs)
  have f: "fits64 (k * length xs) p" using snoc.prems(2) by (simp add: fits64_def)
  have "fin_le (k * length xs + k) p (fadd (py_sum xs) x)"
    using snoc.prems f snoc.IH by (intro fadd_fin_le) (auto simp: algebra_simps)
  then show ?case by (simp add: py_sum_def algebra_simps)
qed (simp add: py_sum_def fin_le_def)

lemma fdiv_nat_fin_le:
  assumes "fin_le (k * n) p x" "0 < n" "fits64 k p"
  shows "\<exists>y. fdiv x (Fin (of_nat n)) = Inr y \<and> fin_le k p y"
proof -
  obtain a where a: "x = Fin a" "\<bar>a\<bar> \<le> of_nat (k * n) * 2 ^ p" using assms(1) by (auto simp: fin_le_def)
  have "\<bar>a / of_nat n\<bar> \<le> of_nat k * 2 ^ p" using a(2) assms(2) by (simp add: field_simps)
  then show ?thesis using assms(2,3) by (simp add: a to_float_fin_le)
qed

lemma fin_le_mono: "fin_le m p x \<Longrightarrow> m \<le> n \<Longrightarrow> fin_le n p x"
  unfolding fin_le_def by (auto elim!: order_trans)

lemma fpow2_fin_le:
  assumes "fin_le k p x" "fits64 (k * k) (p + p)"
  shows "\<exists>y. fpow2 x = Inr y \<and> fin_le (k * k) (p + p) y \<and> fle (Fin 0) y"
proof -
  obtain a where a: "x = Fin a" "\<bar>a\<bar> \<le> of_nat k * 2 ^ p" using assms(1) by (auto simp: fin_le_def)
  have "\<bar>a\<bar> * \<bar>a\<bar> \<le> (of_nat k * 2 ^ p) * (of_nat k * 2 ^ p)" using a(2) by (intro mult_mono) auto
  then have "\<bar>a * a\<bar> \<le> of_nat (k * k) * 2 ^ (p + p)" by (simp add: power_add algebra_simps)
  then have w: "fin_le (k * k) (p + p) (to_float (a * a))" using assms(2) by (intro to_float_fin_le)
  then obtain r where r: "to_float (a * a) = Fin r" by (auto simp: fin_le_def)
  have "0 \<le> r" using to_float_Fin [OF r] by (simp add: rnd_nonneg)
  then show ?thesis using w r by (auto simp: a fle_def feq_def)
qed


lemma to_float_nonneg: "to_float x = Fin r \<Longrightarrow> 0 \<le> x \<Longrightarrow> 0 \<le> r"
  by (drule to_float_Fin) (simp add: rnd_nonneg)

lemma py_sum_nonneg:
  assumes "\<forall>x\<in>set xs. fin_le k p x \<and> fle (Fin 0) x" and "fits64 (k * length xs) p"
  shows "fle (Fin 0) (py_sum xs)"
  using assms
proof (induction xs rule: rev_induct)
  case (snoc x xs)
  have f: "fits64 (k * length xs) p" using snoc.prems(2) by (simp add: fits64_def)
  then have "fle (Fin 0) (py_sum xs)" "fin_le (k * length xs) p (py_sum xs)"
    using snoc by (auto intro!: py_sum_fin_le)
  then obtain a where a: "py_sum xs = Fin a" "0 \<le> a" by (auto simp: fin_le_def fle_def feq_def)
  obtain b where b: "x = Fin b" "0 \<le> b" using snoc.prems(1) by (auto simp: fin_le_def fle_def feq_def)
  have "fin_le (k * length (xs @ [x])) p (py_sum (xs @ [x]))"
    using snoc.prems by (intro py_sum_fin_le) auto
  then obtain r where r: "to_float (a + b) = Fin r" using a b by (auto simp: py_sum_def fin_le_def)
  then have "0 \<le> r" using a b by (auto intro: to_float_nonneg)
  then show ?case using a b r by (auto simp: py_sum_def fle_def feq_def)
qed (simp add: py_sum_def fle_def feq_def)

lemma squares_fin_le:
  assumes "\<forall>x\<in>set xs. fin_le j p x" "fin_le k p mean" "fits64 ((j + k) * (j + k)) (p + p)" "fits64 (j + k) p"
  shows "\<exists>sq. squares mean xs = Inr sq \<and> length sq = length xs \<and>
    (\<forall>y\<in>set sq. fin_le ((j + k) * (j + k)) (p + p) y \<and> fle (Fin 0) y)"
  using assms(1)
proof (induction xs)
  case (Cons x xs)
  have "fin_le (j + k) p (fsub x mean)" using Cons.prems assms(2,4) by (intro fsub_fin_le) auto
  from fpow2_fin_le [OF this assms(3)] Cons show ?case by auto
qed simp

definition price_ok :: "pyfloat \<Rightarrow> bool" where
  "price_ok x \<longleftrightarrow> (\<exists>a. x = Fin a \<and> 1 / 2 ^ 100 \<le> a \<and> a \<le> 2 ^ 156)"

lemma price_returns_fin_le:
  "\<forall>p\<in>set ps. price_ok p \<Longrightarrow> \<exists>r. price_returns ps = Inr r \<and> length r = length ps - 1 \<and>
     (\<forall>x\<in>set r. fin_le 2 256 x)"
proof (induction ps rule: price_returns.induct)
  case (1 p q ps)
  obtain a b where a: "p = Fin a" "1 / 2 ^ 100 \<le> a" and b: "q = Fin b" "1 / 2 ^ 100 \<le> b" "b \<le> 2 ^ 156"
    using 1(3) by (auto simp: price_ok_def)
  have ap: "0 < a" by (rule less_le_trans [OF _ a(2)]) simp
  have "0 \<le> b" by (rule order_trans [OF _ b(2)]) simp
  then have "\<bar>b / a\<bar> = b / a" using ap by simp
  also have "\<dots> \<le> 2 ^ 156 / (1 / 2 ^ 100)" using a(2) b(3) ap by (intro frac_le) auto
  also have "\<dots> = of_nat 1 * 2 ^ 256" by simp
  finally have "fin_le 1 256 (to_float (b / a))" by (intro to_float_fin_le) (simp add: fits64_def)
  moreover have "fin_le 1 256 (Fin 1)" by (simp add: fin_le_def)
  ultimately have "fin_le (1 + 1) 256 (fsub (to_float (b / a)) (Fin 1))"
    by (rule fsub_fin_le) (simp add: fits64_def)
  then have x: "fin_le 2 256 (fsub (to_float (b / a)) (Fin 1))" by (simp add: numeral_2_eq_2)
  have pos: "flt (Fin 0) p" using ap a by simp
  obtain r where r: "price_returns (q # ps) = Inr r" "length r = length ps" "\<forall>x\<in>set r. fin_le 2 256 x"
    using 1(1) [OF pos] 1(3) by auto
  show ?case using r x ap pos a(1) b(1) by auto
qed auto

lemma stdev_total:
  assumes "\<forall>x\<in>set r. fin_le 2 256 x" and "length r \<le> 2 ^ 20"
  shows "\<exists>s. stdev r = Inr (Fin s) \<and> 0 \<le> s"
proof (cases "length r < 2")
  case False
  define n where "n = length r"
  have n: "2 \<le> n" "n \<le> 1048576" using False assms(2) by (auto simp: n_def)
  have "fin_le (2 * n) 256 (py_sum r)"
    unfolding n_def using assms n by (intro py_sum_fin_le) (auto simp: fits64_def n_def)
  from fdiv_nat_fin_le [OF this] n obtain mean where
    mean: "fdiv (py_sum r) (Fin (of_nat n)) = Inr mean" "fin_le 2 256 mean" by (auto simp: fits64_def)
  from squares_fin_le [OF assms(1) mean(2)] obtain sq where
    sq: "squares mean r = Inr sq" "length sq = n" "\<forall>y\<in>set sq. fin_le 16 512 y \<and> fle (Fin 0) y"
    by (auto simp: fits64_def n_def)
  have f: "fits64 (16 * length sq) 512" using n sq(2) by (simp add: fits64_def)
  have "fin_le (16 * n) 512 (py_sum sq)" using py_sum_fin_le [OF _ f] sq by auto
  then have "fin_le (32 * (n - 1)) 512 (py_sum sq)" by (rule fin_le_mono) (use n in simp)
  from fdiv_nat_fin_le [OF this] n obtain var where
    var: "fdiv (py_sum sq) (Fin (of_nat (n - 1))) = Inr var" "fin_le 32 512 var" by (auto simp: fits64_def)
  obtain a where a: "py_sum sq = Fin a" "0 \<le> a"
    using \<open>fin_le (16 * n) 512 _\<close> py_sum_nonneg [OF sq(3) f] by (auto simp: fin_le_def fle_def feq_def)
  obtain v where v: "var = Fin v" "0 \<le> v"
  proof -
    have "var = to_float (a / of_nat (n - 1))" using var(1) a(1) n by (simp split: if_splits)
    moreover obtain v where "var = Fin v" using var(2) by (auto simp: fin_le_def)
    moreover have "0 \<le> a / of_nat (n - 1)" using a(2) by simp
    ultimately show thesis using that by (metis to_float_nonneg)
  qed
  have fl: "float_of_int (int n) = Inr (Fin (of_nat n))" "float_of_int (int n - 1) = Inr (Fin (of_nat (n - 1)))"
    using n by (simp_all add: float_of_int_small of_nat_diff)
  have "stdev r = Inr (Fin (rsqrt v))"
    using False mean sq var v fl by (simp add: stdev_def flip: n_def)
  then show ?thesis using rsqrt_nonneg by auto
qed (simp add: stdev_def)

section \<open>The window\<close>

definition vol_ok :: "RollingVolatility \<Rightarrow> bool" where
  "vol_ok v \<longleftrightarrow> 2 \<le> rv_window v \<and> int (length (rv_prices v)) \<le> rv_window v + 1 \<and>
     (\<forall>p\<in>set (rv_prices v). flt (Fin 0) p)"

lemma vol_init_ok: "vol_init w = Inr v \<Longrightarrow> vol_ok v"
  by (auto simp: vol_init_def vol_ok_def split: if_splits)

lemma in_set_tlD: "x \<in> set (tl xs) \<Longrightarrow> x \<in> set xs"
  by (cases xs) auto

lemma vol_update_ok: "vol_ok v \<Longrightarrow> vol_ok (vol_update p v)"
  by (auto simp: vol_update_def vol_ok_def Let_def dest!: in_set_tlD)

definition keep_last :: "nat \<Rightarrow> 'a list \<Rightarrow> 'a list" where
  "keep_last n xs = drop (length xs - n) xs"

lemma keep_last_snoc:
  assumes "0 < n"
  shows "keep_last n (q @ [p]) =
    (if n < length (keep_last n q @ [p]) then tl (keep_last n q @ [p]) else keep_last n q @ [p])"
proof (cases "length q < n")
  case False
  then have "drop (length q - n) q \<noteq> []" using assms by simp
  then have "tl (drop (length q - n) q @ [p]) = drop (Suc (length q - n)) q @ [p]"
    by (simp add: drop_Suc tl_drop)
  then show ?thesis using False assms by (simp add: keep_last_def Suc_diff_le)
qed (simp add: keep_last_def)

lemma vol_extend_snoc: "vol_extend (ps @ [p]) v = vol_update p (vol_extend ps v)"
  by (simp add: vol_extend_def)

lemma vol_update_window [simp]: "rv_window (vol_update p v) = rv_window v"
  by (simp add: vol_update_def Let_def)

lemma vol_extend_prices:
  assumes "vol_init w = Inr v"
  shows "rv_window (vol_extend ps v) = w \<and>
    rv_prices (vol_extend ps v) = keep_last (nat (w + 1)) (filter (flt (Fin 0)) ps)"
proof (induction ps rule: rev_induct)
  case (snoc p ps)
  let ?q = "filter (flt (Fin 0)) ps" and ?n = "nat (w + 1)"
  have w: "2 \<le> w" using assms by (simp add: vol_init_def split: if_splits)
  show ?case
  proof (cases "flt (Fin 0) p")
    case True
    have "keep_last ?n (?q @ [p]) =
      (if ?n < length (keep_last ?n ?q @ [p]) then tl (keep_last ?n ?q @ [p]) else keep_last ?n ?q @ [p])"
      using w by (intro keep_last_snoc) simp
    then show ?thesis
      using True snoc w by (simp add: vol_extend_snoc vol_update_def Let_def nat_less_iff)
  next
    case False
    then show ?thesis using snoc by (simp add: vol_extend_snoc vol_update_def)
  qed
qed (use assms in \<open>auto simp: vol_init_def vol_extend_def keep_last_def split: if_splits\<close>)


lemma set_keep_last: "set (keep_last n xs) \<subseteq> set xs"
  by (simp add: keep_last_def set_drop_subset)

text \<open>
  A fresh window of any admissible size fed with any price series keeps exactly its last
  \<open>window + 1\<close> positive prices, and its volatility is a finite, non-negative number: no division, square
  or root raises for prices from \<open>2\<^sup>-\<^sup>1\<^sup>0\<^sup>0\<close> to \<open>2\<^sup>1\<^sup>5\<^sup>6\<close>, whatever else the feed contains.
\<close>

lemma rolling_sigma_total:
  assumes "2 \<le> window" and "window \<le> 2 ^ 20"
    and "\<forall>p\<in>set prices. flt (Fin 0) p \<longrightarrow> price_ok p"
  shows "\<exists>v s. vol_init window = Inr v \<and>
     rv_prices (vol_extend prices v) = keep_last (nat (window + 1)) (filter (flt (Fin 0)) prices) \<and>
     vol_sigma (vol_extend prices v) = Inr (Fin s) \<and> 0 \<le> s"
proof -
  obtain v where v: "vol_init window = Inr v" using assms(1) by (simp add: vol_init_def)
  let ?ps = "keep_last (nat (window + 1)) (filter (flt (Fin 0)) prices)"
  have ps: "rv_prices (vol_extend prices v) = ?ps" using vol_extend_prices [OF v] by simp
  have ok: "\<forall>p\<in>set ?ps. price_ok p" using set_keep_last assms(3) by fastforce
  obtain r where r: "price_returns ?ps = Inr r" "length r = length ?ps - 1" "\<forall>x\<in>set r. fin_le 2 256 x"
    using price_returns_fin_le [OF ok] by blast
  have "length r \<le> 2 ^ 20" using r(2) assms(2) by (simp add: keep_last_def)
  from stdev_total [OF r(3) this] v ps r(1) show ?thesis by (auto simp: vol_sigma_def vol_returns_def)
qed

lemma rolling_sigma_total_witness:
  "\<exists>v s. vol_init 2 = Inr v \<and>
     rv_prices (vol_extend [Fin 5, Fin 2000, Fin 0, Fin 2100, NaN, Fin 1900] v) = [Fin 2000, Fin 2100, Fin 1900] \<and>
     vol_sigma (vol_extend [Fin 5, Fin 2000, Fin 0, Fin 2100, NaN, Fin 1900] v) = Inr (Fin s) \<and> 0 \<le> s"
  using rolling_sigma_total [of 2 "[Fin 5, Fin 2000, Fin 0, Fin 2100, NaN, Fin 1900]"]
  by (simp add: price_ok_def keep_last_def)

section \<open>The dynamic target\<close>

lemma representable_pow2: "representable (2 ^ p)"
  using representable_scaled [of 1 p] by simp

lemma int_fmul_ok:
  assumes "0 \<le> k" "k \<le> 2 ^ 256" "0 \<le> s" "s \<le> 2 ^ 700"
  shows "int_fmul k (Fin s) = Inr (Fin (rnd (rnd (of_int k) * s)))" "0 \<le> rnd (rnd (of_int k) * s)"
proof -
  have k: "(of_int k :: rat) \<le> 2 ^ 256"
    using assms(2) by (metis of_int_le_numeral_power_cancel_iff)
  have k0: "0 \<le> rnd (of_int k)" using assms(1) by (intro rnd_nonneg) simp
  have k1: "rnd (of_int k) \<le> 2 ^ 256" using k representable_pow2 by (rule b64.upper)
  have "to_float (of_int k) = Fin (rnd (of_int k))"
    using to_float_bounded(1) [of "of_int k" 1 256] k assms(1) by simp
  moreover have "rnd (of_int k) * s \<le> 2 ^ 256 * 2 ^ 700" using k0 k1 assms(3,4) by (intro mult_mono) auto
  then have "to_float (rnd (of_int k) * s) = Fin (rnd (rnd (of_int k) * s))"
    using to_float_bounded(1) [of "rnd (of_int k) * s" 1 956] k0 assms(3) by (simp flip: power_add)
  ultimately show "int_fmul k (Fin s) = Inr (Fin (rnd (rnd (of_int k) * s)))"
    by (simp add: int_fmul_def float_of_int_def)
  show "0 \<le> rnd (rnd (of_int k) * s)" using k0 assms(3) by (intro rnd_nonneg) simp
qed

lemma dynamic_target_eq:
  assumes "base \<le> mx" "0 \<le> k" "k \<le> 2 ^ 256" "0 \<le> s" "s \<le> 2 ^ 700"
  shows "dynamic_hf_target_bps (Fin s) base mx k =
    Inr (min (base + \<lfloor>rnd (rnd (of_int k) * s)\<rfloor>) mx)" "0 \<le> \<lfloor>rnd (rnd (of_int k) * s)\<rfloor>"
  using assms(1) int_fmul_ok [OF assms(2-5)]
  by (simp_all add: dynamic_hf_target_bps_def trunc_def Let_def)

text \<open>
  C29: for every signed band with \<open>base \<le> max\<close>, every \<open>volCoeffK\<close> the mandate's 256 bits can hold and
  every volatility the window can report, the target is computed without an exception, lies in
  the signed band, is the floor at zero volatility, and never falls when volatility rises.
\<close>

theorem dynamic_target_band_mono:
  assumes "base \<le> mx" and "0 \<le> k" and "k \<le> 2 ^ 256"
    and "0 \<le> s" and "s \<le> s'" and "s' \<le> 2 ^ 700"
  shows "\<exists>t t'. dynamic_hf_target_bps (Fin s) base mx k = Inr t \<and>
     dynamic_hf_target_bps (Fin s') base mx k = Inr t' \<and>
     base \<le> t \<and> t \<le> t' \<and> t' \<le> mx \<and> (s = 0 \<longrightarrow> t = base)"
proof -
  have b: "0 \<le> s'" "s \<le> 2 ^ 700" using assms(4-6) by auto
  have "0 \<le> rnd (of_int k)" using assms(2) by (intro rnd_nonneg) simp
  then have "rnd (rnd (of_int k) * s) \<le> rnd (rnd (of_int k) * s')"
    using assms(5) by (intro rnd_mono mult_left_mono)
  then have f: "\<lfloor>rnd (rnd (of_int k) * s)\<rfloor> \<le> \<lfloor>rnd (rnd (of_int k) * s')\<rfloor>" by (rule floor_mono)
  show ?thesis
    using f assms(1) dynamic_target_eq [OF assms(1-4) b(2)] dynamic_target_eq [OF assms(1-3) b(1) assms(6)]
    by (auto simp: min_def)
qed

theorem dynamic_target_band_mono_witness:
  "\<exists>t t'. dynamic_hf_target_bps (Fin 0) 12500 14000 50000 = Inr t \<and>
     dynamic_hf_target_bps (Fin (1 / 64)) 12500 14000 50000 = Inr t' \<and>
     12500 \<le> t \<and> t \<le> t' \<and> t' \<le> 14000 \<and> t = 12500"
  using dynamic_target_band_mono [of 12500 14000 50000 0 "1 / 64"] by simp

section \<open>The breach probability\<close>

text \<open>
  What the C library documents: the logarithm of a positive finite number is finite and the
  function is increasing; the complementary error function takes values in \<open>[0, 2]\<close> and is
  decreasing.
\<close>

definition libm_ok :: "libm \<Rightarrow> bool" where
  "libm_ok lm \<longleftrightarrow>
     (\<forall>a > 0. \<exists>l. lm_log lm (Fin a) = Fin l) \<and>
     (\<forall>a b. 0 < a \<longrightarrow> a \<le> b \<longrightarrow> fle (lm_log lm (Fin a)) (lm_log lm (Fin b))) \<and>
     (\<forall>y. y \<noteq> NaN \<longrightarrow> (\<exists>a. lm_erfc lm y = Fin a \<and> 0 \<le> a \<and> a \<le> 2)) \<and>
     (\<forall>y z. fle y z \<longrightarrow> fle (lm_erfc lm z) (lm_erfc lm y))"

lemma fle_Fin [simp]: "fle (Fin a) (Fin b) \<longleftrightarrow> a \<le> b"
  by (auto simp: fle_def feq_def)

lemma fle_NaN [simp]: "fle NaN x = False" "fle x NaN = False"
  by (cases x; simp add: fle_def feq_def)+

lemma fle_inf [simp]:
  "fle x PInf \<longleftrightarrow> x \<noteq> NaN" "fle NInf x \<longleftrightarrow> x \<noteq> NaN"
  "fle PInf x \<longleftrightarrow> x = PInf" "fle x NInf \<longleftrightarrow> x = NInf"
  by (cases x; auto simp: fle_def feq_def)+

lemma fle_refl: "x \<noteq> NaN \<Longrightarrow> fle x x"
  by (cases x) auto

lemma to_float_not_NaN [simp]: "to_float x \<noteq> NaN"
  by (simp add: to_float_def Let_def)

lemma to_float_mono: "x \<le> y \<Longrightarrow> fle (to_float x) (to_float y)"
proof -
  assume "x \<le> y"
  then have "rnd x \<le> rnd y" by (rule rnd_mono)
  then show ?thesis unfolding to_float_def Let_def by (auto simp del: power_numeral)
qed

lemma fdiv_mono:
  assumes "fle x x'" and "0 < d"
  shows "\<exists>y y'. fdiv x (Fin d) = Inr y \<and> fdiv x' (Fin d) = Inr y' \<and> fle y y'"
  using assms by (cases x; cases x') (auto simp: finf_def intro!: to_float_mono divide_right_mono)

lemma fdiv_mono_pos:
  assumes "l \<le> l'" and "flt (Fin 0) d"
  shows "\<exists>y y'. fdiv (Fin l) d = Inr y \<and> fdiv (Fin l') d = Inr y' \<and> fle y y'"
  using assms fdiv_mono [of "Fin l" "Fin l'"] by (cases d) auto

lemma isqrt_ge: "m * m \<le> n \<Longrightarrow> m \<le> isqrt n"
  using isqrt_bounds [of n] by (metis le_less_trans less_Suc_eq_le Suc_eq_plus1 mult_less_cancel2 nat_mult_less_cancel1 mult_le_mono not_le)

lemma rsqrt_ge_1: "1 \<le> a \<Longrightarrow> 1 \<le> rsqrt a"
proof -
  assume a: "1 \<le> a"
  have e: "(4::rat) ^ 600 = of_int (4 ^ 600)" by (simp only: of_int_power of_int_numeral)
  have "(4::rat) ^ 600 \<le> a * 4 ^ 600" using a by (simp only: mult_le_cancel_right1) simp
  then have "(4::int) ^ 600 \<le> \<lfloor>a * 4 ^ 600\<rfloor>" unfolding e by (simp only: le_floor_iff)
  then have "(4::nat) ^ 600 \<le> nat \<lfloor>a * 4 ^ 600\<rfloor>" by (metis nat_mono nat_power_eq nat_numeral zero_le_numeral)
  moreover have "(2::nat) ^ 600 * 2 ^ 600 = 4 ^ 600" by (simp only: flip: power_mult_distrib) simp
  ultimately have "2 ^ 600 \<le> isqrt (nat \<lfloor>a * 4 ^ 600\<rfloor>)" by (intro isqrt_ge) (simp only:)
  then have "2 * 2 ^ 600 \<le> 2 * isqrt (nat \<lfloor>a * 4 ^ 600\<rfloor>)" by (intro mult_left_mono) auto
  moreover have "\<And>x y :: nat. (2::nat) ^ 601 \<le> x + y \<Longrightarrow> (1::rat) \<le> of_nat (x + y) / 2 ^ 601"
    by (simp only: le_divide_eq) (metis of_nat_le_iff of_nat_numeral of_nat_power mult_1 zero_less_numeral zero_less_power)
  ultimately have "(1::rat) \<le> of_nat (2 * isqrt (nat \<lfloor>a * 4 ^ 600\<rfloor>) + k) / 2 ^ 601" for k
    by (metis power_Suc Suc_eq_plus1 numeral_plus_one trans_le_add1 semiring_norm(5) semiring_norm(2))
  moreover have "representable 1" using representable_pow2 [of 0] by simp
  ultimately show ?thesis unfolding rsqrt_def Let_def by (intro b64.lower)
qed


lemma scaled_sigma_pos:
  assumes "0 < s" "representable s" "1 \<le> r"
  shows "flt (Fin 0) (fmul (Fin s) (Fin r))"
proof -
  have "s \<le> s * r" using assms(1,3) by simp
  then have "s \<le> rnd (s * r)" using assms(2) by (rule b64.lower)
  then have "0 < rnd (s * r)" using assms(1) by simp
  then have "\<not> rnd (s * r) \<le> - (2 ^ 1024)" by (simp only: not_le) (rule less_trans, auto)
  then show ?thesis using \<open>0 < rnd (s * r)\<close> by (simp add: to_float_def Let_def del: power_numeral)
qed

lemma half_mono:
  assumes "0 \<le> a" "a \<le> b" "b \<le> 2"
  shows "\<exists>p q. fmul (Fin (1 / 2)) (Fin a) = Fin p \<and> fmul (Fin (1 / 2)) (Fin b) = Fin q \<and>
    0 \<le> p \<and> p \<le> q \<and> q \<le> 1"
proof -
  have f: "to_float (x / 2) = Fin (rnd (x / 2))" "0 \<le> rnd (x / 2)" "rnd (x / 2) \<le> 1" if "0 \<le> x" "x \<le> 2" for x
    using that to_float_bounded [of "x / 2" 1 0] by (auto intro: rnd_nonneg)
  have "rnd (a / 2) \<le> rnd (b / 2)" using assms(2) by (intro rnd_mono) simp
  then show ?thesis using assms f [of a] f [of b] by auto
qed

definition breach_tail :: "libm \<Rightarrow> pyfloat \<Rightarrow> pyfloat \<Rightarrow> int \<Rightarrow> pyfloat res" where
  "breach_tail lm l sigma h = 
     res_bind (float_of_int h) (\<lambda>h.
        res_bind (fsqrt h) (\<lambda>root.
        res_bind (fdiv l (fmul sigma root)) (\<lambda>z.
        res_bind (fsqrt (Fin 2)) (\<lambda>root2.
        res_bind (fdiv z root2) (\<lambda>y. Inr (fmul (Fin (1 / 2)) (lm_erfc lm y)))))))"

lemma breach_tail_antitone:
  assumes "libm_ok lm" "0 < s" "representable s" "1 \<le> h" "h \<le> 2 ^ 53" "l \<le> l'"
  shows "\<exists>p q. breach_tail lm (Fin l') (Fin s) h = Inr (Fin p) \<and>
    breach_tail lm (Fin l) (Fin s) h = Inr (Fin q) \<and> 0 \<le> p \<and> p \<le> q \<and> q \<le> 1"
proof -
  let ?r = "rsqrt (of_int h)" and ?w = "rsqrt 2"
  have fl: "float_of_int h = Inr (Fin (of_int h))" "fsqrt (Fin (of_int h)) = Inr (Fin ?r)"
    "fsqrt (Fin 2) = Inr (Fin ?w)"
    using assms(4,5) by (simp_all add: float_of_int_small)
  have r: "1 \<le> ?r" using assms(4) by (intro rsqrt_ge_1) simp
  have w: "0 < ?w" using rsqrt_ge_1 [of 2] by simp
  obtain z z' where z: "fdiv (Fin l) (fmul (Fin s) (Fin ?r)) = Inr z"
    "fdiv (Fin l') (fmul (Fin s) (Fin ?r)) = Inr z'" "fle z z'"
    using fdiv_mono_pos [OF assms(6) scaled_sigma_pos [OF assms(2,3) r]] by blast
  obtain y y' where y: "fdiv z (Fin ?w) = Inr y" "fdiv z' (Fin ?w) = Inr y'" "fle y y'"
    using fdiv_mono [OF z(3) w] by blast
  then have "y \<noteq> NaN" "y' \<noteq> NaN" by auto
  then obtain a b where ab: "lm_erfc lm y' = Fin a" "lm_erfc lm y = Fin b" "0 \<le> a" "b \<le> 2" "a \<le> b"
    using assms(1) y(3) unfolding libm_ok_def by (metis fle_Fin)
  from half_mono [OF ab(3,5,4)] fl z(1,2) y(1,2) ab(1,2) show ?thesis
    by (auto simp: breach_tail_def simp del: fmul.simps fdiv.simps)
qed

lemma breach_probability_pos:
  assumes "0 < a" "0 < s" "0 < h" "libm_ok lm"
  shows "\<exists>l. lm_log lm (Fin a) = Fin l \<and>
    breach_probability lm (Fin a) (Fin s) h = breach_tail lm (Fin l) (Fin s) h"
proof -
  obtain l where "lm_log lm (Fin a) = Fin l" using assms(1,4) by (auto simp: libm_ok_def)
  then show ?thesis using assms
    by (simp add: breach_probability_def breach_tail_def math_log_def feq_def not_le
        del: fmul.simps fdiv.simps fsqrt.simps)
qed

text \<open>
  Over the documented range of the C library the breach estimate is computed without an
  exception for every health factor that is a number, is a probability, is certain at or below
  zero and impossible without debt, and never rises with the health factor.
\<close>

lemma breach_probability_antitone:
  assumes "libm_ok lm" and "0 \<le> s" and "representable s" and "h \<le> 2 ^ 53" and "fle hf hf'"
  shows "\<exists>p q. breach_probability lm hf' (Fin s) h = Inr (Fin p) \<and>
     breach_probability lm hf (Fin s) h = Inr (Fin q) \<and> 0 \<le> p \<and> p \<le> q \<and> q \<le> 1 \<and>
     (fle hf (Fin 0) \<longrightarrow> q = 1) \<and> (hf' = PInf \<longrightarrow> p = 0)"
proof -
  let ?f = "\<lambda>x. breach_probability lm x (Fin s) h"
  have lo: "?f x = Inr (Fin 1)" if "fle x (Fin 0)" for x using that by (simp add: breach_probability_def)
  have hi: "?f PInf = Inr (Fin 0)" by (simp add: breach_probability_def feq_def)
  have flat: "?f (Fin a) = Inr (if 1 < a then Fin 0 else Fin 1)" if "0 < a" "s = 0 \<or> h \<le> 0" for a
    using that by (auto simp: breach_probability_def feq_def)
  have tail: "\<exists>p q. ?f (Fin b) = Inr (Fin p) \<and> ?f (Fin a) = Inr (Fin q) \<and> 0 \<le> p \<and> p \<le> q \<and> q \<le> 1"
    if ab: "0 < a" "a \<le> b" and sh: "s \<noteq> 0" "0 < h" for a b
  proof -
    have b: "0 < b" and s: "0 < s" using ab sh assms(2) by auto
    obtain l where l: "lm_log lm (Fin a) = Fin l" "?f (Fin a) = breach_tail lm (Fin l) (Fin s) h"
      using breach_probability_pos [OF ab(1) s sh(2) assms(1)] by blast
    obtain l' where l': "lm_log lm (Fin b) = Fin l'" "?f (Fin b) = breach_tail lm (Fin l') (Fin s) h"
      using breach_probability_pos [OF b s sh(2) assms(1)] by blast
    have "fle (lm_log lm (Fin a)) (lm_log lm (Fin b))" using assms(1) ab by (simp add: libm_ok_def)
    then have "l \<le> l'" by (simp add: l l')
    then show ?thesis using breach_tail_antitone [OF assms(1) s assms(3) _ assms(4)] sh l l' by auto
  qed
  have pos: "\<exists>p q. ?f (Fin b) = Inr (Fin p) \<and> ?f (Fin a) = Inr (Fin q) \<and> 0 \<le> p \<and> p \<le> q \<and> q \<le> 1"
    if "0 < a" "a \<le> b" for a b
    using that tail [OF that] flat [of a] flat [of b] by (cases "s \<noteq> 0 \<and> 0 < h") auto
  show ?thesis
  proof (cases "fle hf (Fin 0)")
    case True
    show ?thesis
    proof (cases hf')
      case (Fin b)
      then show ?thesis using lo [OF True] lo [of hf'] pos [of b b] True by (cases "b \<le> 0") auto
    qed (use True assms(5) lo [OF True] lo [of hf'] hi in auto)
  next
    case False
    then consider "hf = PInf" | a where "hf = Fin a" "0 < a" using assms(5) by (cases hf) auto
    then show ?thesis
    proof cases
      case 1
      then show ?thesis using assms(5) hi by simp
    next
      case 2
      obtain q where "?f (Fin a) = Inr (Fin q)" "0 \<le> q" "q \<le> 1" using pos [of a a] 2(2) by auto
      then show ?thesis using 2 assms(5) hi pos [of a] by (cases hf') auto
    qed
  qed
qed

text \<open>A step function for each of the two library functions satisfies what is documented.\<close>

definition step_libm :: libm where
  "step_libm = \<lparr>lm_log = (\<lambda>x. case x of Fin a \<Rightarrow> Fin (if a < 1 then - 1 else if a = 1 then 0 else 1) | _ \<Rightarrow> x),
     lm_erfc = (\<lambda>x. if x = NaN then NaN else if fle x (Fin (-1)) then Fin 2 else if flt x (Fin 1) then Fin 1 else Fin 0)\<rparr>"

lemma step_libm_ok: "libm_ok step_libm"
proof -
  have erfc: "fle (lm_erfc step_libm z) (lm_erfc step_libm y)" if "fle y z" for y z
    using that by (cases y; cases z) (auto simp: step_libm_def)
  show ?thesis unfolding libm_ok_def using erfc by (auto simp: step_libm_def)
qed

lemma breach_probability_antitone_witness:
  "\<exists>p q. breach_probability step_libm PInf (Fin (1 / 16)) 1 = Inr (Fin p) \<and>
     breach_probability step_libm (Fin (5 / 4)) (Fin (1 / 16)) 1 = Inr (Fin q) \<and>
     p = 0 \<and> 0 \<le> q \<and> q \<le> 1"
proof -
  have "representable (1 / 16)"
    unfolding representable_def
    by (rule exI [of _ 1], rule exI [of _ "-4"]) (simp add: power_int_def power_divide)
  then show ?thesis
    using breach_probability_antitone [OF step_libm_ok, of "1 / 16" 1 "Fin (5 / 4)" PInf] by auto
qed

end
