(* ===== verification/Monitor.thy ===== *)
theory Monitor
  imports Chain_Reads Risk
begin

text \<open>
  \<^verbatim>\<open>app/core/monitor.py\<close>: the state classifier and the monitor, whose only state is one rolling
  window per asset. Two monitors exist at run time, the service's and the pipeline's own; an
  operation takes the lens (selector and update) of the window table it works on.
\<close>

section \<open>Classification\<close>

definition classify_state :: "UserAccountData \<Rightarrow> int \<Rightarrow> int \<Rightarrow> PositionState" where
  "classify_state account hf_trigger_bps watch_band_bps =
     (if \<not> ua_has_debt account then HEALTHY
      else let hf_bps = ua_health_factor account div 10 ^ 14 in
        if hf_bps \<le> hf_trigger_bps then ASSESSING
        else if hf_bps \<le> hf_trigger_bps + watch_band_bps then WATCH
        else HEALTHY)"

definition WATCH_BAND_BPS :: int where "WATCH_BAND_BPS = 500"

definition hf_wad_to_bps :: "int \<Rightarrow> int" where
  "hf_wad_to_bps hf_wad = hf_wad div 10 ^ 14"

definition hf_bps_to_float :: "int \<Rightarrow> pyfloat res" where
  "hf_bps_to_float hf_bps = int_truediv hf_bps BPS"

section \<open>PositionMonitor\<close>

type_synonym vols = "(string, RollingVolatility) pydict"

definition volatility_for :: "int \<Rightarrow> string \<Rightarrow> vols \<Rightarrow> RollingVolatility res \<times> vols" where
  "volatility_for vol_window asset vols =
     (case dict_get vols asset of
        Some vol \<Rightarrow> (Inr vol, vols)
      | None \<Rightarrow> (case vol_init vol_window of
            Inl e \<Rightarrow> (Inl e, vols)
          | Inr vol \<Rightarrow> (Inr vol, dict_set asset vol vols)))"

definition sigma_for :: "int \<Rightarrow> string \<Rightarrow> vols \<Rightarrow> pyfloat res \<times> vols" where
  "sigma_for vol_window asset vols =
     (case volatility_for vol_window asset vols of
        (Inl e, vols') \<Rightarrow> (Inl e, vols')
      | (Inr vol, vols') \<Rightarrow> (vol_sigma vol, vols'))"

definition record_price :: "int \<Rightarrow> string \<Rightarrow> pyfloat \<Rightarrow> vols \<Rightarrow> unit res \<times> vols" where
  "record_price vol_window asset value vols =
     (case volatility_for vol_window asset vols of
        (Inl e, vols') \<Rightarrow> (Inl e, vols')
      | (Inr vol, vols') \<Rightarrow> (Inr (), dict_set asset (vol_update value vol) vols'))"

definition poll_once :: "'z cs node \<Rightarrow> string \<Rightarrow> int \<Rightarrow> ('z cs, PositionSnapshot) io" where
  "poll_once nd borrower hf_trigger_bps =
     io_bind (get_user_account_data nd borrower) (\<lambda>account.
     let state = classify_state account hf_trigger_bps WATCH_BAND_BPS in
     io_bind (io_lift (ua_hf account)) (\<lambda>hf. io_return
       \<lparr>ps_borrower = borrower, ps_account = account, ps_state = state, ps_hf = hf,
        ps_hf_trigger_bps = hf_trigger_bps\<rparr>))"

definition sample_price ::
  "('z cs \<Rightarrow> vols) \<Rightarrow> (vols \<Rightarrow> 'z cs \<Rightarrow> 'z cs) \<Rightarrow> int \<Rightarrow> 'z cs node \<Rightarrow> string \<Rightarrow> ('z cs, pyfloat) io" where
  "sample_price get_vols set_vols vol_window nd asset =
     io_bind (get_asset_price nd asset) (\<lambda>price.
     io_bind (io_lift (int_truediv (op_price price) (10 ^ op_decimals price))) (\<lambda>value s.
       case record_price vol_window asset value (get_vols s) of
         (Inl e, vols') \<Rightarrow> (Inl e, set_vols vols' s)
       | (Inr _, vols') \<Rightarrow> (Inr value, set_vols vols' s)))"

section \<open>Facts\<close>

lemma classify_range: "classify_state a t w \<in> {HEALTHY, WATCH, ASSESSING}"
  by (simp add: classify_state_def Let_def)

lemma wad_bps_threshold: "h div 10 ^ 14 \<le> t \<longleftrightarrow> h < (t + 1) * 10 ^ 14" for h :: int
proof -
  have p: "(0::int) < 10 ^ 14" by simp
  show ?thesis
  proof
    assume "h div 10 ^ 14 \<le> t"
    then have "(h div 10 ^ 14 + 1) * 10 ^ 14 \<le> (t + 1) * 10 ^ 14" by simp
    then show "h < (t + 1) * 10 ^ 14" using div_bounds(2) [OF p, of h] by linarith
  next
    assume "h < (t + 1) * 10 ^ 14"
    then have "h div 10 ^ 14 * 10 ^ 14 < (t + 1) * 10 ^ 14" using div_bounds(1) [OF p, of h] by linarith
    then show "h div 10 ^ 14 \<le> t" by simp
  qed
qed

definition urgency :: "PositionState \<Rightarrow> nat" where
  "urgency s = (if s = ASSESSING then 2 else if s = WATCH then 1 else 0)"

lemma urgency_classify:
  "urgency (classify_state a t w) =
     (if \<not> ua_has_debt a then 0 else if ua_health_factor a div 10 ^ 14 \<le> t then 2
      else if ua_health_factor a div 10 ^ 14 \<le> t + w then 1 else 0)"
  by (simp add: urgency_def classify_state_def Let_def)

text \<open>
  The classifier asks for action exactly when there is debt and the health factor, at full
  WAD precision, is below the next basis point above the signed trigger; a position without debt
  is healthy whatever the trigger; and lowering the health factor never makes the state calmer.
\<close>

lemma classify_trigger:
  "(classify_state a t w = ASSESSING \<longleftrightarrow>
      0 < ua_total_debt_base a \<and> ua_health_factor a < (t + 1) * 10 ^ 14) \<and>
   (ua_total_debt_base a = 0 \<longrightarrow> classify_state a t w = HEALTHY) \<and>
   (h \<le> ua_health_factor a \<longrightarrow>
      urgency (classify_state a t w) \<le> urgency (classify_state (a\<lparr>ua_health_factor := h\<rparr>) t w))"
proof -
  have m: "h div 10 ^ 14 \<le> ua_health_factor a div 10 ^ 14" if "h \<le> ua_health_factor a"
    using that by (intro zdiv_mono1) auto
  have "classify_state a t w = ASSESSING \<longleftrightarrow> ua_has_debt a \<and> ua_health_factor a div 10 ^ 14 \<le> t"
    by (auto simp: classify_state_def Let_def)
  moreover have "urgency (classify_state a t w) \<le> urgency (classify_state (a\<lparr>ua_health_factor := h\<rparr>) t w)"
    if "h \<le> ua_health_factor a"
    using m [OF that] unfolding urgency_classify by (simp add: ua_has_debt_def del: power_numeral)
  ultimately show ?thesis
    unfolding wad_bps_threshold by (auto simp: ua_has_debt_def classify_state_def)
qed

lemma classify_trigger_witness:
  "classify_state \<lparr>ua_total_collateral_base = 1000, ua_total_debt_base = 700, ua_available_borrows_base = 0,
     ua_liquidation_threshold_bps = 8250, ua_ltv_bps = 8000, ua_health_factor = 10509 * 10 ^ 14\<rparr> 10500 500 = WATCH \<and>
   urgency WATCH \<le> urgency (classify_state \<lparr>ua_total_collateral_base = 1000, ua_total_debt_base = 700,
     ua_available_borrows_base = 0, ua_liquidation_threshold_bps = 8250, ua_ltv_bps = 8000,
     ua_health_factor = 10400 * 10 ^ 14\<rparr> 10500 500)"
  using classify_trigger [of "\<lparr>ua_total_collateral_base = 1000, ua_total_debt_base = 700,
     ua_available_borrows_base = 0, ua_liquidation_threshold_bps = 8250, ua_ltv_bps = 8000,
     ua_health_factor = 10509 * 10 ^ 14\<rparr>" 10500 500 "10400 * 10 ^ 14"]
  by (simp add: classify_state_def ua_has_debt_def urgency_def)

section \<open>The window table\<close>

definition vols_ok :: "vols \<Rightarrow> bool" where
  "vols_ok vols \<longleftrightarrow> dict_wf vols \<and> (\<forall>a v. dict_get vols a = Some v \<longrightarrow> vol_ok v)"

lemma vols_ok_set: "vols_ok vs \<Longrightarrow> vol_ok v \<Longrightarrow> vols_ok (dict_set a v vs)"
  by (auto simp: vols_ok_def dict_simps split: if_splits)

lemma volatility_for_ok:
  "volatility_for w a vs = (r, vs') \<Longrightarrow> vols_ok vs \<Longrightarrow> vols_ok vs' \<and> (\<forall>v. r = Inr v \<longrightarrow> vol_ok v)"
  by (auto simp: volatility_for_def vols_ok_set vol_init_ok dest: vols_ok_def [THEN iffD1]
      split: option.splits sum.splits)

lemma sigma_for_ok: "vols_ok vs \<Longrightarrow> vols_ok (snd (sigma_for w a vs))"
  by (auto simp: sigma_for_def split: prod.splits sum.splits dest: volatility_for_ok)

lemma record_price_ok: "vols_ok vs \<Longrightarrow> vols_ok (snd (record_price w a x vs))"
  by (auto simp: record_price_def split: prod.splits sum.splits dest!: volatility_for_ok
      intro!: vols_ok_set vol_update_ok)

lemma poll_once_Inr:
  "poll_once nd b t s = (Inr snap, s') \<Longrightarrow>
     ps_borrower snap = b \<and> ps_state snap = classify_state (ps_account snap) t WATCH_BAND_BPS \<and>
     ua_hf (ps_account snap) = Inr (ps_hf snap)"
  by (auto simp: poll_once_def io_bind_Inr_iff Let_def)

end
