(* ===== verification/Selector.thy ===== *)
theory Selector
  imports Chain_Reads "HOL-Library.Product_Lexorder" "HOL-Library.Multiset"
begin

text \<open>
  \<^verbatim>\<open>app/core/selector.py\<close>: scoring and ranking of the collaterals a rescue may sell. Python's \<^verbatim>\<open>sorted\<close>
  is stable, as \<open>sort_key\<close> is, and compares key tuples lexicographically.
\<close>

section \<open>Scoring and ranking\<close>

definition to_base_value :: "int \<Rightarrow> nat \<Rightarrow> int \<Rightarrow> int" where
  "to_base_value amount decimals price_base = (amount * price_base) div 10 ^ decimals"

definition build_choice ::
  "string \<Rightarrow> int \<Rightarrow> int \<Rightarrow> nat \<Rightarrow> int \<Rightarrow> int \<Rightarrow> nat \<Rightarrow> int \<Rightarrow> int \<Rightarrow> bool \<Rightarrow> CollateralChoice" where
  "build_choice collateral_asset fee_tier amount_in collateral_decimals collateral_price_base out_needed
     debt_decimals debt_price_base liq_threshold_bps has_allowance =
     (let amount_in_value = to_base_value amount_in collateral_decimals collateral_price_base;
          out_value = to_base_value out_needed debt_decimals debt_price_base;
          slippage_bps = (if 0 < out_value then ((amount_in_value - out_value) * BPS) div out_value else 0);
          slippage_bps = max slippage_bps 0;
          eligible = (has_allowance \<and> 0 < amount_in \<and> 0 < out_value);
          reason = (if eligible then None
            else Some (if \<not> has_allowance then ''no aToken allowance'' else ''no quote / zero value''))
      in \<lparr>cc_collateral_asset = collateral_asset, cc_fee_tier = fee_tier, cc_amount_in = amount_in,
          cc_amount_in_value_base = amount_in_value, cc_out_needed_value_base = out_value,
          cc_slippage_cost_bps = slippage_bps, cc_liq_threshold_bps = liq_threshold_bps,
          cc_has_allowance = has_allowance, cc_eligible = eligible, cc_reason = reason\<rparr>)"

definition choice_key :: "CollateralChoice \<Rightarrow> bool \<times> int \<times> int" where
  "choice_key c = (\<not> cc_eligible c, cc_slippage_cost_bps c, - cc_liq_threshold_bps c)"

definition rank_collaterals :: "CollateralChoice list \<Rightarrow> CollateralChoice list" where
  "rank_collaterals choices = sort_key choice_key choices"

section \<open>CollateralSelector\<close>

definition quoted_amount_in :: "'z cs node \<Rightarrow> string \<Rightarrow> string \<Rightarrow> int \<Rightarrow> int \<Rightarrow> ('z cs, int) io" where
  "quoted_amount_in nd collateral debt_asset out_needed fee_tier =
     io_try (io_bind (quote_exact_output_single nd collateral debt_asset out_needed (Some fee_tier))
        (\<lambda>quote. io_return (qt_amount_in quote)))
       (\<lambda>_. io_return 0)"

fun score_candidates ::
  "'z cs node \<Rightarrow> string \<Rightarrow> string \<Rightarrow> string \<Rightarrow> int \<Rightarrow> ReserveInfo \<Rightarrow> int \<Rightarrow> string list \<Rightarrow>
     ('z cs, CollateralChoice list) io" where
  "score_candidates nd borrower vault_address debt_asset out_needed debt_reserve debt_price [] = io_return []"
| "score_candidates nd borrower vault_address debt_asset out_needed debt_reserve debt_price (collateral # rest) =
     io_bind (get_reserve_info nd collateral) (\<lambda>reserve.
     io_bind (get_asset_price nd collateral) (\<lambda>price.
     io_bind (io_lift (fee_tier_for (nd_checksum nd) collateral debt_asset)) (\<lambda>fee_tier.
     io_bind (quoted_amount_in nd collateral debt_asset out_needed fee_tier) (\<lambda>amount_in.
     io_bind (allowance nd (ri_aToken_address reserve) borrower vault_address) (\<lambda>allow.
     let choice = build_choice collateral fee_tier amount_in (ri_decimals reserve) (op_price price) out_needed
           (ri_decimals debt_reserve) debt_price (ri_liq_threshold_bps reserve)
           (0 < amount_in \<and> amount_in \<le> allow) in
     io_bind (score_candidates nd borrower vault_address debt_asset out_needed debt_reserve debt_price rest)
       (\<lambda>choices. io_return (choice # choices)))))))"

definition evaluate_collaterals ::
  "'z cs node \<Rightarrow> string \<Rightarrow> string \<Rightarrow> string \<Rightarrow> int \<Rightarrow> string list \<Rightarrow> ('z cs, CollateralChoice list) io" where
  "evaluate_collaterals nd borrower vault_address debt_asset out_needed candidate_collaterals =
     io_bind (get_reserve_info nd debt_asset) (\<lambda>debt_reserve.
     io_bind (get_asset_price nd debt_asset) (\<lambda>debt_price.
     io_bind (score_candidates nd borrower vault_address debt_asset out_needed debt_reserve
       (op_price debt_price) candidate_collaterals) (\<lambda>choices.
     io_return (rank_collaterals choices))))"

definition select_best ::
  "'z cs node \<Rightarrow> string \<Rightarrow> string \<Rightarrow> string \<Rightarrow> int \<Rightarrow> string list \<Rightarrow> ('z cs, CollateralChoice option) io" where
  "select_best nd borrower vault_address debt_asset out_needed candidate_collaterals =
     io_bind (evaluate_collaterals nd borrower vault_address debt_asset out_needed candidate_collaterals)
       (\<lambda>ranked. io_return (case ranked of [] \<Rightarrow> None | c # _ \<Rightarrow> if cc_eligible c then Some c else None))"

section \<open>The ranking\<close>

lemma choice_key_le:
  "choice_key c \<le> choice_key d \<longleftrightarrow>
     (cc_eligible c \<and> \<not> cc_eligible d) \<or>
     (cc_eligible c = cc_eligible d \<and>
       (cc_slippage_cost_bps c < cc_slippage_cost_bps d \<or>
        cc_slippage_cost_bps c = cc_slippage_cost_bps d \<and> cc_liq_threshold_bps d \<le> cc_liq_threshold_bps c))"
  by (auto simp: choice_key_def less_eq_prod_def)

definition best_of :: "CollateralChoice list \<Rightarrow> CollateralChoice option" where
  "best_of choices = (case rank_collaterals choices of [] \<Rightarrow> None | c # _ \<Rightarrow> if cc_eligible c then Some c else None)"

lemma rank_head_least: "rank_collaterals cs = c # r \<Longrightarrow> d \<in> set cs \<Longrightarrow> choice_key c \<le> choice_key d"
proof -
  assume h: "rank_collaterals cs = c # r" and d: "d \<in> set cs"
  have s: "sorted (map choice_key (c # r))" unfolding h [symmetric] rank_collaterals_def by simp
  have "d \<in> set (c # r)" unfolding h [symmetric] rank_collaterals_def using d by simp
  then show ?thesis using s by auto
qed

lemma rank_set [simp]: "set (rank_collaterals cs) = set cs" "length (rank_collaterals cs) = length cs"
  by (simp_all add: rank_collaterals_def)

lemma best_of_Some:
  "best_of cs = Some c \<Longrightarrow> c \<in> set cs \<and> cc_eligible c \<and> (\<forall>d\<in>set cs. choice_key c \<le> choice_key d)"
proof -
  assume "best_of cs = Some c"
  then obtain r where r: "rank_collaterals cs = c # r" "cc_eligible c"
    by (auto simp: best_of_def split: list.splits if_splits)
  have "c \<in> set (rank_collaterals cs)" unfolding r(1) by simp
  then show ?thesis using r(2) rank_head_least [OF r(1)] by simp
qed

lemma best_of_None: "best_of cs = None \<Longrightarrow> d \<in> set cs \<Longrightarrow> \<not> cc_eligible d"
proof -
  assume n: "best_of cs = None" and d: "d \<in> set cs"
  have "rank_collaterals cs \<noteq> []" using d rank_set(2) [of cs] by (metis length_pos_if_in_set list.size(3) less_irrefl)
  then obtain c r where r: "rank_collaterals cs = c # r" "\<not> cc_eligible c"
    using n by (auto simp: best_of_def neq_Nil_conv split: if_splits)
  then show ?thesis using rank_head_least [OF r(1) d] by (auto simp: choice_key_le)
qed

text \<open>
  C27: the selection is the optimum of the stated order. A winner is one of the scored candidates,
  is eligible, has the lowest swap cost of all eligible candidates and, among those of equal cost,
  the highest liquidation threshold; there is no winner only when no candidate is eligible;
  the ranking loses and invents no candidate.
\<close>

theorem selection_optimal:
  "mset (rank_collaterals cs) = mset cs \<and>
   (case best_of cs of
      None \<Rightarrow> \<forall>d\<in>set cs. \<not> cc_eligible d
    | Some c \<Rightarrow> c \<in> set cs \<and> cc_eligible c \<and>
        (\<forall>d\<in>set cs. cc_eligible d \<longrightarrow>
           cc_slippage_cost_bps c < cc_slippage_cost_bps d \<or>
           (cc_slippage_cost_bps c = cc_slippage_cost_bps d \<and>
            cc_liq_threshold_bps d \<le> cc_liq_threshold_bps c)))"
proof (cases "best_of cs")
  case None
  then show ?thesis using best_of_None by (auto simp: rank_collaterals_def)
next
  case (Some c)
  then show ?thesis using best_of_Some [OF Some] by (auto simp: rank_collaterals_def choice_key_le)
qed

theorem selection_optimal_witness:
  "let a = build_choice ''A'' 500 10 0 100 9 0 100 8000 True;
       b = build_choice ''B'' 500 10 0 100 9 0 100 8250 True;
       c = build_choice ''C'' 500 9 0 100 9 0 100 9000 False
   in cc_collateral_asset (the (best_of [a, b, c])) = ''B'' \<and>
      (case best_of [a, b, c] of None \<Rightarrow> False | Some w \<Rightarrow> cc_eligible w)"
proof -
  let ?a = "build_choice ''A'' 500 10 0 100 9 0 100 8000 True"
  let ?b = "build_choice ''B'' 500 10 0 100 9 0 100 8250 True"
  let ?c = "build_choice ''C'' 500 9 0 100 9 0 100 9000 False"
  have "best_of [?a, ?b, ?c] = Some ?b"
    by (simp add: best_of_def rank_collaterals_def choice_key_def build_choice_def to_base_value_def BPS_def)
  then show ?thesis using selection_optimal [of "[?a, ?b, ?c]"] by (simp add: build_choice_def Let_def)
qed

section \<open>What the chain reads contribute\<close>

lemma score_candidates_Inr:
  "score_candidates nd b v debt out res price cands s = (Inr cs, s') \<Longrightarrow>
     map cc_collateral_asset cs = cands \<and>
     (\<forall>c\<in>set cs. cc_eligible c \<longrightarrow> cc_has_allowance c \<and> 0 < cc_amount_in c \<and> 0 < cc_out_needed_value_base c \<and>
        0 \<le> cc_slippage_cost_bps c)"
proof (induction cands arbitrary: s cs)
  case (Cons c cands)
  then show ?case
    by (fastforce simp: io_bind_Inr_iff build_choice_def Let_def)
qed simp

lemma select_best_Inr:
  assumes "select_best nd b v debt out cands s = (Inr r, s')"
  shows "\<exists>cs. map cc_collateral_asset cs = cands \<and> r = best_of cs \<and>
    (\<forall>c\<in>set cs. cc_eligible c \<longrightarrow> cc_has_allowance c \<and> 0 < cc_amount_in c \<and> 0 < cc_out_needed_value_base c \<and>
        0 \<le> cc_slippage_cost_bps c)"
  using assms
  by (auto simp: select_best_def evaluate_collaterals_def io_bind_Inr_iff best_of_def dest!: score_candidates_Inr)

end
