(* ===== verification/Sizing.thy ===== *)
theory Sizing
  imports Models
begin

text \<open>
  \<^verbatim>\<open>app/core/sizing.py\<close>: the closed-form repay candidate, its agreement with the Solidity reference
  in \<^verbatim>\<open>SizingParity.t.sol\<close>, and what the candidate means for the position.
\<close>

section \<open>The routine\<close>

definition size_repay :: "int \<Rightarrow> int \<Rightarrow> int \<Rightarrow> int \<Rightarrow> int \<Rightarrow> nat \<Rightarrow> int \<Rightarrow> int \<Rightarrow> SizingResult" where
  "size_repay collateral_base debt_base lt_bps target_bps debt_price_base debt_decimals
     bundled_cost_bps overshoot_bps =
     (let target_wad = target_bps * BPS_TO_WAD;
          lt_wad = lt_bps * BPS_TO_WAD;
          one_plus_f_wad = WAD + bundled_cost_bps * BPS_TO_WAD;
          num = target_wad * debt_base - collateral_base * lt_wad;
          denom = target_wad - (one_plus_f_wad * lt_wad) div WAD
      in if denom \<le> 0 then
           \<lparr>sz_repay_amount = 0, sz_delta_base = 0, sz_hf_target_bps = target_bps, sz_feasible = False,
            sz_reason = Some ''denominator <= 0: target unreachable via repayment at this LT/cost''\<rparr>
         else if num \<le> 0 then
           \<lparr>sz_repay_amount = 0, sz_delta_base = 0, sz_hf_target_bps = target_bps, sz_feasible = True,
            sz_reason = Some ''already at/above target: no repayment required''\<rparr>
         else let delta_base = num div denom in
           if debt_price_base \<le> 0 then
             \<lparr>sz_repay_amount = 0, sz_delta_base = delta_base, sz_hf_target_bps = target_bps,
              sz_feasible = False, sz_reason = Some ''debt price unavailable''\<rparr>
           else let scale = 10 ^ debt_decimals;
                    repay_tokens = - ((- (delta_base * scale)) div debt_price_base);
                    repay_tokens = (if overshoot_bps \<noteq> 0
                      then repay_tokens * (10000 + overshoot_bps) div 10000 else repay_tokens)
                in \<lparr>sz_repay_amount = repay_tokens, sz_delta_base = delta_base,
                    sz_hf_target_bps = target_bps, sz_feasible = True, sz_reason = None\<rparr>)"

section \<open>Numerator and denominator\<close>

definition sz_num :: "int \<Rightarrow> int \<Rightarrow> int \<Rightarrow> int \<Rightarrow> int" where
  "sz_num C D lt target = (target * D - C * lt) * BPS_TO_WAD"

definition sz_den :: "int \<Rightarrow> int \<Rightarrow> int \<Rightarrow> int" where
  "sz_den lt target f = (target * BPS - (BPS + f) * lt) * 10 ^ 10"

lemma WAD_nonzero: "WAD \<noteq> 0"
  by (simp add: WAD_def)

lemma wad_den_exact:
  "target * BPS_TO_WAD - ((WAD + f * BPS_TO_WAD) * (lt * BPS_TO_WAD)) div WAD = sz_den lt target f"
proof -
  have "(WAD + f * BPS_TO_WAD) * (lt * BPS_TO_WAD) = WAD * ((BPS + f) * lt * 10 ^ 10)"
    by (simp add: scale_defs algebra_simps)
  then have "((WAD + f * BPS_TO_WAD) * (lt * BPS_TO_WAD)) div WAD = (BPS + f) * lt * 10 ^ 10"
    by (simp only: nonzero_mult_div_cancel_left [OF WAD_nonzero])
  then show ?thesis by (simp add: sz_den_def scale_defs algebra_simps)
qed

lemma wad_num_exact:
  "target * BPS_TO_WAD * D - C * (lt * BPS_TO_WAD) = sz_num C D lt target"
  by (simp add: sz_num_def algebra_simps)

lemma size_repay_cases:
  "size_repay C D lt target price dec f over =
     (if sz_den lt target f \<le> 0 then
        \<lparr>sz_repay_amount = 0, sz_delta_base = 0, sz_hf_target_bps = target, sz_feasible = False,
         sz_reason = Some ''denominator <= 0: target unreachable via repayment at this LT/cost''\<rparr>
      else if sz_num C D lt target \<le> 0 then
        \<lparr>sz_repay_amount = 0, sz_delta_base = 0, sz_hf_target_bps = target, sz_feasible = True,
         sz_reason = Some ''already at/above target: no repayment required''\<rparr>
      else if price \<le> 0 then
        \<lparr>sz_repay_amount = 0, sz_delta_base = sz_num C D lt target div sz_den lt target f,
         sz_hf_target_bps = target, sz_feasible = False, sz_reason = Some ''debt price unavailable''\<rparr>
      else
        let d = sz_num C D lt target div sz_den lt target f; t = ceil_div (d * 10 ^ dec) price in
        \<lparr>sz_repay_amount = (if over \<noteq> 0 then t * (10000 + over) div 10000 else t),
         sz_delta_base = d, sz_hf_target_bps = target, sz_feasible = True, sz_reason = None\<rparr>)"
  unfolding size_repay_def Let_def wad_den_exact wad_num_exact ceil_div_def by simp

section \<open>What the candidate achieves\<close>

text \<open>
  Repaying \<open>x\<close> (base currency) and paying for it with \<open>(1 + f) x\<close> of collateral leaves
  \<open>C - (1 + f) x\<close> against \<open>D - x\<close>; the target is met when that collateral, weighted by the
  liquidation threshold, covers the target times the debt. Both sides are scaled by \<open>BPS\<^sup>2\<close>.
\<close>

definition restores :: "int \<Rightarrow> int \<Rightarrow> int \<Rightarrow> int \<Rightarrow> int \<Rightarrow> int \<Rightarrow> bool" where
  "restores C D lt target f x \<longleftrightarrow>
     target * BPS * (D - x) \<le> lt * (BPS * C - (BPS + f) * x)"

lemma restores_iff:
  "restores C D lt target f x \<longleftrightarrow> sz_num C D lt target \<le> x * sz_den lt target f"
proof -
  have "sz_num C D lt target \<le> x * sz_den lt target f \<longleftrightarrow>
      (target * D - C * lt) * BPS * 10 ^ 10 \<le> x * (target * BPS - (BPS + f) * lt) * 10 ^ 10"
    by (simp add: sz_num_def sz_den_def scale_defs algebra_simps)
  also have "\<dots> \<longleftrightarrow> (target * D - C * lt) * BPS \<le> x * (target * BPS - (BPS + f) * lt)"
    by simp
  also have "\<dots> \<longleftrightarrow> restores C D lt target f x"
    unfolding restores_def by (simp add: algebra_simps)
  finally show ?thesis by simp
qed

lemma delta_bracket:
  assumes "0 < sz_den lt target f"
  shows "x < sz_num C D lt target div sz_den lt target f \<Longrightarrow> \<not> restores C D lt target f x"
    and "sz_num C D lt target div sz_den lt target f < x \<Longrightarrow> restores C D lt target f x"
proof -
  let ?n = "sz_num C D lt target" and ?d = "sz_den lt target f"
  note b = div_bounds [OF assms, of ?n]
  show "\<not> restores C D lt target f x" if "x < ?n div ?d"
  proof -
    have "x * ?d < ?n div ?d * ?d" using that assms by simp
    then show ?thesis using b(1) by (simp add: restores_iff)
  qed
  show "restores C D lt target f x" if "?n div ?d < x"
  proof -
    have "(?n div ?d + 1) * ?d \<le> x * ?d" using that assms by simp
    then show ?thesis using b(2) by (simp add: restores_iff)
  qed
qed

lemma token_amount_bracket:
  assumes "0 < price"
  shows "d * 10 ^ dec \<le> ceil_div (d * 10 ^ dec) price * price"
    and "(ceil_div (d * 10 ^ dec) price - 1) * price < d * 10 ^ dec"
  using ceil_div_bounds [OF assms] by auto

text \<open>
  C4: on the branch that proposes a repayment the base-currency candidate is the minimal one up to
  one unit: nothing smaller restores the target and everything above it does; and the token amount
  is the smallest whose oracle value reaches the candidate.
\<close>

theorem size_repay_minimal:
  assumes "sz_feasible (size_repay C D lt target price dec f 0)"
    and "sz_repay_amount (size_repay C D lt target price dec f 0) \<noteq> 0"
  shows "let r = size_repay C D lt target price dec f 0 in
     (\<forall>x. x < sz_delta_base r \<longrightarrow> \<not> restores C D lt target f x) \<and>
     (\<forall>x. sz_delta_base r < x \<longrightarrow> restores C D lt target f x) \<and>
     sz_delta_base r * 10 ^ dec \<le> sz_repay_amount r * price \<and>
     (sz_repay_amount r - 1) * price < sz_delta_base r * 10 ^ dec"
proof -
  have den: "0 < sz_den lt target f" and num: "0 < sz_num C D lt target" and pr: "0 < price"
    using assms by (auto simp: size_repay_cases split: if_splits)
  let ?d = "sz_num C D lt target div sz_den lt target f"
  have r: "size_repay C D lt target price dec f 0 =
     \<lparr>sz_repay_amount = ceil_div (?d * 10 ^ dec) price, sz_delta_base = ?d,
      sz_hf_target_bps = target, sz_feasible = True, sz_reason = None\<rparr>"
    using den num pr by (simp add: size_repay_cases Let_def)
  show ?thesis
    unfolding r using delta_bracket [OF den] token_amount_bracket [OF pr] by simp
qed

text \<open>A 2-WETH position at 1.10 lifted to 1.25: 8000 USD of collateral, 6000 USD of debt.\<close>

theorem size_repay_minimal_witness:
  "sz_feasible (size_repay 800000000000 600000000000 8250 12500 100000000 6 100 0) \<and>
   sz_repay_amount (size_repay 800000000000 600000000000 8250 12500 100000000 6 100 0) = 2159568087 \<and>
   \<not> restores 800000000000 600000000000 8250 12500 100 215956808637 \<and>
   restores 800000000000 600000000000 8250 12500 100 215956808639"
proof -
  let ?r = "size_repay 800000000000 600000000000 8250 12500 100000000 6 100 0"
  have e: "?r = \<lparr>sz_repay_amount = 2159568087, sz_delta_base = 215956808638,
      sz_hf_target_bps = 12500, sz_feasible = True, sz_reason = None\<rparr>"
    by (simp add: size_repay_def scale_defs Let_def)
  have f: "sz_feasible ?r" "sz_repay_amount ?r \<noteq> 0" by (simp_all add: e)
  show ?thesis using size_repay_minimal [OF f] f by (simp add: e Let_def)
qed

text \<open>
  The routine is infeasible exactly when repaying cannot raise the health factor at this
  threshold and cost, or when a repayment is needed and the debt has no price; an infeasible
  result and a position already at its target propose nothing, and a feasible zero means that one
  unit of base currency would be enough.
\<close>

lemma size_repay_refusals:
  "let r = size_repay C D lt target price dec f 0 in
     (sz_feasible r \<longleftrightarrow> (BPS + f) * lt < target * BPS \<and> (restores C D lt target f 0 \<or> 0 < price)) \<and>
     (\<not> sz_feasible r \<longrightarrow> sz_repay_amount r = 0) \<and>
     (restores C D lt target f 0 \<longrightarrow> sz_repay_amount r = 0) \<and>
     (sz_feasible r \<and> sz_repay_amount r = 0 \<longrightarrow> restores C D lt target f 1)"
proof -
  let ?n = "sz_num C D lt target" and ?d = "sz_den lt target f"
  have dpos: "0 < ?d \<longleftrightarrow> (BPS + f) * lt < target * BPS" by (simp add: sz_den_def)
  have n0: "restores C D lt target f 0 \<longleftrightarrow> ?n \<le> 0" by (simp add: restores_iff)
  have one: "restores C D lt target f 1 \<longleftrightarrow> ?n \<le> ?d" by (simp add: restores_iff)
  have pos: "0 < ?d \<Longrightarrow> 0 < price \<Longrightarrow> ?d \<le> ?n \<Longrightarrow> 0 < ceil_div (?n div ?d * 10 ^ dec) price"
    by (intro ceil_div_pos) (simp_all add: pos_imp_zdiv_pos_iff)
  have zero: "?n \<le> ?d" if "0 < ?d" "0 < price" "ceil_div (?n div ?d * 10 ^ dec) price = 0"
    using pos [OF that(1,2)] that(3) by linarith
  show ?thesis
    using zero unfolding n0 one dpos [symmetric]
    by (simp add: size_repay_cases Let_def not_le)
qed

lemma size_repay_refusals_witness:
  "\<not> sz_feasible (size_repay 800000000000 600000000000 9900 9950 100000000 6 100 0) \<and>
   sz_repay_amount (size_repay 800000000000 600000000000 9900 9950 100000000 6 100 0) = 0"
proof -
  have "\<not> sz_feasible (size_repay 800000000000 600000000000 9900 9950 100000000 6 100 0)"
    using size_repay_refusals [of 800000000000 600000000000 9900 9950 100000000 6 100]
    by (simp add: Let_def scale_defs)
  then show ?thesis
    using size_repay_refusals [of 800000000000 600000000000 9900 9950 100000000 6 100]
    by (simp add: Let_def)
qed

section \<open>Parity with the Solidity reference\<close>

text \<open>
  \<^verbatim>\<open>_sizeRepay\<close> of \<^verbatim>\<open>SizingParity.t.sol\<close>, to its last line, computes on \<^verbatim>\<open>uint256\<close>, where an overflow, an underflow or a
  division by zero reverts (\<open>None\<close>). It ends with a margin of three per cent, which the Python routine has as its overshoot.
\<close>

definition u256 :: "int \<Rightarrow> int option" where
  "u256 x = (if 0 \<le> x \<and> x < 2 ^ 256 then Some x else None)"

definition sol_sizeRepay :: "int \<Rightarrow> int \<Rightarrow> int \<Rightarrow> int \<Rightarrow> int \<Rightarrow> int option" where
  "sol_sizeRepay collatBase debtBase liqThreshold targetBps price =
     Option.bind (u256 (liqThreshold * 10 ^ 14)) (\<lambda>ltWad.
     Option.bind (u256 (targetBps * 10 ^ 14)) (\<lambda>targetWad.
     Option.bind (u256 (10 ^ 18 + 10 ^ 16)) (\<lambda>onePlusF.
     Option.bind (u256 (targetWad * debtBase)) (\<lambda>a.
     Option.bind (u256 (collatBase * ltWad)) (\<lambda>b.
     Option.bind (u256 (a - b)) (\<lambda>num.
     Option.bind (u256 (onePlusF * ltWad)) (\<lambda>c.
     Option.bind (u256 (targetWad - c div 10 ^ 18)) (\<lambda>denom.
     if denom = 0 then None
     else let deltaBase = num div denom in
     Option.bind (u256 (deltaBase * 10 ^ 6)) (\<lambda>m.
     if price = 0 then None
     else let repayUsdc = m div price in
     Option.bind (u256 (repayUsdc * 103)) (\<lambda>w. Some (w div 100)))))))))))"

lemma margin_bounds:
  fixes t c :: int
  assumes "t \<le> c" "c \<le> t + 1"
  shows "t * 103 div 100 \<le> c * 10300 div 10000" "c * 10300 div 10000 \<le> t * 103 div 100 + 2"
proof -
  have c: "c * 10300 div 10000 = c * 103 div 100"
    using div_mult_mult2 [of "100 :: int" "c * 103" 100] by simp
  have "c * 103 div 100 \<le> (t * 103 + 103) div 100" by (rule zdiv_mono1) (use assms in auto)
  also have "\<dots> \<le> t * 103 div 100 + 2" by linarith
  finally show "c * 10300 div 10000 \<le> t * 103 div 100 + 2" by (simp only: c)
  show "t * 103 div 100 \<le> c * 10300 div 10000" unfolding c by (rule zdiv_mono1) (use assms in auto)
qed

text \<open>
  C30: where the on-chain reference returns, so does the Python routine, with the same base-currency amount. Without an overshoot its
  token amount is the reference's before the margin, rounded up instead of down; with an overshoot of three per cent it is at least what the
  reference returns and at most two units more.
\<close>

theorem size_repay_parity:
  assumes "sol_sizeRepay C D lt target price = Some repayUsdc" and "0 < price"
  shows "let r = size_repay C D lt target price 6 DEFAULT_BUNDLED_COST_BPS 0; o' = size_repay C D lt target price 6 DEFAULT_BUNDLED_COST_BPS 300;
       t = sz_delta_base r * 10 ^ 6 div price in
     sz_feasible r \<and> sz_feasible o' \<and> sz_delta_base o' = sz_delta_base r \<and> repayUsdc = t * 103 div 100 \<and>
     t \<le> sz_repay_amount r \<and> sz_repay_amount r \<le> t + 1 \<and>
     repayUsdc \<le> sz_repay_amount o' \<and> sz_repay_amount o' \<le> repayUsdc + 2"
proof -
  let ?n = "sz_num C D lt target" and ?d = "sz_den lt target DEFAULT_BUNDLED_COST_BPS"
  let ?b = "?n div ?d"
  let ?t = "?b * 10 ^ 6 div price" and ?c = "ceil_div (?b * 10 ^ 6) price"
  have n: "target * 10 ^ 14 * D - C * (lt * 10 ^ 14) = ?n"
    by (simp add: sz_num_def BPS_TO_WAD_def algebra_simps)
  have dn: "target * 10 ^ 14 - (10 ^ 18 + 10 ^ 16) * (lt * 10 ^ 14) div 10 ^ 18 = ?d"
    using wad_den_exact [of target DEFAULT_BUNDLED_COST_BPS lt]
    by (simp add: scale_defs DEFAULT_BUNDLED_COST_BPS_def)
  have raw: "C * lt \<le> target * D" "?d \<noteq> 0" "repayUsdc = ?t * 103 div 100"
    "(10 ^ 18 + 10 ^ 16) * (lt * 10 ^ 14) div 10 ^ 18 \<le> target * 10 ^ 14"
    using assms(1)
    by (auto simp: sol_sizeRepay_def u256_def bind_eq_Some_conv Let_def n dn
        simp del: power_numeral numeral_plus_numeral split: if_splits)
  have s: "0 \<le> ?n" "0 < ?d" using raw dn by (auto simp: sz_num_def BPS_TO_WAD_def)
  have cd: "?t \<le> ?c" "?c \<le> ?t + 1" using floor_le_ceil_div [OF assms(2)] by simp_all
  note m = margin_bounds [OF cd]
  show ?thesis using s cd m assms(2) raw(3) by (cases "?n = 0") (auto simp: size_repay_cases Let_def ceil_div_def)
qed

theorem size_repay_parity_witness:
  "sol_sizeRepay 800000000000 600000000000 8250 12500 100000000 = Some 2224355128 \<and>
   (let o' = size_repay 800000000000 600000000000 8250 12500 100000000 6 DEFAULT_BUNDLED_COST_BPS 300 in
     2224355128 \<le> sz_repay_amount o' \<and> sz_repay_amount o' \<le> 2224355130)"
proof -
  have h: "sol_sizeRepay 800000000000 600000000000 8250 12500 100000000 = Some 2224355128"
    by (simp add: sol_sizeRepay_def u256_def Let_def)
  have p: "(0::int) < 100000000" by simp
  show ?thesis using size_repay_parity [OF h p] h by (simp add: Let_def)
qed

end
