(* ===== verification/Viability.thy ===== *)
theory Viability
  imports Models
begin

text \<open>
  \<^verbatim>\<open>app/core/viability.py\<close>: the economic gate. A rescue proceeds only when the liquidation bonus it
  avoids exceeds the flash premium, swap cost and gas it pays.
\<close>

definition assess_viability :: "int \<Rightarrow> int \<Rightarrow> int \<Rightarrow> int \<Rightarrow> int option \<Rightarrow> ViabilityResult" where
  "assess_viability repay_value_base liq_bonus_bps swap_cost_base gas_cost_base debt_liquidatable_base =
     (let liquidatable = (case debt_liquidatable_base of None \<Rightarrow> repay_value_base | Some d \<Rightarrow> d);
          value_protected = (liquidatable * liq_bonus_bps) div BPS;
          flash_premium = (repay_value_base * FLASH_PREMIUM_BPS) div BPS;
          cost = flash_premium + max swap_cost_base 0 + max gas_cost_base 0;
          est_cost_bps = (if 0 < repay_value_base then (cost * BPS) div repay_value_base else 0);
          viable = (cost < value_protected);
          reason = (if viable then None
            else Some (''cost '' @ show_int cost @ '' >= value protected '' @ show_int value_protected @
              '' (premium='' @ show_int flash_premium @ '', swap='' @ show_int swap_cost_base @
              '', gas='' @ show_int gas_cost_base @ '')''))
      in \<lparr>vr_value_protected_base = value_protected, vr_cost_base = cost,
          vr_est_cost_bps = est_cost_bps, vr_viable = viable, vr_reason = reason\<rparr>)"

lemma viability_cost:
  "vr_cost_base (assess_viability r b s g l) =
     r * FLASH_PREMIUM_BPS div BPS + max s 0 + max g 0"
  by (simp add: assess_viability_def Let_def)

lemma viability_viable:
  "vr_viable (assess_viability r b s g l) \<longleftrightarrow>
     r * FLASH_PREMIUM_BPS div BPS + max s 0 + max g 0 <
       (case l of None \<Rightarrow> r | Some d \<Rightarrow> d) * b div BPS"
  by (simp add: assess_viability_def Let_def)

lemma viability_reason:
  "vr_reason (assess_viability r b s g l) = None \<longleftrightarrow> vr_viable (assess_viability r b s g l)"
  by (simp add: assess_viability_def Let_def)

lemma viability_est:
  "0 < r \<Longrightarrow> vr_est_cost_bps (assess_viability r b s g l) =
     vr_cost_base (assess_viability r b s g l) * BPS div r"
  by (simp add: assess_viability_def Let_def)

lemma viability_cost_nonneg: "0 \<le> r \<Longrightarrow> 0 \<le> vr_cost_base (assess_viability r b s g l)"
  by (simp add: viability_cost FLASH_PREMIUM_BPS_def BPS_def)

lemma BPS_pos: "0 < BPS"
  by (simp add: BPS_def)

lemma viable_below:
  "vr_viable (assess_viability r b s g None) \<Longrightarrow> vr_cost_base (assess_viability r b s g None) * BPS < r * b"
proof -
  let ?c = "vr_cost_base (assess_viability r b s g None)"
  assume "vr_viable (assess_viability r b s g None)"
  then have "?c + 1 \<le> r * b div BPS" by (simp add: viability_viable viability_cost)
  then have "(?c + 1) * BPS \<le> r * b div BPS * BPS" using BPS_pos by simp
  also have "\<dots> \<le> r * b" by (rule div_bounds(1) [OF BPS_pos])
  finally show ?thesis using BPS_pos by (simp add: algebra_simps)
qed

lemma viable_rate:
  assumes "0 < r" and "vr_viable (assess_viability r b s g None)"
  shows "vr_est_cost_bps (assess_viability r b s g None) < b"
proof -
  let ?c = "vr_cost_base (assess_viability r b s g None)"
  have "?c * BPS div r * r < b * r"
    using div_bounds(1) [OF assms(1), of "?c * BPS"] viable_below [OF assms(2)] by (simp add: mult.commute)
  then show ?thesis using assms(1) by (simp add: viability_est)
qed

lemma est_cost_nonneg: "0 < r \<Longrightarrow> 0 \<le> vr_est_cost_bps (assess_viability r b s g l)"
  using viability_cost_nonneg [of r b s g l] BPS_pos by (simp add: viability_est pos_imp_zdiv_nonneg_iff)

text \<open>
  C24: a rescue judged viable costs strictly less, in basis points of the repaid value, than the
  liquidation bonus it avoids; the reported figure is the exact cost rate rounded down; the
  verdict carries a reason exactly when it is negative; and no increase in swap cost or gas turns
  a negative verdict into a positive one.
\<close>

theorem viable_cost_below_bonus:
  assumes "0 < r"
  shows "let v = assess_viability r b s g None in
     (vr_viable v \<longrightarrow> vr_est_cost_bps v < b \<and> vr_cost_base v * BPS < r * b) \<and>
     0 \<le> vr_est_cost_bps v \<and>
     vr_est_cost_bps v * r \<le> vr_cost_base v * BPS \<and> vr_cost_base v * BPS < (vr_est_cost_bps v + 1) * r \<and>
     (vr_reason v = None \<longleftrightarrow> vr_viable v) \<and>
     (\<forall>s' g'. s \<le> s' \<and> g \<le> g' \<and> \<not> vr_viable v \<longrightarrow> \<not> vr_viable (assess_viability r b s' g' None))"
  using viable_below [of r b s g] viable_rate [OF assms, of b s g] est_cost_nonneg [OF assms, of b s g None]
    div_bounds [OF assms, of "vr_cost_base (assess_viability r b s g None) * BPS"] viability_reason [of r b s g None]
  unfolding Let_def viability_est [OF assms] by (auto simp: viability_viable)

theorem viable_cost_below_bonus_witness:
  "vr_viable (assess_viability 215956808638 500 431913617 50000000 None) \<and>
   vr_est_cost_bps (assess_viability 215956808638 500 431913617 50000000 None) < 500 \<and>
   vr_est_cost_bps (assess_viability 215956808638 500 431913617 50000000 None) = 27"
proof -
  have v: "vr_viable (assess_viability 215956808638 500 431913617 50000000 None)"
    "vr_est_cost_bps (assess_viability 215956808638 500 431913617 50000000 None) = 27"
    by (simp_all add: assess_viability_def Let_def scale_defs FLASH_PREMIUM_BPS_def)
  then show ?thesis
    using viable_cost_below_bonus [of 215956808638 500 431913617 50000000] by (simp add: Let_def)
qed

end
