(* ===== verification/Pipeline.thy ===== *)
theory Pipeline
  imports Monitor Selector Sizing Viability
begin

text \<open>
  \<^verbatim>\<open>app/core/pipeline.py\<close>: monitor, risk, sizing, selection and viability composed into one read-only
  assessment that yields an executable plan only when every stage agrees.
\<close>

section \<open>State\<close>

record pipeline_state = clients_state +
  pp_vols :: vols

type_synonym 'z pls = "'z pipeline_state_scheme"

definition VOL_WINDOW :: int where "VOL_WINDOW = 30"

definition pipeline_sigma_for :: "string \<Rightarrow> ('z pls, pyfloat) io" where
  "pipeline_sigma_for asset s =
     (case sigma_for VOL_WINDOW asset (pp_vols s) of (r, vols') \<Rightarrow> (r, s\<lparr>pp_vols := vols'\<rparr>))"

section \<open>AssessmentPipeline\<close>

definition infer_debt_asset :: "RiskParams \<Rightarrow> string" where
  "infer_debt_asset params = USDC"

definition decline ::
  "pyfloat \<Rightarrow> RiskSignal \<Rightarrow> int \<Rightarrow> string \<Rightarrow> ('s, AssessmentResponse \<times> RescuePlan option) io" where
  "decline hf risk repay_amount reason =
     io_bind (io_lift (rs_hf_target risk)) (\<lambda>hf_target. io_return
       (\<lparr>ar_hf = hf, ar_hf_target = hf_target, ar_repay_amount = repay_amount, ar_collateral_asset = '''',
         ar_est_cost_bps = 0, ar_viable = False, ar_reason = Some reason\<rparr>, None))"

definition str_or :: "string option \<Rightarrow> string \<Rightarrow> string" where
  "str_or a b = (case a of None \<Rightarrow> b | Some x \<Rightarrow> if x = [] then b else x)"

definition evaluate ::
  "libm \<Rightarrow> string \<Rightarrow> 'z pls node \<Rightarrow> RiskParams \<Rightarrow> pyfloat option \<Rightarrow> int \<Rightarrow>
     ('z pls, AssessmentResponse \<times> RescuePlan option) io" where
  "evaluate lm vault_address nd params sigma gas_cost_base =
     io_bind (poll_once nd (rp_borrower params) (rp_hf_trigger_bps params)) (\<lambda>snapshot.
     let account = ps_account snapshot in
     io_bind (case sigma of
         Some x \<Rightarrow> io_return x
       | None \<Rightarrow> (case rp_allowed_collaterals params of
             [] \<Rightarrow> io_return (Fin 0)
           | c # _ \<Rightarrow> pipeline_sigma_for c)) (\<lambda>sigma.
     io_bind (io_lift (if ua_has_debt account then ua_hf account else Inr PInf)) (\<lambda>hf.
     io_bind (io_lift (assess_risk lm hf sigma (rp_hf_target_base_bps params) (rp_hf_target_max_bps params)
       (rp_vol_coeff_k params) 1)) (\<lambda>risk.
     if \<not> ua_has_debt account then decline PInf risk 0 ''no debt: nothing to protect''
     else
       let debt_asset = infer_debt_asset params in
       io_bind (get_reserve_info nd debt_asset) (\<lambda>debt_reserve.
       io_bind (get_asset_price nd debt_asset) (\<lambda>debt_price.
       let sizing = size_repay (ua_total_collateral_base account) (ua_total_debt_base account)
             (ua_liquidation_threshold_bps account) (rs_hf_target_bps risk) (op_price debt_price)
             (ri_decimals debt_reserve) DEFAULT_BUNDLED_COST_BPS 0 in
       if \<not> sz_feasible sizing \<or> sz_repay_amount sizing = 0 then
         decline hf risk 0 (str_or (sz_reason sizing) ''no repayment required'')
       else
         let out_needed = sz_repay_amount sizing + (sz_repay_amount sizing * FLASH_PREMIUM_BPS) div BPS in
         io_bind (select_best nd (rp_borrower params) vault_address debt_asset out_needed
           (rp_allowed_collaterals params)) (\<lambda>best.
         case best of
           None \<Rightarrow> decline hf risk (sz_repay_amount sizing)
             ''no eligible collateral (missing aToken allowance or unquotable)''
         | Some best \<Rightarrow>
             io_bind (get_reserve_info nd (cc_collateral_asset best)) (\<lambda>collateral_reserve.
             let swap_cost_base = max (cc_amount_in_value_base best - cc_out_needed_value_base best) 0;
                 viability = assess_viability (sz_delta_base sizing) (ri_liq_bonus_bps collateral_reserve)
                   swap_cost_base gas_cost_base None in
             io_bind (io_lift (rs_hf_target risk)) (\<lambda>hf_target.
             let response = \<lparr>ar_hf = hf, ar_hf_target = hf_target, ar_repay_amount = sz_repay_amount sizing,
                   ar_collateral_asset = cc_collateral_asset best,
                   ar_est_cost_bps = vr_est_cost_bps viability, ar_viable = vr_viable viability,
                   ar_reason = vr_reason viability\<rparr>;
                 plan = (if vr_viable viability
                   then Some \<lparr>pl_borrower = rp_borrower params, pl_debt_asset = debt_asset,
                     pl_repay_amount = sz_repay_amount sizing,
                     pl_collateral_asset = cc_collateral_asset best, pl_fee_tier = cc_fee_tier best,
                     pl_amount_in = cc_amount_in best, pl_hf_target_bps = rs_hf_target_bps risk,
                     pl_max_slippage_bps = rp_max_slippage_bps params\<rparr>
                   else None)
             in io_return (response, plan))))))))))"

definition assess ::
  "libm \<Rightarrow> string \<Rightarrow> 'z pls node \<Rightarrow> RiskParams \<Rightarrow> pyfloat option \<Rightarrow> int \<Rightarrow> ('z pls, AssessmentResponse) io" where
  "assess lm vault_address nd params sigma gas_cost_base =
     io_bind (evaluate lm vault_address nd params sigma gas_cost_base) (\<lambda>(response, _). io_return response)"

section \<open>Every outcome of an evaluation\<close>

text \<open>
  \<open>plan_reads\<close>: the reads of an evaluation that gets as far as the economics, in their order, each from the state the one before it left:
  the account, the volatility, the reserve and the price of the debt, the best collateral for the sized amount and its reserve. \<open>sized\<close> and
  \<open>economics\<close> are the sizing and the verdict on those reads.
\<close>

definition sigma_read :: "RiskParams \<Rightarrow> pyfloat option \<Rightarrow> ('z pls, pyfloat) io" where
  "sigma_read params sigma = (case sigma of
       Some x \<Rightarrow> io_return x
     | None \<Rightarrow> (case rp_allowed_collaterals params of [] \<Rightarrow> io_return (Fin 0) | c # _ \<Rightarrow> pipeline_sigma_for c))"

definition sized :: "PositionSnapshot \<Rightarrow> RiskSignal \<Rightarrow> ReserveInfo \<Rightarrow> OraclePrice \<Rightarrow> SizingResult" where
  "sized snap risk dr dp = size_repay (ua_total_collateral_base (ps_account snap)) (ua_total_debt_base (ps_account snap))
     (ua_liquidation_threshold_bps (ps_account snap)) (rs_hf_target_bps risk) (op_price dp) (ri_decimals dr) DEFAULT_BUNDLED_COST_BPS 0"

definition economics :: "SizingResult \<Rightarrow> CollateralChoice \<Rightarrow> ReserveInfo \<Rightarrow> int \<Rightarrow> ViabilityResult" where
  "economics sz best cr gas = assess_viability (sz_delta_base sz) (ri_liq_bonus_bps cr)
     (max (cc_amount_in_value_base best - cc_out_needed_value_base best) 0) gas None"

definition plan_reads :: "libm \<Rightarrow> string \<Rightarrow> 'z pls node \<Rightarrow> RiskParams \<Rightarrow> pyfloat option \<Rightarrow> 'z pls \<Rightarrow>
    PositionSnapshot \<Rightarrow> pyfloat \<Rightarrow> RiskSignal \<Rightarrow> ReserveInfo \<Rightarrow> OraclePrice \<Rightarrow> CollateralChoice \<Rightarrow> ReserveInfo \<Rightarrow> 'z pls \<Rightarrow> bool" where
  "plan_reads lm vault nd params sigma s snap hf risk dr dp best cr s' \<longleftrightarrow> (\<exists>s1 sg s2 s3 s4 s5.
     poll_once nd (rp_borrower params) (rp_hf_trigger_bps params) s = (Inr snap, s1) \<and>
     sigma_read params sigma s1 = (Inr sg, s2) \<and> ua_has_debt (ps_account snap) \<and> ua_hf (ps_account snap) = Inr hf \<and>
     assess_risk lm hf sg (rp_hf_target_base_bps params) (rp_hf_target_max_bps params) (rp_vol_coeff_k params) 1 = Inr risk \<and>
     get_reserve_info nd USDC s2 = (Inr dr, s3) \<and> get_asset_price nd USDC s3 = (Inr dp, s4) \<and>
     sz_feasible (sized snap risk dr dp) \<and> sz_repay_amount (sized snap risk dr dp) \<noteq> 0 \<and>
     select_best nd (rp_borrower params) vault USDC (sz_repay_amount (sized snap risk dr dp) +
       sz_repay_amount (sized snap risk dr dp) * FLASH_PREMIUM_BPS div BPS) (rp_allowed_collaterals params) s4 = (Inr (Some best), s5) \<and>
     get_reserve_info nd (cc_collateral_asset best) s5 = (Inr cr, s'))"

text \<open>The plan and the response made of those reads.\<close>

definition plan_from :: "RiskParams \<Rightarrow> PositionSnapshot \<Rightarrow> RiskSignal \<Rightarrow> ReserveInfo \<Rightarrow> OraclePrice \<Rightarrow> CollateralChoice \<Rightarrow> RescuePlan" where
  "plan_from params snap risk dr dp best =
     \<lparr>pl_borrower = rp_borrower params, pl_debt_asset = USDC, pl_repay_amount = sz_repay_amount (sized snap risk dr dp),
      pl_collateral_asset = cc_collateral_asset best, pl_fee_tier = cc_fee_tier best, pl_amount_in = cc_amount_in best,
      pl_hf_target_bps = rs_hf_target_bps risk, pl_max_slippage_bps = rp_max_slippage_bps params\<rparr>"

definition reports_plan :: "pyfloat \<Rightarrow> ViabilityResult \<Rightarrow> RescuePlan \<Rightarrow> AssessmentResponse \<Rightarrow> bool" where
  "reports_plan hf v p r \<longleftrightarrow> ar_hf r = hf \<and> ar_repay_amount r = pl_repay_amount p \<and> ar_collateral_asset r = pl_collateral_asset p \<and>
     ar_est_cost_bps r = vr_est_cost_bps v \<and> ar_viable r \<and> ar_reason r = None"

text \<open>\<open>signed_terms\<close>: the terms of the mandate the backend itself checks.\<close>

definition signed_terms :: "RiskParams \<Rightarrow> RescuePlan \<Rightarrow> bool" where
  "signed_terms params p \<longleftrightarrow> pl_borrower p = rp_borrower params \<and> pl_collateral_asset p \<in> set (rp_allowed_collaterals params) \<and>
     pl_max_slippage_bps p = rp_max_slippage_bps params \<and>
     rp_hf_target_base_bps params \<le> pl_hf_target_bps p \<and> pl_hf_target_bps p \<le> rp_hf_target_max_bps params \<and>
     0 < pl_amount_in p \<and> 0 < pl_repay_amount p"

definition declined :: "AssessmentResponse \<times> RescuePlan option \<Rightarrow> bool" where
  "declined rp \<longleftrightarrow> snd rp = None \<and> \<not> ar_viable (fst rp) \<and> ar_reason (fst rp) \<noteq> None"

lemma dynamic_target_in_band:
  "dynamic_hf_target_bps sigma base mx k = Inr t \<Longrightarrow> base \<le> t \<and> t \<le> mx"
  by (auto simp: dynamic_hf_target_bps_def res_bind_Inr_iff Let_def split: if_splits)

lemma assess_risk_in_band:
  "assess_risk lm hf sigma base mx k h = Inr r \<Longrightarrow> base \<le> rs_hf_target_bps r \<and> rs_hf_target_bps r \<le> mx"
  by (auto simp: assess_risk_def res_bind_Inr_iff dest: dynamic_target_in_band)

lemma size_repay_positive:
  assumes "sz_feasible (size_repay C D lt target price dec f 0)"
    and "sz_repay_amount (size_repay C D lt target price dec f 0) \<noteq> 0"
  shows "0 < sz_delta_base (size_repay C D lt target price dec f 0)"
    and "0 < sz_repay_amount (size_repay C D lt target price dec f 0)"
    and "sz_reason (size_repay C D lt target price dec f 0) = None"
    and "sz_hf_target_bps (size_repay C D lt target price dec f 0) = target"
proof -
  have h: "0 < sz_den lt target f" "0 < sz_num C D lt target" "0 < price"
    using assms by (auto simp: size_repay_cases split: if_splits)
  let ?d = "sz_num C D lt target div sz_den lt target f"
  have d0: "0 \<le> ?d" using h by (simp add: pos_imp_zdiv_nonneg_iff)
  have r: "size_repay C D lt target price dec f 0 =
     \<lparr>sz_repay_amount = ceil_div (?d * 10 ^ dec) price, sz_delta_base = ?d,
      sz_hf_target_bps = target, sz_feasible = True, sz_reason = None\<rparr>"
    using h by (simp add: size_repay_cases Let_def)
  have "?d \<noteq> 0" using assms(2) unfolding r by (auto simp: ceil_div_def)
  then have d: "0 < ?d" using d0 by simp
  then have "0 < ceil_div (?d * 10 ^ dec) price" using h(3) by (intro ceil_div_pos) auto
  then show "0 < sz_delta_base (size_repay C D lt target price dec f 0)"
    "0 < sz_repay_amount (size_repay C D lt target price dec f 0)"
    "sz_reason (size_repay C D lt target price dec f 0) = None"
    "sz_hf_target_bps (size_repay C D lt target price dec f 0) = target"
    using d unfolding r by simp_all
qed

lemma decline_declined: "decline hf risk r reason s = (Inr rp, s') \<Longrightarrow> declined rp"
  by (auto simp: decline_def io_bind_Inr_iff declined_def)

lemma select_best_chosen:
  assumes "select_best nd b v debt out cands s = (Inr (Some c), s')"
  shows "cc_collateral_asset c \<in> set cands \<and> 0 < cc_amount_in c"
proof -
  obtain cs where cs: "map cc_collateral_asset cs = cands" "best_of cs = Some c"
    "\<forall>c\<in>set cs. cc_eligible c \<longrightarrow> 0 < cc_amount_in c"
    using select_best_Inr [OF assms] by metis
  then show ?thesis using best_of_Some [OF cs(2)] by (metis imageI list.set_map)
qed

text \<open>An evaluation whose reads are given, and an evaluation that returns: it made these reads, or it declined on the way.\<close>

lemma evaluate_given:
  assumes "plan_reads lm vault nd params sigma s snap hf risk dr dp best cr s'"
  shows "evaluate lm vault nd params sigma gas s = (case rs_hf_target risk of Inl e \<Rightarrow> (Inl e, s')
     | Inr ht \<Rightarrow> (let v = economics (sized snap risk dr dp) best cr gas; p = plan_from params snap risk dr dp best in
         (Inr (\<lparr>ar_hf = hf, ar_hf_target = ht, ar_repay_amount = pl_repay_amount p, ar_collateral_asset = pl_collateral_asset p,
           ar_est_cost_bps = vr_est_cost_bps v, ar_viable = vr_viable v, ar_reason = vr_reason v\<rparr>,
          if vr_viable v then Some p else None), s')))"
  using assms unfolding plan_reads_def sigma_read_def
  by (auto simp: evaluate_def io_bind_def io_lift_def io_return_def infer_debt_asset_def Let_def sized_def economics_def plan_from_def
      split: sum.split)

text \<open>The stages after the risk signal.\<close>

definition after_risk :: "string \<Rightarrow> 'z pls node \<Rightarrow> RiskParams \<Rightarrow> int \<Rightarrow> PositionSnapshot \<Rightarrow> pyfloat \<Rightarrow> RiskSignal \<Rightarrow>
    ('z pls, AssessmentResponse \<times> RescuePlan option) io" where
  "after_risk vault nd params gas snap hf risk =
     (if \<not> ua_has_debt (ps_account snap) then decline PInf risk 0 ''no debt: nothing to protect''
     else
       io_bind (get_reserve_info nd USDC) (\<lambda>dr.
       io_bind (get_asset_price nd USDC) (\<lambda>dp.
       if \<not> sz_feasible (sized snap risk dr dp) \<or> sz_repay_amount (sized snap risk dr dp) = 0 then
         decline hf risk 0 (str_or (sz_reason (sized snap risk dr dp)) ''no repayment required'')
       else
         io_bind (select_best nd (rp_borrower params) vault USDC (sz_repay_amount (sized snap risk dr dp) +
             sz_repay_amount (sized snap risk dr dp) * FLASH_PREMIUM_BPS div BPS) (rp_allowed_collaterals params)) (\<lambda>best.
         case best of
           None \<Rightarrow> decline hf risk (sz_repay_amount (sized snap risk dr dp)) ''no eligible collateral (missing aToken allowance or unquotable)''
         | Some best \<Rightarrow>
             io_bind (get_reserve_info nd (cc_collateral_asset best)) (\<lambda>cr.
             io_bind (io_lift (rs_hf_target risk)) (\<lambda>ht.
             io_return (\<lparr>ar_hf = hf, ar_hf_target = ht, ar_repay_amount = sz_repay_amount (sized snap risk dr dp),
               ar_collateral_asset = cc_collateral_asset best, ar_est_cost_bps = vr_est_cost_bps (economics (sized snap risk dr dp) best cr gas),
               ar_viable = vr_viable (economics (sized snap risk dr dp) best cr gas), ar_reason = vr_reason (economics (sized snap risk dr dp) best cr gas)\<rparr>,
               if vr_viable (economics (sized snap risk dr dp) best cr gas) then Some (plan_from params snap risk dr dp best) else None)))))))"

lemma evaluate_stages:
  "evaluate lm vault nd params sigma gas =
     io_bind (poll_once nd (rp_borrower params) (rp_hf_trigger_bps params)) (\<lambda>snap.
     io_bind (sigma_read params sigma) (\<lambda>sg.
     io_bind (io_lift (if ua_has_debt (ps_account snap) then ua_hf (ps_account snap) else Inr PInf)) (\<lambda>hf.
     io_bind (io_lift (assess_risk lm hf sg (rp_hf_target_base_bps params) (rp_hf_target_max_bps params) (rp_vol_coeff_k params) 1))
       (after_risk vault nd params gas snap hf))))"
  unfolding evaluate_def after_risk_def [abs_def] sigma_read_def Let_def infer_debt_asset_def economics_def plan_from_def sized_def by (rule refl)

lemma evaluate_ignores:
  "evaluate lm vault nd (params\<lparr>rp_max_cost_bps := c, rp_nonce := n, rp_deadline := t\<rparr>) = evaluate lm vault nd params"
proof -
  let ?p = "params\<lparr>rp_max_cost_bps := c, rp_nonce := n, rp_deadline := t\<rparr>"
  have e: "rp_borrower ?p = rp_borrower params" "rp_hf_trigger_bps ?p = rp_hf_trigger_bps params"
    "rp_allowed_collaterals ?p = rp_allowed_collaterals params" "rp_hf_target_base_bps ?p = rp_hf_target_base_bps params"
    "rp_hf_target_max_bps ?p = rp_hf_target_max_bps params" "rp_vol_coeff_k ?p = rp_vol_coeff_k params"
    "rp_max_slippage_bps ?p = rp_max_slippage_bps params" by simp_all
  show ?thesis unfolding evaluate_def infer_debt_asset_def e by (rule refl)
qed

lemma evaluate_returns:
  assumes "evaluate lm vault nd params sigma gas s = (Inr rp, s')"
  shows "declined rp \<or> (\<exists>snap hf risk dr dp best cr. plan_reads lm vault nd params sigma s snap hf risk dr dp best cr s')"
proof -
  obtain snap s1 sg s2 hf risk where r: "poll_once nd (rp_borrower params) (rp_hf_trigger_bps params) s = (Inr snap, s1)"
    "sigma_read params sigma s1 = (Inr sg, s2)" "(if ua_has_debt (ps_account snap) then ua_hf (ps_account snap) else Inr PInf) = Inr hf"
    "assess_risk lm hf sg (rp_hf_target_base_bps params) (rp_hf_target_max_bps params) (rp_vol_coeff_k params) 1 = Inr risk"
    and rest': "after_risk vault nd params gas snap hf risk s2 = (Inr rp, s')"
    using assms unfolding evaluate_stages io_bind_Inr_iff io_lift_eq
    by (elim exE conjE, hypsubst, intro that) (assumption | erule sym)+
  note rest = rest' [unfolded after_risk_def]
  show ?thesis
  proof (cases "ua_has_debt (ps_account snap)")
    case False
    then show ?thesis using rest by (intro disjI1) (simp, erule decline_declined)
  next
    case debt: True
    obtain dr s3 dp s4 where d: "get_reserve_info nd USDC s2 = (Inr dr, s3)" "get_asset_price nd USDC s3 = (Inr dp, s4)"
      using rest debt by (auto simp: io_bind_Inr_iff)
    show ?thesis
    proof (cases "\<not> sz_feasible (sized snap risk dr dp) \<or> sz_repay_amount (sized snap risk dr dp) = 0")
      case True
      then show ?thesis using rest debt d by (intro disjI1) (auto simp: io_bind_Inr_iff intro: decline_declined)
    next
      case feasible: False
      let ?n = "sz_repay_amount (sized snap risk dr dp)"
      obtain best s5 where b: "select_best nd (rp_borrower params) vault USDC (?n + ?n * FLASH_PREMIUM_BPS div BPS)
          (rp_allowed_collaterals params) s4 = (Inr best, s5)"
        using rest debt d feasible by (auto simp: io_bind_Inr_iff Let_def)
      show ?thesis
      proof (cases best)
        case None
        then show ?thesis using rest debt d feasible b by (intro disjI1) (auto simp: io_bind_Inr_iff intro: decline_declined)
      next
        case (Some c)
        then obtain cr where "get_reserve_info nd (cc_collateral_asset c) s5 = (Inr cr, s')"
          using rest debt d feasible b by (auto simp: io_bind_Inr_iff Let_def)
        then have "plan_reads lm vault nd params sigma s snap hf risk dr dp c cr s'"
          using r debt d feasible b Some unfolding plan_reads_def by auto
        then show ?thesis by blast
      qed
    qed
  qed
qed

lemma read_plan_signed:
  assumes "plan_reads lm vault nd params sigma s snap hf risk dr dp best cr s'"
  shows "signed_terms params (plan_from params snap risk dr dp best)"
proof -
  have "0 < sz_repay_amount (sized snap risk dr dp)"
    using assms size_repay_positive(2) unfolding plan_reads_def sized_def by blast
  then show ?thesis using assms select_best_chosen assess_risk_in_band
    unfolding plan_reads_def signed_terms_def plan_from_def by (auto; fastforce)
qed

lemma read_plan_cost:
  assumes "plan_reads lm vault nd params sigma s snap hf risk dr dp best cr s'" "vr_viable (economics (sized snap risk dr dp) best cr gas)"
  shows "vr_est_cost_bps (economics (sized snap risk dr dp) best cr gas) < ri_liq_bonus_bps cr \<and>
    vr_reason (economics (sized snap risk dr dp) best cr gas) = None"
proof -
  have "0 < sz_delta_base (sized snap risk dr dp)"
    using assms(1) size_repay_positive(1) unfolding plan_reads_def sized_def by blast
  then show ?thesis using assms(2) viable_rate viability_reason unfolding economics_def by metis
qed

section \<open>A worked example\<close>

definition demo_params :: RiskParams where
  "demo_params = \<lparr>rp_borrower = ''alice'', rp_hf_trigger_bps = 10500, rp_hf_target_base_bps = 12500,
     rp_vol_coeff_k = 0, rp_hf_target_max_bps = 14000, rp_max_slippage_bps = 50, rp_max_cost_bps = 200,
     rp_allowed_collaterals = [''WETH''], rp_nonce = 0, rp_deadline = 0\<rparr>"

definition demo_node :: "int \<Rightarrow> 's node" where
  "demo_node allow = const_node (800000000000, 600000000000, 0, 8250, 8000, 10 ^ 18)
     (pack_config 8000 8250 10500 6 0) 100000000 2165000000 allow"

definition demo_plan :: RescuePlan where
  "demo_plan = \<lparr>pl_borrower = ''alice'', pl_debt_asset = USDC, pl_repay_amount = 2159568087,
     pl_collateral_asset = ''WETH'', pl_fee_tier = 500, pl_amount_in = 2165000000,
     pl_hf_target_bps = 12500, pl_max_slippage_bps = 50\<rparr>"

definition demo_response :: AssessmentResponse where
  "demo_response = \<lparr>ar_hf = Fin 1, ar_hf_target = Fin (5 / 4), ar_repay_amount = 2159568087,
     ar_collateral_asset = ''WETH'', ar_est_cost_bps = 27, ar_viable = True, ar_reason = None\<rparr>"

lemma demo_select:
  assumes "ready s" and "2165000000 \<le> allow"
  shows "select_best (demo_node allow) ''alice'' vault USDC 2160647871 [''WETH''] s =
    (Inr (Some (build_choice ''WETH'' 500 2165000000 6 100000000 2160647871 6 100000000 8250 True)), s)"
proof -
  have cfg: "config_decimals (pack_config 8000 8250 10500 6 0) = 6"
    "config_liq_threshold (pack_config 8000 8250 10500 6 0) = 8250"
    "config_bonus_raw (pack_config 8000 8250 10500 6 0) = 10500"
    by code_simp+
  have fee: "fee_tier_for Inr ''WETH'' USDC = Inr 500" by (simp add: fee_tier_for_def FEE_TIERS_def token_defs DEFAULT_FEE_TIER_def)
  show ?thesis
    using assms
    by (simp add: demo_node_def select_best_def evaluate_collaterals_def io_bind_def const_reads
      quoted_amount_in_def io_try_def io_lift_def io_return_def fee const_reserve_def cfg
      rank_collaterals_def build_choice_def to_base_value_def BPS_def)
qed


lemma demo_sizing:
  "size_repay 800000000000 600000000000 8250 12500 100000000 6 DEFAULT_BUNDLED_COST_BPS 0 =
     \<lparr>sz_repay_amount = 2159568087, sz_delta_base = 215956808638, sz_hf_target_bps = 12500,
      sz_feasible = True, sz_reason = None\<rparr>"
  by (simp add: size_repay_def scale_defs DEFAULT_BUNDLED_COST_BPS_def Let_def)

lemma demo_floats: "to_float 0 = Fin 0" "to_float 1 = Fin 1" "to_float (5 / 4) = Fin (5 / 4)"
  using to_float_dyadic [of 0 0 0] to_float_dyadic [of 1 1 0] to_float_dyadic [of "5 / 4" 5 2] by simp_all

lemma demo_risk:
  "assess_risk lm hf (Fin 0) 12500 14000 0 1 = res_bind (breach_probability lm hf (Fin 0) 1)
     (\<lambda>p. Inr \<lparr>rs_sigma = Fin 0, rs_breach_probability = p, rs_hf_target_bps = 12500\<rparr>)"
  by (simp add: assess_risk_def dynamic_hf_target_bps_def int_fmul_def float_of_int_def demo_floats trunc_def)

lemma demo_viability:
  "assess_viability 215956808638 500 435212900 50000000 None =
     \<lparr>vr_value_protected_base = 10797840431, vr_cost_base = 593191304, vr_est_cost_bps = 27,
      vr_viable = True, vr_reason = None\<rparr>"
  by (simp add: assess_viability_def Let_def scale_defs FLASH_PREMIUM_BPS_def)

lemma demo_evaluate:
  assumes "ready s" and "2165000000 \<le> allow"
  shows "evaluate lm vault (demo_node allow) demo_params (Some (Fin 0)) 50000000 s =
    (Inr (demo_response, Some demo_plan), s)"
proof -
  have hf: "ua_hf \<lparr>ua_total_collateral_base = 800000000000, ua_total_debt_base = 600000000000,
      ua_available_borrows_base = 0, ua_liquidation_threshold_bps = 8250, ua_ltv_bps = 8000,
      ua_health_factor = 10 ^ 18\<rparr> = Inr (Fin 1)"
    by (simp add: ua_hf_def int_truediv_def scale_defs demo_floats)
  have br: "breach_probability lm (Fin 1) (Fin 0) 1 = Inr (Fin 1)"
    by (simp add: breach_probability_def feq_def)
  have tgt: "int_truediv 12500 BPS = Inr (Fin (5 / 4))" by (simp add: int_truediv_def scale_defs demo_floats)
  have poll: "poll_once (demo_node allow) ''alice'' 10500 s = (Inr
      \<lparr>ps_borrower = ''alice'', ps_account = \<lparr>ua_total_collateral_base = 800000000000,
        ua_total_debt_base = 600000000000, ua_available_borrows_base = 0, ua_liquidation_threshold_bps = 8250,
        ua_ltv_bps = 8000, ua_health_factor = 10 ^ 18\<rparr>, ps_state = ASSESSING, ps_hf = Fin 1,
        ps_hf_trigger_bps = 10500\<rparr>, s)"
    unfolding demo_node_def poll_once_def
    by (simp only: io_bind_def [of "get_user_account_data _ _"] const_account [OF assms(1)] prod.case sum.case Let_def hf)
       (simp add: io_bind_def io_lift_def io_return_def classify_state_def ua_has_debt_def)
  have rsv: "get_reserve_info (demo_node allow) a s = (Inr (const_reserve a (pack_config 8000 8250 10500 6 0)), s)" 
    and prc: "get_asset_price (demo_node allow) a s =
     (Inr \<lparr>op_asset = a, op_price = 100000000, op_decimals = 8, op_updated_at = 0, op_stale = False\<rparr>, s)" for a
    using assms by (simp_all add: demo_node_def const_reads)
  have cfg: "ri_decimals (const_reserve a (pack_config 8000 8250 10500 6 0)) = 6"
     "ri_liq_bonus_bps (const_reserve a (pack_config 8000 8250 10500 6 0)) = 500" for a
  proof -
    have "config_decimals (pack_config 8000 8250 10500 6 0) = 6"
      "liq_bonus_of_raw (config_bonus_raw (pack_config 8000 8250 10500 6 0)) = 500"
      by code_simp+
    then show "ri_decimals (const_reserve a (pack_config 8000 8250 10500 6 0)) = 6"
     "ri_liq_bonus_bps (const_reserve a (pack_config 8000 8250 10500 6 0)) = 500"
     by (simp_all add: const_reserve_def)
  qed
  have ch: "build_choice ''WETH'' 500 2165000000 6 100000000 2160647871 6 100000000 8250 True =
    \<lparr>cc_collateral_asset = ''WETH'', cc_fee_tier = 500, cc_amount_in = 2165000000,
     cc_amount_in_value_base = 216500000000, cc_out_needed_value_base = 216064787100,
     cc_slippage_cost_bps = 20, cc_liq_threshold_bps = 8250, cc_has_allowance = True, cc_eligible = True,
     cc_reason = None\<rparr>"
    by (simp add: build_choice_def to_base_value_def BPS_def)
  have prem: "2159568087 + 2159568087 * FLASH_PREMIUM_BPS div BPS = 2160647871"
    by (simp add: FLASH_PREMIUM_BPS_def BPS_def)
  show ?thesis
    unfolding evaluate_def demo_params_def
    by (simp add: io_bind_def io_lift_def io_return_def poll hf br tgt rsv prc cfg ch prem
      ua_has_debt_def demo_risk demo_sizing demo_viability infer_debt_asset_def demo_select [OF assms] rs_hf_target_def Let_def
      demo_response_def demo_plan_def del: power_numeral)
qed

definition demo_clients :: "unit pipeline_state_scheme" where
  "demo_clients = \<lparr>ch_client = \<lparr>cl_urls = [''rpc''], cl_max_retries = 3, cl_active = 0, cl_contracts = []\<rparr>,
     ch_pool_address = Some ''pool'', ch_oracle_address = Some ''oracle'', ch_decimals = [], pp_vols = []\<rparr>"

lemma demo_ready: "ready demo_clients"
  by (simp add: demo_clients_def ready_def)

section \<open>The plan\<close>



end
