(* ===== verification/Simulator.thy ===== *)
theory Simulator
  imports Pipeline
begin

text \<open>
  \<^verbatim>\<open>app/core/simulator.py\<close>: the dry run of \<^verbatim>\<open>executeProtection\<close> with its bounded bump loop. The vault behind
  an endpoint is a parameter, as the other contracts are. The plan is a mutable object in the code, so
  it is returned beside the result.
\<close>

section \<open>The vault behind an endpoint\<close>

record ExecCall =
  xc_params :: solidity_tuple
  xc_signature :: "nat list"
  xc_debt_asset :: string
  xc_repay_amount :: int
  xc_collateral_asset :: string
  xc_amount_in_maximum :: int
  xc_fee_tier :: int
  xc_hf_target_bps :: int

definition exec_call ::
  "(string \<Rightarrow> string res) \<Rightarrow> RiskParams \<Rightarrow> nat list \<Rightarrow> RescuePlan \<Rightarrow> int \<Rightarrow> int \<Rightarrow> ExecCall res" where
  "exec_call checksum params sig plan repay amount_in_maximum =
     res_bind (checksum (pl_debt_asset plan)) (\<lambda>debt.
     res_bind (checksum (pl_collateral_asset plan)) (\<lambda>coll. Inr
       \<lparr>xc_params = to_solidity_tuple params, xc_signature = sig, xc_debt_asset = debt,
        xc_repay_amount = repay, xc_collateral_asset = coll, xc_amount_in_maximum = amount_in_maximum,
        xc_fee_tier = pl_fee_tier plan, xc_hf_target_bps = pl_hf_target_bps plan\<rparr>))"

text \<open>
  \<open>vt_call\<close> is the \<^verbatim>\<open>eth_call\<close>; \<open>vt_nonce\<close> to \<open>vt_wait\<close> are the steps of a keeper transaction, a receipt is its
  status and the gas used; \<open>vt_approve\<close> and \<open>vt_repay\<close> are the two transactions of the fallback.
\<close>

record 's vault_node =
  vt_call :: "ExecCall \<Rightarrow> string \<Rightarrow> nat \<Rightarrow> ('s, unit) io"
  vt_nonce :: "string \<Rightarrow> nat \<Rightarrow> ('s, int) io"
  vt_chain_id :: "nat \<Rightarrow> ('s, int) io"
  vt_build :: "ExecCall \<Rightarrow> string \<Rightarrow> int \<Rightarrow> int \<Rightarrow> nat \<Rightarrow> ('s, string) io"
  vt_sign :: "string \<Rightarrow> string res"
  vt_send_raw :: "string \<Rightarrow> nat \<Rightarrow> ('s, string) io"
  vt_wait :: "string \<Rightarrow> nat \<Rightarrow> ('s, int \<times> int) io"
  vt_approve :: "string \<Rightarrow> string \<Rightarrow> string \<Rightarrow> int \<Rightarrow> nat \<Rightarrow> ('s, string) io"
  vt_repay :: "string \<Rightarrow> string \<Rightarrow> int \<Rightarrow> string \<Rightarrow> nat \<Rightarrow> ('s, string) io"
  vt_wait_fallback :: "string \<Rightarrow> nat \<Rightarrow> ('s, int option \<times> int option) io"

section \<open>Simulator\<close>

definition BUMPABLE_ERRORS :: "string list" where
  "BUMPABLE_ERRORS = [''HealthBelowTarget'', ''DebtNotReduced'']"

definition BUMP_BPS :: int where "BUMP_BPS = 200"

definition bump_repay :: "int \<Rightarrow> int" where
  "bump_repay r = r * (BPS + BUMP_BPS) div BPS"

definition amount_in_maximum_of :: "int \<Rightarrow> int \<Rightarrow> int" where
  "amount_in_maximum_of amount_in max_slippage_bps = amount_in * (BPS + max_slippage_bps) div BPS"

definition is_bumpable :: "string \<Rightarrow> bool" where
  "is_bumpable reason \<longleftrightarrow> (\<exists>name \<in> set BUMPABLE_ERRORS. str_contains name reason)"

text \<open>The string \<^verbatim>\<open>'0x'\<close>, apostrophes included.\<close>

definition quoted_0x :: string where
  "quoted_0x = [CHR 0x27, CHR ''0'', CHR ''x'', CHR 0x27]"

definition opcode_halt :: "string \<Rightarrow> bool" where
  "opcode_halt reason \<longleftrightarrow>
     str_contains quoted_0x reason \<or>
     str_contains (''execution reverted'' @ [CHR 0x27] @ '', '' @ quoted_0x) reason \<or>
     reason = ''execution reverted''"

definition eth_call ::
  "'z cs node \<Rightarrow> 'z cs vault_node \<Rightarrow> string \<Rightarrow> RescuePlan \<Rightarrow> RiskParams \<Rightarrow> string \<Rightarrow> int \<Rightarrow> int \<Rightarrow> ('z cs, unit) io" where
  "eth_call nd vt keeper plan params signature repay amount_in_max =
     io_bind (io_lift (bytes_fromhex (removeprefix ''0x'' signature))) (\<lambda>sig.
     via nd (\<lambda>i. io_bind (io_lift (exec_call (nd_checksum nd) params sig plan repay amount_in_max))
       (\<lambda>x. vt_call vt x keeper i)))"

definition sim_fail :: "int \<Rightarrow> int \<Rightarrow> int \<Rightarrow> string option \<Rightarrow> SimulationResult" where
  "sim_fail repay amount_in_max bumps reason =
     \<lparr>sr_success = False, sr_repay_amount = repay, sr_amount_in_maximum = amount_in_max, sr_hf_after = None,
      sr_bumps = bumps, sr_revert_reason = reason\<rparr>"

definition sim_ok :: "int \<Rightarrow> int \<Rightarrow> int \<Rightarrow> SimulationResult" where
  "sim_ok repay amount_in_max bumps =
     \<lparr>sr_success = True, sr_repay_amount = repay, sr_amount_in_maximum = amount_in_max, sr_hf_after = None,
      sr_bumps = bumps, sr_revert_reason = None\<rparr>"

text \<open>
  The loop reads \<^verbatim>\<open>self.max_bumps\<close>, which a configuration update may change while a call is awaited: \<open>mb\<close>
  reads it from the state. The re-quote happens inside the handler of the revert, so an exception of
  it is not caught by the sibling handler and leaves the function. The first argument bounds the
  number of iterations; \<open>simulate_terminates\<close> below shows that twelve are enough.
\<close>

fun sim_loop ::
  "nat \<Rightarrow> ('z cs \<Rightarrow> int) \<Rightarrow> 'z cs node \<Rightarrow> 'z cs vault_node \<Rightarrow> string \<Rightarrow> RescuePlan \<Rightarrow> RiskParams \<Rightarrow> string \<Rightarrow>
     int \<Rightarrow> int \<Rightarrow> int \<Rightarrow> string option \<Rightarrow> ('z cs, SimulationResult \<times> RescuePlan) io" where
  "sim_loop 0 mb nd vt keeper plan params signature repay amount_in bumps last_reason s =
     (Inl (OtherError ''iteration bound''), s)"
| "sim_loop (Suc n) mb nd vt keeper plan params signature repay amount_in bumps last_reason s =
     (if mb s < bumps
      then (Inr (sim_fail repay (amount_in_maximum_of amount_in (pl_max_slippage_bps plan)) bumps last_reason, plan), s)
      else
        let amount_in_max = amount_in_maximum_of amount_in (pl_max_slippage_bps plan) in
        case eth_call nd vt keeper plan params signature repay amount_in_max s of
          (Inr _, s') \<Rightarrow>
            (Inr (sim_ok repay amount_in_max bumps,
              if bumps \<noteq> 0 then plan\<lparr>pl_repay_amount := repay, pl_amount_in := amount_in\<rparr> else plan), s')
        | (Inl (ContractLogicError reason), s') \<Rightarrow>
            if opcode_halt reason then (Inr (sim_ok repay amount_in_max bumps, plan), s')
            else if \<not> is_bumpable reason \<or> mb s' \<le> bumps
            then (Inr (sim_fail repay amount_in_max bumps (Some reason), plan), s')
            else
              let repay' = bump_repay repay;
                  out_needed = repay' + repay' * FLASH_PREMIUM_BPS div BPS in
              (case quote_exact_output_single nd (pl_collateral_asset plan) (pl_debt_asset plan) out_needed
                  (Some (pl_fee_tier plan)) s' of
                 (Inl e, s'') \<Rightarrow> (Inl e, s'')
               | (Inr quote, s'') \<Rightarrow>
                   sim_loop n mb nd vt keeper plan params signature repay' (qt_amount_in quote) (bumps + 1)
                     (Some reason) s'')
        | (Inl exc, s') \<Rightarrow>
            (Inr (sim_fail repay amount_in_max bumps (Some (''simulation error: '' @ exn_str exc)), plan), s'))"

definition simulate ::
  "('z cs \<Rightarrow> int) \<Rightarrow> 'z cs node \<Rightarrow> 'z cs vault_node \<Rightarrow> string \<Rightarrow> RescuePlan \<Rightarrow> RiskParams \<Rightarrow> string \<Rightarrow>
     ('z cs, SimulationResult \<times> RescuePlan) io" where
  "simulate mb nd vt keeper plan params signature =
     sim_loop 12 mb nd vt keeper plan params signature (pl_repay_amount plan) (pl_amount_in plan) 0 None"

section \<open>The loop terminates\<close>

lemma sim_loop_fuel:
  assumes "\<forall>s. mb s \<le> k" and "bumps \<le> k" and "k + 1 - bumps \<le> int n" and "n \<le> m"
  shows "sim_loop m mb nd vt keeper plan params signature repay amount_in bumps l s =
     sim_loop n mb nd vt keeper plan params signature repay amount_in bumps l s"
  using assms(2-4)
proof (induction n arbitrary: m repay amount_in bumps l s)
  case (Suc n)
  obtain m' where m: "m = Suc m'" "n \<le> m'" using Suc.prems(3) by (cases m) auto
  have rec: "sim_loop m' mb nd vt keeper plan params signature r a (bumps + 1) x t =
      sim_loop n mb nd vt keeper plan params signature r a (bumps + 1) x t"
    if "\<not> mb u \<le> bumps" for r a x t u
    using Suc.IH [of "bumps + 1" m' r a x t] that assms(1) [rule_format, of u] Suc.prems m(2) by simp
  show ?case
    using rec unfolding m(1) sim_loop.simps Let_def
    by (auto split: prod.splits sum.splits exn.splits)
qed simp

text \<open>Only the re-quote lets an exception out.\<close>

lemma sim_loop_Inl:
  assumes "\<forall>s. mb s \<le> k" and "bumps \<le> k" and "k + 1 - bumps \<le> int n"
    and "sim_loop n mb nd vt keeper plan params signature repay amount_in bumps l s = (Inl e, s')"
  shows "\<exists>out u. quote_exact_output_single nd (pl_collateral_asset plan) (pl_debt_asset plan) out
      (Some (pl_fee_tier plan)) u = (Inl e, s')"
  using assms(2-4)
proof (induction n arbitrary: repay amount_in bumps l s)
  case (Suc n)
  note IH = Suc.IH [of "bumps + 1"]
  show ?case
  proof (rule ccontr)
    assume no: "\<not> ?thesis"
    have step: "\<not> mb u \<le> bumps \<Longrightarrow>
        sim_loop n mb nd vt keeper plan params signature r a (bumps + 1) x t \<noteq> (Inl e, s')" for u r a x t
      using IH [of r a x t] no assms(1) [rule_format, of u] Suc.prems(1,2) by fastforce
    show False
      using Suc.prems(3) no step
      by (auto simp: Let_def split: prod.splits sum.splits exn.splits if_splits)
  qed
qed simp

section \<open>What a result means\<close>

definition dry_ran ::
  "'z cs node \<Rightarrow> 'z cs vault_node \<Rightarrow> string \<Rightarrow> RescuePlan \<Rightarrow> RiskParams \<Rightarrow> string \<Rightarrow> int \<Rightarrow> int \<Rightarrow> bool" where
  "dry_ran nd vt keeper plan params signature repay amount_in_max \<longleftrightarrow>
     (\<exists>u v. eth_call nd vt keeper plan params signature repay amount_in_max u = (Inr (), v)) \<or>
     (\<exists>u v reason. eth_call nd vt keeper plan params signature repay amount_in_max u =
        (Inl (ContractLogicError reason), v) \<and> opcode_halt reason)"

lemma sim_loop_Inr:
  assumes "sim_loop n mb nd vt keeper plan params signature repay amount_in bumps l s = (Inr (r, p), s')"
    and "0 \<le> bumps" and "repay = (bump_repay ^^ nat bumps) r0"
  shows "sr_repay_amount r = (bump_repay ^^ nat (sr_bumps r)) r0 \<and> 0 \<le> sr_bumps r \<and>
     (sr_success r \<longrightarrow> dry_ran nd vt keeper plan params signature (sr_repay_amount r) (sr_amount_in_maximum r))"
  using assms
proof (induction n arbitrary: repay amount_in bumps l s)
  case (Suc n)
  have b: "bump_repay repay = (bump_repay ^^ nat (bumps + 1)) r0"
    using Suc.prems(2) by (simp add: Suc.prems(3) nat_add_distrib)
  have b1: "0 \<le> bumps + 1" using Suc.prems(2) by simp
  note IH = Suc.IH [OF _ b1 b]
  note fin = Suc.prems(2,3)
  let ?max = "amount_in_maximum_of amount_in (pl_max_slippage_bps plan)"
  show ?case
  proof (cases "mb s < bumps")
    case True
    then show ?thesis using Suc.prems by (auto simp: sim_fail_def)
  next
    case False
    obtain o' t where o: "eth_call nd vt keeper plan params signature repay ?max s = (o', t)" by fastforce
    have ran: "dry_ran nd vt keeper plan params signature repay ?max"
      if "o' = Inr () \<or> (\<exists>m. o' = Inl (ContractLogicError m) \<and> opcode_halt m)"
      using that o unfolding dry_ran_def by blast
    show ?thesis
    proof (cases o')
      case (Inr u)
      then show ?thesis using Suc.prems(1) False o ran fin by (auto simp: Let_def sim_ok_def)
    next
      case (Inl e)
      show ?thesis
      proof (cases "\<exists>m. e = ContractLogicError m \<and> \<not> opcode_halt m \<and> is_bumpable m \<and> bumps < mb t")
        case True
        then show ?thesis
          using Suc.prems(1) False o Inl IH by (fastforce simp: Let_def split: prod.splits sum.splits)
      next
        case stop: False
        show ?thesis
        proof (cases "\<exists>m. e = ContractLogicError m \<and> opcode_halt m")
          case True
          then show ?thesis using Suc.prems(1) False o Inl ran fin by (auto simp: Let_def sim_ok_def)
        next
          case False
          then show ?thesis
            using stop Suc.prems(1) \<open>\<not> mb s < bumps\<close> o Inl fin
            by (cases e) (auto simp: Let_def sim_fail_def split: if_splits)
        qed
      qed
    qed
  qed
qed simp

text \<open>
  \<open>gave_up\<close>: the result of a loop that ended on a revert it could have bumped. The bumps stay within the configured number, and it gives up only when
  this number is reached.
\<close>

definition gave_up :: "SimulationResult \<Rightarrow> bool" where
  "gave_up r \<longleftrightarrow> \<not> sr_success r \<and> (\<exists>m. sr_revert_reason r = Some m \<and> is_bumpable m \<and> \<not> prefix ''simulation error: '' m)"

lemma sim_loop_bumps:
  assumes "\<forall>s. mb s \<le> k" and "bumps \<le> k"
    and "sim_loop n mb nd vt keeper plan params signature repay amount_in bumps l s = (Inr (r, p), s')"
  shows "sr_bumps r \<le> k \<and> (gave_up r \<longrightarrow> (\<exists>t. mb t \<le> sr_bumps r))"
  using assms(2,3)
proof (induction n arbitrary: repay amount_in bumps l s)
  case (Suc n)
  have rec: "sr_bumps r \<le> k \<and> (gave_up r \<longrightarrow> (\<exists>t. mb t \<le> sr_bumps r))"
    if "\<not> mb u \<le> bumps" "sim_loop n mb nd vt keeper plan params signature ra a (bumps + 1) x t = (Inr (r, p), s')" for u ra a x t
    using Suc.IH [OF _ that(2)] that(1) assms(1) [rule_format, of u] by simp
  show ?case
    using Suc.prems rec order.strict_implies_order
    by (auto simp: Let_def sim_ok_def sim_fail_def gave_up_def split: prod.splits sum.splits exn.splits if_splits; blast)
qed simp

text \<open>
  C28: let \<open>k\<close>, from zero to the validated maximum of ten, bound the configured number of bumps, however it is changed during the run. The
  dry run ends within \<open>k + 1\<close> iterations: no larger bound changes the outcome, and the bound of the definition is one of them. A result reports
  at most \<open>k\<close> bumps and the planned amount raised by two per cent for each; it gives up on a revert a bump might cure only when the
  configured number was reached; and an exception that escapes is always one of the re-quote.
\<close>

theorem simulate_terminates:
  assumes "\<forall>s. mb s \<le> k" and "0 \<le> k" and "k \<le> 10"
  shows "(\<forall>n. nat k + 1 \<le> n \<longrightarrow>
       sim_loop n mb nd vt keeper plan params signature (pl_repay_amount plan) (pl_amount_in plan) 0 None s =
       simulate mb nd vt keeper plan params signature s) \<and>
     (\<forall>r p s'. simulate mb nd vt keeper plan params signature s = (Inr (r, p), s') \<longrightarrow>
        0 \<le> sr_bumps r \<and> sr_bumps r \<le> k \<and> sr_repay_amount r = (bump_repay ^^ nat (sr_bumps r)) (pl_repay_amount plan) \<and>
        (gave_up r \<longrightarrow> (\<exists>t. mb t \<le> sr_bumps r))) \<and>
     (\<forall>e s'. simulate mb nd vt keeper plan params signature s = (Inl e, s') \<longrightarrow>
        (\<exists>out u. quote_exact_output_single nd (pl_collateral_asset plan) (pl_debt_asset plan) out
           (Some (pl_fee_tier plan)) u = (Inl e, s')))"
  unfolding simulate_def
proof (intro conjI allI impI)
  fix n
  assume n: "nat k + 1 \<le> n"
  note fuel = sim_loop_fuel [OF assms(1), of 0 "nat k + 1", where nd = nd and vt = vt and keeper = keeper and plan = plan
      and params = params and signature = signature and l = None and s = s]
  show "sim_loop n mb nd vt keeper plan params signature (pl_repay_amount plan) (pl_amount_in plan) 0 None s =
     sim_loop 12 mb nd vt keeper plan params signature (pl_repay_amount plan) (pl_amount_in plan) 0 None s"
    using fuel [of n] fuel [of 12] n assms(2,3) by simp
next
  fix r p s'
  assume sim: "sim_loop 12 mb nd vt keeper plan params signature (pl_repay_amount plan) (pl_amount_in plan) 0 None s = (Inr (r, p), s')"
  have e: "pl_repay_amount plan = (bump_repay ^^ nat 0) (pl_repay_amount plan)" by simp
  note ran = sim_loop_Inr [OF sim order_refl e] and bounded = sim_loop_bumps [OF assms(1,2) sim]
  show "0 \<le> sr_bumps r" "sr_bumps r \<le> k" "sr_repay_amount r = (bump_repay ^^ nat (sr_bumps r)) (pl_repay_amount plan)"
    using ran bounded by simp_all
  show "gave_up r \<Longrightarrow> \<exists>t. mb t \<le> sr_bumps r" using bounded by blast
qed (rule sim_loop_Inl [OF assms(1,2)], use assms in auto)

definition quiet_vault :: "exn option \<Rightarrow> 's vault_node" where
  "quiet_vault e = \<lparr>
     vt_call = (\<lambda>_ _ _. case e of None \<Rightarrow> io_return () | Some x \<Rightarrow> io_raise x),
     vt_nonce = (\<lambda>_ _. io_return 0), vt_chain_id = (\<lambda>_. io_return 42161),
     vt_build = (\<lambda>_ _ _ _ _. io_return ''tx''), vt_sign = (\<lambda>t. Inr t),
     vt_send_raw = (\<lambda>_ _. io_return ''ab''), vt_wait = (\<lambda>_ _. io_return (1, 21000)),
     vt_approve = (\<lambda>_ _ _ _ _. io_return ''a1''), vt_repay = (\<lambda>_ _ _ _ _. io_return ''a2''),
     vt_wait_fallback = (\<lambda>_ _. io_return (Some 1, None))\<rparr>"

text \<open>
  A successful dry run reports exactly the amounts it tried: the repay amount is the planned one
  raised by two per cent per bump, and with it and the reported maximum the vault call either went
  through or halted with the empty revert the code takes for the flash-loan opcode.
\<close>

lemma simulate_reports_what_ran:
  assumes "simulate mb nd vt keeper plan params signature s = (Inr (r, p), s')"
  shows "sr_repay_amount r = (bump_repay ^^ nat (sr_bumps r)) (pl_repay_amount plan) \<and> 0 \<le> sr_bumps r \<and>
     (sr_success r \<longrightarrow>
        (\<exists>u v. eth_call nd vt keeper plan params signature (sr_repay_amount r) (sr_amount_in_maximum r) u =
           (Inr (), v)) \<or>
        (\<exists>u v reason. eth_call nd vt keeper plan params signature (sr_repay_amount r) (sr_amount_in_maximum r) u =
           (Inl (ContractLogicError reason), v) \<and> opcode_halt reason))"
proof -
  have e: "pl_repay_amount plan = (bump_repay ^^ nat 0) (pl_repay_amount plan)" by simp
  show ?thesis by (rule sim_loop_Inr [OF assms [unfolded simulate_def] order_refl e, unfolded dry_ran_def])
qed

section \<open>Examples\<close>

lemma via_ready_raise:
  assumes "ready s" and "fn 0 s = (Inl e, s)" and "\<not> retryable e"
  shows "client_call sleep fn s = (Inl e, s)"
proof -
  have n: "length (cl_urls (ch_client s)) = Suc 0" using assms(1) by (simp add: ready_def)
  obtain m where m: "nat (cl_max_retries (ch_client s)) = Suc m"
    using assms(1) by (cases "nat (cl_max_retries (ch_client s))") (auto simp: ready_def)
  show ?thesis using assms by (simp add: client_call_def Let_def n m ready_def)
qed

lemma demo_hex: "bytes_fromhex (removeprefix ''0x'' ''0x00'') = Inr [0]"
  by (simp add: removeprefix_def hex_digit_def is_space_def)

lemma demo_eth_call:
  fixes s :: "'z cs"
  assumes "ready s" and "nd_checksum nd = Inr"
  shows "eth_call nd (quiet_vault None) k demo_plan demo_params ''0x00'' r a s = (Inr (), s)"
    and "\<not> retryable e \<Longrightarrow>
      eth_call nd (quiet_vault (Some e)) k demo_plan demo_params ''0x00'' r a s = (Inl e, s)"
proof -
  let ?f = "\<lambda>v i. io_bind (io_lift (exec_call (nd_checksum nd) demo_params [0] demo_plan r a))
    (\<lambda>x. vt_call (quiet_vault v) x k i)"
  have x: "?f v 0 s = (case v of None \<Rightarrow> (Inr (), s) | Some e \<Rightarrow> (Inl e, s))" for v
    by (simp add: assms(2) io_bind_def io_lift_def exec_call_def quiet_vault_def io_return_def io_raise_def
        split: option.splits)
  have "client_call (nd_sleep nd) (?f None) s = (Inr (), s)"
    by (rule via_ready [OF assms(1)]) (simp add: x)
  then show "eth_call nd (quiet_vault None) k demo_plan demo_params ''0x00'' r a s = (Inr (), s)"
    unfolding eth_call_def demo_hex by (simp add: io_bind_def [of "io_lift _"] io_lift_def)
  show "eth_call nd (quiet_vault (Some e)) k demo_plan demo_params ''0x00'' r a s = (Inl e, s)"
    if "\<not> retryable e"
  proof -
    have "client_call (nd_sleep nd) (?f (Some e)) s = (Inl e, s)"
      by (rule via_ready_raise [OF assms(1) _ that]) (simp add: x)
    then show ?thesis unfolding eth_call_def demo_hex by (simp add: io_bind_def [of "io_lift _"] io_lift_def)
  qed
qed

lemma demo_checksum: "nd_checksum (demo_node allow) = Inr"
  by (simp add: demo_node_def)

lemma demo_simulate:
  assumes "ready s" and "0 \<le> mb s"
  shows "simulate mb (demo_node allow) (quiet_vault None) k demo_plan demo_params ''0x00'' s =
    (Inr (sim_ok 2159568087 2175825000 0, demo_plan), s)"
  using assms demo_eth_call(1) [OF assms(1) demo_checksum]
  by (simp add: simulate_def numeral_eq_Suc Let_def amount_in_maximum_of_def demo_plan_def BPS_def)

lemma simulate_reports_what_ran_witness:
  "\<exists>u v. eth_call (demo_node 2165000000) (quiet_vault None) ''k'' demo_plan demo_params ''0x00''
      2159568087 2175825000 u = (Inr (), v :: unit pipeline_state_scheme) \<or>
     (\<exists>reason. eth_call (demo_node 2165000000) (quiet_vault None) ''k'' demo_plan demo_params ''0x00''
      2159568087 2175825000 u = (Inl (ContractLogicError reason), v) \<and> opcode_halt reason)"
  using simulate_reports_what_ran [OF demo_simulate [OF demo_ready, of "\<lambda>_. 3" 2165000000 "''k''"]]
  by (auto simp: sim_ok_def)

text \<open>A vault that always finds the repayment too small: with two bumps configured the dry run ends at its third call.\<close>

lemma demo_bumps:
  assumes "ready s"
  shows "simulate (\<lambda>_. 2) (demo_node 2165000000) (quiet_vault (Some (ContractLogicError ''HealthBelowTarget''))) k demo_plan demo_params ''0x00'' s =
    (Inr (sim_fail 2246814636 2175825000 2 (Some ''HealthBelowTarget''), demo_plan), s)"
proof -
  have h: "\<not> opcode_halt ''HealthBelowTarget''" "is_bumpable ''HealthBelowTarget''"
    by (simp_all add: opcode_halt_def is_bumpable_def BUMPABLE_ERRORS_def quoted_0x_def sublist_code)
  have q: "quote_exact_output_single (demo_node 2165000000) a b out (Some fee) s = (Inr \<lparr>qt_token_in = a, qt_token_out = b, qt_fee = fee,
      qt_amount_out = out, qt_amount_in = 2165000000, qt_sqrt_price_x96_after = 0, qt_initialized_ticks_crossed = 0, qt_gas_estimate = 0\<rparr>, s)"
    for a b out fee using const_quote [OF assms] by (simp add: demo_node_def)
  show ?thesis
    using demo_eth_call(2) [OF assms demo_checksum, of "ContractLogicError ''HealthBelowTarget''"] h
    by (simp add: simulate_def numeral_eq_Suc Let_def q amount_in_maximum_of_def bump_repay_def demo_plan_def BPS_def BUMP_BPS_def)
qed

theorem simulate_terminates_witness:
  "let nd = demo_node 2165000000; vt = quiet_vault (Some (ContractLogicError ''HealthBelowTarget'')) in
   sim_loop 3 (\<lambda>_. 2) nd vt ''k'' demo_plan demo_params ''0x00'' (pl_repay_amount demo_plan) (pl_amount_in demo_plan) 0 None demo_clients =
   (Inr (sim_fail ((bump_repay ^^ 2) (pl_repay_amount demo_plan)) 2175825000 2 (Some ''HealthBelowTarget''), demo_plan), demo_clients)"
proof -
  note t = simulate_terminates [of "\<lambda>_. 2" 2 "demo_node 2165000000" "quiet_vault (Some (ContractLogicError ''HealthBelowTarget''))" "''k''"
      demo_plan demo_params "''0x00''" demo_clients, simplified]
  show ?thesis using t [THEN conjunct1, THEN spec, of 3] t [THEN conjunct2, THEN conjunct1] demo_bumps [OF demo_ready]
    by (simp add: Let_def sim_fail_def)
qed

section \<open>Two gaps of the pre-flight\<close>

definition unquotable_node :: "'s node" where
  "unquotable_node = (demo_node 2165000000)
     \<lparr>nd_quoteExactOutputSingle := (\<lambda>_ _. io_raise (ContractLogicError ''SPL''))\<rparr>"

lemma unquotable_checksum: "nd_checksum unquotable_node = Inr"
  by (simp add: unquotable_node_def demo_checksum)

lemma unquotable_quote:
  assumes "ready s"
  shows "quote_exact_output_single unquotable_node a b out (Some fee) s = (Inl (ContractLogicError ''SPL''), s)"
proof -
  have "client_call (nd_sleep unquotable_node)
      (nd_quoteExactOutputSingle unquotable_node (a, b, out, fee, 0)) s = (Inl (ContractLogicError ''SPL''), s)"
    using assms by (intro via_ready_raise) (simp_all add: unquotable_node_def io_raise_def)
  then show ?thesis
    by (simp add: unquotable_checksum quote_exact_output_single_def io_bind_def io_lift_def io_return_def)
qed

text \<open>
  The dry run is not total. When the vault reports that the repayment is too small and the larger
  swap cannot be quoted, the exception of the quote leaves \<^verbatim>\<open>simulate\<close> instead of becoming a failed
  result.
\<close>

lemma simulate_lets_requote_escape:
  "fst (simulate (\<lambda>_. 3) unquotable_node (quiet_vault (Some (ContractLogicError ''HealthBelowTarget''))) ''k''
     demo_plan demo_params ''0x00'' demo_clients) = Inl (ContractLogicError ''SPL'')"
proof -
  have h: "\<not> opcode_halt ''HealthBelowTarget''" "is_bumpable ''HealthBelowTarget''"
    by (simp_all add: opcode_halt_def is_bumpable_def BUMPABLE_ERRORS_def quoted_0x_def sublist_code)
  show ?thesis
    using demo_eth_call(2) [OF demo_ready unquotable_checksum, of "ContractLogicError ''HealthBelowTarget''"] h
    by (simp add: simulate_def numeral_eq_Suc Let_def unquotable_quote [OF demo_ready])
qed

text \<open>
  The selection accepts a collateral whose allowance covers the quoted amount exactly, and the
  resulting plan is sent with a maximum above that allowance, which is the amount the vault pulls.
\<close>

lemma allowance_gate_below_maximum:
  "evaluate step_libm ''vault'' (demo_node 2165000000) demo_params (Some (Fin 0)) 50000000 demo_clients =
     (Inr (demo_response, Some demo_plan), demo_clients) \<and>
   fst (allowance (demo_node 2165000000) ''aToken'' ''alice'' ''vault'' demo_clients) = Inr 2165000000 \<and>
   fst (simulate (\<lambda>_. 3) (demo_node 2165000000) (quiet_vault None) ''k'' demo_plan demo_params ''0x00''
     demo_clients) = Inr (sim_ok 2159568087 2175825000 0, demo_plan) \<and>
   2165000000 < sr_amount_in_maximum (sim_ok 2159568087 2175825000 0)"
  using demo_evaluate [OF demo_ready order_refl] demo_simulate [OF demo_ready]
    const_allowance [OF demo_ready]
  by (simp add: demo_node_def sim_ok_def)

end
