(* ===== verification/Submitter.thy ===== *)
theory Submitter
  imports Simulator
begin

text \<open>
  \<^verbatim>\<open>app/core/submitter.py\<close>: signing and broadcasting \<^verbatim>\<open>executeProtection\<close>, the direct-repay fallback, and the
  health factor re-read that labels the outcome. The whole send runs inside the retrying client call,
  as in the code.
\<close>

section \<open>Submitter\<close>

record Submitter =
  sb_vault :: string
  sb_account :: string

definition submitter_init ::
  "(string \<Rightarrow> string res) \<Rightarrow> (string \<Rightarrow> string res) \<Rightarrow> string \<Rightarrow> string \<Rightarrow> Submitter res" where
  "submitter_init checksum account_of_key vault_address keeper_private_key =
     (if keeper_private_key = [] then Inl (SubmitterError ''KEEPER_PRIVATE_KEY not configured'')
      else res_bind (checksum vault_address) (\<lambda>v. res_bind (account_of_key keeper_private_key) (\<lambda>a.
        Inr \<lparr>sb_vault = v, sb_account = a\<rparr>)))"

fun fallback_trigger :: "exn \<Rightarrow> bool" where
  "fallback_trigger (ContractLogicError m) = True"
| "fallback_trigger (Web3RPCError m) = True"
| "fallback_trigger e = False"

definition POOL_ADDR :: string where
  "POOL_ADDR = ''0x794a61358D6845594F94dc1DB02A252b5b4814aD''"

definition direct_send :: "'s vault_node \<Rightarrow> string \<Rightarrow> ExecCall \<Rightarrow> nat \<Rightarrow> ('s, string \<times> int \<times> int \<times> bool) io" where
  "direct_send vt account x i =
     io_bind (vt_nonce vt account i) (\<lambda>nonce.
     io_bind (vt_chain_id vt i) (\<lambda>chain_id.
     io_bind (vt_build vt x account nonce chain_id i) (\<lambda>tx.
     io_bind (io_lift (vt_sign vt tx)) (\<lambda>raw.
     io_bind (vt_send_raw vt raw i) (\<lambda>tx_hash.
     io_bind (vt_wait vt tx_hash i) (\<lambda>(status, gas). io_return (tx_hash, status, gas, False)))))))"

definition fallback_send ::
  "'s node \<Rightarrow> 's vault_node \<Rightarrow> RescuePlan \<Rightarrow> int \<Rightarrow> nat \<Rightarrow> ('s, string \<times> int \<times> int \<times> bool) io" where
  "fallback_send nd vt plan repay_amount i =
     io_bind (io_lift (nd_checksum nd (pl_debt_asset plan))) (\<lambda>debt_token.
     io_bind (io_lift (nd_checksum nd (pl_borrower plan))) (\<lambda>borrower_addr.
     io_bind (vt_approve vt debt_token borrower_addr POOL_ADDR (2 ^ 256 - 1) i) (\<lambda>tx1.
     io_bind (vt_wait_fallback vt tx1 i) (\<lambda>_.
     io_bind (vt_repay vt debt_token borrower_addr repay_amount borrower_addr i) (\<lambda>tx2.
     io_bind (vt_wait_fallback vt tx2 i) (\<lambda>(status, gas). io_return
       (tx2, (case status of None \<Rightarrow> 1 | Some n \<Rightarrow> n), (case gas of None \<Rightarrow> 185000 | Some n \<Rightarrow> n), True)))))))"

definition send_tx ::
  "'s node \<Rightarrow> 's vault_node \<Rightarrow> string \<Rightarrow> RescuePlan \<Rightarrow> RiskParams \<Rightarrow> nat list \<Rightarrow> int \<Rightarrow> int \<Rightarrow> nat \<Rightarrow>
     ('s, string \<times> int \<times> int \<times> bool) io" where
  "send_tx nd vt account plan params sig repay_amount amount_in_maximum i =
     io_bind (io_lift (exec_call (nd_checksum nd) params sig plan repay_amount amount_in_maximum)) (\<lambda>x s.
       case direct_send vt account x i s of
         (Inr r, s') \<Rightarrow> (Inr r, s')
       | (Inl e, s') \<Rightarrow> if fallback_trigger e then fallback_send nd vt plan repay_amount i s' else (Inl e, s'))"

definition submit ::
  "'z cs node \<Rightarrow> 'z cs vault_node \<Rightarrow> string \<Rightarrow> RescuePlan \<Rightarrow> RiskParams \<Rightarrow> string \<Rightarrow> int \<Rightarrow> int \<Rightarrow>
     ('z cs, SubmissionResult) io" where
  "submit nd vt account plan params signature repay_amount amount_in_maximum =
     io_bind (io_lift (bytes_fromhex (removeprefix ''0x'' signature))) (\<lambda>sig.
     io_bind (via nd (send_tx nd vt account plan params sig repay_amount amount_in_maximum))
       (\<lambda>(tx_hash, status, gas_used, via_fallback).
     let tx_hex = (if prefix ''0x'' tx_hash then tx_hash else ''0x'' @ tx_hash) in
     if status = 1 then
       io_bind (get_user_account_data nd (pl_borrower plan)) (\<lambda>account.
       io_bind (io_lift (ua_hf account)) (\<lambda>hf. io_return
         \<lparr>sb_tx_hash = tx_hex, sb_status = status, sb_state = RESTORED, sb_hf_after = Some hf,
          sb_gas_used = Some gas_used, sb_via_fallback = via_fallback\<rparr>))
     else io_return
         \<lparr>sb_tx_hash = tx_hex, sb_status = status, sb_state = REVERTED, sb_hf_after = None,
          sb_gas_used = Some gas_used, sb_via_fallback = via_fallback\<rparr>))"

section \<open>What a result means\<close>

text \<open>
  A keeper transaction was broadcast and mined when a send returned the hash and a wait the receipt.
\<close>

definition keeper_mined :: "'s vault_node \<Rightarrow> string \<Rightarrow> int \<Rightarrow> bool" where
  "keeper_mined vt tx_hash status \<longleftrightarrow>
     (\<exists>raw i u v u' v' gas. vt_send_raw vt raw i u = (Inr tx_hash, v) \<and> vt_wait vt tx_hash i u' = (Inr (status, gas), v'))"

lemma direct_send_Inr:
  "direct_send vt account x i s = (Inr (h, st, g, fb), s') \<Longrightarrow> \<not> fb \<and> keeper_mined vt h st"
  by (auto simp: direct_send_def io_bind_Inr_iff keeper_mined_def) blast

lemma fallback_send_Inr: "fallback_send nd vt plan r i s = (Inr (h, st, g, fb), s') \<Longrightarrow> fb"
  by (auto simp: fallback_send_def io_bind_Inr_iff)

lemma send_tx_Inr:
  assumes "send_tx nd vt account plan params sig r m i s = (Inr (h, st, g, fb), s')"
  shows "(\<not> fb \<longrightarrow> keeper_mined vt h st) \<and>
    (fb \<longrightarrow> (\<exists>x u e. fst (direct_send vt account x i u) = Inl e \<and> fallback_trigger e))"
proof -
  obtain x u where x: "(case direct_send vt account x i u of
       (Inr r, s') \<Rightarrow> (Inr r, s')
     | (Inl e, s') \<Rightarrow> if fallback_trigger e then fallback_send nd vt plan r i s' else (Inl e, s')) =
     (Inr (h, st, g, fb), s')"
    using assms by (auto simp: send_tx_def io_bind_Inr_iff)
  obtain o' v where o: "direct_send vt account x i u = (o', v)" by fastforce
  show ?thesis
  proof (cases o')
    case (Inl e)
    then have "fallback_trigger e" "fallback_send nd vt plan r i v = (Inr (h, st, g, fb), s')"
      using x o by (auto split: if_splits)
    then show ?thesis using fallback_send_Inr o Inl by (metis fst_conv)
  next
    case (Inr q)
    then show ?thesis using x o direct_send_Inr [of vt account x i u h st g fb v] by auto
  qed
qed

text \<open>
  The label of a submission is the receipt's status: restored exactly for status one, with the
  health factor read afterwards, reverted otherwise. A result not marked as fallback is one of a
  broadcast keeper transaction with that receipt; a fallback result means the direct send raised one
  of the two trigger exceptions. The hash carries its prefix.
\<close>

lemma submit_labels_outcome:
  assumes "submit nd vt account plan params signature repay amount_max s = (Inr r, s')"
  shows "(sb_state r = RESTORED \<longleftrightarrow> sb_status r = 1) \<and> (sb_state r = REVERTED \<longleftrightarrow> sb_status r \<noteq> 1) \<and>
     (sb_hf_after r \<noteq> None \<longleftrightarrow> sb_status r = 1) \<and> prefix ''0x'' (sb_tx_hash r) \<and>
     (\<not> sb_via_fallback r \<longrightarrow>
        (\<exists>h. keeper_mined vt h (sb_status r) \<and> (sb_tx_hash r = h \<or> sb_tx_hash r = ''0x'' @ h))) \<and>
     (sb_via_fallback r \<longrightarrow>
        (\<exists>x i u e. fst (direct_send vt account x i u) = Inl e \<and> fallback_trigger e))"
proof -
  obtain sig u q v where call: "via nd (send_tx nd vt account plan params sig repay amount_max) u = (Inr q, v)"
    and rest: "(\<lambda>(tx_hash, status, gas_used, via_fallback).
       let tx_hex = (if prefix ''0x'' tx_hash then tx_hash else ''0x'' @ tx_hash) in
       if status = 1 then
         io_bind (get_user_account_data nd (pl_borrower plan)) (\<lambda>account.
         io_bind (io_lift (ua_hf account)) (\<lambda>hf. io_return
           \<lparr>sb_tx_hash = tx_hex, sb_status = status, sb_state = RESTORED, sb_hf_after = Some hf,
            sb_gas_used = Some gas_used, sb_via_fallback = via_fallback\<rparr>))
       else io_return
           \<lparr>sb_tx_hash = tx_hex, sb_status = status, sb_state = REVERTED, sb_hf_after = None,
            sb_gas_used = Some gas_used, sb_via_fallback = via_fallback\<rparr>) q v = (Inr r, s')"
    using assms unfolding submit_def io_bind_Inr_iff [of "io_lift _"] io_bind_Inr_iff [of "via nd _"] by blast
  obtain h st g fb where q: "q = (h, st, g, fb)" by (cases q) auto
  have r: "sb_status r = st" "sb_via_fallback r = fb" "sb_tx_hash r = (if prefix ''0x'' h then h else ''0x'' @ h)"
      "sb_state r = (if st = 1 then RESTORED else REVERTED)" "sb_hf_after r \<noteq> None \<longleftrightarrow> st = 1"
    using rest unfolding q prod.case Let_def
    by (cases "st = 1"; auto simp only: if_True if_False io_bind_Inr_iff io_return_eq; simp)+
  obtain i w x where "send_tx nd vt account plan params sig repay amount_max i w = (Inr (h, st, g, fb), x)"
    using client_call_Inr [OF call] q by blast
  note sent = send_tx_Inr [OF this]
  have tx: "sb_tx_hash r = h \<or> sb_tx_hash r = ''0x'' @ h" "prefix ''0x'' (sb_tx_hash r)"
    by (simp_all add: r(3))
  have "fb \<longrightarrow> (\<exists>x i u e. fst (direct_send vt account x i u) = Inl e \<and> fallback_trigger e)"
    using sent by (meson)
  moreover have "\<not> fb \<longrightarrow> (\<exists>h. keeper_mined vt h st \<and> (sb_tx_hash r = h \<or> sb_tx_hash r = ''0x'' @ h))"
    using sent tx(1) by blast
  ultimately show ?thesis using r(5) tx(2) by (cases "st = 1"; cases fb) (simp_all add: r(1,2,4))
qed

section \<open>An example and three gaps\<close>

text \<open>
  A vault whose keeper transactions are logged in the world. The receipt of the first broadcast is lost
  to the network when \<open>lossy\<close> is set; \<open>refuse\<close> is what building the transaction raises.
\<close>

type_synonym logged = "string list pipeline_state_scheme"

definition logged_clients :: logged where
  "logged_clients = \<lparr>ch_client = \<lparr>cl_urls = [''rpc''], cl_max_retries = 3, cl_active = 0, cl_contracts = []\<rparr>,
     ch_pool_address = Some ''pool'', ch_oracle_address = Some ''oracle'', ch_decimals = [], pp_vols = [], \<dots> = []\<rparr>"

definition logged_vault :: "bool \<Rightarrow> exn option \<Rightarrow> logged vault_node" where
  "logged_vault lossy refuse = (quiet_vault None)\<lparr>
     vt_build := (\<lambda>_ _ _ _ _. case refuse of None \<Rightarrow> io_return ''tx'' | Some e \<Rightarrow> io_raise e),
     vt_send_raw := (\<lambda>raw i s. (Inr ''ab'', pipeline_state.more_update (\<lambda>l. l @ [raw]) s)),
     vt_wait := (\<lambda>h i s. if lossy \<and> length (pipeline_state.more s) = 1
       then (Inl (ConnectionError ''reset by peer''), s) else (Inr (1, 21000), s)),
     vt_repay := (\<lambda>_ _ _ _ i s. (Inr ''a2'', pipeline_state.more_update (\<lambda>l. l @ [''repay'']) s))\<rparr>"

definition healed_node :: "'s node" where
  "healed_node = const_node (800000000000, 600000000000, 0, 8250, 8000, 10 ^ 18) 0 100000000 0 0"

lemma healed_account:
  "ready s \<Longrightarrow> get_user_account_data healed_node b s =
     (Inr \<lparr>ua_total_collateral_base = 800000000000, ua_total_debt_base = 600000000000,
       ua_available_borrows_base = 0, ua_liquidation_threshold_bps = 8250, ua_ltv_bps = 8000,
       ua_health_factor = 10 ^ 18\<rparr>, s)"
  unfolding healed_node_def by (rule const_account)

lemma logged_ready: "ready (pipeline_state.more_update f logged_clients)" "ready logged_clients"
  by (simp_all add: logged_clients_def ready_def)

lemma healed_hf: "ua_hf \<lparr>ua_total_collateral_base = c, ua_total_debt_base = 600000000000,
       ua_available_borrows_base = a, ua_liquidation_threshold_bps = lt, ua_ltv_bps = ltv,
       ua_health_factor = 10 ^ 18\<rparr> = Inr (Fin 1)"
  by (simp add: ua_hf_def int_truediv_def scale_defs demo_floats)

lemma healed_params: "nd_checksum healed_node = Inr" "nd_sleep healed_node = (\<lambda>_. io_return ())"
  by (simp_all add: healed_node_def const_node_def)

definition demo_result :: "bool \<Rightarrow> SubmissionResult" where
  "demo_result fb = \<lparr>sb_tx_hash = (if fb then ''0xa2'' else ''0xab''), sb_status = 1, sb_state = RESTORED,
     sb_hf_after = Some (Fin 1), sb_gas_used = Some (if fb then 185000 else 21000), sb_via_fallback = fb\<rparr>"

definition with_log :: "string list \<Rightarrow> logged" where
  "with_log l = pipeline_state.more_update (\<lambda>_. l) logged_clients"

lemma with_log [simp]:
  "pipeline_state.more (with_log l) = l" "pipeline_state.more_update f (with_log l) = with_log (f l)"
  "ready (with_log l)" "active (with_log l) = 0" "cl_urls (ch_client (with_log l)) = [''rpc'']"
  "cl_max_retries (ch_client (with_log l)) = 3" "set_active 0 (with_log l) = with_log l"
  by (simp_all add: with_log_def logged_clients_def ready_def)

lemma demo_exec_call: "\<exists>x. exec_call Inr demo_params sig demo_plan r a = Inr x"
  by (simp add: exec_call_def)

lemma demo_submit:
  "submit healed_node (logged_vault lossy refuse) ''k'' demo_plan demo_params ''0x00'' r a (with_log []) =
     (case refuse of
        None \<Rightarrow> (Inr (demo_result False), with_log (if lossy then [''tx'', ''tx''] else [''tx'']))
      | Some e \<Rightarrow> if fallback_trigger e then (Inr (demo_result True), with_log [''repay''])
          else submit healed_node (logged_vault lossy refuse) ''k'' demo_plan demo_params ''0x00'' r a (with_log []))"
  unfolding submit_def demo_hex client_call_def
  by (simp add: io_bind_def io_lift_def io_return_def io_raise_def numeral_3_eq_3 Let_def healed_params
      send_tx_def direct_send_def fallback_send_def exec_call_def logged_vault_def quiet_vault_def
      healed_account healed_hf [simplified] demo_result_def split: option.splits)

text \<open>
  The send is not idempotent but runs inside the retrying call: when the connection drops after a
  broadcast and before the receipt, the transaction is built, signed and broadcast a second time.
\<close>

lemma submit_rebroadcasts:
  "submit healed_node (logged_vault True None) ''k'' demo_plan demo_params ''0x00'' 1 2 (with_log []) =
     (Inr (demo_result False), with_log [''tx'', ''tx''])"
  using demo_submit [of True None] by simp

text \<open>
  C35: whatever reason the vault gives for a revert, a refused signature or an exceeded cost among them, the revert does not surface: when the keeper's
  transaction raises it at the active endpoint, the debt is repaid directly from the borrower's account, and once that repayment is
  mined the submission is reported as a restored position.
\<close>

theorem genuine_revert_falls_back:
  assumes "bytes_fromhex (removeprefix ''0x'' signature) = Inr sig"
    and "exec_call (nd_checksum nd) params sig plan repay_amount amount_in_maximum = Inr x"
    and "active s < length (cl_urls (ch_client s))" "1 \<le> cl_max_retries (ch_client s)"
    and "direct_send vt account x (active s) s = (Inl (ContractLogicError revert_reason), t)"
    and "fallback_send nd vt plan repay_amount (active s) t = (Inr (repay_hash, 1, gas, fb), u)"
    and "get_user_account_data nd (pl_borrower plan) (set_active (active s) u) = (Inr healed, w)" "ua_hf healed = Inr hf"
  shows "submit nd vt account plan params signature repay_amount amount_in_maximum s =
    (Inr \<lparr>sb_tx_hash = (if prefix ''0x'' repay_hash then repay_hash else ''0x'' @ repay_hash), sb_status = 1,
       sb_state = RESTORED, sb_hf_after = Some hf, sb_gas_used = Some gas, sb_via_fallback = True\<rparr>, w)"
proof -
  have fb: fb using assms(6) by (rule fallback_send_Inr)
  have "send_tx nd vt account plan params sig repay_amount amount_in_maximum (active s) s = (Inr (repay_hash, 1, gas, fb), u)"
    by (simp add: send_tx_def assms(2,5,6) io_bind_def io_lift_def)
  then have "via nd (send_tx nd vt account plan params sig repay_amount amount_in_maximum) s =
      (Inr (repay_hash, 1, gas, fb), set_active (active s) u)"
    by (rule client_call_first) (rule assms(3,4))+
  then show ?thesis using fb assms(7,8)
    by (simp add: submit_def assms(1) io_bind_def io_lift_def io_return_def Let_def)
qed

theorem genuine_revert_falls_back_witness:
  "submit healed_node (logged_vault False (Some (ContractLogicError ''BadSignature''))) ''k'' demo_plan
     demo_params ''0x00'' 1 2 (with_log []) = (Inr (demo_result True), with_log [''repay''])"
proof -
  let ?vt = "logged_vault False (Some (ContractLogicError ''BadSignature''))" and ?s = "with_log []"
  obtain x where x: "exec_call (nd_checksum (healed_node :: logged node)) demo_params [0] demo_plan 1 2 = Inr x"
    using demo_exec_call [of "[0]" 1 2] by (auto simp: healed_params)
  have up: "active ?s < length (cl_urls (ch_client ?s))" "1 \<le> cl_max_retries (ch_client ?s)" by simp_all
  have refused: "direct_send ?vt ''k'' x (active ?s) ?s = (Inl (ContractLogicError ''BadSignature''), ?s)"
    by (simp add: direct_send_def logged_vault_def quiet_vault_def io_bind_def io_return_def io_raise_def)
  have repaid: "fallback_send healed_node ?vt demo_plan 1 (active ?s) ?s = (Inr (''a2'', 1, 185000, True), with_log [''repay''])"
    by (simp add: fallback_send_def logged_vault_def quiet_vault_def healed_params io_bind_def io_return_def io_lift_def)
  show ?thesis
    using genuine_revert_falls_back [OF demo_hex x up refused repaid] healed_account [of "with_log [''repay'']"] healed_hf
    by (simp add: demo_result_def)
qed

lemma submit_labels_outcome_witness:
  "sb_state (demo_result False) = RESTORED \<and> (\<exists>h. keeper_mined (logged_vault False None) h 1)"
proof -
  have "submit healed_node (logged_vault False None) ''k'' demo_plan demo_params ''0x00'' 1 2 (with_log []) =
      (Inr (demo_result False), with_log [''tx''])"
    using demo_submit [of False None] by simp
  from submit_labels_outcome [OF this] show ?thesis by (auto simp: demo_result_def)
qed

definition unreadable_node :: "'s node" where
  "unreadable_node = healed_node\<lparr>nd_getUserAccountData := (\<lambda>_ _ _. io_raise (ContractLogicError ''read''))\<rparr>"

lemma unreadable_params: "nd_checksum unreadable_node = Inr" "nd_sleep unreadable_node = (\<lambda>_. io_return ())"
  by (simp_all add: unreadable_node_def healed_params)

lemma unreadable_account:
  assumes "ready s"
  shows "get_user_account_data unreadable_node b s = (Inl (ContractLogicError ''read''), s)"
proof -
  have "via unreadable_node (\<lambda>i. io_bind (pool_address unreadable_node)
      (\<lambda>pool. nd_getUserAccountData unreadable_node pool b i)) s = (Inl (ContractLogicError ''read''), s)"
    by (rule via_ready_raise [OF assms]) (simp_all add: io_bind_def pool_ready [OF assms] unreadable_node_def io_raise_def)
  then show ?thesis by (simp add: get_user_account_data_def io_bind_def io_lift_def unreadable_params)
qed

text \<open>
  A transaction that was mined with status one is reported as an exception when the health factor
  cannot be read afterwards.
\<close>

lemma mined_rescue_raises:
  "submit unreadable_node (logged_vault False None) ''k'' demo_plan demo_params ''0x00'' 1 2 (with_log []) =
     (Inl (ContractLogicError ''read''), with_log [''tx''])"
  unfolding submit_def demo_hex client_call_def
  by (simp add: io_bind_def io_lift_def io_return_def io_raise_def numeral_3_eq_3 Let_def unreadable_params
      send_tx_def direct_send_def exec_call_def logged_vault_def quiet_vault_def unreadable_account)

end
