(* ===== verification/Inflight.thy ===== *)
theory Inflight
  imports Py_Float
begin

text \<open>
  \<^verbatim>\<open>app/core/inflight.py\<close>: the per-borrower lock with its cooldown. The injected clock is not assumed
  to be anything: each of its readings is an argument, in the order the code takes them.
\<close>

section \<open>State and operations\<close>

record InFlightRegistry =
  fl_cooldown :: pyfloat
  fl_locked :: "(string, pyfloat) pydict"
  fl_cooldown_until :: "(string, pyfloat) pydict"

definition inflight_init :: "pyfloat \<Rightarrow> InFlightRegistry" where
  "inflight_init cooldown_seconds =
     \<lparr>fl_cooldown = cooldown_seconds, fl_locked = [], fl_cooldown_until = []\<rparr>"

text \<open>\<^verbatim>\<open>max(0.0, value)\<close> keeps its first argument unless the second is greater.\<close>

definition set_cooldown_seconds :: "pyfloat \<Rightarrow> InFlightRegistry \<Rightarrow> InFlightRegistry" where
  "set_cooldown_seconds v r = r\<lparr>fl_cooldown := (if flt (Fin 0) v then v else Fin 0)\<rparr>"

definition is_locked :: "InFlightRegistry \<Rightarrow> string \<Rightarrow> bool" where
  "is_locked r borrower \<longleftrightarrow> dict_get (fl_locked r) borrower \<noteq> None"

definition in_cooldown :: "string \<Rightarrow> pyfloat \<Rightarrow> InFlightRegistry \<Rightarrow> bool" where
  "in_cooldown borrower now r =
     (case dict_get (fl_cooldown_until r) borrower of None \<Rightarrow> False | Some until \<Rightarrow> flt now until)"

definition can_start :: "string \<Rightarrow> pyfloat \<Rightarrow> InFlightRegistry \<Rightarrow> bool" where
  "can_start borrower now r \<longleftrightarrow> \<not> is_locked r borrower \<and> \<not> in_cooldown borrower now r"

text \<open>The first reading is the one of the cooldown test, the second the time the lock is stamped with.\<close>

definition acquire :: "string \<Rightarrow> pyfloat \<times> pyfloat \<Rightarrow> InFlightRegistry \<Rightarrow> bool \<times> InFlightRegistry" where
  "acquire borrower now r =
     (if \<not> can_start borrower (fst now) r then (False, r)
      else (True, r\<lparr>fl_locked := dict_set borrower (snd now) (fl_locked r)\<rparr>))"

definition release :: "string \<Rightarrow> pyfloat \<Rightarrow> InFlightRegistry \<Rightarrow> InFlightRegistry" where
  "release borrower now r =
     (let r' = r\<lparr>fl_locked := dict_pop borrower (fl_locked r)\<rparr>
      in r'\<lparr>fl_cooldown_until := dict_set borrower (fadd now (fl_cooldown r')) (fl_cooldown_until r')\<rparr>)"

definition locked_borrowers :: "InFlightRegistry \<Rightarrow> string list" where
  "locked_borrowers r = map fst (fl_locked r)"

lemmas inflight_defs = acquire_def release_def is_locked_def can_start_def in_cooldown_def Let_def

definition inflight_ok :: "InFlightRegistry \<Rightarrow> bool" where
  "inflight_ok r \<longleftrightarrow> dict_wf (fl_locked r) \<and> dict_wf (fl_cooldown_until r)"

lemma inflight_ok_ops [intro]:
  "inflight_ok (inflight_init c)"
  "inflight_ok r \<Longrightarrow> inflight_ok (set_cooldown_seconds v r)"
  "inflight_ok r \<Longrightarrow> inflight_ok (snd (acquire b t r))"
  "inflight_ok r \<Longrightarrow> inflight_ok (release b n r)"
  by (auto simp: inflight_ok_def inflight_init_def set_cooldown_seconds_def acquire_def release_def Let_def)

lemma locked_borrowers_iff: "b \<in> set (locked_borrowers r) \<longleftrightarrow> is_locked r b"
  by (simp only: locked_borrowers_def is_locked_def dict_keys_in_iff)

section \<open>The contract of a keyed lock\<close>

datatype ('k, 't, 'u) lock_event = Acquire 'k 't bool | Release 'k 'u

locale keyed_lock =
  fixes lk_ok :: "'s \<Rightarrow> bool" and held :: "'s \<Rightarrow> 'k \<Rightarrow> bool"
    and try_lock :: "'k \<Rightarrow> 't \<Rightarrow> 's \<Rightarrow> bool \<times> 's" and unlock :: "'k \<Rightarrow> 'u \<Rightarrow> 's \<Rightarrow> 's"
  assumes ok_try: "lk_ok s \<Longrightarrow> lk_ok (snd (try_lock k t s))"
    and ok_unlock: "lk_ok s \<Longrightarrow> lk_ok (unlock k u s)"
    and try_free: "lk_ok s \<Longrightarrow> fst (try_lock k t s) \<Longrightarrow> \<not> held s k"
    and held_try: "lk_ok s \<Longrightarrow> held (snd (try_lock k t s)) k' \<longleftrightarrow> held s k' \<or> (k' = k \<and> fst (try_lock k t s))"
    and held_unlock: "lk_ok s \<Longrightarrow> held (unlock k u s) k' \<longleftrightarrow> held s k' \<and> k' \<noteq> k"
begin

inductive lock_run :: "'s \<Rightarrow> ('k, 't, 'u) lock_event list \<Rightarrow> 's \<Rightarrow> bool" where
  run_nil: "lock_run s [] s"
| run_acquire: "lock_run (snd (try_lock k t s)) es s' \<Longrightarrow> r = fst (try_lock k t s) \<Longrightarrow>
    lock_run s (Acquire k t r # es) s'"
| run_release: "lock_run (unlock k u s) es s' \<Longrightarrow> lock_run s (Release k u # es) s'"

inductive_cases lock_run_ConsE: "lock_run s (e # es) s'"

lemma lock_run_ok: "lock_run s es s' \<Longrightarrow> lk_ok s \<Longrightarrow> lk_ok s'"
  by (induction rule: lock_run.induct) (auto intro: ok_try ok_unlock)

lemma lock_run_append: "lock_run s (es @ fs) s' \<Longrightarrow> \<exists>m. lock_run s es m \<and> lock_run m fs s'"
proof (induction es arbitrary: s)
  case (Cons e es)
  from Cons.prems show ?case
    by (auto elim!: lock_run_ConsE dest!: Cons.IH intro: lock_run.intros)
qed (auto intro: run_nil)

lemma held_persists:
  "lock_run s es s' \<Longrightarrow> lk_ok s \<Longrightarrow> held s k \<Longrightarrow> (\<forall>u. Release k u \<notin> set es) \<Longrightarrow> held s' k"
  by (induction rule: lock_run.induct) (auto simp: held_try held_unlock ok_try ok_unlock)

text \<open>Between two acquisitions of the same key that both succeed there is a release of it.\<close>

lemma release_between:
  assumes "lk_ok s" and "lock_run s (as @ Acquire k t True # bs @ Acquire k t' True # cs) s'"
  shows "\<exists>u. Release k u \<in> set bs"
proof (rule ccontr)
  assume none: "\<nexists>u. Release k u \<in> set bs"
  obtain m where m: "lock_run s as m" "lock_run m (Acquire k t True # bs @ Acquire k t' True # cs) s'"
    using lock_run_append [OF assms(2)] by blast
  have mok: "lk_ok m" using m(1) assms(1) by (rule lock_run_ok)
  let ?m1 = "snd (try_lock k t m)"
  have m1: "lock_run ?m1 (bs @ Acquire k t' True # cs) s'" "fst (try_lock k t m)"
    using m(2) by (auto elim: lock_run_ConsE)
  obtain q where q: "lock_run ?m1 bs q" "lock_run q (Acquire k t' True # cs) s'"
    using lock_run_append [OF m1(1)] by blast
  have "held q k" by (rule held_persists [OF q(1)]) (use mok m1(2) none in \<open>auto simp: ok_try held_try\<close>)
  moreover have "fst (try_lock k t' q)" using q(2) by (auto elim: lock_run_ConsE)
  moreover have "lk_ok q" using q(1) by (rule lock_run_ok) (rule ok_try [OF mok])
  ultimately show False using try_free by blast
qed

end

interpretation fl: keyed_lock inflight_ok is_locked acquire release
  by unfold_locales (auto simp: inflight_defs dict_simps inflight_ok_def split: if_splits)

text \<open>
  In every sequence of lock calls on the registry, for any clock and any cooldown, two
  acquisitions for one borrower never both succeed unless the lock was released in between.
\<close>

lemma no_double_acquire:
  assumes "fl.lock_run (inflight_init c) (as @ Acquire b t True # bs @ Acquire b t' True # cs) r"
  shows "\<exists>n. Release b n \<in> set bs"
  using inflight_ok_ops(1) assms by (rule fl.release_between)

lemma no_double_acquire_witness:
  "\<exists>n. Release ''a'' n \<in> set [Acquire ''a'' (Fin 2, Fin 2) False, Release ''a'' (Fin 5)]"
proof (rule no_double_acquire)
  let ?r = "\<lparr>fl_cooldown = Fin 0, fl_locked = [(''a'', Fin 6)], fl_cooldown_until = [(''a'', Fin 5)]\<rparr>"
  have "to_float 5 = Fin 5"
    using to_float_exact [of 5] representable_of_int [of 5] by simp
  then show "fl.lock_run (inflight_init (Fin 0)) ([] @ Acquire ''a'' (Fin 1, Fin 1) True #
      [Acquire ''a'' (Fin 2, Fin 2) False, Release ''a'' (Fin 5)] @ Acquire ''a'' (Fin 6, Fin 6) True # []) ?r"
    by (auto intro!: fl.lock_run.intros simp: inflight_defs inflight_init_def)
qed

section \<open>The cooldown\<close>

text \<open>
  A release frees the borrower, leaves every other borrower as it was, and bars the borrower
  until the cooldown has passed on the clock: the next acquisition succeeds exactly when its
  reading is not before the release time plus the cooldown.
\<close>

lemma cooldown_after_release:
  "let r' = release b n r in
     \<not> is_locked r' b \<and>
     (fst (acquire b t r') \<longleftrightarrow> \<not> flt (fst t) (fadd n (fl_cooldown r))) \<and>
     (\<forall>b'. b' \<noteq> b \<longrightarrow> is_locked r' b' = is_locked r b' \<and> fst (acquire b' t r') = fst (acquire b' t r))"
  by (simp add: inflight_defs dict_simps)

lemma cooldown_after_release_witness:
  "\<not> fst (acquire ''a'' (Fin 20, Fin 20) (release ''a'' (Fin 0) (inflight_init (Fin 30)))) \<and>
   fst (acquire ''b'' (Fin 20, Fin 20) (release ''a'' (Fin 0) (inflight_init (Fin 30)))) =
     fst (acquire ''b'' (Fin 20, Fin 20) (inflight_init (Fin 30)))"
proof -
  have "to_float 30 = Fin 30"
    using to_float_exact [of 30] representable_of_int [of 30] by simp
  then show ?thesis
    using cooldown_after_release [of "''a''" "Fin 0" "inflight_init (Fin 30)" "(Fin 20, Fin 20)"]
    by (simp add: Let_def inflight_init_def)
qed

end
