(* ===== verification/Breaker.thy ===== *)
theory Breaker
  imports FinaX_Prelude
begin

text \<open>
  \<^verbatim>\<open>app/core/breaker.py\<close>: the circuit breaker that guards autonomous submission. A locale states the
  contract the service relies on; the breaker's own operations discharge it.
\<close>

section \<open>State and operations\<close>

datatype TripReason = CONSECUTIVE_FAILURES | STALE_ORACLE | RPC_INCONSISTENT | INVALID_QUOTE
  | GAS_SPIKE | MANUAL

fun TripReason_value :: "TripReason \<Rightarrow> string" where
  "TripReason_value CONSECUTIVE_FAILURES = ''consecutive_failures''"
| "TripReason_value STALE_ORACLE = ''stale_oracle''"
| "TripReason_value RPC_INCONSISTENT = ''rpc_inconsistent''"
| "TripReason_value INVALID_QUOTE = ''invalid_quote''"
| "TripReason_value GAS_SPIKE = ''gas_spike''"
| "TripReason_value MANUAL = ''manual''"

record CircuitBreaker =
  cb_max :: int
  cb_consecutive :: int
  cb_paused :: bool
  cb_reason :: "TripReason option"

definition breaker_init :: "int \<Rightarrow> CircuitBreaker res" where
  "breaker_init max_consecutive_failures =
     (if max_consecutive_failures < 1 then Inl (ValueError ''max_consecutive_failures must be >= 1'')
      else Inr \<lparr>cb_max = max_consecutive_failures, cb_consecutive = 0, cb_paused = False, cb_reason = None\<rparr>)"

definition set_max_consecutive_failures :: "int \<Rightarrow> CircuitBreaker \<Rightarrow> CircuitBreaker res" where
  "set_max_consecutive_failures v b =
     (if v < 1 then Inl (ValueError ''max_consecutive_failures must be >= 1'') else Inr (b\<lparr>cb_max := v\<rparr>))"

definition trip_reason :: "CircuitBreaker \<Rightarrow> string option" where
  "trip_reason b = map_option TripReason_value (cb_reason b)"

definition allow :: "CircuitBreaker \<Rightarrow> bool" where
  "allow b \<longleftrightarrow> \<not> cb_paused b"

definition trip :: "TripReason \<Rightarrow> CircuitBreaker \<Rightarrow> CircuitBreaker" where
  "trip reason b = b\<lparr>cb_paused := True, cb_reason := Some reason\<rparr>"

definition record_success :: "CircuitBreaker \<Rightarrow> CircuitBreaker" where
  "record_success b = b\<lparr>cb_consecutive := 0\<rparr>"

definition record_failure :: "CircuitBreaker \<Rightarrow> CircuitBreaker" where
  "record_failure b =
     (let b' = b\<lparr>cb_consecutive := cb_consecutive b + 1\<rparr> in
      if cb_max b' \<le> cb_consecutive b' \<and> \<not> cb_paused b' then trip CONSECUTIVE_FAILURES b' else b')"

definition breaker_reset :: "CircuitBreaker \<Rightarrow> CircuitBreaker" where
  "breaker_reset b = b\<lparr>cb_paused := False, cb_reason := None, cb_consecutive := 0\<rparr>"

lemmas breaker_op_defs = trip_def record_success_def record_failure_def breaker_reset_def allow_def Let_def

section \<open>Well-formedness\<close>

definition breaker_ok :: "CircuitBreaker \<Rightarrow> bool" where
  "breaker_ok b \<longleftrightarrow> 1 \<le> cb_max b \<and> 0 \<le> cb_consecutive b \<and> (cb_paused b \<longleftrightarrow> cb_reason b \<noteq> None)"

lemma breaker_ok_ops [intro]:
  "breaker_ok b \<Longrightarrow> breaker_ok (record_success b)"
  "breaker_ok b \<Longrightarrow> breaker_ok (record_failure b)"
  "breaker_ok b \<Longrightarrow> breaker_ok (trip r b)"
  "breaker_ok b \<Longrightarrow> breaker_ok (breaker_reset b)"
  by (auto simp: breaker_ok_def breaker_op_defs)

lemma breaker_ok_init: "breaker_init m = Inr b \<Longrightarrow> breaker_ok b"
  by (auto simp: breaker_init_def breaker_ok_def split: if_splits)

lemma breaker_ok_set_max: "set_max_consecutive_failures v b = Inr b' \<Longrightarrow> breaker_ok b \<Longrightarrow> breaker_ok b'"
  by (auto simp: set_max_consecutive_failures_def breaker_ok_def split: if_splits)

section \<open>The contract\<close>

locale submission_gate =
  fixes gate_ok :: "'s \<Rightarrow> bool" and is_open :: "'s \<Rightarrow> bool"
    and succeeded :: "'s \<Rightarrow> 's" and failed :: "'s \<Rightarrow> 's" and hard_stop :: "'r \<Rightarrow> 's \<Rightarrow> 's" and rearm :: "'s \<Rightarrow> 's"
  assumes ok_succeeded: "gate_ok s \<Longrightarrow> gate_ok (succeeded s)"
    and ok_failed: "gate_ok s \<Longrightarrow> gate_ok (failed s)"
    and ok_hard_stop: "gate_ok s \<Longrightarrow> gate_ok (hard_stop r s)"
    and ok_rearm: "gate_ok s \<Longrightarrow> gate_ok (rearm s)"
    and open_succeeded: "gate_ok s \<Longrightarrow> is_open (succeeded s) \<longleftrightarrow> is_open s"
    and closed_failed: "gate_ok s \<Longrightarrow> \<not> is_open s \<Longrightarrow> \<not> is_open (failed s)"
    and closed_hard_stop: "gate_ok s \<Longrightarrow> \<not> is_open (hard_stop r s)"
    and open_rearm: "gate_ok s \<Longrightarrow> is_open (rearm s)"
begin

lemma closed_until_rearmed:
  assumes "gate_ok s" and "\<not> is_open s"
    and "\<And>f. f \<in> set fs \<Longrightarrow> f = succeeded \<or> f = failed \<or> (\<exists>r. f = hard_stop r)"
  shows "gate_ok (fold (\<lambda>f. f) fs s) \<and> \<not> is_open (fold (\<lambda>f. f) fs s)"
  using assms
proof (induction fs arbitrary: s)
  case (Cons f fs)
  have f: "f = succeeded \<or> f = failed \<or> (\<exists>r. f = hard_stop r)" by (rule Cons.prems(3)) simp
  then have "gate_ok (f s)" "\<not> is_open (f s)"
    using Cons.prems(1,2)
    by (auto simp: ok_succeeded ok_failed ok_hard_stop open_succeeded closed_failed closed_hard_stop)
  then have "gate_ok (fold (\<lambda>f. f) fs (f s)) \<and> \<not> is_open (fold (\<lambda>f. f) fs (f s))"
    by (rule Cons.IH) (rule Cons.prems(3), simp)
  then show ?case by simp
qed simp

end

interpretation cb: submission_gate breaker_ok allow record_success record_failure trip breaker_reset
  by unfold_locales (auto simp: breaker_op_defs breaker_ok_def)

section \<open>Runs of operations\<close>

datatype breaker_op = OpSuccess | OpFailure | OpTrip TripReason | OpReset

fun breaker_apply :: "breaker_op \<Rightarrow> CircuitBreaker \<Rightarrow> CircuitBreaker" where
  "breaker_apply OpSuccess = record_success"
| "breaker_apply OpFailure = record_failure"
| "breaker_apply (OpTrip r) = trip r"
| "breaker_apply OpReset = breaker_reset"

abbreviation breaker_run :: "breaker_op list \<Rightarrow> CircuitBreaker \<Rightarrow> CircuitBreaker" where
  "breaker_run ops b \<equiv> fold breaker_apply ops b"

lemma breaker_run_ok: "breaker_ok b \<Longrightarrow> breaker_ok (breaker_run ops b)"
proof (induction ops arbitrary: b)
  case (Cons x ops)
  then have "breaker_ok (breaker_apply x b)" by (cases x) auto
  then show ?case using Cons.IH by simp
qed simp

lemma breaker_run_max [simp]: "cb_max (breaker_run ops b) = cb_max b"
proof (induction ops arbitrary: b)
  case (Cons x ops)
  have "cb_max (breaker_apply x b) = cb_max b" by (cases x) (auto simp: breaker_op_defs)
  then show ?case using Cons.IH [of "breaker_apply x b"] by simp
qed simp

text \<open>The failures since the last success or reset.\<close>

fun streak :: "breaker_op list \<Rightarrow> nat" where
  "streak [] = 0"
| "streak (OpFailure # ops) = Suc (streak ops)"
| "streak (OpTrip r # ops) = streak ops"
| "streak (x # ops) = 0"

lemma breaker_consecutive:
  "cb_consecutive b = 0 \<Longrightarrow> cb_consecutive (breaker_run ops b) = int (streak (rev ops))"
proof (induction ops rule: rev_induct)
  case (snoc x ops)
  then show ?case by (cases x) (auto simp: breaker_op_defs)
qed simp

text \<open>
  After any sequence of outcomes, hard signals and resets, in any order, the failure counter of
  a fresh breaker is the number of failures since the last success or reset, the configured
  limit is unchanged, and a pause is on exactly when it has a reason.
\<close>

lemma breaker_streak:
  assumes "breaker_init m = Inr b"
  shows "cb_consecutive (breaker_run ops b) = int (streak (rev ops)) \<and>
     cb_max (breaker_run ops b) = m \<and>
     (cb_paused (breaker_run ops b) \<longleftrightarrow> trip_reason (breaker_run ops b) \<noteq> None)"
proof -
  have m: "cb_max b = m" "cb_consecutive b = 0" using assms by (auto simp: breaker_init_def split: if_splits)
  have "cb_consecutive (breaker_run ops b) = int (streak (rev ops))"
    using m(2) by (rule breaker_consecutive)
  moreover have "breaker_ok (breaker_run ops b)" using breaker_ok_init [OF assms] by (rule breaker_run_ok)
  ultimately show ?thesis using m(1) by (simp add: breaker_ok_def trip_reason_def)
qed

lemma breaker_streak_witness:
  "breaker_init 3 = Inr \<lparr>cb_max = 3, cb_consecutive = 0, cb_paused = False, cb_reason = None\<rparr> \<and>
   cb_consecutive (breaker_run [OpFailure, OpFailure, OpSuccess, OpFailure, OpTrip GAS_SPIKE, OpFailure]
     \<lparr>cb_max = 3, cb_consecutive = 0, cb_paused = False, cb_reason = None\<rparr>) = 2"
proof -
  have i: "breaker_init 3 = Inr \<lparr>cb_max = 3, cb_consecutive = 0, cb_paused = False, cb_reason = None\<rparr>"
    by (simp add: breaker_init_def)
  show ?thesis
    using breaker_streak [OF i, of "[OpFailure, OpFailure, OpSuccess, OpFailure, OpTrip GAS_SPIKE, OpFailure]"] i
    by simp
qed

section \<open>When the breaker trips\<close>

definition plain :: "breaker_op \<Rightarrow> bool" where
  "plain x \<longleftrightarrow> x = OpSuccess \<or> x = OpFailure"

lemma suffix_replicate_streak:
  "\<forall>x\<in>set ops. plain x \<Longrightarrow> suffix (replicate m OpFailure) ops \<longleftrightarrow> m \<le> streak (rev ops)"
proof (induction ops arbitrary: m rule: rev_induct)
  case (snoc x ops)
  have IH: "suffix (replicate k OpFailure) ops \<longleftrightarrow> k \<le> streak (rev ops)" for k
    using snoc by simp
  show ?case
  proof (cases m)
    case (Suc k)
    have "replicate m OpFailure = replicate k OpFailure @ [OpFailure]"
      by (simp add: Suc replicate_append_same)
    then show ?thesis using IH [of k] snoc.prems Suc by (auto simp: plain_def)
  qed simp
qed simp

lemma sublist_snoc: "sublist xs (ys @ [y]) \<longleftrightarrow> sublist xs ys \<or> suffix xs (ys @ [y])"
  using sublist_rev [of xs "ys @ [y]"] sublist_Cons_right [of "rev xs" y "rev ys"] 
  by (auto simp: suffix_to_prefix)

text \<open>
  C25: driven by outcomes alone, a fresh breaker with limit \<open>m\<close> is paused exactly when the history
  contains \<open>m\<close> failures in a row; later successes do not re-open it.
\<close>

theorem breaker_trips_iff:
  assumes "breaker_init m = Inr b" and "\<forall>x\<in>set ops. plain x"
  shows "allow (breaker_run ops b) \<longleftrightarrow> \<not> sublist (replicate (nat m) OpFailure) ops"
  using assms(2)
proof (induction ops rule: rev_induct)
  case Nil
  then show ?case using assms(1) by (auto simp: breaker_init_def allow_def split: if_splits)
next
  case (snoc x ops)
  let ?b = "breaker_run ops b"
  have m: "1 \<le> m" "cb_max b = m" "cb_consecutive b = 0"
    using assms(1) by (auto simp: breaker_init_def split: if_splits)
  have cons: "cb_consecutive ?b = int (streak (rev ops))" using m(3) by (rule breaker_consecutive)
  have suf: "suffix (replicate (nat m) OpFailure) (ops @ [x]) \<longleftrightarrow> nat m \<le> streak (rev (ops @ [x]))"
    using snoc.prems by (rule suffix_replicate_streak)
  have x: "x = OpSuccess \<or> x = OpFailure" using snoc.prems by (simp add: plain_def)
  have IH: "cb_paused ?b \<longleftrightarrow> sublist (replicate (nat m) OpFailure) ops"
    using snoc by (simp add: allow_def)
  show ?case
  proof (cases "x = OpFailure")
    case True
    have "nat m \<le> Suc (streak (rev ops)) \<longleftrightarrow> m \<le> cb_consecutive ?b + 1" using cons m(1) by linarith
    then show ?thesis using True suf IH by (auto simp: sublist_snoc breaker_op_defs m(2))
  next
    case False
    then show ?thesis using x suf IH m(1) by (auto simp: sublist_snoc breaker_op_defs)
  qed
qed

theorem breaker_trips_iff_witness:
  "\<not> allow (breaker_run [OpFailure, OpSuccess, OpFailure, OpFailure, OpSuccess]
     \<lparr>cb_max = 2, cb_consecutive = 0, cb_paused = False, cb_reason = None\<rparr>)"
proof -
  have i: "breaker_init 2 = Inr \<lparr>cb_max = 2, cb_consecutive = 0, cb_paused = False, cb_reason = None\<rparr>"
    by (simp add: breaker_init_def)
  show ?thesis
    using breaker_trips_iff [OF i, of "[OpFailure, OpSuccess, OpFailure, OpFailure, OpSuccess]"]
    by (simp add: plain_def numeral_2_eq_2 sublist_Cons_right)
qed

lemma breaker_run_closed:
  assumes "breaker_ok b" and "\<not> allow b" and "OpReset \<notin> set ops"
  shows "\<not> allow (breaker_run ops b)"
proof -
  have "f = record_success \<or> f = record_failure \<or> (\<exists>r. f = trip r)" if h: "f \<in> set (map breaker_apply ops)" for f
  proof -
    obtain x where "f = breaker_apply x" "x \<noteq> OpReset" using h assms(3) by auto
    then show ?thesis by (cases x) auto
  qed
  from cb.closed_until_rearmed [OF assms(1,2) this, of "map breaker_apply ops"]
  show ?thesis by (simp add: fold_map o_def)
qed

end
