(* ===== verification/Counters.thy ===== *)
theory Counters
  imports FinaX_Prelude
begin

text \<open>
  \<^verbatim>\<open>app/observability.py\<close>: named monotonic counters. Each method runs under one lock, so a call is
  one atomic step; \<^verbatim>\<open>get\<close> goes through a \<^verbatim>\<open>defaultdict\<close> and therefore creates the missing key.
\<close>

type_synonym counters = "(string, int) pydict"

definition counter_value :: "counters \<Rightarrow> string \<Rightarrow> int" where
  "counter_value c name = (case dict_get c name of None \<Rightarrow> 0 | Some n \<Rightarrow> n)"

definition counters_inc :: "string \<Rightarrow> int \<Rightarrow> counters \<Rightarrow> counters" where
  "counters_inc name n c = dict_set name (counter_value c name + n) c"

definition counters_get :: "string \<Rightarrow> counters \<Rightarrow> int \<times> counters" where
  "counters_get name c = (let c' = dict_setdefault name 0 c in (counter_value c' name, c'))"

definition counters_snapshot :: "counters \<Rightarrow> counters" where
  "counters_snapshot c = c"

definition ASSESSED :: string where "ASSESSED = ''assessed''"
definition DECLINED_C :: string where "DECLINED_C = ''declined''"
definition SIMULATED_OK :: string where "SIMULATED_OK = ''simulated_ok''"
definition SIMULATED_FAIL :: string where "SIMULATED_FAIL = ''simulated_fail''"
definition SUBMITTED_C :: string where "SUBMITTED_C = ''submitted''"
definition RESTORED_C :: string where "RESTORED_C = ''restored''"
definition REVERTED_C :: string where "REVERTED_C = ''reverted''"
definition DOUBLE_SUBMIT_BLOCKED :: string where "DOUBLE_SUBMIT_BLOCKED = ''double_submit_blocked''"
definition BREAKER_TRIPPED :: string where "BREAKER_TRIPPED = ''breaker_tripped''"
definition BREAKER_BLOCKED :: string where "BREAKER_BLOCKED = ''breaker_blocked''"
definition ERRORS :: string where "ERRORS = ''errors''"

lemmas counter_names = ASSESSED_def DECLINED_C_def SIMULATED_OK_def SIMULATED_FAIL_def
  SUBMITTED_C_def RESTORED_C_def REVERTED_C_def DOUBLE_SUBMIT_BLOCKED_def BREAKER_TRIPPED_def
  BREAKER_BLOCKED_def ERRORS_def

lemma counter_value_inc [simp]:
  "counter_value (counters_inc name n c) name' = counter_value c name' + (if name' = name then n else 0)"
  by (simp add: counter_value_def counters_inc_def dict_simps)

lemma counter_value_get [simp]:
  "fst (counters_get name c) = counter_value c name"
  "counter_value (snd (counters_get name c)) name' = counter_value c name'"
  by (auto simp: counters_get_def counter_value_def dict_simps Let_def)

lemma counters_wf [intro]:
  "dict_wf c \<Longrightarrow> dict_wf (counters_inc name n c)"
  "dict_wf c \<Longrightarrow> dict_wf (snd (counters_get name c))"
  by (auto simp: counters_inc_def counters_get_def Let_def)

end
