(* ===== verification/Protection_Service.thy ===== *)
theory Protection_Service
  imports Submitter Inflight Breaker Counters
begin

text \<open>
  \<^verbatim>\<open>app/core/protection_service.py\<close>: the registry of signed positions and the protective action.
  \<^verbatim>\<open>protect\<close> is cut at its awaits into segments that run without interruption on the event loop, and is
  their composition; what happens between two segments is a parameter and may change the whole state.
\<close>

section \<open>State and collaborators\<close>

record service_state = pipeline_state +
  sv_vols :: vols
  sv_registry :: "(string, RiskParams \<times> string) pydict"
  sv_states :: "(string, PositionState) pydict"
  sv_inflight :: InFlightRegistry
  sv_breaker :: CircuitBreaker
  sv_counters :: counters
  sv_autonomous :: bool
  sv_max_bumps :: int

type_synonym 'z svs = "'z service_state_scheme"

text \<open>
  The collaborators: the C library, the chain and the vault, the clock (the \<open>n\<close>-th reading within a
  segment), which of the optional parts are wired, and what the demo signer needs of the accounts
  library and the vault.
\<close>

record 's deps =
  dp_libm :: libm
  dp_node :: "'s node"
  dp_vault :: "'s vault_node"
  dp_vault_address :: string
  dp_keeper :: string
  dp_clock :: "nat \<Rightarrow> 's \<Rightarrow> pyfloat"
  dp_simulator :: bool
  dp_submitter :: bool
  dp_demo_mode :: bool
  dp_demo_account :: "nat \<Rightarrow> string \<times> string"
  dp_hash_params :: "solidity_tuple \<Rightarrow> nat \<Rightarrow> ('s, string) io"
  dp_sign_hash :: "string \<Rightarrow> string \<Rightarrow> string res"

definition FALLBACK_REASON :: string where
  "FALLBACK_REASON = ''HF restored via direct Aave repay - the atomic vault path was unavailable '' @
     ''on this fork (executeProtection did not execute)''"

section \<open>Registry\<close>

definition register :: "RiskParams \<Rightarrow> string \<Rightarrow> 'z svs \<Rightarrow> 'z svs" where
  "register params signature s =
     s\<lparr>sv_registry := dict_set (rp_borrower params) (params, signature) (sv_registry s),
       sv_states := dict_setdefault (rp_borrower params) HEALTHY (sv_states s)\<rparr>"

definition unregister :: "string \<Rightarrow> 'z svs \<Rightarrow> 'z svs" where
  "unregister borrower s =
     s\<lparr>sv_registry := dict_pop borrower (sv_registry s), sv_states := dict_pop borrower (sv_states s)\<rparr>"

definition registered :: "'z svs \<Rightarrow> string list" where
  "registered s = map fst (sv_registry s)"

definition state_of :: "string \<Rightarrow> 'z svs \<Rightarrow> PositionState" where
  "state_of borrower s = (case dict_get (sv_states s) borrower of Some st \<Rightarrow> st | None \<Rightarrow> HEALTHY)"

definition params_of :: "string \<Rightarrow> 'z svs \<Rightarrow> (RiskParams \<times> string) option" where
  "params_of borrower s = dict_get (sv_registry s) borrower"

definition set_state :: "string \<Rightarrow> PositionState \<Rightarrow> 'z svs \<Rightarrow> 'z svs" where
  "set_state borrower st s = s\<lparr>sv_states := dict_set borrower st (sv_states s)\<rparr>"

definition inc :: "string \<Rightarrow> 'z svs \<Rightarrow> 'z svs" where
  "inc name s = s\<lparr>sv_counters := counters_inc name 1 (sv_counters s)\<rparr>"

definition service_sigma_for :: "string \<Rightarrow> ('z svs, pyfloat) io" where
  "service_sigma_for asset s = (case sigma_for VOL_WINDOW asset (sv_vols s) of (r, vols') \<Rightarrow> (r, s\<lparr>sv_vols := vols'\<rparr>))"

section \<open>Monitoring\<close>

definition snapshot_done :: "string \<Rightarrow> PositionSnapshot \<Rightarrow> 'z svs \<Rightarrow> 'z svs" where
  "snapshot_done borrower snap s =
     (if \<not> is_locked (sv_inflight s) borrower then set_state borrower (ps_state snap) s else s)"

definition snapshot :: "'z svs deps \<Rightarrow> string \<Rightarrow> int \<Rightarrow> ('z svs, PositionSnapshot) io" where
  "snapshot d borrower hf_trigger_bps =
     io_bind (poll_once (dp_node d) borrower hf_trigger_bps) (\<lambda>snap s. (Inr snap, snapshot_done borrower snap s))"

section \<open>The protective action, segment by segment\<close>

definition response ::
  "string \<Rightarrow> PositionState \<Rightarrow> AssessmentResponse option \<Rightarrow> string option \<Rightarrow> ProtectResponse" where
  "response borrower st assessment reason =
     \<lparr>pr_borrower = borrower, pr_state = st, pr_submitted = False, pr_tx_hash = None,
      pr_assessment = assessment, pr_reason = reason, pr_via_fallback = False\<rparr>"

text \<open>Up to the first await: \<open>Inl\<close> is an early return, \<open>Inr\<close> the volatility to assess with.\<close>

definition protect_start ::
  "'z svs deps \<Rightarrow> RiskParams \<Rightarrow> string \<Rightarrow> ('z svs, ProtectResponse + pyfloat) io" where
  "protect_start d params signature s0 =
     (let borrower = rp_borrower params; s = register params signature s0 in
      if \<not> allow (sv_breaker s) then
        let s' = inc BREAKER_BLOCKED s in
        (Inr (Inl (response borrower (state_of borrower s') None
          (Some (''circuit breaker paused ('' @
            (case trip_reason (sv_breaker s') of None \<Rightarrow> ''None'' | Some r \<Rightarrow> r) @ '')'')))), s')
      else if \<not> can_start borrower (dp_clock d 0 s) (sv_inflight s) then
        let s' = inc DOUBLE_SUBMIT_BLOCKED s in
        (Inr (Inl (response borrower (state_of borrower s') None
          (Some ''rescue already in flight / cooling down''))), s')
      else
        let s' = set_state borrower ASSESSING s in
        (case rp_allowed_collaterals params of
           [] \<Rightarrow> (Inr (Inr (Fin 0)), s')
         | c # _ \<Rightarrow> (case service_sigma_for c s' of
               (Inl e, s'') \<Rightarrow> (Inl e, s'')
             | (Inr sigma, s'') \<Rightarrow> (Inr (Inr sigma), s''))))"

text \<open>After the evaluation: an early return or the plan to dry-run.\<close>

definition protect_assessed ::
  "'z svs deps \<Rightarrow> RiskParams \<Rightarrow> AssessmentResponse \<Rightarrow> RescuePlan option \<Rightarrow> 'z svs \<Rightarrow>
     (ProtectResponse + RescuePlan) \<times> 'z svs" where
  "protect_assessed d params assessment plan s0 =
     (let borrower = rp_borrower params; s = inc ASSESSED s0 in
      case (if ar_viable assessment then plan else None) of
        None \<Rightarrow>
          let s' = inc DECLINED_C (set_state borrower DECLINED s) in
          (Inl (response borrower DECLINED (Some assessment) (ar_reason assessment)), s')
      | Some p \<Rightarrow>
          if \<not> dp_simulator d then
            let s' = set_state borrower READY s in
            (Inl (response borrower READY (Some assessment)
              (Some ''assessment-only (no simulator configured)'')), s')
          else (Inr p, s))"

text \<open>After the dry run: an early return, or the lock is held and the submission may go.\<close>

definition protect_simulated ::
  "'z svs deps \<Rightarrow> RiskParams \<Rightarrow> AssessmentResponse \<Rightarrow> SimulationResult \<Rightarrow> 'z svs \<Rightarrow>
     (ProtectResponse + unit) \<times> 'z svs" where
  "protect_simulated d params assessment sim s0 =
     (let borrower = rp_borrower params in
      if \<not> sr_success sim then
        let s' = inc SIMULATED_FAIL (set_state borrower DECLINED s0) in
        (Inl (response borrower DECLINED (Some assessment)
          (Some (''simulation reverted: '' @
            (case sr_revert_reason sim of None \<Rightarrow> ''None'' | Some r \<Rightarrow> r)))), s')
      else
        let s = inc SIMULATED_OK s0 in
        if \<not> dp_submitter d then
          let s' = set_state borrower READY s in
          (Inl (response borrower READY (Some assessment)
            (Some ''dry-run only (no submitter configured)'')), s')
        else
          case acquire borrower (dp_clock d 0 s, dp_clock d 1 s) (sv_inflight s) of
            (False, fl) \<Rightarrow>
              let s' = inc DOUBLE_SUBMIT_BLOCKED (s\<lparr>sv_inflight := fl\<rparr>) in
              (Inl (response borrower (state_of borrower s') (Some assessment)
                (Some ''rescue already in flight (race)'')), s')
          | (True, fl) \<Rightarrow>
              (Inr (), inc SUBMITTED_C (set_state borrower SUBMITTED (s\<lparr>sv_inflight := fl\<rparr>))))"

text \<open>After the submission, whether it returned or raised; the \<^verbatim>\<open>finally\<close> releases the lock.\<close>

definition count_trip :: "'z svs \<Rightarrow> 'z svs" where
  "count_trip s = (if cb_paused (sv_breaker s) then inc BREAKER_TRIPPED s else s)"

definition do_release :: "'z svs deps \<Rightarrow> string \<Rightarrow> 'z svs \<Rightarrow> 'z svs" where
  "do_release d borrower s = s\<lparr>sv_inflight := release borrower (dp_clock d 0 s) (sv_inflight s)\<rparr>"

definition protect_submitted ::
  "'z svs deps \<Rightarrow> RiskParams \<Rightarrow> AssessmentResponse \<Rightarrow> SubmissionResult res \<Rightarrow> 'z svs \<Rightarrow>
     ProtectResponse \<times> 'z svs" where
  "protect_submitted d params assessment result s0 =
     (let borrower = rp_borrower params in
      case result of
        Inr sub \<Rightarrow>
          let s = (if sb_status sub = 1 then
                set_state borrower RESTORED ((inc RESTORED_C s0)
                  \<lparr>sv_breaker := record_success (sv_breaker s0)\<rparr>)
              else count_trip (set_state borrower REVERTED ((inc REVERTED_C s0)
                  \<lparr>sv_breaker := record_failure (sv_breaker s0)\<rparr>)));
              s' = do_release d borrower s
          in (\<lparr>pr_borrower = borrower, pr_state = state_of borrower s', pr_submitted = (sb_status sub = 1),
               pr_tx_hash = Some (sb_tx_hash sub), pr_assessment = Some assessment,
               pr_reason = (if sb_status sub = 1 \<and> sb_via_fallback sub then Some FALLBACK_REASON
                 else if sb_status sub = 1 then None
                 else Some ''transaction reverted (position unchanged)''),
               pr_via_fallback = sb_via_fallback sub\<rparr>, s')
      | Inl exc \<Rightarrow>
          let s = count_trip (set_state borrower REVERTED ((inc ERRORS (inc REVERTED_C s0))
                \<lparr>sv_breaker := record_failure (sv_breaker s0)\<rparr>));
              r = response borrower REVERTED (Some assessment) (Some (''submission failed: '' @ exn_str exc))
          in (r, do_release d borrower s))"

section \<open>The demo signature\<close>

definition unsigned :: "string \<Rightarrow> bool" where
  "unsigned signature \<longleftrightarrow>
     (let clean_sig = removeprefix ''0x'' signature in
      clean_sig = [] \<or> clean_sig = replicate (2 * (length clean_sig div 2)) (CHR ''0''))"

fun demo_account_of :: "'s deps \<Rightarrow> string \<Rightarrow> nat list \<Rightarrow> string option" where
  "demo_account_of d borrower [] = None"
| "demo_account_of d borrower (i # is) =
     (case dp_demo_account d i of (addr, key) \<Rightarrow>
        if str_lower addr = str_lower borrower then Some key else demo_account_of d borrower is)"

definition resolve_demo_signature ::
  "'z svs deps \<Rightarrow> string \<Rightarrow> RiskParams \<Rightarrow> string \<Rightarrow> ('z svs, string) io" where
  "resolve_demo_signature d borrower params raw_signature =
     io_try
       (case demo_account_of d borrower [0..<10] of
          None \<Rightarrow> io_return raw_signature
        | Some key \<Rightarrow>
            if dp_vault_address d = [] \<or> \<not> dp_simulator d then io_return raw_signature
            else io_bind (via (dp_node d) (dp_hash_params d (to_solidity_tuple params))) (\<lambda>digest.
                 io_bind (io_lift (dp_sign_hash d digest key)) (\<lambda>sig.
                 io_return (''0x'' @ removeprefix ''0x'' sig))))
       (\<lambda>_. io_return raw_signature)"

definition demo_sign :: "'z svs deps \<Rightarrow> RiskParams \<Rightarrow> string \<Rightarrow> ('z svs, string) io" where
  "demo_sign d params signature =
     (if dp_demo_mode d \<and> unsigned signature
      then resolve_demo_signature d (rp_borrower params) params signature
      else io_return signature)"

section \<open>protect and tick\<close>

definition protect_submit ::
  "'z svs deps \<Rightarrow> RiskParams \<Rightarrow> AssessmentResponse \<Rightarrow> string \<Rightarrow> RescuePlan \<Rightarrow> SimulationResult \<Rightarrow>
     ('z svs, ProtectResponse) io" where
  "protect_submit d params assessment signature plan sim s =
     (case submit (dp_node d) (dp_vault d) (dp_keeper d) plan params signature
         (sr_repay_amount sim) (sr_amount_in_maximum sim) s of
        (result, s') \<Rightarrow> (case protect_submitted d params assessment result s' of (r, s'') \<Rightarrow> (Inr r, s'')))"

definition protect_after_simulation ::
  "'z svs deps \<Rightarrow> RiskParams \<Rightarrow> AssessmentResponse \<Rightarrow> string \<Rightarrow> RescuePlan \<Rightarrow> SimulationResult \<Rightarrow>
     ('z svs, ProtectResponse) io" where
  "protect_after_simulation d params assessment signature plan sim s =
     (case protect_simulated d params assessment sim s of
        (Inl r, s') \<Rightarrow> (Inr r, s')
      | (Inr _, s') \<Rightarrow> protect_submit d params assessment signature plan sim s')"

definition protect_after_evaluation ::
  "'z svs deps \<Rightarrow> RiskParams \<Rightarrow> string \<Rightarrow> AssessmentResponse \<Rightarrow> RescuePlan option \<Rightarrow> ('z svs, ProtectResponse) io" where
  "protect_after_evaluation d params signature assessment plan s =
     (case protect_assessed d params assessment plan s of
        (Inl r, s') \<Rightarrow> (Inr r, s')
      | (Inr p, s') \<Rightarrow>
          io_bind (demo_sign d params signature) (\<lambda>sig.
          io_bind (simulate sv_max_bumps (dp_node d) (dp_vault d) (dp_keeper d) p params sig) (\<lambda>(sim, p').
          protect_after_simulation d params assessment sig p' sim)) s')"

definition protect :: "'z svs deps \<Rightarrow> RiskParams \<Rightarrow> string \<Rightarrow> ('z svs, ProtectResponse) io" where
  "protect d params signature =
     io_bind (protect_start d params signature) (\<lambda>start. case start of
       Inl r \<Rightarrow> io_return r
     | Inr sigma \<Rightarrow>
         io_bind (evaluate (dp_libm d) (dp_vault_address d) (dp_node d) params (Some sigma) DEFAULT_GAS_COST_BASE)
           (\<lambda>(assessment, plan). protect_after_evaluation d params signature assessment plan))"

definition tick_one :: "'z svs deps \<Rightarrow> string \<times> RiskParams \<times> string \<Rightarrow> ('z svs, unit) io" where
  "tick_one d entry = (case entry of (borrower, params, signature) \<Rightarrow>
     io_try
       (io_bind (poll_once (dp_node d) borrower (rp_hf_trigger_bps params)) (\<lambda>snap.
        io_bind (case rp_allowed_collaterals params of
            [] \<Rightarrow> io_return (Fin 0)
          | c # _ \<Rightarrow> sample_price sv_vols (\<lambda>v s. s\<lparr>sv_vols := v\<rparr>) VOL_WINDOW (dp_node d) c) (\<lambda>_ s0.
        let s = snapshot_done borrower snap s0 in
        if ps_state snap = ASSESSING \<and> allow (sv_breaker s) \<and>
           can_start borrower (dp_clock d 0 s) (sv_inflight s)
        then io_bind (protect d params signature) (\<lambda>_. io_return ()) s
        else (Inr (), s))))
       (\<lambda>_ s. (Inr (), inc ERRORS s)))"

fun tick_all :: "'z svs deps \<Rightarrow> (string \<times> RiskParams \<times> string) list \<Rightarrow> ('z svs, unit) io" where
  "tick_all d [] = io_return ()"
| "tick_all d (e # es) = io_bind (tick_one d e) (\<lambda>_. tick_all d es)"

definition tick :: "'z svs deps \<Rightarrow> ('z svs, unit) io" where
  "tick d s = (if \<not> sv_autonomous s then (Inr (), s) else tick_all d (sv_registry s) s)"

section \<open>Metrics and configuration\<close>

definition metrics :: "'z svs \<Rightarrow> MetricsSnapshot" where
  "metrics s =
     \<lparr>ms_breaker_paused = cb_paused (sv_breaker s),
      ms_breaker_consecutive_failures = cb_consecutive (sv_breaker s),
      ms_breaker_trip_reason = trip_reason (sv_breaker s),
      ms_in_flight_borrowers = locked_borrowers (sv_inflight s),
      ms_registered_positions = length (sv_registry s),
      ms_counters = counters_snapshot (sv_counters s),
      ms_states = map (\<lambda>(b, st). (b, state_value st)) (sv_states s)\<rparr>"

definition service_reset_breaker :: "'z svs \<Rightarrow> 'z svs" where
  "service_reset_breaker s = s\<lparr>sv_breaker := breaker_reset (sv_breaker s)\<rparr>"

text \<open>
  \<^verbatim>\<open>apply_config\<close> of \<^verbatim>\<open>app/deps.py\<close>: the assignments in order; the breaker's setter may raise.
\<close>

definition apply_config :: "'z svs deps \<Rightarrow> KeeperConfig \<Rightarrow> ('z svs, KeeperConfig) io" where
  "apply_config d new s =
     (let s1 = s\<lparr>sv_autonomous := kc_autonomous_enabled new\<rparr> in
      case set_max_consecutive_failures (kc_breaker_max_consecutive_failures new) (sv_breaker s1) of
        Inl e \<Rightarrow> (Inl e, s1)
      | Inr b \<Rightarrow>
          let s2 = s1\<lparr>sv_breaker := b,
                sv_inflight := set_cooldown_seconds (Fin (of_int (kc_inflight_cooldown_seconds new))) (sv_inflight s1)\<rparr>;
              s3 = (if dp_simulator d then s2\<lparr>sv_max_bumps := kc_max_simulation_bumps new\<rparr> else s2)
          in (Inr new, s3))"

section \<open>What the segments do\<close>

lemma state_of_set [simp]:
  "state_of b (set_state b' st s) = (if b = b' then st else state_of b s)"
  by (simp add: state_of_def set_state_def dict_simps)

lemma state_of_frame [simp]:
  "state_of b (inc n s) = state_of b s" "state_of b (s\<lparr>sv_breaker := x\<rparr>) = state_of b s"
  "state_of b (s\<lparr>sv_inflight := y\<rparr>) = state_of b s" "state_of b (do_release d c s) = state_of b s"
  "state_of b (count_trip s) = state_of b s"
  by (simp_all add: state_of_def inc_def do_release_def count_trip_def)

lemma inflight_frame [simp]:
  "sv_inflight (inc n s) = sv_inflight s" "sv_inflight (set_state b st s) = sv_inflight s"
  "sv_inflight (count_trip s) = sv_inflight s" "sv_inflight (register p g s) = sv_inflight s"
  by (simp_all add: inc_def set_state_def count_trip_def register_def)

lemma breaker_frame [simp]:
  "sv_breaker (inc n s) = sv_breaker s" "sv_breaker (set_state b st s) = sv_breaker s"
  "sv_breaker (count_trip s) = sv_breaker s" "sv_breaker (register p g s) = sv_breaker s"
  "sv_breaker (do_release d b s) = sv_breaker s"
  by (simp_all add: inc_def set_state_def count_trip_def register_def do_release_def)

abbreviation cnt :: "string \<Rightarrow> 'z svs \<Rightarrow> int" where
  "cnt name s \<equiv> counter_value (sv_counters s) name"

lemma counters_frame [simp]:
  "sv_counters (set_state b st s) = sv_counters s" "sv_counters (register p g s) = sv_counters s"
  "sv_counters (do_release d b s) = sv_counters s"
  "cnt n (inc m s) = cnt n s + (if n = m then 1 else 0)"
  by (simp_all add: set_state_def register_def do_release_def inc_def)

lemma count_trip_cnt [simp]:
  "n \<noteq> BREAKER_TRIPPED \<Longrightarrow> cnt n (count_trip s) = cnt n s"
  by (simp add: count_trip_def)

lemma release_locks [simp]:
  "is_locked (sv_inflight (do_release d b s)) b' \<longleftrightarrow> is_locked (sv_inflight s) b' \<and> b' \<noteq> b"
  by (simp add: do_release_def inflight_defs dict_simps)

definition succeeded :: "SubmissionResult res \<Rightarrow> bool" where
  "succeeded result = (case result of Inr sub \<Rightarrow> sb_status sub = 1 | Inl e \<Rightarrow> False)"

lemma record_failure_simps:
  "cb_consecutive (record_failure b) = cb_consecutive b + 1"
  "allow (record_failure b) \<longleftrightarrow> allow b \<and> cb_consecutive b + 1 < cb_max b"
  "cb_max (record_failure b) = cb_max b"
  by (auto simp: breaker_op_defs)

lemma record_success_simps:
  "cb_consecutive (record_success b) = 0" "allow (record_success b) = allow b" "cb_max (record_success b) = cb_max b"
  by (simp_all add: breaker_op_defs)

text \<open>
  C2: whatever the submission returned or raised, the last segment releases the lock of its borrower and
  of nobody else, labels the position restored exactly on status one and reverted otherwise, counts
  exactly one of the two outcomes (and an error exactly for an exception), clears the failure streak or
  extends it by one, pauses the keeper exactly when the extended streak reaches the limit, and
  reports a submission exactly on success.
\<close>

theorem submission_always_settled:
  "let (r, s') = protect_submitted d params a result s; b = rp_borrower params; ok = succeeded result in
     (\<forall>b'. is_locked (sv_inflight s') b' = (is_locked (sv_inflight s) b' \<and> b' \<noteq> b)) \<and>
     state_of b s' = (if ok then RESTORED else REVERTED) \<and>
     cnt RESTORED_C s' = cnt RESTORED_C s + (if ok then 1 else 0) \<and>
     cnt REVERTED_C s' = cnt REVERTED_C s + (if ok then 0 else 1) \<and>
     cnt ERRORS s' = cnt ERRORS s + (if is_ok result then 0 else 1) \<and>
     cnt SUBMITTED_C s' = cnt SUBMITTED_C s \<and>
     cb_consecutive (sv_breaker s') = (if ok then 0 else cb_consecutive (sv_breaker s) + 1) \<and>
     allow (sv_breaker s') =
       (allow (sv_breaker s) \<and> (ok \<or> cb_consecutive (sv_breaker s) + 1 < cb_max (sv_breaker s))) \<and>
     pr_submitted r = ok \<and> pr_state r = (if ok then RESTORED else REVERTED) \<and> pr_borrower r = b"
proof (cases result)
  case (Inl e)
  then show ?thesis
    by (simp add: protect_submitted_def succeeded_def response_def Let_def record_failure_simps counter_names)
next
  case (Inr sub)
  then show ?thesis
    by (simp add: protect_submitted_def succeeded_def Let_def record_failure_simps record_success_simps counter_names)
qed


lemma protect_start_cases:
  "protect_start d params sig s = (Inr (Inr sigma), s') \<Longrightarrow>
     allow (sv_breaker s) \<and> can_start (rp_borrower params) (dp_clock d 0 (register params sig s)) (sv_inflight s) \<and>
     state_of (rp_borrower params) s' = ASSESSING"
  by (auto simp: protect_start_def service_sigma_for_def Let_def state_of_def set_state_def dict_simps
      split: if_splits list.splits prod.splits sum.splits)

lemma acquire_result:
  "fst (acquire b t r) \<longleftrightarrow> can_start b (fst t) r"
  "can_start b (fst t) r \<Longrightarrow> is_locked (snd (acquire b t r)) b' \<longleftrightarrow> is_locked r b' \<or> b' = b"
  "\<not> can_start b (fst t) r \<Longrightarrow> snd (acquire b t r) = r"
  by (auto simp: acquire_def is_locked_def dict_simps)

text \<open>
  C40: the segment before a submission lets it go exactly when the dry run succeeded, a submitter is
  wired and the borrower is neither locked nor cooling down at that moment; then, and only then, it
  takes the lock, shows the position as submitted and counts one submission.
\<close>

theorem submission_gate_exact:
  "let (o', s') = protect_simulated d params a sim s; b = rp_borrower params;
       go = (sr_success sim \<and> dp_submitter d \<and> can_start b (dp_clock d 0 (inc SIMULATED_OK s)) (sv_inflight s)) in
     (o' = Inr ()) = go \<and>
     (\<forall>b'. is_locked (sv_inflight s') b' = (is_locked (sv_inflight s) b' \<or> (go \<and> b' = b))) \<and>
     cnt SUBMITTED_C s' = cnt SUBMITTED_C s + (if go then 1 else 0) \<and>
     (state_of b s' = SUBMITTED) = (go \<or> (sr_success sim \<and> dp_submitter d \<and> state_of b s = SUBMITTED)) \<and>
     sv_breaker s' = sv_breaker s"
proof (cases "sr_success sim \<and> dp_submitter d")
  case False
  then show ?thesis by (auto simp: protect_simulated_def Let_def counter_names)
next
  case True
  let ?s = "inc SIMULATED_OK s" and ?b = "rp_borrower params"
  let ?t = "(dp_clock d 0 ?s, dp_clock d 1 ?s)"
  obtain ok fl where a: "acquire ?b ?t (sv_inflight s) = (ok, fl)" by fastforce
  then show ?thesis
    using True acquire_result [of ?b ?t "sv_inflight s"]
    by (cases ok) (auto simp: protect_simulated_def Let_def counter_names)
qed

lemma response_fields [simp]:
  "pr_submitted (response b st a r) = False" "pr_tx_hash (response b st a r) = None"
  "pr_state (response b st a r) = st" "pr_borrower (response b st a r) = b"
  by (simp_all add: response_def)

definition honest :: "RiskParams \<Rightarrow> ProtectResponse \<Rightarrow> bool" where
  "honest params r \<longleftrightarrow> pr_borrower r = rp_borrower params \<and>
     (pr_submitted r \<longrightarrow> pr_state r = RESTORED \<and> pr_tx_hash r \<noteq> None \<and>
        (\<exists>a. pr_assessment r = Some a \<and> ar_viable a)) \<and>
     (pr_tx_hash r \<noteq> None \<longrightarrow> pr_submitted r \<or> pr_state r = REVERTED)"

lemma honest_response: "honest params (response (rp_borrower params) st a r)"
  by (simp add: honest_def)

lemma honest_submitted:
  "ar_viable a \<Longrightarrow> honest params (fst (protect_submitted d params a result s))"
  by (cases result) (auto simp: protect_submitted_def honest_def Let_def)

lemma honest_start: "protect_start d params sig s = (Inr (Inl r), s') \<Longrightarrow> honest params r"
  by (auto simp: protect_start_def Let_def honest_response split: if_splits list.splits prod.splits sum.splits)

lemma honest_assessed: 
  "protect_assessed d params a plan s = (Inl r, s') \<Longrightarrow> honest params r"
  "protect_assessed d params a plan s = (Inr p, s') \<Longrightarrow> ar_viable a \<and> plan = Some p"
  by (auto simp: protect_assessed_def Let_def honest_response split: if_splits option.splits)

lemma honest_simulated: "protect_simulated d params a sim s = (Inl r, s') \<Longrightarrow> honest params r"
  by (auto simp: protect_simulated_def Let_def honest_response split: if_splits prod.splits bool.splits)

lemma protect_submit_post: "ar_viable a \<Longrightarrow> io_post (protect_submit d params a sig p sim) (honest params)"
  unfolding io_post_def protect_submit_def
  by (auto split: prod.splits dest: honest_submitted [of a params d]) (metis fst_conv honest_submitted)

lemma protect_after_simulation_post:
  "ar_viable a \<Longrightarrow> io_post (protect_after_simulation d params a sig p sim) (honest params)"
  using protect_submit_post [of a d params sig p sim]
  unfolding io_post_def protect_after_simulation_def
  by (auto split: prod.splits sum.splits dest: honest_simulated)

lemma protect_after_evaluation_post:
  "io_post (protect_after_evaluation d params sig a plan) (honest params)"
proof -
  have rest: "io_post (io_bind (demo_sign d params sig) (\<lambda>sig.
          io_bind (simulate sv_max_bumps (dp_node d) (dp_vault d) (dp_keeper d) p params sig) (\<lambda>(sim, p').
          protect_after_simulation d params a sig p' sim))) (honest params)" if "ar_viable a" for p
    by (rule io_post_bind_any)+ (auto intro: protect_after_simulation_post [OF that])
  show ?thesis
    unfolding io_post_def protect_after_evaluation_def
    by (auto split: prod.splits sum.splits dest: honest_assessed intro: io_postD [OF rest])
qed

lemma protect_post: "io_post (protect d params sig) (honest params)"
  unfolding protect_def
proof (rule io_post_bind [where Q = "\<lambda>x. \<forall>r. x = Inl r \<longrightarrow> honest params r"])
  show "io_post (protect_start d params sig) (\<lambda>x. \<forall>r. x = Inl r \<longrightarrow> honest params r)"
    by (auto simp: io_post_def dest: honest_start)
qed (auto intro!: io_post_return io_post_bind_any protect_after_evaluation_post split: sum.splits)

text \<open>
  C14: a response of the protective action that claims a submission says the position is restored,
  carries a transaction hash, and rests on an assessment that was viable; no other response carries
  a hash except that of a reverted transaction.
\<close>

theorem protect_response_honest:
  assumes "protect d params sig s = (Inr r, s')"
  shows "pr_borrower r = rp_borrower params \<and>
     (pr_submitted r \<longrightarrow> pr_state r = RESTORED \<and> pr_tx_hash r \<noteq> None \<and>
        (\<exists>a. pr_assessment r = Some a \<and> ar_viable a)) \<and>
     (pr_tx_hash r \<noteq> None \<longrightarrow> pr_submitted r \<or> pr_state r = REVERTED)"
  using io_postD [OF protect_post assms] by (simp add: honest_def)

section \<open>A worked run\<close>

definition demo_deps :: "'s deps" where
  "demo_deps = \<lparr>dp_libm = step_libm, dp_node = demo_node 2165000000, dp_vault = quiet_vault None,
     dp_vault_address = ''vault'', dp_keeper = ''keeper'', dp_clock = (\<lambda>_ _. Fin 100),
     dp_simulator = True, dp_submitter = True, dp_demo_mode = False,
     dp_demo_account = (\<lambda>_. ('''', '''')), dp_hash_params = (\<lambda>_ _. io_return ''''),
     dp_sign_hash = (\<lambda>_ _. Inr '''')\<rparr>"

definition demo_service :: "unit service_state_scheme" where
  "demo_service = \<lparr>ch_client = \<lparr>cl_urls = [''rpc''], cl_max_retries = 3, cl_active = 0, cl_contracts = []\<rparr>,
     ch_pool_address = Some ''pool'', ch_oracle_address = Some ''oracle'', ch_decimals = [], pp_vols = [],
     sv_vols = [], sv_registry = [], sv_states = [],
     sv_inflight = \<lparr>fl_cooldown = Fin 30, fl_locked = [], fl_cooldown_until = []\<rparr>,
     sv_breaker = \<lparr>cb_max = 3, cb_consecutive = 0, cb_paused = False, cb_reason = None\<rparr>,
     sv_counters = [], sv_autonomous = True, sv_max_bumps = 3\<rparr>"

lemma demo_account: "ready s \<Longrightarrow> get_user_account_data (demo_node al) b s =
     (Inr \<lparr>ua_total_collateral_base = 800000000000, ua_total_debt_base = 600000000000,
       ua_available_borrows_base = 0, ua_liquidation_threshold_bps = 8250, ua_ltv_bps = 8000,
       ua_health_factor = 10 ^ 18\<rparr>, s)"
  unfolding demo_node_def by (rule const_account)

lemma quiet_submit:
  assumes "ready s"
  shows "submit (demo_node al) (quiet_vault None) k demo_plan demo_params ''0x00'' r a s =
    (Inr (demo_result False), s)"
proof -
  have "send_tx (demo_node al) (quiet_vault None) k demo_plan demo_params [0] r a 0 s =
      (Inr (''ab'', 1, 21000, False), s)"
    by (simp add: send_tx_def io_bind_def io_lift_def exec_call_def demo_checksum direct_send_def quiet_vault_def io_return_def)
  then have "via (demo_node al) (send_tx (demo_node al) (quiet_vault None) k demo_plan demo_params [0] r a) s =
      (Inr (''ab'', 1, 21000, False), s)"
    by (intro via_ready assms)
  then show ?thesis
    unfolding submit_def demo_hex
    by (simp add: io_bind_def io_lift_def io_return_def Let_def demo_account [OF assms] healed_hf [simplified]
        demo_result_def)
qed

lemma demo_sigma: "vol_init VOL_WINDOW = Inr \<lparr>rv_window = 30, rv_prices = []\<rparr>"
  "vol_sigma \<lparr>rv_window = 30, rv_prices = []\<rparr> = Inr (Fin 0)"
  by (simp_all add: vol_init_def VOL_WINDOW_def vol_sigma_def vol_returns_def stdev_def)

definition after_start :: "unit service_state_scheme" where
  "after_start = demo_service\<lparr>sv_vols := [(''WETH'', \<lparr>rv_window = 30, rv_prices = []\<rparr>)],
     sv_registry := [(''alice'', demo_params, ''0x00'')], sv_states := [(''alice'', ASSESSING)]\<rparr>"

lemma demo_start: "protect_start demo_deps demo_params ''0x00'' demo_service = (Inr (Inr (Fin 0)), after_start)"
  by (simp add: protect_start_def demo_deps_def demo_params_def demo_service_def register_def allow_def
      can_start_def is_locked_def in_cooldown_def set_state_def service_sigma_for_def sigma_for_def volatility_for_def
      demo_sigma dict_setdefault_def Let_def after_start_def)

lemma demo_cooldown: "to_float 130 = Fin 130"
  using to_float_dyadic [of 130 130 0] by simp

lemma demo_deps_sel: "dp_libm demo_deps = step_libm" "dp_vault_address demo_deps = ''vault''"
    "dp_node demo_deps = demo_node 2165000000" "dp_vault demo_deps = quiet_vault None"
    "dp_keeper demo_deps = ''keeper''" "dp_demo_mode demo_deps = False"
  by (simp_all add: demo_deps_def)

text \<open>The state a call of the example may start from: nobody is locked, and no price was sampled.\<close>

definition at_rest :: "'z svs \<Rightarrow> bool" where
  "at_rest s \<longleftrightarrow> ready s \<and> allow (sv_breaker s) \<and> sv_max_bumps s = 3 \<and>
     sv_inflight s = \<lparr>fl_cooldown = Fin 30, fl_locked = [], fl_cooldown_until = []\<rparr> \<and>
     (sv_vols s = [] \<or> sv_vols s = [(''WETH'', \<lparr>rv_window = 30, rv_prices = []\<rparr>)])"

lemma rest_sigma:
  assumes "at_rest s"
  shows "service_sigma_for ''WETH'' s = (Inr (Fin 0), s\<lparr>sv_vols := [(''WETH'', \<lparr>rv_window = 30, rv_prices = []\<rparr>)]\<rparr>)"
  using assms by (auto simp: at_rest_def service_sigma_for_def sigma_for_def volatility_for_def demo_sigma)

lemma rest_start:
  assumes "at_rest s"
  shows "\<exists>s'. protect_start demo_deps demo_params ''0x00'' s = (Inr (Inr (Fin 0)), s') \<and> at_rest s' \<and> cnt n s' = cnt n s"
proof -
  let ?s = "set_state ''alice'' ASSESSING (register demo_params ''0x00'' s)"
  have r: "at_rest ?s" using assms by (simp add: at_rest_def ready_def set_state_def register_def)
  have "protect_start demo_deps demo_params ''0x00'' s =
      (Inr (Inr (Fin 0)), ?s\<lparr>sv_vols := [(''WETH'', \<lparr>rv_window = 30, rv_prices = []\<rparr>)]\<rparr>)"
    using assms rest_sigma [OF r]
    by (simp add: protect_start_def at_rest_def demo_params_def register_def can_start_def is_locked_def in_cooldown_def
        Let_def)
  then show ?thesis using r by (auto simp: at_rest_def ready_def register_def set_state_def)
qed

text \<open>The example runs through every stage: assessed, dry-run, submitted and restored.\<close>

lemma rest_protect:
  assumes "at_rest s"
  shows "\<exists>s'. protect demo_deps demo_params ''0x00'' s = (Inr
     \<lparr>pr_borrower = ''alice'', pr_state = RESTORED, pr_submitted = True, pr_tx_hash = Some ''0xab'',
      pr_assessment = Some demo_response, pr_reason = None, pr_via_fallback = False\<rparr>, s') \<and>
     cnt SUBMITTED_C s' = cnt SUBMITTED_C s + 1 \<and> cnt RESTORED_C s' = cnt RESTORED_C s + 1"
proof -
  obtain s1 where st: "protect_start demo_deps demo_params ''0x00'' s = (Inr (Inr (Fin 0)), s1)" and r1: "at_rest s1"
    and c1: "cnt SUBMITTED_C s1 = cnt SUBMITTED_C s"
    using rest_start [OF assms, of SUBMITTED_C] by blast
  have c2: "cnt RESTORED_C s1 = cnt RESTORED_C s" using rest_start [OF assms, of RESTORED_C] st by auto
  have rd: "ready s1" using r1 by (simp add: at_rest_def)
  have ev: "evaluate step_libm ''vault'' (demo_node 2165000000) demo_params (Some (Fin 0)) 50000000 s1 =
      (Inr (demo_response, Some demo_plan), s1)"
    by (rule demo_evaluate [OF rd order_refl])
  let ?s2 = "inc ASSESSED s1"
  have r2: "at_rest ?s2" using r1 by (simp add: inc_def at_rest_def ready_def)
  then have rd2: "ready ?s2" "0 \<le> sv_max_bumps ?s2" by (simp_all add: at_rest_def)
  have as: "protect_assessed demo_deps demo_params demo_response (Some demo_plan) s1 = (Inr demo_plan, ?s2)"
    by (simp add: protect_assessed_def demo_deps_def demo_response_def Let_def)
  have sim: "simulate sv_max_bumps (demo_node 2165000000) (quiet_vault None) ''keeper'' demo_plan demo_params
      ''0x00'' ?s2 = (Inr (sim_ok 2159568087 2175825000 0, demo_plan), ?s2)"
    by (rule demo_simulate) (rule rd2)+
  obtain s3 where si: "protect_simulated demo_deps demo_params demo_response (sim_ok 2159568087 2175825000 0) ?s2 =
      (Inr (), s3)" and r3: "ready s3" and c3: "cnt SUBMITTED_C s3 = cnt SUBMITTED_C s1 + 1" "cnt RESTORED_C s3 = cnt RESTORED_C s1"
    using r2 by (simp add: counter_names protect_simulated_def demo_deps_def sim_ok_def acquire_def can_start_def is_locked_def
      in_cooldown_def inc_def at_rest_def Let_def ready_def set_state_def)
  have su: "submit (demo_node 2165000000) (quiet_vault None) ''keeper'' demo_plan demo_params ''0x00''
      2159568087 2175825000 s3 = (Inr (demo_result False), s3)"
    by (rule quiet_submit [OF r3])
  have amounts: "sr_repay_amount (sim_ok 2159568087 2175825000 0) = 2159568087"
    "sr_amount_in_maximum (sim_ok 2159568087 2175825000 0) = 2175825000" by (simp_all add: sim_ok_def)
  have tail: "protect_after_simulation demo_deps demo_params demo_response ''0x00'' demo_plan
      (sim_ok 2159568087 2175825000 0) ?s2 =
     (case protect_submitted demo_deps demo_params demo_response (Inr (demo_result False)) s3 of (r, s) \<Rightarrow> (Inr r, s))"
    unfolding protect_after_simulation_def si by (simp add: protect_submit_def demo_deps_sel amounts su)
  have ae: "protect_after_evaluation demo_deps demo_params ''0x00'' demo_response (Some demo_plan) s1 =
     (case protect_submitted demo_deps demo_params demo_response (Inr (demo_result False)) s3 of (r, s) \<Rightarrow> (Inr r, s))"
    unfolding protect_after_evaluation_def as
    by (simp add: demo_sign_def demo_deps_sel io_bind_def [of "io_return _"] io_return_def
        io_bind_def [of "simulate _ _ _ _ _ _ _"] sim tail)
  have "protect demo_deps demo_params ''0x00'' s =
     (case protect_submitted demo_deps demo_params demo_response (Inr (demo_result False)) s3 of (r, s) \<Rightarrow> (Inr r, s))"
    unfolding protect_def io_bind_def [of "protect_start _ _ _"] st
    by (simp add: demo_deps_sel DEFAULT_GAS_COST_BASE_def io_bind_def [of "evaluate _ _ _ _ _ _"] ev ae)
  then show ?thesis using c1 c2 c3
    by (simp add: protect_submitted_def Let_def demo_result_def inc_def counter_names do_release_def)
      (simp add: demo_params_def set_state_def)
qed

lemma demo_at_rest: "at_rest demo_service"
  by (simp add: at_rest_def demo_service_def ready_def allow_def)

lemmas demo_protect = rest_protect [OF demo_at_rest]

theorem protect_response_honest_witness:
  "\<exists>r s'. protect demo_deps demo_params ''0x00'' demo_service = (Inr r, s') \<and> pr_submitted r \<and>
     pr_state r = RESTORED \<and> pr_tx_hash r \<noteq> None"
proof -
  obtain r s' where r: "protect demo_deps demo_params ''0x00'' demo_service = (Inr r, s')" "pr_submitted r"
    using demo_protect by fastforce
  then show ?thesis using protect_response_honest [OF r(1)] by blast
qed

section \<open>A departure from the declared graph\<close>

text \<open>
  The states the action goes through are not those of the declared graph: a healthy position moves
  straight to assessing, and an assessed one straight to submitted, without becoming ready.
\<close>

lemma action_leaves_state_graph:
  "state_of ''alice'' demo_service = HEALTHY \<and>
   state_of ''alice'' (snd (protect_start demo_deps demo_params ''0x00'' demo_service)) = ASSESSING \<and>
   \<not> can_transition HEALTHY ASSESSING \<and>
   state_of ''alice'' (snd (protect_simulated demo_deps demo_params demo_response
     (sim_ok 2159568087 2175825000 0) after_start)) = SUBMITTED \<and>
   state_of ''alice'' after_start = ASSESSING \<and> \<not> can_transition ASSESSING SUBMITTED"
proof -
  have 1: "state_of ''alice'' after_start = ASSESSING" "state_of ''alice'' demo_service = HEALTHY"
    by (simp_all add: state_of_def after_start_def demo_service_def)
  have 2: "state_of ''alice'' (snd (protect_simulated demo_deps demo_params demo_response
     (sim_ok 2159568087 2175825000 0) after_start)) = SUBMITTED"
    by (simp add: protect_simulated_def demo_deps_def sim_ok_def acquire_def can_start_def is_locked_def
      in_cooldown_def inc_def after_start_def demo_service_def Let_def demo_params_def set_state_def state_of_def)
  show ?thesis by (simp add: 1 2 demo_start can_transition_def)
qed

end
