(* ===== verification/Agent_Tools.thy ===== *)
theory Agent_Tools
  imports Agent_Store Protection_Service "HOL-Library.List_Lexorder" "HOL-Library.Char_ord"
begin

text \<open>
  \<^verbatim>\<open>app/agent/tools.py\<close>: the bodies of the agent's tools over the service and the store. A tool result is
  the JSON value the code builds. No tool here submits anything: the only calls that write are to the
  store, and reading a position may refresh the state shown for it.
\<close>

section \<open>The agent's world\<close>

text \<open>
  Beside the service's own client the process has a lazily built one, which the agent's oracle reads use.
\<close>

record agent_state = service_state +
  ag_store :: AgentStore
  ag_global_client :: "ChainClient option"

type_synonym 'z ags = "'z agent_state_scheme"

definition store_io :: "int list \<Rightarrow> (agent_db \<Rightarrow> 'a res \<times> agent_db) \<Rightarrow> ('z ags, 'a) io" where
  "store_io ints statement s =
     (case store_call ints statement (ag_store s) of (r, st) \<Rightarrow> (r, s\<lparr>ag_store := st\<rparr>))"

section \<open>Texts\<close>

definition EM_DASH :: string where "EM_DASH = map char_of [226, 128, 148 :: nat]"

definition VAULT_ERRORS :: "(string, string) pydict" where
  "VAULT_ERRORS = [
     (''NotAuthorized'', ''The caller is not the configured keeper. Only the keeper address set on the vault '' @
        ''may invoke executeProtection.''),
     (''BadSignature'', ''The EIP-712 signature does not recover to the borrower in the RiskParams. The '' @
        ''mandate was not signed by its owner, or a field was altered after signing '' @
        EM_DASH @
        '' any change to RiskParams requires a fresh signature.''),
     (''NonceUsed'', ''This mandate's nonce has already been consumed. Each signed RiskParams is '' @
        ''single-use; the borrower must sign a new one.''),
     (''Expired'', ''The mandate's deadline has passed. The borrower must re-sign with a later deadline.''),
     (''CollateralNotAllowed'', ''The chosen collateral is not in the borrower's signed allow-list. The vault will '' @
        ''only touch assets the borrower explicitly permitted.''),
     (''NoDebt'', ''The position carries no debt, so there is nothing to repay.''),
     (''TargetOutOfBand'', ''The requested health-factor target falls outside the band the borrower signed '' @
        ''(hfTargetBaseBps..hfTargetMaxBps).''),
     (''CallerNotPool'', ''executeOperation was invoked by something other than the Aave pool. The flash-loan '' @
        ''callback only accepts the pool.''),
     (''BadInitiator'', ''The flash loan was initiated by an address other than this vault.''),
     (''AssetMismatch'', ''The asset returned in the flash-loan callback is not the debt asset the operation '' @
        ''was built for.''),
     (''CostExceeded'', ''The intervention's total cost exceeded the borrower's signed maxCostBps. The vault '' @
        ''refuses a rescue that costs more than the mandate permits.''),
     (''HealthBelowTarget'', ''After the repay and swap, the health factor still sits below the target '' @
        EM_DASH @
        '' the sized repay was insufficient, so the whole transaction reverted and the '' @
        ''position is unchanged.''),
     (''DebtNotReduced'', ''The operation did not reduce the borrower's debt. The vault enforces that a rescue '' @
        ''makes the position strictly better.''),
     (''LeverageIncreased'', ''The operation would have increased leverage. The vault refuses any path that leaves '' @
        ''the borrower more exposed than before.'')]"

fun STATE_EXPLANATIONS :: "PositionState \<Rightarrow> string" where
  "STATE_EXPLANATIONS HEALTHY = ''Health factor is comfortably above the trigger; nothing to do.''"
| "STATE_EXPLANATIONS WATCH = ''Health factor is inside the watch band above the trigger '' @
     EM_DASH @
     '' close enough to reassess each poll, not yet close enough to act.''"
| "STATE_EXPLANATIONS ASSESSING = ''Health factor is at or below the trigger. The decision pipeline is sizing a repay, '' @
     ''selecting collateral, and testing viability.''"
| "STATE_EXPLANATIONS DECLINED = ''The pipeline evaluated an intervention and declined it '' @
     EM_DASH @
     '' typically because the cost exceeded the value protected, or no eligible collateral '' @
     ''had the required aToken allowance. Transient: the position returns to WATCH and is '' @
     ''reconsidered.''"
| "STATE_EXPLANATIONS READY = ''A rescue simulated successfully and is about to be submitted.''"
| "STATE_EXPLANATIONS SUBMITTED = ''A rescue transaction is broadcast and awaiting its receipt. The in-flight lock '' @
     ''prevents a second submission for this borrower.''"
| "STATE_EXPLANATIONS RESTORED = ''The rescue executed and the health factor reached its target.''"
| "STATE_EXPLANATIONS REVERTED = ''The rescue reverted atomically. No partial state was written and the position is '' @
     ''exactly as it was.''"

definition DOCTRINE :: string where
  "DOCTRINE = ''FinaX protects Aave V3 positions from liquidation. Its operating doctrine is 'math '' @
     ''proposes, simulation validates, Solidity enforces': a closed-form formula sizes the '' @
     ''minimum repay that restores the health factor to a volatility-adaptive target, an '' @
     ''eth_call simulation proves the transaction would succeed, and the '' @
     ''LiquidationShieldVault re-verifies the borrower's EIP-712 mandate and every safety '' @
     ''invariant on chain before anything settles. The agent layer orchestrates and '' @
     ''explains; it is not the decision-maker. Every figure it reports is read back from '' @
     ''the backend's own response models, and no action reaches the chain without a human '' @
     ''approving it.''"

section \<open>Python's repr of a string\<close>

text \<open>
  The quotes are double only for a string with single quotes and no double ones; a backslash, the quote
  and control characters are escaped.
\<close>

definition hex_char :: "nat \<Rightarrow> char" where
  "hex_char n = ''0123456789abcdef'' ! n"

definition repr_char :: "char \<Rightarrow> char \<Rightarrow> string" where
  "repr_char quote c = (let n = (of_char c :: nat) in
     if c = quote \<or> n = 92 then [char_of (92 :: nat), c]
     else if n = 10 then [char_of (92 :: nat), CHR ''n'']
     else if n = 13 then [char_of (92 :: nat), CHR ''r'']
     else if n = 9 then [char_of (92 :: nat), CHR ''t'']
     else if n < 32 \<or> n = 127 then [char_of (92 :: nat), CHR ''x'', hex_char (n div 16), hex_char (n mod 16)]
     else [c])"

definition SQ :: char where "SQ = char_of (39 :: nat)"

definition DQ :: char where "DQ = char_of (34 :: nat)"

definition py_repr :: "string \<Rightarrow> string" where
  "py_repr s = (let quote = (if SQ \<in> set s \<and> DQ \<notin> set s then DQ else SQ)
     in quote # concat (map (repr_char quote) s) @ [quote])"

section \<open>Shared readings\<close>

definition tools_sigma_for :: "RiskParams \<Rightarrow> ('z ags, pyfloat) io" where
  "tools_sigma_for params =
     (case rp_allowed_collaterals params of [] \<Rightarrow> io_return (Fin 0) | c # _ \<Rightarrow> service_sigma_for c)"

definition risk_signal :: "'z ags deps \<Rightarrow> RiskParams \<Rightarrow> pyfloat \<Rightarrow> ('z ags, RiskSignal) io" where
  "risk_signal d params hf =
     io_bind (tools_sigma_for params) (\<lambda>sigma.
     io_lift (assess_risk (dp_libm d) hf sigma (rp_hf_target_base_bps params) (rp_hf_target_max_bps params)
       (rp_vol_coeff_k params) 1))"

definition debt_asset_facts :: "(string \<times> int) res" where
  "debt_asset_facts = (case dict_get TOKENS ''USDC'' of
       None \<Rightarrow> Inl (KeyError ''USDC'')
     | Some usdc \<Rightarrow> (case dict_get TOKEN_DECIMALS usdc of
           None \<Rightarrow> Inl (KeyError usdc)
         | Some n \<Rightarrow> Inr (usdc, int n)))"

definition service_assess :: "'z ags deps \<Rightarrow> RiskParams \<Rightarrow> pyfloat option \<Rightarrow> ('z ags, AssessmentResponse) io" where
  "service_assess d params sigma =
     assess (dp_libm d) (dp_vault_address d) (dp_node d) params sigma DEFAULT_GAS_COST_BASE"

section \<open>Read-only tools\<close>

definition DEFAULT_TRIGGER_BPS :: int where "DEFAULT_TRIGGER_BPS = 11500"

definition opt_str :: "string option \<Rightarrow> json" where
  "opt_str x = (case x of None \<Rightarrow> JNone | Some s \<Rightarrow> JStr s)"

definition symbol_or_address :: "string \<Rightarrow> string" where
  "symbol_or_address a = (case dict_get TOKEN_SYMBOLS a of Some s \<Rightarrow> s | None \<Rightarrow> a)"

definition t_doctrine :: "('z ags, json) io" where
  "t_doctrine = io_return (JStr DOCTRINE)"

definition t_list_positions :: "('z ags, json) io" where
  "t_list_positions s = (Inr (JList (map JStr (registered s))), s)"

definition t_position_state :: "string \<Rightarrow> ('z ags, json) io" where
  "t_position_state borrower s =
     (let st = state_of borrower s in
      (Inr (JDict [(''borrower'', JStr borrower), (''state'', JStr (state_value st)),
        (''meaning'', JStr (STATE_EXPLANATIONS st))]), s))"

definition t_position_snapshot :: "'z ags deps \<Rightarrow> string \<Rightarrow> ('z ags, json) io" where
  "t_position_snapshot d borrower s0 =
     (let reg = params_of borrower s0;
          trigger = (case reg of None \<Rightarrow> DEFAULT_TRIGGER_BPS | Some (p, _) \<Rightarrow> rp_hf_trigger_bps p) in
      io_bind (snapshot d borrower trigger) (\<lambda>snap.
      io_bind (io_lift (ua_collateral_usd (ps_account snap))) (\<lambda>coll.
      io_bind (io_lift (ua_debt_usd (ps_account snap))) (\<lambda>debt.
      io_return (JDict [(''borrower'', JStr (ps_borrower snap)), (''state'', JStr (state_value (ps_state snap))),
        (''hf'', JFloat (ps_hf snap)), (''hf_trigger_bps'', JInt (ps_hf_trigger_bps snap)),
        (''collateral_usd'', JFloat coll), (''debt_usd'', JFloat debt),
        (''liquidation_threshold_bps'', JInt (ua_liquidation_threshold_bps (ps_account snap))),
        (''has_debt'', JBool (ua_has_debt (ps_account snap))), (''registered'', JBool (reg \<noteq> None))])))) s0)"

definition t_registered_params :: "string \<Rightarrow> ('z ags, json) io" where
  "t_registered_params borrower s =
     (Inr (case params_of borrower s of
        None \<Rightarrow> JNone
      | Some (params, _) \<Rightarrow> JDict [(''borrower'', JStr (rp_borrower params)),
          (''hf_trigger_bps'', JInt (rp_hf_trigger_bps params)),
          (''hf_target_base_bps'', JInt (rp_hf_target_base_bps params)),
          (''hf_target_max_bps'', JInt (rp_hf_target_max_bps params)),
          (''vol_coeff_k'', JInt (rp_vol_coeff_k params)),
          (''max_slippage_bps'', JInt (rp_max_slippage_bps params)),
          (''max_cost_bps'', JInt (rp_max_cost_bps params)),
          (''allowed_collaterals'', JList (map JStr (rp_allowed_collaterals params))),
          (''allowed_collateral_symbols'', JList (map (JStr \<circ> symbol_or_address) (rp_allowed_collaterals params))),
          (''nonce'', JInt (rp_nonce params)), (''deadline'', JInt (rp_deadline params))]), s)"

definition t_assess :: "'z ags deps \<Rightarrow> string \<Rightarrow> ('z ags, json) io" where
  "t_assess d borrower s =
     (case params_of borrower s of
        None \<Rightarrow> (Inr (JDict [(''error'', JStr ''borrower not registered; no signed mandate to assess against'')]), s)
      | Some (params, _) \<Rightarrow>
          io_bind (tools_sigma_for params) (\<lambda>sigma.
          io_bind (service_assess d params (Some sigma)) (\<lambda>r. io_return
            (JDict [(''borrower'', JStr borrower), (''hf'', JFloat (ar_hf r)), (''hf_target'', JFloat (ar_hf_target r)),
              (''repay_amount'', JInt (ar_repay_amount r)), (''collateral_asset'', JStr (ar_collateral_asset r)),
              (''collateral_symbol'', JStr (symbol_or_address (ar_collateral_asset r))),
              (''est_cost_bps'', JInt (ar_est_cost_bps r)), (''viable'', JBool (ar_viable r)),
              (''reason'', opt_str (ar_reason r))]))) s)"

definition t_risk_signal :: "'z ags deps \<Rightarrow> string \<Rightarrow> ('z ags, json) io" where
  "t_risk_signal d borrower s =
     (case params_of borrower s of
        None \<Rightarrow> (Inr (JDict [(''error'',
          JStr ''borrower not registered; no signed mandate to derive a target from'')]), s)
      | Some (params, _) \<Rightarrow>
          io_bind (snapshot d borrower (rp_hf_trigger_bps params)) (\<lambda>snap.
          io_bind (risk_signal d params (ps_hf snap)) (\<lambda>signal.
          io_bind (io_lift (int_truediv (rs_hf_target_bps signal) 10000)) (\<lambda>target. io_return
            (JDict [(''borrower'', JStr borrower), (''hf'', JFloat (ps_hf snap)), (''sigma'', JFloat (rs_sigma signal)),
              (''breach_probability'', JFloat (rs_breach_probability signal)),
              (''hf_target_bps'', JInt (rs_hf_target_bps signal)), (''hf_target'', JFloat target),
              (''hf_trigger_bps'', JInt (rp_hf_trigger_bps params)),
              (''note'', JStr (''sigma is a rolling standard deviation of oracle prices, not a forecast; the '' @
                 ''breach probability is a heuristic early-warning signal.''))])))) s)"

definition metrics_json :: "MetricsSnapshot \<Rightarrow> json" where
  "metrics_json m = JDict [(''breaker_paused'', JBool (ms_breaker_paused m)),
     (''breaker_consecutive_failures'', JInt (ms_breaker_consecutive_failures m)),
     (''breaker_trip_reason'', opt_str (ms_breaker_trip_reason m)),
     (''in_flight_borrowers'', JList (map JStr (ms_in_flight_borrowers m))),
     (''registered_positions'', JInt (int (ms_registered_positions m))),
     (''counters'', JDict (map (\<lambda>(k, v). (k, JInt v)) (ms_counters m))),
     (''states'', JDict (map (\<lambda>(k, v). (k, JStr v)) (ms_states m)))]"

definition t_metrics :: "('z ags, json) io" where
  "t_metrics s = (Inr (metrics_json (metrics s)), s)"

definition parse_position_state :: "string \<Rightarrow> PositionState option" where
  "parse_position_state s = find (\<lambda>st. state_value st = s) all_states"

definition t_explain_state :: "string \<Rightarrow> ('z ags, json) io" where
  "t_explain_state name =
     (case parse_position_state (str_upper name) of
        None \<Rightarrow> io_return (JDict [(''error'', JStr (''unknown state '' @ py_repr name)),
          (''known_states'', JList (map (JStr \<circ> state_value) all_states))])
      | Some st \<Rightarrow> io_return (JDict [(''state'', JStr (state_value st)), (''meaning'', JStr (STATE_EXPLANATIONS st)),
          (''may_transition_to'', JList (map JStr (sort (map state_value (VALID_TRANSITIONS st)))))]))"

definition strip_space :: "char \<Rightarrow> bool" where
  "strip_space c = (let n = (of_char c :: nat) in n = 32 \<or> (9 \<le> n \<and> n \<le> 13) \<or> (28 \<le> n \<and> n \<le> 31))"

definition py_strip :: "string \<Rightarrow> string" where
  "py_strip s = rev (dropWhile strip_space (rev (dropWhile strip_space s)))"

definition t_explain_revert :: "string \<Rightarrow> ('z ags, json) io" where
  "t_explain_revert error_name =
     (let name = removesuffix ''()'' (py_strip error_name) in
      case dict_get VAULT_ERRORS name of
        None \<Rightarrow> io_return (JDict [(''error'', JStr (py_repr name @ '' is not a known vault error'')),
          (''known_errors'', JList (map JStr (sort (map fst VAULT_ERRORS))))])
      | Some explanation \<Rightarrow> io_return (JDict [(''error_name'', JStr name), (''meaning'', JStr explanation)]))"

definition proposal_json :: "ProposalRow \<Rightarrow> json" where
  "proposal_json r = JDict [(''id'', JInt (pw_id r)), (''borrower'', JStr (pw_borrower r)),
     (''status'', JStr (proposal_status_value (pw_status r))), (''strategy'', JStr (pw_strategy r)),
     (''created_at'', JFloat (pw_created_at r)), (''expires_at'', JFloat (pw_expires_at r)),
     (''rationale'', JStr (pw_rationale r)), (''gate_allowed'', JBool (pd_allowed (pw_gate r))),
     (''gate_blocking'', JList (map JStr (pd_blocking (pw_gate r)))), (''tx_hash'', opt_str (pw_tx_hash r)),
     (''facts'', JDict (pw_facts r))]"

definition t_list_proposals :: "string option \<Rightarrow> string option \<Rightarrow> int \<Rightarrow> ('z ags, json) io" where
  "t_list_proposals borrower status limit =
     (case (case status of None \<Rightarrow> Inr None
        | Some st \<Rightarrow> res_bind (parse_proposal_status (str_upper st)) (\<lambda>p. Inr (Some p))) of
        Inl _ \<Rightarrow> io_return (JList [JDict [(''error'', JStr (''unknown status '' @ py_repr (the status))),
          (''known_statuses'', JList (map (JStr \<circ> proposal_status_value) all_proposal_statuses))]])
      | Inr parsed \<Rightarrow> io_bind (store_io [limit] (list_proposals parsed borrower limit)) (\<lambda>rows.
          io_return (JList (map proposal_json rows))))"

fun audit_action_value :: "AuditAction \<Rightarrow> string" where
  "audit_action_value CREW_RUN = ''CREW_RUN''"
| "audit_action_value PROPOSED = ''PROPOSED''"
| "audit_action_value GATE_BLOCKED = ''GATE_BLOCKED''"
| "audit_action_value TUNING_SUGGESTED = ''TUNING_SUGGESTED''"
| "audit_action_value TUNING_DISMISSED = ''TUNING_DISMISSED''"
| "audit_action_value AA_APPROVED = ''APPROVED''"
| "audit_action_value AA_REJECTED = ''REJECTED''"
| "audit_action_value AA_EXECUTED = ''EXECUTED''"
| "audit_action_value AA_FAILED = ''FAILED''"
| "audit_action_value STALE_ON_APPROVE = ''STALE_ON_APPROVE''"
| "audit_action_value EXPIRED_ON_APPROVE = ''EXPIRED_ON_APPROVE''"
| "audit_action_value PANIC = ''PANIC''"

definition t_audit_trail :: "string option \<Rightarrow> int \<Rightarrow> ('z ags, json) io" where
  "t_audit_trail borrower limit =
     io_bind (store_io [limit] (list_audit borrower limit)) (\<lambda>rows. io_return (JList (map (\<lambda>r.
       JDict [(''ts'', JFloat (aw_ts r)), (''actor'', JStr (aw_actor r)), (''action'', JStr (audit_action_value (aw_action r))),
         (''borrower'', opt_str (aw_borrower r)),
         (''proposal_id'', (case aw_proposal_id r of None \<Rightarrow> JNone | Some i \<Rightarrow> JInt i)),
         (''detail'', JDict (aw_detail r))]) rows)))"

section \<open>Tools that write proposals\<close>

definition repr_strings :: "string list \<Rightarrow> string" where
  "repr_strings xs = ''['' @ concat (case map py_repr xs of [] \<Rightarrow> [] | y # ys \<Rightarrow> y # map (\<lambda>z. '', '' @ z) ys) @ '']''"

definition t_propose_protection ::
  "string \<Rightarrow> string \<Rightarrow> (string, json) pydict \<Rightarrow> string \<Rightarrow> PolicyDecision \<Rightarrow> int \<Rightarrow> bool \<Rightarrow> pyfloat \<Rightarrow> ('z ags, int) io" where
  "t_propose_protection run_id borrower facts rationale gate ttl_seconds guard_flagged now =
     (if \<not> pd_allowed gate
      then io_raise (ValueError (''refusing to queue a proposal the policy gate blocked: '' @ repr_strings (pd_blocking gate)))
      else store_io [] (insert_proposal run_id borrower ''protect_now'' facts gate rationale ttl_seconds guard_flagged now))"

fun get_field :: "TunableField \<Rightarrow> RiskParams \<Rightarrow> int" where
  "get_field F_hf_trigger_bps p = rp_hf_trigger_bps p"
| "get_field F_hf_target_base_bps p = rp_hf_target_base_bps p"
| "get_field F_hf_target_max_bps p = rp_hf_target_max_bps p"
| "get_field F_vol_coeff_k p = rp_vol_coeff_k p"
| "get_field F_max_slippage_bps p = rp_max_slippage_bps p"
| "get_field F_max_cost_bps p = rp_max_cost_bps p"

fun set_field :: "TunableField \<Rightarrow> int \<Rightarrow> RiskParams \<Rightarrow> RiskParams" where
  "set_field F_hf_trigger_bps v p = p\<lparr>rp_hf_trigger_bps := v\<rparr>"
| "set_field F_hf_target_base_bps v p = p\<lparr>rp_hf_target_base_bps := v\<rparr>"
| "set_field F_hf_target_max_bps v p = p\<lparr>rp_hf_target_max_bps := v\<rparr>"
| "set_field F_vol_coeff_k v p = p\<lparr>rp_vol_coeff_k := v\<rparr>"
| "set_field F_max_slippage_bps v p = p\<lparr>rp_max_slippage_bps := v\<rparr>"
| "set_field F_max_cost_bps v p = p\<lparr>rp_max_cost_bps := v\<rparr>"

definition t_propose_tuning ::
  "(string \<Rightarrow> string res) \<Rightarrow> string \<Rightarrow> string \<Rightarrow> RiskParams \<Rightarrow> TunableField \<Rightarrow> int \<Rightarrow> string \<Rightarrow> pyfloat \<Rightarrow> ('z ags, int) io" where
  "t_propose_tuning checksum run_id borrower params field_name suggested_value rationale now =
     (let current_value = get_field field_name params in
      io_bind (io_lift (validate_risk_params checksum (set_field field_name suggested_value params))) (\<lambda>validated.
      store_io [current_value, suggested_value]
        (insert_tuning run_id borrower field_name current_value suggested_value rationale (eip712_message validated) now)))"

end
