(* ===== verification/Policy.thy ===== *)
theory Policy
  imports Agent_Models Chain_Client "HOL-Library.Multiset"
begin

text \<open>
  \<^verbatim>\<open>app/agent/policy.py\<close>: the deterministic gate every agent proposal passes. The checks are the list
  the code builds, in its order; a detail message that cannot be rendered raises, as a rounding of an
  infinite health factor does, so the whole verdict is a result.
\<close>

section \<open>The gate\<close>

definition HARD_BLOCK_CHECKS :: "string list" where
  "HARD_BLOCK_CHECKS = [''breaker_ok'', ''not_inflight'']"

definition ACTIONABLE_STATES :: "PositionState list" where
  "ACTIONABLE_STATES = [WATCH, ASSESSING]"

definition repay_value_base :: "int \<Rightarrow> int \<Rightarrow> int \<Rightarrow> int" where
  "repay_value_base repay_amount debt_price_base debt_decimals =
     (if debt_decimals < 0 \<or> debt_price_base \<le> 0 then 0
      else repay_amount * debt_price_base div 10 ^ nat debt_decimals)"

record gate_input =
  gi_params :: "RiskParams option"
  gi_assessment :: AssessmentResponse
  gi_snapshot :: PositionSnapshot
  gi_metrics :: MetricsSnapshot
  gi_limits :: PolicyLimits
  gi_now :: pyfloat
  gi_debt_price_base :: int
  gi_debt_decimals :: int
  gi_recent_borrower :: int
  gi_recent_global :: int

definition add_check :: "string \<Rightarrow> bool \<Rightarrow> string \<Rightarrow> GateCheck" where
  "add_check name passed detail = \<lparr>gc_name = name, gc_passed = passed, gc_detail = detail\<rparr>"

text \<open>The checks against the signed mandate; without one, five failures with the same shape.\<close>

definition unevaluable :: "GateCheck list" where
  "unevaluable = map (\<lambda>name. add_check name False ''no mandate to check against'')
     [''mandate_not_expired'', ''cost_within_mandate'', ''collateral_allowlisted'', ''target_in_signed_band'',
      ''hf_below_trigger'']"

definition not_expired :: "RiskParams \<Rightarrow> pyfloat \<Rightarrow> bool" where
  "not_expired params now \<longleftrightarrow> rp_deadline params = 0 \<or> flt_int now (rp_deadline params)"

definition mandate_checks :: "RiskParams \<Rightarrow> gate_input \<Rightarrow> int \<Rightarrow> GateCheck list res" where
  "mandate_checks params g hf_bps =
     (let a = gi_assessment g; current = not_expired params (gi_now g);
          cost_cap = min (rp_max_cost_bps params) (pm_max_cost_bps_ceiling (gi_limits g));
          allowed = ar_collateral_asset a \<in> set (rp_allowed_collaterals params) in
      res_bind (if current then Inr ''mandate is current''
        else res_bind (float_of_int (rp_deadline params)) (\<lambda>d.
          Inr (''mandate expired at '' @ fmt_f0 d @ '' (now '' @ fmt_f0 (gi_now g) @ '')''))) (\<lambda>expiry_detail.
      res_bind (round_float (fmul (ar_hf_target a) (Fin (of_int BPS)))) (\<lambda>target_bps.
      Inr [add_check ''mandate_not_expired'' current expiry_detail,
        add_check ''hf_below_trigger'' (hf_bps \<le> rp_hf_trigger_bps params)
          (''HF '' @ show_int hf_bps @ '' bps vs trigger '' @ show_int (rp_hf_trigger_bps params) @ '' bps''),
        add_check ''cost_within_mandate'' (ar_est_cost_bps a \<le> cost_cap)
          (''est cost '' @ show_int (ar_est_cost_bps a) @ '' bps vs cap '' @ show_int cost_cap @ '' bps (mandate '' @
           show_int (rp_max_cost_bps params) @ '', operator '' @ show_int (pm_max_cost_bps_ceiling (gi_limits g)) @ '')''),
        add_check ''collateral_allowlisted'' allowed
          (ar_collateral_asset a @ '' '' @ (if allowed then ''is in'' else ''is NOT in'') @ '' the signed allow-list''),
        add_check ''target_in_signed_band''
          (rp_hf_target_base_bps params \<le> target_bps \<and> target_bps \<le> rp_hf_target_max_bps params)
          (''target '' @ show_int target_bps @ '' bps vs signed band ['' @ show_int (rp_hf_target_base_bps params) @
           '', '' @ show_int (rp_hf_target_max_bps params) @ '']'')])))"

definition position_checks :: "gate_input \<Rightarrow> GateCheck list res" where
  "position_checks g =
     (let a = gi_assessment g; account = ps_account (gi_snapshot g); st = ps_state (gi_snapshot g);
          actionable = st \<in> set ACTIONABLE_STATES; min_gap = pm_min_hf_gap_bps (gi_limits g) in
      res_bind (if ua_has_debt account
          then res_bind (ua_debt_usd account) (\<lambda>d. Inr (''debt '' @ fmt_comma_f2 d @ '' USD''))
          else Inr ''position carries no debt'') (\<lambda>debt_detail.
      res_bind (round_float (fmul (fsub (ar_hf_target a) (ar_hf a)) (Fin (of_int BPS)))) (\<lambda>gap_bps.
      Inr [add_check ''has_debt'' (ua_has_debt account) debt_detail,
        add_check ''state_actionable'' actionable
          (''state '' @ state_value st @ '' '' @ (if actionable then ''is actionable'' else ''is not actionable'')),
        add_check ''hf_gap_material'' (min_gap \<le> gap_bps)
          (''gap to target '' @ show_int gap_bps @ '' bps vs minimum '' @ show_int min_gap @ '' bps''),
        add_check ''assessment_viable'' (ar_viable a)
          (if ar_viable a then ''viable'' else ''not viable: '' @ opt_or (ar_reason a) ''no reason given''),
        add_check ''repay_positive'' (0 < ar_repay_amount a)
          (''repay '' @ show_int (ar_repay_amount a) @ '' debt-token units'')])))"

definition bound_check :: "gate_input \<Rightarrow> GateCheck list res" where
  "bound_check g =
     (let fraction = pm_max_repay_fraction_of_debt (gi_limits g);
          repay_base = repay_value_base (ar_repay_amount (gi_assessment g)) (gi_debt_price_base g) (gi_debt_decimals g) in
      res_bind (int_fmul (ua_total_debt_base (ps_account (gi_snapshot g))) fraction) (\<lambda>ceiling.
      res_bind (int_of_float ceiling) (\<lambda>max_base.
      res_bind (int_truediv repay_base (10 ^ 8)) (\<lambda>repay_usd.
      res_bind (int_truediv max_base (10 ^ 8)) (\<lambda>max_usd.
      Inr [add_check ''repay_bounded'' (0 < repay_base \<and> repay_base \<le> max_base)
        (''repay '' @ fmt_comma_f2 repay_usd @ '' USD vs ceiling '' @ fmt_comma_f2 max_usd @ '' USD ('' @
         fmt_percent0 fraction @ '' of debt)'')])))))"

definition keeper_checks :: "gate_input \<Rightarrow> GateCheck list" where
  "keeper_checks g =
     (let m = gi_metrics g; l = gi_limits g;
          free = ps_borrower (gi_snapshot g) \<notin> set (ms_in_flight_borrowers m) in
      [add_check ''breaker_ok'' (\<not> ms_breaker_paused m)
         (if \<not> ms_breaker_paused m then ''breaker closed''
          else ''circuit breaker paused ('' @
            (case ms_breaker_trip_reason m of None \<Rightarrow> ''None'' | Some r \<Rightarrow> r) @ '')''),
       add_check ''not_inflight'' free (if free then ''no rescue in flight'' else ''a rescue is already in flight''),
       add_check ''rate_limit_borrower'' (gi_recent_borrower g < pm_max_proposals_per_borrower_per_hour l)
         (show_int (gi_recent_borrower g) @ '' proposals in the last hour for this borrower (max '' @
          show_int (pm_max_proposals_per_borrower_per_hour l) @ '')''),
       add_check ''rate_limit_global'' (gi_recent_global g < pm_max_proposals_global_per_hour l)
         (show_int (gi_recent_global g) @ '' proposals in the last hour overall (max '' @
          show_int (pm_max_proposals_global_per_hour l) @ '')'')])"

definition verdict :: "GateCheck list \<Rightarrow> PolicyDecision" where
  "verdict checks =
     (let blocking = map gc_name (filter (\<lambda>c. \<not> gc_passed c) checks) in
      \<lparr>pd_allowed = (blocking = []), pd_checks = checks, pd_blocking = blocking,
       pd_severity = (if blocking = [] then Sev_ok
         else if set HARD_BLOCK_CHECKS \<inter> set blocking \<noteq> {} then Hard_block else Soft_block)\<rparr>)"

definition gate_evaluate :: "gate_input \<Rightarrow> PolicyDecision res" where
  "gate_evaluate g =
     (let hf_bps = ua_health_factor (ps_account (gi_snapshot g)) div 10 ^ 14 in
      res_bind (case gi_params g of
          None \<Rightarrow> Inr (add_check ''registered'' False ''borrower has no registered RiskParams'' # unevaluable)
        | Some params \<Rightarrow> res_bind (mandate_checks params g hf_bps) (\<lambda>cs.
            Inr (add_check ''registered'' True ''signed mandate on file'' # cs))) (\<lambda>mandate.
      res_bind (position_checks g) (\<lambda>position.
      res_bind (bound_check g) (\<lambda>bound.
      Inr (verdict (mandate @ position @ bound @ keeper_checks g))))))"

section \<open>Reading a verdict\<close>

lemmas gate_defs = mandate_checks_def position_checks_def bound_check_def keeper_checks_def unevaluable_def
  add_check_def Let_def

lemma verdict_allowed: "pd_allowed (verdict cs) \<longleftrightarrow> (\<forall>c\<in>set cs. gc_passed c)"
  by (auto simp: verdict_def Let_def filter_empty_conv)

lemma verdict_fields [simp]:
  "pd_checks (verdict cs) = cs" "pd_blocking (verdict cs) = map gc_name (filter (\<lambda>c. \<not> gc_passed c) cs)"
  by (simp_all add: verdict_def Let_def)

lemma verdict_severity:
  "pd_severity (verdict cs) =
     (if pd_allowed (verdict cs) then Sev_ok
      else if \<exists>c\<in>set cs. gc_name c \<in> {''breaker_ok'', ''not_inflight''} \<and> \<not> gc_passed c then Hard_block else Soft_block)"
  unfolding verdict_allowed by (auto simp: verdict_def Let_def HARD_BLOCK_CHECKS_def filter_empty_conv image_iff)

lemma gate_evaluate_Inr:
  "gate_evaluate g = Inr d \<longleftrightarrow> (\<exists>mandate position bound.
     (case gi_params g of
        None \<Rightarrow> mandate = add_check ''registered'' False ''borrower has no registered RiskParams'' # unevaluable
      | Some params \<Rightarrow> \<exists>cs. mandate_checks params g (ua_health_factor (ps_account (gi_snapshot g)) div 10 ^ 14) = Inr cs \<and>
          mandate = add_check ''registered'' True ''signed mandate on file'' # cs) \<and>
     position_checks g = Inr position \<and> bound_check g = Inr bound \<and>
     d = verdict (mandate @ position @ bound @ keeper_checks g))"
  by (cases "gi_params g") (auto simp: gate_evaluate_def res_bind_Inr_iff Let_def)

lemma mandate_names:
  "mandate_checks p g h = Inr cs \<Longrightarrow> map gc_name cs =
     [''mandate_not_expired'', ''hf_below_trigger'', ''cost_within_mandate'', ''collateral_allowlisted'', ''target_in_signed_band'']"
  by (auto simp: gate_defs res_bind_Inr_iff)

lemma mandate_passed:
  "mandate_checks p g h = Inr cs \<Longrightarrow> (\<forall>c\<in>set cs. gc_passed c) \<longleftrightarrow>
     not_expired p (gi_now g) \<and> h \<le> rp_hf_trigger_bps p \<and>
     ar_est_cost_bps (gi_assessment g) \<le> rp_max_cost_bps p \<and>
     ar_est_cost_bps (gi_assessment g) \<le> pm_max_cost_bps_ceiling (gi_limits g) \<and>
     ar_collateral_asset (gi_assessment g) \<in> set (rp_allowed_collaterals p) \<and>
     (\<exists>t. round_float (fmul (ar_hf_target (gi_assessment g)) (Fin (of_int BPS))) = Inr t \<and>
        rp_hf_target_base_bps p \<le> t \<and> t \<le> rp_hf_target_max_bps p)"
  by (auto simp: gate_defs res_bind_Inr_iff)

lemma position_names:
  "position_checks g = Inr cs \<Longrightarrow> map gc_name cs =
     [''has_debt'', ''state_actionable'', ''hf_gap_material'', ''assessment_viable'', ''repay_positive'']"
  by (auto simp: gate_defs res_bind_Inr_iff)

lemma position_passed:
  "position_checks g = Inr cs \<Longrightarrow> (\<forall>c\<in>set cs. gc_passed c) \<longleftrightarrow>
     ua_has_debt (ps_account (gi_snapshot g)) \<and> ps_state (gi_snapshot g) \<in> {WATCH, ASSESSING} \<and>
     (\<exists>t. round_float (fmul (fsub (ar_hf_target (gi_assessment g)) (ar_hf (gi_assessment g))) (Fin (of_int BPS))) = Inr t \<and>
        pm_min_hf_gap_bps (gi_limits g) \<le> t) \<and>
     ar_viable (gi_assessment g) \<and> 0 < ar_repay_amount (gi_assessment g)"
  by (auto simp: gate_defs res_bind_Inr_iff ACTIONABLE_STATES_def)

definition repay_ceiling :: "int \<Rightarrow> pyfloat \<Rightarrow> int res" where
  "repay_ceiling debt fraction = res_bind (int_fmul debt fraction) int_of_float"

definition gate_repay_value :: "gate_input \<Rightarrow> int" where
  "gate_repay_value g =
     repay_value_base (ar_repay_amount (gi_assessment g)) (gi_debt_price_base g) (gi_debt_decimals g)"

lemma bound_names: "bound_check g = Inr cs \<Longrightarrow> map gc_name cs = [''repay_bounded'']"
  by (auto simp: gate_defs res_bind_Inr_iff)

lemma bound_passed:
  "bound_check g = Inr cs \<Longrightarrow> (\<forall>c\<in>set cs. gc_passed c) \<longleftrightarrow>
     0 < gate_repay_value g \<and> (\<exists>m. repay_ceiling (ua_total_debt_base (ps_account (gi_snapshot g)))
        (pm_max_repay_fraction_of_debt (gi_limits g)) = Inr m \<and> gate_repay_value g \<le> m)"
  by (auto simp: gate_defs res_bind_Inr_iff repay_ceiling_def gate_repay_value_def)

lemma keeper_names: "map gc_name (keeper_checks g) =
    [''breaker_ok'', ''not_inflight'', ''rate_limit_borrower'', ''rate_limit_global'']"
  by (simp add: gate_defs)

definition keeper_free :: "gate_input \<Rightarrow> bool" where
  "keeper_free g \<longleftrightarrow> \<not> ms_breaker_paused (gi_metrics g) \<and>
     ps_borrower (gi_snapshot g) \<notin> set (ms_in_flight_borrowers (gi_metrics g))"

lemma keeper_passed: "(\<forall>c\<in>set (keeper_checks g). gc_passed c) \<longleftrightarrow>
     keeper_free g \<and>
     gi_recent_borrower g < pm_max_proposals_per_borrower_per_hour (gi_limits g) \<and>
     gi_recent_global g < pm_max_proposals_global_per_hour (gi_limits g)"
  by (auto simp: gate_defs keeper_free_def)

lemma keeper_hard:
  "(\<exists>c\<in>set (keeper_checks g). gc_name c \<in> {''breaker_ok'', ''not_inflight''} \<and> \<not> gc_passed c) \<longleftrightarrow> \<not> keeper_free g"
  by (auto simp: gate_defs keeper_free_def)

lemma no_hard_name:
  "map gc_name cs = ns \<Longrightarrow> set ns \<inter> {''breaker_ok'', ''not_inflight''} = {} \<Longrightarrow>
     \<not> (\<exists>c\<in>set cs. gc_name c \<in> {''breaker_ok'', ''not_inflight''} \<and> P c)"
  by (auto simp: image_iff; metis)

section \<open>What the gate demands\<close>

text \<open>The gate's contract on plain values: the mandate, the position, the bound and the keeper.\<close>

definition mandate_met :: "RiskParams \<Rightarrow> gate_input \<Rightarrow> bool" where
  "mandate_met p g \<longleftrightarrow> (let a = gi_assessment g in
     not_expired p (gi_now g) \<and>
     ua_health_factor (ps_account (gi_snapshot g)) div 10 ^ 14 \<le> rp_hf_trigger_bps p \<and>
     ar_est_cost_bps a \<le> rp_max_cost_bps p \<and> ar_est_cost_bps a \<le> pm_max_cost_bps_ceiling (gi_limits g) \<and>
     ar_collateral_asset a \<in> set (rp_allowed_collaterals p) \<and>
     (\<exists>t. round_float (fmul (ar_hf_target a) (Fin (of_int BPS))) = Inr t \<and>
        rp_hf_target_base_bps p \<le> t \<and> t \<le> rp_hf_target_max_bps p))"

definition position_met :: "gate_input \<Rightarrow> bool" where
  "position_met g \<longleftrightarrow> (let a = gi_assessment g in
     0 < ua_total_debt_base (ps_account (gi_snapshot g)) \<and> ps_state (gi_snapshot g) \<in> {WATCH, ASSESSING} \<and>
     (\<exists>t. round_float (fmul (fsub (ar_hf_target a) (ar_hf a)) (Fin (of_int BPS))) = Inr t \<and>
        pm_min_hf_gap_bps (gi_limits g) \<le> t) \<and>
     ar_viable a \<and> 0 < ar_repay_amount a \<and>
     0 < gate_repay_value g \<and> (\<exists>m. repay_ceiling (ua_total_debt_base (ps_account (gi_snapshot g)))
        (pm_max_repay_fraction_of_debt (gi_limits g)) = Inr m \<and> gate_repay_value g \<le> m))"

definition rate_met :: "gate_input \<Rightarrow> bool" where
  "rate_met g \<longleftrightarrow> gi_recent_borrower g < pm_max_proposals_per_borrower_per_hour (gi_limits g) \<and>
     gi_recent_global g < pm_max_proposals_global_per_hour (gi_limits g)"

lemma gate_allowed_iff:
  assumes "gate_evaluate g = Inr d"
  shows "pd_allowed d \<longleftrightarrow> (\<exists>p. gi_params g = Some p \<and> mandate_met p g) \<and> position_met g \<and> keeper_free g \<and> rate_met g"
proof -
  obtain mandate position bound where g:
    "case gi_params g of
        None \<Rightarrow> mandate = add_check ''registered'' False ''borrower has no registered RiskParams'' # unevaluable
      | Some params \<Rightarrow> \<exists>cs. mandate_checks params g (ua_health_factor (ps_account (gi_snapshot g)) div 10 ^ 14) = Inr cs \<and>
          mandate = add_check ''registered'' True ''signed mandate on file'' # cs"
    "position_checks g = Inr position" "bound_check g = Inr bound" "d = verdict (mandate @ position @ bound @ keeper_checks g)"
    using assms unfolding gate_evaluate_Inr by blast
  have m: "(\<forall>c\<in>set mandate. gc_passed c) \<longleftrightarrow> (\<exists>p. gi_params g = Some p \<and> mandate_met p g)"
    using g(1) by (cases "gi_params g") (auto simp: add_check_def mandate_met_def Let_def dest!: mandate_passed)
  have split: "pd_allowed d \<longleftrightarrow> (\<forall>c\<in>set mandate. gc_passed c) \<and> (\<forall>c\<in>set position. gc_passed c) \<and>
      (\<forall>c\<in>set bound. gc_passed c) \<and> (\<forall>c\<in>set (keeper_checks g). gc_passed c)"
    unfolding g(4) verdict_allowed by auto
  show ?thesis
    unfolding split m position_passed [OF g(2)] bound_passed [OF g(3)] keeper_passed
    by (auto simp: position_met_def rate_met_def ua_has_debt_def Let_def)
qed

definition check_names :: "string list" where
  "check_names = [''registered'', ''mandate_not_expired'', ''hf_below_trigger'', ''cost_within_mandate'',
     ''collateral_allowlisted'', ''target_in_signed_band'', ''has_debt'', ''state_actionable'', ''hf_gap_material'',
     ''assessment_viable'', ''repay_positive'', ''repay_bounded'', ''breaker_ok'', ''not_inflight'',
     ''rate_limit_borrower'', ''rate_limit_global'']"

lemma gate_checklist:
  assumes "gate_evaluate g = Inr d"
  shows "mset (map gc_name (pd_checks d)) = mset check_names"
    and "pd_severity d = (if pd_allowed d then Sev_ok else if keeper_free g then Soft_block else Hard_block)"
proof -
  obtain mandate position bound where g:
    "case gi_params g of
        None \<Rightarrow> mandate = add_check ''registered'' False ''borrower has no registered RiskParams'' # unevaluable
      | Some params \<Rightarrow> \<exists>cs. mandate_checks params g (ua_health_factor (ps_account (gi_snapshot g)) div 10 ^ 14) = Inr cs \<and>
          mandate = add_check ''registered'' True ''signed mandate on file'' # cs"
    "position_checks g = Inr position" "bound_check g = Inr bound" "d = verdict (mandate @ position @ bound @ keeper_checks g)"
    using assms unfolding gate_evaluate_Inr by blast
  note names = position_names [OF g(2)] bound_names [OF g(3)] keeper_names
  have m: "map gc_name mandate = [''registered'', ''mandate_not_expired'', ''hf_below_trigger'', ''cost_within_mandate'',
      ''collateral_allowlisted'', ''target_in_signed_band''] \<or> map gc_name mandate = [''registered'',
      ''mandate_not_expired'', ''cost_within_mandate'', ''collateral_allowlisted'', ''target_in_signed_band'', ''hf_below_trigger'']"
    using g(1) by (cases "gi_params g") (auto simp: add_check_def unevaluable_def dest!: mandate_names)
  show "mset (map gc_name (pd_checks d)) = mset check_names"
    using m by (auto simp: g(4) names check_names_def simp del: mset_map)
  have "\<not> (\<exists>c\<in>set mandate. gc_name c \<in> {''breaker_ok'', ''not_inflight''} \<and> \<not> gc_passed c)"
    using m by (elim disjE; intro no_hard_name) auto
  moreover have "\<not> (\<exists>c\<in>set position. gc_name c \<in> {''breaker_ok'', ''not_inflight''} \<and> \<not> gc_passed c)"
    by (rule no_hard_name [OF names(1)]) simp
  moreover have "\<not> (\<exists>c\<in>set bound. gc_name c \<in> {''breaker_ok'', ''not_inflight''} \<and> \<not> gc_passed c)"
    by (rule no_hard_name [OF names(2)]) simp
  ultimately show "pd_severity d = (if pd_allowed d then Sev_ok else if keeper_free g then Soft_block else Hard_block)"
    using keeper_hard [of g] by (auto simp: g(4) verdict_severity)
qed

text \<open>
  C5: whenever the gate answers, its checklist consists of the same sixteen checks, the blocking list is
  the failed ones in their order, it allows exactly when there is a signed mandate the proposal meets,
  the position calls for it within the bound, the keeper is free and the rates are not exceeded, and
  it reports a hard block exactly when it refuses while the breaker is open or a rescue is in flight.
\<close>

theorem gate_verdict:
  assumes "gate_evaluate g = Inr d"
  shows "mset (map gc_name (pd_checks d)) = mset check_names \<and> distinct (map gc_name (pd_checks d)) \<and>
     pd_blocking d = map gc_name (filter (\<lambda>c. \<not> gc_passed c) (pd_checks d)) \<and>
     (pd_allowed d \<longleftrightarrow> (\<exists>p. gi_params g = Some p \<and> mandate_met p g) \<and> position_met g \<and> keeper_free g \<and> rate_met g) \<and>
     pd_severity d = (if pd_allowed d then Sev_ok else if keeper_free g then Soft_block else Hard_block)"
proof -
  have m: "mset (map gc_name (pd_checks d)) = mset check_names" by (rule gate_checklist [OF assms])
  have "distinct check_names" by (simp add: check_names_def)
  then have "distinct (map gc_name (pd_checks d))" using m by (metis mset_eq_imp_distinct_iff)
  moreover have "pd_blocking d = map gc_name (filter (\<lambda>c. \<not> gc_passed c) (pd_checks d))"
    using assms unfolding gate_evaluate_Inr by auto
  ultimately show ?thesis using m gate_allowed_iff [OF assms] gate_checklist(2) [OF assms] by blast
qed

section \<open>Limits only tighten\<close>

text \<open>\<open>tighter l' l\<close>: every limit of \<open>l'\<close> is at least as strict as that of \<open>l\<close>.\<close>

definition tighter :: "PolicyLimits \<Rightarrow> PolicyLimits \<Rightarrow> bool" where
  "tighter l' l \<longleftrightarrow>
     (\<exists>f' f. pm_max_repay_fraction_of_debt l' = Fin f' \<and> pm_max_repay_fraction_of_debt l = Fin f \<and> f' \<le> f) \<and>
     pm_max_cost_bps_ceiling l' \<le> pm_max_cost_bps_ceiling l \<and> pm_min_hf_gap_bps l \<le> pm_min_hf_gap_bps l' \<and>
     pm_max_proposals_per_borrower_per_hour l' \<le> pm_max_proposals_per_borrower_per_hour l \<and>
     pm_max_proposals_global_per_hour l' \<le> pm_max_proposals_global_per_hour l"

lemma repay_ceiling_Fin:
  "repay_ceiling debt (Fin f) = Inr m \<Longrightarrow>
     \<exists>d. float_of_int debt = Inr (Fin d) \<and> to_float (d * f) = Fin (rnd (d * f)) \<and> m = trunc (rnd (d * f))"
proof -
  assume h: "repay_ceiling debt (Fin f) = Inr m"
  then obtain q where q: "float_of_int debt = Inr q" "int_of_float (fmul q (Fin f)) = Inr m"
    by (auto simp: repay_ceiling_def int_fmul_def res_bind_Inr_iff)
  then obtain d where d: "q = Fin d" by (cases "to_float (of_int debt)") (auto simp: float_of_int_def)
  with q(2) obtain r where r: "to_float (d * f) = Fin r" "m = trunc r" by (cases "to_float (d * f)") auto
  then show ?thesis using q(1) d to_float_Fin by auto
qed

lemma repay_ceiling_mono:
  assumes "repay_ceiling debt (Fin f') = Inr m'" "repay_ceiling debt (Fin f) = Inr m" "f' \<le> f" "0 \<le> debt"
  shows "m' \<le> m"
proof -
  obtain d where d: "float_of_int debt = Inr (Fin d)" "m' = trunc (rnd (d * f'))" "m = trunc (rnd (d * f))"
    using repay_ceiling_Fin [OF assms(1)] repay_ceiling_Fin [OF assms(2)] by auto
  have "d = rnd (of_int debt)" using d(1) by (auto simp: float_of_int_def dest: to_float_Fin split: pyfloat.splits)
  then have "0 \<le> d" using assms(4) by (simp add: rnd_nonneg)
  then have "d * f' \<le> d * f" using assms(3) by (rule mult_left_mono [rotated])
  then show ?thesis using d by (simp add: rnd_mono trunc_mono)
qed

text \<open>
  C18: tightening the operator's limits never lets a proposal through: one that is allowed under stricter
  limits is allowed under laxer ones, whenever the gate answers under both.
\<close>

theorem gate_tightens:
  assumes "gate_evaluate (g\<lparr>gi_limits := l'\<rparr>) = Inr d'" "gate_evaluate (g\<lparr>gi_limits := l\<rparr>) = Inr d"
    and "tighter l' l" and "pd_allowed d'"
  shows "pd_allowed d"
proof -
  let ?debt = "ua_total_debt_base (ps_account (gi_snapshot g))"
  obtain f' f where f: "pm_max_repay_fraction_of_debt l' = Fin f'" "pm_max_repay_fraction_of_debt l = Fin f" "f' \<le> f"
    using assms(3) by (auto simp: tighter_def)
  obtain position bound where b: "bound_check (g\<lparr>gi_limits := l\<rparr>) = Inr bound"
    using assms(2) unfolding gate_evaluate_Inr by auto
  then obtain m where m: "repay_ceiling ?debt (Fin f) = Inr m"
    by (auto simp: bound_check_def repay_ceiling_def res_bind_Inr_iff Let_def f)
  have old: "(\<exists>p. gi_params g = Some p \<and> mandate_met p (g\<lparr>gi_limits := l'\<rparr>)) \<and> position_met (g\<lparr>gi_limits := l'\<rparr>) \<and>
     keeper_free g \<and> rate_met (g\<lparr>gi_limits := l'\<rparr>)"
    using gate_allowed_iff [OF assms(1)] assms(4) by (simp add: keeper_free_def)
  have "position_met (g\<lparr>gi_limits := l\<rparr>)"
    using old assms(3) m repay_ceiling_mono [OF _ m f(3)]
    by (force simp: position_met_def Let_def gate_repay_value_def f tighter_def)
  then show ?thesis
    using old assms(3) unfolding gate_allowed_iff [OF assms(2)]
    by (auto simp: keeper_free_def rate_met_def tighter_def mandate_met_def Let_def)
qed

section \<open>The bound on the repayment\<close>

text \<open>
  An allowed repayment is worth something and at most the debt, and with the default fraction at
  most half of it, in the oracle's base units; it is exact for debts below \<open>2 ^ 53\<close> base units (ninety
  million dollars), where the conversion to a float loses nothing.
\<close>

lemma gate_bounds_repayment:
  assumes "gate_evaluate g = Inr d" "pd_allowed d" "validate_policy_limits (gi_limits g) = Inr l"
    and "ua_total_debt_base (ps_account (gi_snapshot g)) \<le> 2 ^ 53"
  shows "0 < gate_repay_value g \<and> gate_repay_value g \<le> ua_total_debt_base (ps_account (gi_snapshot g)) \<and>
     (pm_max_repay_fraction_of_debt (gi_limits g) = Fin (1 / 2) \<longrightarrow>
        2 * gate_repay_value g \<le> ua_total_debt_base (ps_account (gi_snapshot g)))"
proof -
  let ?debt = "ua_total_debt_base (ps_account (gi_snapshot g))" and ?v = "gate_repay_value g"
  obtain f where f: "pm_max_repay_fraction_of_debt (gi_limits g) = Fin f" "0 < f" "f \<le> 1"
    using validate_policy_limits_Inr [OF assms(3)] by blast
  obtain m where m: "0 < ?debt" "0 < ?v" "repay_ceiling ?debt (Fin f) = Inr m" "?v \<le> m"
    using gate_allowed_iff [OF assms(1)] assms(2) by (auto simp: position_met_def Let_def f)
  have fl: "float_of_int ?debt = Inr (Fin (of_int ?debt))" using m(1) assms(4) by (intro float_of_int_small) simp
  have mt: "m = trunc (rnd (of_int ?debt * f))" using repay_ceiling_Fin [OF m(3)] fl by auto
  have "rnd (of_int ?debt * f) \<le> of_int ?debt"
    using m(1) assms(4) f by (intro b64.upper) (auto intro: representable_of_int simp: mult_left_le)
  moreover have low: "of_int m \<le> rnd (of_int ?debt * f)"
    unfolding mt using m(1) f(2) by (intro trunc_le rnd_nonneg) simp
  ultimately have "(of_int m :: rat) \<le> of_int ?debt" by (rule order_trans [rotated])
  then have "m \<le> ?debt" by simp
  moreover have "2 * ?v \<le> ?debt" if half: "f = 1 / 2"
  proof -
    have "of_int ?debt * f = of_int ?debt / 2 ^ 1" using half by simp
    then have "to_float (of_int ?debt * f) = Fin (of_int ?debt * f)"
      by (rule to_float_dyadic) (use m(1) assms(4) in auto)
    then have "of_int ?debt * f = rnd (of_int ?debt * f)" by (rule to_float_Fin)
    then have "rnd (of_int ?debt * f) = of_int ?debt / 2" unfolding half by simp
    then have "of_int (2 * m) \<le> (of_int ?debt :: rat)" using low by simp
    then have "2 * m \<le> ?debt" by (simp only: of_int_le_iff)
    then show ?thesis using m(4) by linarith
  qed
  ultimately show ?thesis using m f(1) by auto
qed

section \<open>When the gate answers\<close>

lemma round_scaled:
  assumes "\<bar>x\<bar> \<le> 2 ^ 200"
  shows "\<exists>t. round_float (fmul (Fin x) (Fin (of_int BPS))) = Inr t"
proof -
  have "\<bar>x * of_int BPS\<bar> \<le> 2 ^ 200 * 2 ^ 14"
    unfolding abs_mult using assms by (intro mult_mono) (auto simp: BPS_def)
  also have "(2::rat) ^ 200 * 2 ^ 14 \<le> 2 ^ 1023" unfolding power_add [symmetric] by (rule power_increasing) auto
  finally show ?thesis by (simp add: to_float_finite)
qed

text \<open>The numbers of a gate input are of the size the chain and the oracle can produce.\<close>

definition sane_input :: "gate_input \<Rightarrow> bool" where
  "sane_input g \<longleftrightarrow> (let a = gi_assessment g; debt = ua_total_debt_base (ps_account (gi_snapshot g)) in
     (\<exists>h t. ar_hf a = Fin h \<and> ar_hf_target a = Fin t \<and> \<bar>h\<bar> \<le> 2 ^ 198 \<and> \<bar>t\<bar> \<le> 2 ^ 198) \<and>
     0 \<le> debt \<and> debt \<le> 2 ^ 256 \<and> \<bar>gate_repay_value g\<bar> \<le> 2 ^ 1000 \<and>
     (\<exists>f. pm_max_repay_fraction_of_debt (gi_limits g) = Fin f \<and> 0 \<le> f \<and> f \<le> 1) \<and>
     (\<forall>p. gi_params g = Some p \<longrightarrow> \<bar>rp_deadline p\<bar> \<le> 2 ^ 256))"

lemma gap_round:
  assumes "\<bar>h\<bar> \<le> 2 ^ 198" "\<bar>t\<bar> \<le> 2 ^ 198"
  shows "\<exists>r. round_float (fmul (fsub (Fin t) (Fin h)) (Fin (of_int BPS))) = Inr r"
proof -
  have b: "\<bar>t + - h\<bar> \<le> of_nat 1 * 2 ^ 199" using assms by simp
  have "of_nat 1 * 2 ^ 199 \<le> (2::rat) ^ 1023" unfolding of_nat_1 mult_1 by (rule power_increasing) auto
  from to_float_bounded [OF b _ this] have "to_float (t + - h) = Fin (rnd (t + - h))" "\<bar>rnd (t + - h)\<bar> \<le> 2 ^ 199" by auto
  moreover have "(2::rat) ^ 199 \<le> 2 ^ 200" by (rule power_increasing) auto
  ultimately show ?thesis using round_scaled [of "rnd (t + - h)"] by (simp add: fsub_def)
qed

lemma bound_answers:
  assumes "0 \<le> debt" "debt \<le> 2 ^ 256" "0 \<le> f" "f \<le> 1"
  shows "\<exists>c m. int_fmul debt (Fin f) = Inr c \<and> int_of_float c = Inr m \<and> \<bar>m\<bar> \<le> 2 ^ 1000"
proof -
  have le: "(2::rat) ^ 256 \<le> 2 ^ 1023" "(2::int) ^ 256 \<le> 2 ^ 1000" by (rule power_increasing; simp)+
  have b1: "\<bar>of_int debt :: rat\<bar> \<le> of_nat 1 * 2 ^ 256"
    using assms(1,2) by (simp add: of_int_le_numeral_power_cancel_iff)
  have d: "to_float (of_int debt) = Fin (rnd (of_int debt))" "\<bar>rnd (of_int debt)\<bar> \<le> 2 ^ 256"
    using to_float_bounded [OF b1] le(1) by auto
  have "\<bar>rnd (of_int debt) * f\<bar> \<le> 2 ^ 256 * 1"
    unfolding abs_mult using assms(3,4) d(2) by (intro mult_mono) auto
  then have b2: "\<bar>rnd (of_int debt) * f\<bar> \<le> of_nat 1 * 2 ^ 256" by simp
  have e: "to_float (rnd (of_int debt) * f) = Fin (rnd (rnd (of_int debt) * f))" "\<bar>rnd (rnd (of_int debt) * f)\<bar> \<le> of_int (2 ^ 256)"
    using to_float_bounded [OF b2] le(1) by auto
  show ?thesis using trunc_abs [OF e(2)] le(2) by (auto simp: int_fmul_def float_of_int_def d e)
qed

lemma position_answers:
  assumes "sane_input g"
  shows "\<exists>cs. position_checks g = Inr cs"
proof -
  obtain h t where ht: "ar_hf (gi_assessment g) = Fin h" "ar_hf_target (gi_assessment g) = Fin t" "\<bar>h\<bar> \<le> 2 ^ 198" "\<bar>t\<bar> \<le> 2 ^ 198"
    using assms by (auto simp: sane_input_def Let_def)
  have "(2::int) ^ 256 \<le> 2 ^ 1000" by (rule power_increasing) auto
  then have "\<bar>ua_total_debt_base (ps_account (gi_snapshot g))\<bar> \<le> 2 ^ 1000" using assms by (simp add: sane_input_def Let_def)
  then have "\<exists>d. ua_debt_usd (ps_account (gi_snapshot g)) = Inr d" unfolding ua_debt_usd_def
    by (auto simp: int_truediv_ok)
  then show ?thesis using gap_round [OF ht(3,4)] by (auto simp: position_checks_def Let_def ht)
qed

lemma bound_check_answers:
  assumes "sane_input g"
  shows "\<exists>cs. bound_check g = Inr cs"
proof -
  let ?debt = "ua_total_debt_base (ps_account (gi_snapshot g))"
  obtain f where f: "pm_max_repay_fraction_of_debt (gi_limits g) = Fin f" "0 \<le> f" "f \<le> 1" "0 \<le> ?debt" "?debt \<le> 2 ^ 256"
    using assms by (auto simp: sane_input_def Let_def)
  obtain c m where "int_fmul ?debt (Fin f) = Inr c" "int_of_float c = Inr m" "\<bar>m\<bar> \<le> 2 ^ 1000"
    using bound_answers [OF f(4,5,2,3)] by blast
  then show ?thesis using assms
    by (simp add: bound_check_def Let_def f(1) sane_input_def gate_repay_value_def int_truediv_ok)
qed

lemma mandate_answers:
  assumes "ar_hf_target (gi_assessment g) = Fin t" "\<bar>t\<bar> \<le> 2 ^ 198" "\<bar>rp_deadline p\<bar> \<le> 2 ^ 256"
  shows "\<exists>cs. mandate_checks p g h = Inr cs"
proof -
  have "(2::int) ^ 256 \<le> 2 ^ 1000" "(2::rat) ^ 198 \<le> 2 ^ 200" by (rule power_increasing; simp)+
  then have "\<bar>rp_deadline p\<bar> \<le> 2 ^ 1000" "\<bar>t\<bar> \<le> 2 ^ 200" using assms(2,3) by auto
  then show ?thesis using float_of_int_ok [of "rp_deadline p"] round_scaled [of t]
    by (auto simp: mandate_checks_def Let_def assms(1))
qed

text \<open>
  The gate answers for every position with debt the pipeline can assess: for finite health factors
  and amounts of the size of a machine word of the chain it returns a verdict and raises nothing.
\<close>

lemma gate_answers:
  assumes "sane_input g"
  shows "\<exists>d. gate_evaluate g = Inr d"
proof -
  obtain position bound where "position_checks g = Inr position" "bound_check g = Inr bound"
    using position_answers [OF assms] bound_check_answers [OF assms] by blast
  moreover have "\<exists>cs. mandate_checks p g h = Inr cs" if "gi_params g = Some p" for p h
    using assms that mandate_answers [of g _ p h] by (auto simp: sane_input_def Let_def)
  ultimately show ?thesis unfolding gate_evaluate_Inr by (cases "gi_params g") (simp, fastforce)
qed

text \<open>
  For a position without debt the gate raises instead of reporting the failed check: the pipeline
  declines such a position with an infinite health factor, and rounding the gap to it overflows.
\<close>

lemma gate_raises_without_debt:
  assumes "ar_hf (gi_assessment g) = PInf" "ar_hf_target (gi_assessment g) = Fin t" "\<bar>t\<bar> \<le> 2 ^ 198"
    and "\<forall>p. gi_params g = Some p \<longrightarrow> \<bar>rp_deadline p\<bar> \<le> 2 ^ 256" "\<not> ua_has_debt (ps_account (gi_snapshot g))"
  shows "gate_evaluate g = Inl (OverflowError ''cannot convert float infinity to integer'')"
proof -
  have "position_checks g = Inl (OverflowError ''cannot convert float infinity to integer'')"
    using assms(1,2,5) by (simp add: position_checks_def fsub_def finf_def BPS_def sgn_if)
  moreover have "\<exists>cs. mandate_checks p g h = Inr cs" if "gi_params g = Some p" for p h
    using assms that by (intro mandate_answers) auto
  ultimately show ?thesis by (cases "gi_params g") (auto simp: gate_evaluate_def Let_def; metis res_bind.simps(2))+
qed

section \<open>An example\<close>

definition demo_gate :: "pyfloat \<Rightarrow> bool \<Rightarrow> gate_input" where
  "demo_gate hf paused = \<lparr>gi_params = Some \<lparr>rp_borrower = ''alice'', rp_hf_trigger_bps = 10500,
       rp_hf_target_base_bps = 12500, rp_vol_coeff_k = 0, rp_hf_target_max_bps = 14000, rp_max_slippage_bps = 50,
       rp_max_cost_bps = 100, rp_allowed_collaterals = [''WETH''], rp_nonce = 0, rp_deadline = 0\<rparr>,
     gi_assessment = \<lparr>ar_hf = hf, ar_hf_target = Fin (5 / 4), ar_repay_amount = 2000000000,
       ar_collateral_asset = ''WETH'', ar_est_cost_bps = 27, ar_viable = True, ar_reason = None\<rparr>,
     gi_snapshot = \<lparr>ps_borrower = ''alice'', ps_account = \<lparr>ua_total_collateral_base = 800000000000,
         ua_total_debt_base = (if hf = PInf then 0 else 600000000000), ua_available_borrows_base = 0,
         ua_liquidation_threshold_bps = 8250, ua_ltv_bps = 8000, ua_health_factor = 10 ^ 18\<rparr>,
       ps_state = ASSESSING, ps_hf = hf, ps_hf_trigger_bps = 10500\<rparr>,
     gi_metrics = \<lparr>ms_breaker_paused = paused, ms_breaker_consecutive_failures = 0, ms_breaker_trip_reason = None,
       ms_in_flight_borrowers = [], ms_registered_positions = 1, ms_counters = [], ms_states = []\<rparr>,
     gi_limits = default_limits, gi_now = Fin 1000, gi_debt_price_base = 100000000, gi_debt_decimals = 6,
     gi_recent_borrower = 0, gi_recent_global = 0\<rparr>"

lemma demo_gate_sane: "sane_input (demo_gate (Fin 1) b)"
proof -
  have "\<exists>h t. Fin 1 = Fin h \<and> Fin (5 / 4) = Fin t \<and> \<bar>h\<bar> \<le> 2 ^ 198 \<and> \<bar>t\<bar> \<le> 2 ^ 198"
    by (intro exI conjI; (rule refl)?) simp_all
  moreover have "\<exists>f. Fin (1 / 2) = Fin f \<and> 0 \<le> f \<and> f \<le> 1" by (intro exI conjI; (rule refl)?) simp_all
  ultimately show ?thesis
    by (simp add: sane_input_def demo_gate_def Let_def gate_repay_value_def repay_value_base_def default_limits_def
        del: pyfloat.inject)
qed

lemma demo_gap: "round_float (fmul (fsub (Fin (5 / 4)) (Fin 1)) (Fin (of_int BPS))) = Inr 2500"
    "round_float (fmul (Fin (5 / 4)) (Fin (of_int BPS))) = Inr 12500"
  using to_float_dyadic [of "1 / 4" 1 2] to_float_dyadic [of 2500 2500 0] to_float_dyadic [of 12500 12500 0]
    round_even_of_int [of 2500] round_even_of_int [of 12500]
  by (simp_all add: fsub_def BPS_def)

lemma demo_ceiling: "repay_ceiling 600000000000 (Fin (1 / 2)) = Inr 300000000000"
  using float_of_int_small [of 600000000000] to_float_dyadic [of 300000000000 300000000000 0]
  by (simp add: repay_ceiling_def int_fmul_def trunc_def)

lemma demo_gate_met:
  "mandate_met (the (gi_params (demo_gate (Fin 1) b))) (demo_gate (Fin 1) b)"
  "position_met (demo_gate (Fin 1) b)" "rate_met (demo_gate (Fin 1) b)" "keeper_free (demo_gate (Fin 1) b) = (\<not> b)"
  using demo_gap demo_ceiling
  by (simp_all add: mandate_met_def position_met_def rate_met_def keeper_free_def demo_gate_def Let_def not_expired_def
      default_limits_def gate_repay_value_def repay_value_base_def)

lemma demo_gate_evaluate:
  "\<exists>d. gate_evaluate (demo_gate (Fin 1) b) = Inr d \<and> (pd_allowed d \<longleftrightarrow> \<not> b)"
proof -
  obtain position bound cs where c: "position_checks (demo_gate (Fin 1) b) = Inr position"
    "bound_check (demo_gate (Fin 1) b) = Inr bound"
    using position_answers [OF demo_gate_sane] bound_check_answers [OF demo_gate_sane] by blast
  moreover have "\<exists>cs. mandate_checks p (demo_gate (Fin 1) b) h = Inr cs" if "gi_params (demo_gate (Fin 1) b) = Some p" for p h
    by (rule mandate_answers [of _ "5 / 4"]) (use that in \<open>auto simp: demo_gate_def\<close>)
  ultimately obtain d where d: "gate_evaluate (demo_gate (Fin 1) b) = Inr d"
    unfolding gate_evaluate_Inr by (cases "gi_params (demo_gate (Fin 1) b)") (simp, fastforce)
  show ?thesis using gate_allowed_iff [OF d] demo_gate_met [of b] d by (auto simp: demo_gate_def)
qed

theorem gate_verdict_witness:
  "\<exists>d. gate_evaluate (demo_gate (Fin 1) True) = Inr d \<and> \<not> pd_allowed d \<and> pd_severity d = Hard_block"
proof -
  obtain d where d: "gate_evaluate (demo_gate (Fin 1) True) = Inr d" "\<not> pd_allowed d"
    using demo_gate_evaluate [of True] by blast
  then show ?thesis using gate_verdict [OF d(1)] demo_gate_met(4) [of True] by simp
qed

theorem gate_tightens_witness:
  "\<exists>d. gate_evaluate (demo_gate (Fin 1) False\<lparr>gi_limits := default_limits\<rparr>) = Inr d \<and> pd_allowed d"
proof -
  have e: "demo_gate (Fin 1) False\<lparr>gi_limits := default_limits\<rparr> = demo_gate (Fin 1) False" by (simp add: demo_gate_def)
  then obtain d where d: "gate_evaluate (demo_gate (Fin 1) False\<lparr>gi_limits := default_limits\<rparr>) = Inr d" "pd_allowed d"
    using demo_gate_evaluate [of False] by auto
  have "tighter default_limits default_limits" by (simp add: tighter_def default_limits_def del: pyfloat.inject) blast
  from gate_tightens [OF d(1) d(1) this d(2)] d show ?thesis by blast
qed

lemma gate_bounds_repayment_witness:
  "0 < gate_repay_value (demo_gate (Fin 1) False) \<and> 2 * gate_repay_value (demo_gate (Fin 1) False) \<le> 600000000000"
proof -
  obtain d where d: "gate_evaluate (demo_gate (Fin 1) False) = Inr d" "pd_allowed d"
    using demo_gate_evaluate [of False] by blast
  have v: "validate_policy_limits (gi_limits (demo_gate (Fin 1) False)) = Inr default_limits"
    by (simp add: validate_policy_limits_def demo_gate_def default_limits_def fle_def)
  have b: "ua_total_debt_base (ps_account (gi_snapshot (demo_gate (Fin 1) False))) \<le> 2 ^ 53" by (simp add: demo_gate_def)
  show ?thesis using gate_bounds_repayment [OF d v b] by (simp add: demo_gate_def default_limits_def)
qed

lemma gate_answers_witness: "\<exists>d. gate_evaluate (demo_gate (Fin 1) True) = Inr d"
  by (rule gate_answers [OF demo_gate_sane])

lemma gate_raises_without_debt_witness:
  "gate_evaluate (demo_gate PInf False) = Inl (OverflowError ''cannot convert float infinity to integer'')"
  by (rule gate_raises_without_debt [where t = "5 / 4"]) (simp_all add: demo_gate_def ua_has_debt_def)

end
