(* ===== verification/Agent_Routes.thy ===== *)
theory Agent_Routes
  imports Agent_Tools Policy App_Settings
begin

text \<open>
  \<^verbatim>\<open>app/api/routes_agent.py\<close> with the limits of \<^verbatim>\<open>app/agent/runtime.py\<close>: the routes that decide proposals and
  tuning suggestions, the revalidation of the gate they share, and the kill switch. A route returns a
  reply or the HTTP error it raises; an exception it lets through is the server's own error.
\<close>

section \<open>Replies and environment\<close>

datatype 'a http = Reply 'a | Refuse int json

record 's agent_env =
  ae_deps :: "'s deps"
  ae_settings :: Settings
  ae_time :: "nat \<Rightarrow> 's \<Rightarrow> pyfloat"

definition policy_limits :: "Settings \<Rightarrow> PolicyLimits res" where
  "policy_limits st = validate_policy_limits
     \<lparr>pm_max_repay_fraction_of_debt = st_agent_max_repay_fraction st,
      pm_max_cost_bps_ceiling = st_agent_max_cost_bps st,
      pm_min_hf_gap_bps = st_agent_min_hf_gap_bps st,
      pm_max_proposals_per_borrower_per_hour = st_agent_max_proposals_per_hour st,
      pm_max_proposals_global_per_hour = st_agent_max_proposals_global_per_hour st,
      pm_proposal_ttl_seconds = st_agent_proposal_ttl_seconds st\<rparr>"

section \<open>Revalidation\<close>

definition get_client :: "Settings \<Rightarrow> 'z ags \<Rightarrow> ChainClient res" where
  "get_client st s =
     (case ag_global_client s of
        Some c \<Rightarrow> Inr c
      | None \<Rightarrow> chain_client_init None None (st_arbitrum_rpc_url st) (st_arbitrum_rpc_url_fallback st) None (st_rpc_max_retries st))"

text \<open>
  A read through the process-wide client and a new oracle object: the keeper's own client is set aside
  while it lasts.
\<close>

definition with_global_client :: "Settings \<Rightarrow> ('z ags, 'a) io \<Rightarrow> ('z ags, 'a) io" where
  "with_global_client st m s =
     (case get_client st s of
        Inl e \<Rightarrow> (Inl e, s)
      | Inr c \<Rightarrow> (case m (s\<lparr>ch_client := c, ch_oracle_address := None\<rparr>) of
          (r, s') \<Rightarrow> (r, s'\<lparr>ag_global_client := Some (ch_client s'), ch_client := ch_client s,
             ch_oracle_address := ch_oracle_address s\<rparr>)))"

definition debt_price_base :: "'z ags agent_env \<Rightarrow> string \<Rightarrow> ('z ags, int) io" where
  "debt_price_base env debt_asset =
     io_try (io_bind (with_global_client (ae_settings env) (get_asset_price (dp_node (ae_deps env)) debt_asset))
         (\<lambda>p. io_return (op_price p)))
       (\<lambda>_. io_return 0)"

definition HOUR :: pyfloat where "HOUR = Fin 3600"

definition revalidate :: "'z ags agent_env \<Rightarrow> string \<Rightarrow> RiskParams \<Rightarrow> ('z ags, PolicyDecision) io" where
  "revalidate env borrower params =
     (let d = ae_deps env in
      io_bind (tools_sigma_for params) (\<lambda>sigma.
      io_bind (service_assess d params (Some sigma)) (\<lambda>assessment.
      io_bind (snapshot d borrower (rp_hf_trigger_bps params)) (\<lambda>snap.
      io_bind (io_lift debt_asset_facts) (\<lambda>(debt_asset, debt_decimals).
      io_bind (debt_price_base env debt_asset) (\<lambda>debt_price s.
      let since = fsub (ae_time env 0 s) HOUR; m = metrics s; now = ae_time env 1 s in
      io_bind (io_lift (policy_limits (ae_settings env))) (\<lambda>limits.
      io_bind (store_io [] (count_recent_proposals since (Some borrower))) (\<lambda>recent_borrower.
      io_bind (store_io [] (count_recent_proposals since None)) (\<lambda>recent_global.
      io_lift (gate_evaluate \<lparr>gi_params = Some params, gi_assessment = assessment, gi_snapshot = snap,
        gi_metrics = m, gi_limits = limits, gi_now = now, gi_debt_price_base = debt_price,
        gi_debt_decimals = debt_decimals, gi_recent_borrower = recent_borrower,
        gi_recent_global = recent_global\<rparr>)))) s))))))"

section \<open>Reading\<close>

definition not_found :: "int \<Rightarrow> 'a http" where
  "not_found i = Refuse 404 (JStr (''proposal '' @ show_int i @ '' not found''))"

definition route_list_proposals :: "string option \<Rightarrow> string option \<Rightarrow> int \<Rightarrow> ('z ags, ProposalRow list http) io" where
  "route_list_proposals status_filter borrower limit =
     (case (case status_filter of None \<Rightarrow> Inr None
        | Some f \<Rightarrow> res_bind (parse_proposal_status (str_upper f)) (\<lambda>p. Inr (Some p))) of
        Inl _ \<Rightarrow> io_return (Refuse 400 (JStr (''unknown status '' @ py_repr (the status_filter))))
      | Inr parsed \<Rightarrow> io_bind (store_io [limit] (list_proposals parsed borrower limit)) (\<lambda>rows. io_return (Reply rows)))"

definition route_get_proposal :: "int \<Rightarrow> ('z ags, ProposalRow http) io" where
  "route_get_proposal proposal_id =
     io_bind (store_io [proposal_id] (get_proposal proposal_id)) (\<lambda>row. io_return
       (case row of None \<Rightarrow> not_found proposal_id | Some r \<Rightarrow> Reply r))"

text \<open>The \<^verbatim>\<open>assert refreshed is not None\<close> at the end of the deciding routes.\<close>

definition refreshed :: "int \<Rightarrow> ('z ags, ProposalRow) io" where
  "refreshed proposal_id =
     io_bind (store_io [proposal_id] (get_proposal proposal_id)) (\<lambda>row.
       case row of None \<Rightarrow> io_raise (OtherError '''') | Some r \<Rightarrow> io_return r)"

section \<open>Rejecting\<close>

definition not_pending :: "ProposalRow \<Rightarrow> 'a http" where
  "not_pending row = Refuse 409 (JStr (''proposal is '' @ proposal_status_value (pw_status row) @ '', not PENDING''))"

text \<open>The clock is read inside the store method, with the state at the call.\<close>

definition finish :: "'z ags agent_env \<Rightarrow> int \<Rightarrow> ProposalStatus \<Rightarrow> string option \<Rightarrow> string option \<Rightarrow> string option \<Rightarrow>
    (string, json) pydict option \<Rightarrow> ('z ags, unit) io" where
  "finish env i st decided_by note tx_hash result s =
     store_io [i] (finish_proposal i st decided_by note tx_hash result (ae_time env 2 s)) s"

definition write_audit :: "'z ags agent_env \<Rightarrow> string \<Rightarrow> AuditAction \<Rightarrow> string option \<Rightarrow> int option \<Rightarrow>
    (string, json) pydict \<Rightarrow> ('z ags, int) io" where
  "write_audit env actor action borrower i detail s =
     store_io (case i of None \<Rightarrow> [] | Some n \<Rightarrow> [n]) (audit_write actor action borrower i detail (ae_time env 3 s)) s"

definition reject_proposal :: "'z ags agent_env \<Rightarrow> int \<Rightarrow> RejectRequest \<Rightarrow> ('z ags, ProposalRow http) io" where
  "reject_proposal env proposal_id body =
     io_bind (store_io [proposal_id] (get_proposal proposal_id)) (\<lambda>row. case row of
       None \<Rightarrow> io_return (not_found proposal_id)
     | Some row \<Rightarrow>
         io_bind (store_io [proposal_id] (claim_proposal proposal_id REJECTED)) (\<lambda>won.
         if \<not> won then io_return (not_pending row)
         else
           io_bind (finish env proposal_id REJECTED (Some (rq_rejected_by body)) (rq_note body) None None) (\<lambda>_.
           io_bind (write_audit env ''human'' AA_REJECTED (Some (pw_borrower row)) (Some proposal_id)
             [(''by'', JStr (rq_rejected_by body)), (''note'', opt_str (rq_note body))]) (\<lambda>_.
           io_bind (refreshed proposal_id) (\<lambda>r. io_return (Reply r))))))"

section \<open>Approving\<close>

definition check_json :: "GateCheck \<Rightarrow> json" where
  "check_json c = JDict [(''name'', JStr (gc_name c)), (''passed'', JBool (gc_passed c)), (''detail'', JStr (gc_detail c))]"

definition assessment_json :: "AssessmentResponse \<Rightarrow> json" where
  "assessment_json a = JDict [(''hf'', JFloat (ar_hf a)), (''hf_target'', JFloat (ar_hf_target a)),
     (''repay_amount'', JInt (ar_repay_amount a)), (''collateral_asset'', JStr (ar_collateral_asset a)),
     (''est_cost_bps'', JInt (ar_est_cost_bps a)), (''viable'', JBool (ar_viable a)), (''reason'', opt_str (ar_reason a))]"

definition protect_json :: "ProtectResponse \<Rightarrow> (string, json) pydict" where
  "protect_json r = [(''borrower'', JStr (pr_borrower r)), (''state'', JStr (state_value (pr_state r))),
     (''submitted'', JBool (pr_submitted r)), (''tx_hash'', opt_str (pr_tx_hash r)),
     (''assessment'', (case pr_assessment r of None \<Rightarrow> JNone | Some a \<Rightarrow> assessment_json a)),
     (''reason'', opt_str (pr_reason r)), (''via_fallback'', JBool (pr_via_fallback r))]"

text \<open>After the claim was won: the status is noted, the action runs, and its outcome is recorded.\<close>

definition approve_execute ::
  "'z ags agent_env \<Rightarrow> int \<Rightarrow> ApprovalRequest \<Rightarrow> ProposalRow \<Rightarrow> RiskParams \<Rightarrow> string \<Rightarrow> PolicyDecision \<Rightarrow>
     ('z ags, ApprovalResult http) io" where
  "approve_execute env proposal_id body row params signature gate =
     io_bind (finish env proposal_id APPROVED (Some (aq_approved_by body)) (aq_note body) None None) (\<lambda>_.
     io_bind (write_audit env ''human'' AA_APPROVED (Some (pw_borrower row)) (Some proposal_id)
       [(''by'', JStr (aq_approved_by body))]) (\<lambda>_ s.
     case protect (ae_deps env) params signature s of
       (Inl exc, s') \<Rightarrow>
         io_bind (finish env proposal_id FAILED None (Some (''execution error: '' @ exn_str exc)) None None) (\<lambda>_.
         io_bind (write_audit env ''system'' AA_FAILED (Some (pw_borrower row)) (Some proposal_id)
           [(''error'', JStr (exn_str exc))]) (\<lambda>_.
         io_return (Refuse 502 (JStr (''execution failed: '' @ exn_str exc))))) s'
     | (Inr result, s') \<Rightarrow>
         io_bind (finish env proposal_id (if pr_submitted result then EXECUTED else FAILED) None None
           (pr_tx_hash result) (Some (protect_json result))) (\<lambda>_.
         io_bind (write_audit env ''system'' (if pr_submitted result then AA_EXECUTED else AA_FAILED)
           (Some (pw_borrower row)) (Some proposal_id)
           [(''tx_hash'', opt_str (pr_tx_hash result)), (''state'', JStr (state_value (pr_state result))),
            (''reason'', opt_str (pr_reason result))]) (\<lambda>_.
         io_bind (refreshed proposal_id) (\<lambda>r. io_return (Reply \<lparr>al_proposal = r, al_revalidated_gate = gate,
           al_protect = Some result, al_reason = pr_reason result\<rparr>)))) s'))"

text \<open>After the gate ran again: refused, too old, or claimed.\<close>

definition approve_gated ::
  "'z ags agent_env \<Rightarrow> int \<Rightarrow> ApprovalRequest \<Rightarrow> ProposalRow \<Rightarrow> RiskParams \<Rightarrow> string \<Rightarrow> PolicyDecision \<Rightarrow>
     ('z ags, ApprovalResult http) io" where
  "approve_gated env proposal_id body row params signature gate s =
     (if \<not> pd_allowed gate then
        io_bind (finish env proposal_id STALE (Some (aq_approved_by body)) (aq_note body) None None) (\<lambda>_.
        io_bind (write_audit env ''system'' STALE_ON_APPROVE (Some (pw_borrower row)) (Some proposal_id)
          [(''blocking'', JList (map JStr (pd_blocking gate)))]) (\<lambda>_.
        io_return (Refuse 409 (JDict [(''error'', JStr ''the position no longer satisfies the policy gate''),
          (''blocking'', JList (map JStr (pd_blocking gate))),
          (''checks'', JList (map check_json (filter (\<lambda>c. \<not> gc_passed c) (pd_checks gate))))])))) s
      else if flt (pw_expires_at row) (ae_time env 4 s) \<and> \<not> aq_acknowledge_stale body then
        io_bind (finish env proposal_id EXPIRED (Some (aq_approved_by body)) None None None) (\<lambda>_.
        io_bind (write_audit env ''system'' EXPIRED_ON_APPROVE (Some (pw_borrower row)) (Some proposal_id) []) (\<lambda>_.
        io_return (Refuse 409 (JStr ''proposal expired; re-run the crew, or approve with acknowledge_stale'')))) s
      else
        io_bind (store_io [proposal_id] (claim_proposal proposal_id APPROVED)) (\<lambda>won.
        if \<not> won then io_return (Refuse 409 (JStr ''proposal was already decided by someone else''))
        else approve_execute env proposal_id body row params signature gate) s)"

definition approve_proposal ::
  "'z ags agent_env \<Rightarrow> int \<Rightarrow> ApprovalRequest \<Rightarrow> ('z ags, ApprovalResult http) io" where
  "approve_proposal env proposal_id body =
     io_bind (store_io [proposal_id] (get_proposal proposal_id)) (\<lambda>row. case row of
       None \<Rightarrow> io_return (not_found proposal_id)
     | Some row \<Rightarrow>
         if pw_status row \<noteq> PENDING then io_return (not_pending row)
         else (\<lambda>s. case params_of (pw_borrower row) s of
             None \<Rightarrow>
               io_bind (finish env proposal_id STALE (Some (aq_approved_by body)) None None None) (\<lambda>_.
               io_return (Refuse 409 (JStr ''borrower no longer has a registered signed mandate''))) s
           | Some (params, signature) \<Rightarrow>
               io_bind (revalidate env (pw_borrower row) params)
                 (approve_gated env proposal_id body row params signature) s))"

section \<open>Tuning suggestions, the audit trail and the kill switch\<close>

definition route_list_tuning :: "string option \<Rightarrow> bool \<Rightarrow> int \<Rightarrow> ('z ags, TuningRow list) io" where
  "route_list_tuning borrower include_closed limit =
     store_io [limit] (list_tuning borrower (if include_closed then None else Some OPEN) limit)"

definition dismiss_tuning :: "'z ags agent_env \<Rightarrow> int \<Rightarrow> ('z ags, TuningRow http) io" where
  "dismiss_tuning env tuning_id =
     io_bind (store_io [tuning_id] (get_tuning tuning_id)) (\<lambda>row. case row of
       None \<Rightarrow> io_return (Refuse 404 (JStr (''tuning suggestion '' @ show_int tuning_id @ '' not found'')))
     | Some row \<Rightarrow>
         io_bind (\<lambda>s. store_io [tuning_id] (set_tuning_status tuning_id DISMISSED (ae_time env 2 s)) s) (\<lambda>won.
         if \<not> won then io_return (Refuse 409 (JStr (''suggestion is '' @ tuning_status_value (tw_status row) @ '', not open'')))
         else
           io_bind (write_audit env ''human'' TUNING_DISMISSED (Some (tw_borrower row)) None
             [(''tuning_id'', JInt tuning_id)]) (\<lambda>_.
           io_bind (store_io [tuning_id] (get_tuning tuning_id)) (\<lambda>r. case r of
             None \<Rightarrow> io_raise (OtherError '''') | Some r \<Rightarrow> io_return (Reply r)))))"

definition route_audit_trail :: "string option \<Rightarrow> int \<Rightarrow> ('z ags, AuditRow list) io" where
  "route_audit_trail borrower limit = store_io [limit] (list_audit borrower limit)"

definition panic :: "'z ags agent_env \<Rightarrow> string option \<Rightarrow> ('z ags, (string, json) pydict) io" where
  "panic env reason s0 =
     (let s = s0\<lparr>sv_breaker := trip MANUAL (sv_breaker s0)\<rparr> in
      io_bind (write_audit env ''human'' PANIC None None [(''reason'', JStr (opt_or reason ''operator panic''))]) (\<lambda>_ s.
        (Inr [(''paused'', JBool (cb_paused (sv_breaker s))), (''trip_reason'', opt_str (trip_reason (sv_breaker s))),
          (''note'', JStr ''autonomous submission is halted; POST /breaker/reset to resume'')], s)) s)"

end
