(* ===== verification/Service_Concurrency.thy ===== *)
theory Service_Concurrency
  imports Protection_Service
begin

text \<open>
  The protective action under concurrency. On the event loop a segment of \<^verbatim>\<open>protect\<close> runs to its next await
  without interruption, and between two segments any other coroutine may run: other calls of \<^verbatim>\<open>protect\<close>
  (from the API or the tick), monitoring, registration, operator commands. A step of the relation
  below is one segment; what an awaited call answers is arbitrary.
\<close>

section \<open>Tasks\<close>

text \<open>
  A running call of \<^verbatim>\<open>protect\<close> waits for its evaluation, its dry run or its submission; \<open>Finished_task\<close>
  is one that has returned or raised.
\<close>

datatype task =
    Evaluating RiskParams
  | Dry_running RiskParams AssessmentResponse
  | Submitting RiskParams AssessmentResponse
  | Finished_task

fun submits_for :: "task \<Rightarrow> string \<Rightarrow> bool" where
  "submits_for (Submitting params a) b = (rp_borrower params = b)"
| "submits_for t b = False"

abbreviation in_submission :: "task \<Rightarrow> bool" where
  "in_submission t \<equiv> \<exists>b. submits_for t b"

text \<open>The whole configuration: the service and the calls in progress.\<close>

type_synonym 'z config = "'z svs \<times> task list"

section \<open>Steps\<close>

text \<open>
  Operations of other coroutines, each between two awaits. \<open>Chain_activity\<close> stands for what awaited
  reads do to the shared clients and windows; it leaves the service's own tables alone.
\<close>

datatype operation =
    Register RiskParams string
  | Unregister string
  | Snapshot_done string PositionSnapshot
  | Reset_breaker
  | Trip TripReason
  | Count_error
  | Configure KeeperConfig

fun run_operation :: "'z svs deps \<Rightarrow> operation \<Rightarrow> 'z svs \<Rightarrow> 'z svs" where
  "run_operation d (Register params sig) s = register params sig s"
| "run_operation d (Unregister b) s = unregister b s"
| "run_operation d (Snapshot_done b snap) s = snapshot_done b snap s"
| "run_operation d Reset_breaker s = service_reset_breaker s"
| "run_operation d (Trip r) s = s\<lparr>sv_breaker := trip r (sv_breaker s)\<rparr>"
| "run_operation d Count_error s = inc ERRORS s"
| "run_operation d (Configure c) s = snd (apply_config d c s)"

definition same_service :: "'z svs \<Rightarrow> 'z svs \<Rightarrow> bool" where
  "same_service s s' \<longleftrightarrow>
     sv_registry s' = sv_registry s \<and> sv_states s' = sv_states s \<and> sv_inflight s' = sv_inflight s \<and>
     sv_breaker s' = sv_breaker s \<and> sv_counters s' = sv_counters s \<and> sv_autonomous s' = sv_autonomous s \<and>
     sv_max_bumps s' = sv_max_bumps s"

inductive step :: "'z svs deps \<Rightarrow> 'z config \<Rightarrow> 'z config \<Rightarrow> bool" for d where
  Start: "protect_start d params sig s = (Inr (Inr sigma), s') \<Longrightarrow>
     step d (s, ts) (s', ts @ [Evaluating params])"
| Start_return: "protect_start d params sig s = (Inr (Inl r), s') \<Longrightarrow> step d (s, ts) (s', ts)"
| Start_raise: "protect_start d params sig s = (Inl e, s') \<Longrightarrow> step d (s, ts) (s', ts)"
| Evaluated: "i < length ts \<Longrightarrow> ts ! i = Evaluating params \<Longrightarrow>
     protect_assessed d params a plan s = (Inr p, s') \<Longrightarrow>
     step d (s, ts) (s', ts[i := Dry_running params a])"
| Evaluated_return: "i < length ts \<Longrightarrow> ts ! i = Evaluating params \<Longrightarrow>
     protect_assessed d params a plan s = (Inl r, s') \<Longrightarrow>
     step d (s, ts) (s', ts[i := Finished_task])"
| Simulated: "i < length ts \<Longrightarrow> ts ! i = Dry_running params a \<Longrightarrow>
     protect_simulated d params a sim s = (Inr u, s') \<Longrightarrow>
     step d (s, ts) (s', ts[i := Submitting params a])"
| Simulated_return: "i < length ts \<Longrightarrow> ts ! i = Dry_running params a \<Longrightarrow>
     protect_simulated d params a sim s = (Inl r, s') \<Longrightarrow>
     step d (s, ts) (s', ts[i := Finished_task])"
| Await_raise: "i < length ts \<Longrightarrow> ts ! i = Evaluating params \<or> ts ! i = Dry_running params a \<Longrightarrow>
     step d (s, ts) (s, ts[i := Finished_task])"
| Submitted: "i < length ts \<Longrightarrow> ts ! i = Submitting params a \<Longrightarrow>
     protect_submitted d params a result s = (r, s') \<Longrightarrow>
     step d (s, ts) (s', ts[i := Finished_task])"
| Operate: "step d (s, ts) (run_operation d opn s, ts)"
| Chain_activity: "same_service s s' \<Longrightarrow> step d (s, ts) (s', ts)"

inductive_cases stepE: "step d c c'"

inductive reachable :: "'z svs deps \<Rightarrow> 'z svs \<Rightarrow> 'z config \<Rightarrow> bool" for d s0 where
  Initial: "reachable d s0 (s0, [])"
| Step: "reachable d s0 c \<Longrightarrow> step d c c' \<Longrightarrow> reachable d s0 c'"

section \<open>What each segment does to the lock, the counters and the breaker\<close>

definition balance :: "'z svs \<Rightarrow> int" where
  "balance s = cnt SUBMITTED_C s - cnt RESTORED_C s - cnt REVERTED_C s"

lemma balance_frame [frame_simps]:
  "balance (register p g s) = balance s" "balance (set_state b st s) = balance s"
  "balance (do_release d b s) = balance s" "balance (s\<lparr>sv_inflight := f\<rparr>) = balance s"
  "balance (s\<lparr>sv_breaker := k\<rparr>) = balance s" "balance (s\<lparr>sv_vols := v\<rparr>) = balance s"
  "balance (unregister b s) = balance s"
  by (simp_all add: balance_def register_def set_state_def do_release_def unregister_def)

lemma balance_inc [frame_simps]:
  "balance (inc n s) = balance s + (if n = SUBMITTED_C then 1 else 0) -
     (if n = RESTORED_C then 1 else 0) - (if n = REVERTED_C then 1 else 0)"
  by (auto simp: balance_def counter_names)

lemma balance_trip [frame_simps]: "balance (count_trip s) = balance s"
  by (simp add: count_trip_def balance_inc counter_names)

lemma start_frame:
  assumes "protect_start d params sig s = (r, s')"
  shows "sv_inflight s' = sv_inflight s" "balance s' = balance s" "sv_breaker s' = sv_breaker s"
  using assms
  by (auto simp: protect_start_def service_sigma_for_def Let_def frame_simps counter_names
      split: if_splits list.splits prod.splits sum.splits)

lemma assessed_frame:
  assumes "protect_assessed d params a plan s = (r, s')"
  shows "sv_inflight s' = sv_inflight s" "balance s' = balance s" "sv_breaker s' = sv_breaker s"
  using assms
  by (auto simp: protect_assessed_def Let_def frame_simps counter_names split: if_splits option.splits)

lemma simulated_return:
  assumes "protect_simulated d params a sim s = (Inl r, s')"
  shows "\<forall>b. is_locked (sv_inflight s') b = is_locked (sv_inflight s) b" "balance s' = balance s"
    "sv_breaker s' = sv_breaker s"
  using assms
  by (auto simp: protect_simulated_def Let_def frame_simps counter_names acquire_def
      split: if_splits prod.splits bool.splits)

lemma simulated_go:
  assumes "protect_simulated d params a sim s = (Inr u, s')"
  shows "\<not> is_locked (sv_inflight s) (rp_borrower params)"
    "\<forall>b. is_locked (sv_inflight s') b = (is_locked (sv_inflight s) b \<or> b = rp_borrower params)"
    "balance s' = balance s + 1" "sv_breaker s' = sv_breaker s"
  using assms
  by (auto simp: protect_simulated_def Let_def frame_simps counter_names acquire_def can_start_def is_locked_def
      dict_simps split: if_splits prod.splits bool.splits)

lemma submitted_done:
  assumes "protect_submitted d params a result s = (r, s')"
  shows "\<forall>b. is_locked (sv_inflight s') b = (is_locked (sv_inflight s) b \<and> b \<noteq> rp_borrower params)"
    "balance s' = balance s - 1"
    "sv_breaker s' = record_success (sv_breaker s) \<or> sv_breaker s' = record_failure (sv_breaker s)"
  using assms
  by (auto simp: protect_submitted_def Let_def frame_simps counter_names split: sum.splits if_splits)

lemma operation_frame:
  "is_locked (sv_inflight (run_operation d opn s)) b = is_locked (sv_inflight s) b"
  "balance (run_operation d opn s) = balance s"
  by (cases opn; simp add: snapshot_done_def service_reset_breaker_def apply_config_def
      set_cooldown_seconds_def is_locked_def unregister_def frame_simps counter_names balance_def Let_def
      split: sum.split)+

lemma same_service_frame:
  assumes "same_service s s'"
  shows "sv_inflight s' = sv_inflight s" "balance s' = balance s" "sv_breaker s' = sv_breaker s"
  using assms by (simp_all add: same_service_def balance_def)

section \<open>The invariant\<close>

definition holders :: "string \<Rightarrow> task list \<Rightarrow> nat" where
  "holders b ts = length (filter (\<lambda>t. submits_for t b) ts)"

definition submissions :: "task list \<Rightarrow> nat" where
  "submissions ts = length (filter in_submission ts)"

definition lock_inv :: "'z config \<Rightarrow> bool" where
  "lock_inv c \<longleftrightarrow>
     (\<forall>b. holders b (snd c) = (if is_locked (sv_inflight (fst c)) b then 1 else 0)) \<and>
     balance (fst c) = int (submissions (snd c))"

lemma count_update:
  "i < length ts \<Longrightarrow> length (filter P (ts[i := t])) + (if P (ts ! i) then 1 else 0) =
     length (filter P ts) + (if P t then 1 else 0)"
proof (induction ts arbitrary: i)
  case (Cons a ts)
  then show ?case by (cases i) auto
qed simp

lemma holders_update:
  "i < length ts \<Longrightarrow> holders b (ts[i := t]) + (if submits_for (ts ! i) b then 1 else 0) =
     holders b ts + (if submits_for t b then 1 else 0)"
  unfolding holders_def by (rule count_update)

lemma submissions_update:
  "i < length ts \<Longrightarrow> submissions (ts[i := t]) + (if in_submission (ts ! i) then 1 else 0) =
     submissions ts + (if in_submission t then 1 else 0)"
  unfolding submissions_def by (rule count_update)

lemma lock_inv_same:
  assumes "lock_inv (s, ts)" "\<forall>b. is_locked (sv_inflight s') b = is_locked (sv_inflight s) b" "balance s' = balance s"
    "\<forall>b. holders b ts' = holders b ts" "submissions ts' = submissions ts"
  shows "lock_inv (s', ts')"
  using assms by (simp add: lock_inv_def)

lemma idle_update:
  assumes "i < length ts" "\<not> in_submission (ts ! i)" "\<not> in_submission t"
  shows "\<forall>b. holders b (ts[i := t]) = holders b ts" "submissions (ts[i := t]) = submissions ts"
  using assms holders_update [of i ts _ t] submissions_update [of i ts t] by auto

lemma lock_inv_step:
  assumes "step d (s, ts) (s', ts')" and inv: "lock_inv (s, ts)"
  shows "lock_inv (s', ts')"
  using assms(1)
proof (cases rule: step.cases)
  case (Start params sig sigma)
  then show ?thesis
    using inv start_frame [OF Start(2)] by (simp add: lock_inv_def holders_def submissions_def)
next
  case (Start_return params sig r)
  then show ?thesis using inv start_frame [OF Start_return(2)] by (simp add: lock_inv_def)
next
  case (Start_raise params sig e)
  then show ?thesis using inv start_frame [OF Start_raise(2)] by (simp add: lock_inv_def)
next
  case (Evaluated i params a plan p)
  then show ?thesis
    using assessed_frame [OF Evaluated(4)] by (intro lock_inv_same [OF inv]) (auto simp: idle_update)
next
  case (Evaluated_return i params a plan r)
  then show ?thesis
    using assessed_frame [OF Evaluated_return(4)] by (intro lock_inv_same [OF inv]) (auto simp: idle_update)
next
  case (Simulated i params a sim u)
  note g = simulated_go [OF Simulated(4)]
  have h: "holders b ts' = holders b ts + (if b = rp_borrower params then 1 else 0)" for b
    using holders_update [of i ts b "Submitting params a"] Simulated(1-3) by auto
  have "submissions ts' = submissions ts + 1"
    using submissions_update [of i ts "Submitting params a"] Simulated(1-3) by auto
  then show ?thesis using inv g h by (auto simp: lock_inv_def)
next
  case (Simulated_return i params a sim r)
  then show ?thesis
    using simulated_return [OF Simulated_return(4)] by (intro lock_inv_same [OF inv]) (auto simp: idle_update)
next
  case (Await_raise i params a)
  then show ?thesis by (intro lock_inv_same [OF inv]) (auto simp: idle_update)
next
  case (Submitted i params a result r)
  note g = submitted_done [OF Submitted(4)]
  have h: "holders b ts' + (if b = rp_borrower params then 1 else 0) = holders b ts" for b
    using holders_update [of i ts b Finished_task] Submitted(1-3) by auto
  have n: "submissions ts' + 1 = submissions ts"
    using submissions_update [of i ts Finished_task] Submitted(1-3) by auto
  have "holders b ts' = (if is_locked (sv_inflight s') b then 1 else 0)" for b
    using h [of b] inv g(1) by (cases "b = rp_borrower params"; cases "is_locked (sv_inflight s) b")
      (auto simp: lock_inv_def)
  then show ?thesis using inv g(2) n by (auto simp: lock_inv_def)
next
  case (Operate opn)
  then show ?thesis using inv operation_frame [of d opn s] by (simp add: lock_inv_def)
next
  case Chain_activity
  then show ?thesis using inv same_service_frame [OF Chain_activity(2)] by (simp add: lock_inv_def)
qed

lemma lock_inv_reachable:
  assumes "reachable d s0 c" "lock_inv (s0, [])"
  shows "lock_inv c"
  using assms
proof (induction rule: reachable.induct)
  case (Step c c')
  then show ?case by (cases c; cases c') (auto intro: lock_inv_step)
qed

section \<open>Mutual exclusion\<close>

definition fresh :: "'z svs \<Rightarrow> bool" where
  "fresh s \<longleftrightarrow> fl_locked (sv_inflight s) = [] \<and> sv_counters s = []"

lemma fresh_inv: "fresh s \<Longrightarrow> lock_inv (s, [])"
  by (simp add: fresh_def lock_inv_def holders_def submissions_def balance_def counter_value_def is_locked_def)

lemma holders_two:
  assumes "i < j" "j < length ts" "submits_for (ts ! i) b" "submits_for (ts ! j) b"
  shows "2 \<le> holders b ts"
proof -
  have "ts = take j ts @ ts ! j # drop (Suc j) ts" using assms(2) by (simp add: id_take_nth_drop)
  then have "holders b ts = holders b (take j ts) + holders b (ts ! j # drop (Suc j) ts)"
    by (metis holders_def filter_append length_append)
  moreover have "take j ts ! i \<in> set (take j ts)" using assms(1,2) by (intro nth_mem) simp
  then have "ts ! i \<in> set (filter (\<lambda>t. submits_for t b) (take j ts))" using assms(1,3) by simp
  then have "1 \<le> holders b (take j ts)"
    unfolding holders_def by (metis One_nat_def Suc_leI length_pos_if_in_set)
  moreover have "1 \<le> holders b (ts ! j # drop (Suc j) ts)" using assms(4) by (simp add: holders_def)
  ultimately show ?thesis by linarith
qed

lemma lock_inv_exclusive:
  assumes "lock_inv (s, ts)"
  shows "i < length ts \<Longrightarrow> j < length ts \<Longrightarrow> submits_for (ts ! i) b \<Longrightarrow> submits_for (ts ! j) b \<Longrightarrow> i = j"
    and "is_locked (sv_inflight s) b \<longleftrightarrow> (\<exists>t\<in>set ts. submits_for t b)"
proof -
  have h: "holders b ts = (if is_locked (sv_inflight s) b then 1 else 0)" using assms by (simp add: lock_inv_def)
  then have "\<not> 2 \<le> holders b ts" by simp
  then show "i = j" if "i < length ts" "j < length ts" "submits_for (ts ! i) b" "submits_for (ts ! j) b"
    using holders_two [of i j ts b] holders_two [of j i ts b] that by (cases i j rule: linorder_cases) auto
  have "(\<exists>t\<in>set ts. submits_for t b) \<longleftrightarrow> holders b ts \<noteq> 0"
    unfolding holders_def by (auto simp: filter_empty_conv)
  then show "is_locked (sv_inflight s) b \<longleftrightarrow> (\<exists>t\<in>set ts. submits_for t b)" using h by auto
qed

text \<open>
  C1: in every interleaving of any number of protective actions with monitoring, registration and
  operator commands, whatever the chain answers and whenever it raises, at most one call is submitting
  for a borrower; the lock is held exactly while one is; and the counter of submissions is the number of
  restored and reverted outcomes plus the submissions still in progress.
\<close>

theorem no_duplicate_rescue:
  assumes "reachable d s0 (s, ts)" and "fresh s0"
  shows "(\<forall>i j b. i < length ts \<and> j < length ts \<and> submits_for (ts ! i) b \<and> submits_for (ts ! j) b \<longrightarrow> i = j) \<and>
     (\<forall>b. is_locked (sv_inflight s) b \<longleftrightarrow> (\<exists>t\<in>set ts. submits_for t b)) \<and>
     cnt SUBMITTED_C s = cnt RESTORED_C s + cnt REVERTED_C s + int (submissions ts)"
proof -
  have inv: "lock_inv (s, ts)" using lock_inv_reachable [OF assms(1) fresh_inv [OF assms(2)]] .
  then have "balance s = int (submissions ts)" by (simp add: lock_inv_def)
  then show ?thesis using lock_inv_exclusive [OF inv] by (auto simp: balance_def)
qed

section \<open>The breaker under concurrency\<close>

text \<open>
  C15: while the breaker is open no segment starts a protective action, and it stays open through every
  step except an operator's reset.
\<close>

theorem pause_blocks_new_actions:
  assumes "step d (s, ts) (s', ts')" and "\<not> allow (sv_breaker s)"
  shows "length ts' = length ts \<and> (allow (sv_breaker s') \<longrightarrow> s' = service_reset_breaker s \<and> ts' = ts)"
  using assms(1)
proof (cases rule: step.cases)
  case (Start params sig sigma)
  then show ?thesis using protect_start_cases [OF Start(2)] assms(2) by simp
next
  case (Operate opn)
  then show ?thesis
    using assms(2)
    by (cases opn) (auto simp: snapshot_done_def apply_config_def set_max_consecutive_failures_def allow_def
        unregister_def Let_def breaker_op_defs split: sum.splits if_splits)
next
  case (Submitted i params a result r)
  then show ?thesis using submitted_done(3) [OF Submitted(4)] assms(2) by (auto simp: breaker_op_defs)
qed (use assms(2) in \<open>auto dest: start_frame assessed_frame simulated_return simulated_go same_service_frame\<close>)

section \<open>Runs of the example\<close>

abbreviation demo_sim :: SimulationResult where
  "demo_sim \<equiv> sim_ok 2159568087 2175825000 0"

lemma demo_fresh: "fresh demo_service"
  by (simp add: fresh_def demo_service_def)

lemma demo_assessed:
  "protect_assessed demo_deps demo_params demo_response (Some demo_plan) s = (Inr demo_plan, inc ASSESSED s)"
  by (simp add: protect_assessed_def demo_deps_def demo_response_def Let_def)

lemma demo_go:
  assumes "fl_locked (sv_inflight s) = []" "fl_cooldown_until (sv_inflight s) = []"
  shows "\<exists>s'. protect_simulated demo_deps demo_params a demo_sim s = (Inr (), s')"
  using assms
  by (simp add: protect_simulated_def demo_deps_def sim_ok_def acquire_def can_start_def is_locked_def
      in_cooldown_def Let_def)

lemma demo_reach_dry:
  "reachable demo_deps demo_service (inc ASSESSED after_start, [Dry_running demo_params demo_response])"
proof -
  have 1: "reachable demo_deps demo_service (after_start, [Evaluating demo_params])"
    using Step [OF Initial Start [OF demo_start]] by simp
  have "step demo_deps (after_start, [Evaluating demo_params])
      (inc ASSESSED after_start, [Evaluating demo_params][0 := Dry_running demo_params demo_response])"
    by (rule Evaluated [OF _ _ demo_assessed]) simp_all
  then show ?thesis using Step [OF 1] by simp
qed

theorem no_duplicate_rescue_witness:
  "\<exists>s ts. reachable demo_deps demo_service (s, ts) \<and> ts = [Submitting demo_params demo_response] \<and>
     is_locked (sv_inflight s) ''alice'' \<and> cnt SUBMITTED_C s = cnt RESTORED_C s + cnt REVERTED_C s + 1"
proof -
  obtain s where s: "protect_simulated demo_deps demo_params demo_response demo_sim (inc ASSESSED after_start) = (Inr (), s)"
    using demo_go [of "inc ASSESSED after_start"] by (auto simp: inc_def after_start_def demo_service_def)
  have "step demo_deps (inc ASSESSED after_start, [Dry_running demo_params demo_response])
      (s, [Dry_running demo_params demo_response][0 := Submitting demo_params demo_response])"
    by (rule Simulated [OF _ _ s]) simp_all
  then have r: "reachable demo_deps demo_service (s, [Submitting demo_params demo_response])"
    using Step [OF demo_reach_dry] by simp
  have "submissions [Submitting demo_params demo_response] = 1" by (simp add: submissions_def)
  then show ?thesis
    using no_duplicate_rescue [OF r demo_fresh] r by (auto simp: demo_params_def)
qed

definition paused_service :: "unit service_state_scheme" where
  "paused_service = (inc ASSESSED after_start)\<lparr>sv_breaker := trip MANUAL (sv_breaker after_start)\<rparr>"

lemma demo_reach_paused:
  "reachable demo_deps demo_service (paused_service, [Dry_running demo_params demo_response])"
proof -
  have e: "run_operation demo_deps (Trip MANUAL) (inc ASSESSED after_start) = paused_service"
    by (simp add: paused_service_def)
  have "step demo_deps (inc ASSESSED after_start, [Dry_running demo_params demo_response])
     (paused_service, [Dry_running demo_params demo_response])"
    unfolding e [symmetric] by (rule Operate)
  then show ?thesis by (rule Step [OF demo_reach_dry])
qed

lemma paused_closed: "\<not> allow (sv_breaker paused_service)"
  by (simp add: paused_service_def breaker_op_defs)

lemma paused_go: "\<exists>s'. protect_simulated demo_deps demo_params demo_response demo_sim paused_service = (Inr (), s')"
  by (rule demo_go) (simp_all add: paused_service_def inc_def after_start_def demo_service_def)

theorem pause_blocks_new_actions_witness:
  "\<exists>s' ts'. step demo_deps (paused_service, [Dry_running demo_params demo_response]) (s', ts') \<and>
     length ts' = 1 \<and> \<not> allow (sv_breaker s')"
proof -
  obtain s' where s: "protect_simulated demo_deps demo_params demo_response demo_sim paused_service = (Inr (), s')"
    using paused_go by blast
  have st: "step demo_deps (paused_service, [Dry_running demo_params demo_response])
      (s', [Dry_running demo_params demo_response][0 := Submitting demo_params demo_response])"
    by (rule Simulated [OF _ _ s]) simp_all
  have "\<not> allow (sv_breaker s')" using simulated_go(4) [OF s] paused_closed by simp
  then show ?thesis
    using pause_blocks_new_actions [OF st paused_closed] st
    by (intro exI [of _ s'] exI [of _ "[Dry_running demo_params demo_response][0 := Submitting demo_params demo_response]"]) simp
qed

text \<open>
  The breaker is only asked when an action starts. In this run the operator pauses the keeper while a
  dry run is awaited, and the submission still goes out of the paused keeper.
\<close>

lemma submission_while_paused:
  "\<exists>s s' ts'. reachable demo_deps demo_service (s, [Dry_running demo_params demo_response]) \<and>
     \<not> allow (sv_breaker s) \<and>
     step demo_deps (s, [Dry_running demo_params demo_response]) (s', ts') \<and>
     ts' = [Submitting demo_params demo_response] \<and> \<not> allow (sv_breaker s')"
proof -
  obtain s' where s: "protect_simulated demo_deps demo_params demo_response demo_sim paused_service = (Inr (), s')"
    using paused_go by blast
  have "step demo_deps (paused_service, [Dry_running demo_params demo_response])
      (s', [Dry_running demo_params demo_response][0 := Submitting demo_params demo_response])"
    by (rule Simulated [OF _ _ s]) simp_all
  then show ?thesis
    using demo_reach_paused paused_closed simulated_go(4) [OF s]
    by (intro exI [of _ paused_service] exI [of _ s'] exI [of _ "[Submitting demo_params demo_response]"]) simp
qed

text \<open>
  The displayed state of a borrower does not follow its lock: when a second action assessed
  concurrently is declined, the position shows as declined while its rescue is being submitted.
\<close>

lemma declined_while_submitting:
  "\<exists>s ts. reachable demo_deps demo_service (s, ts) \<and> is_locked (sv_inflight s) ''alice'' \<and>
     Submitting demo_params demo_response \<in> set ts \<and> state_of ''alice'' s = DECLINED"
proof -
  have 1: "reachable demo_deps demo_service (after_start, [Evaluating demo_params])"
    using Step [OF Initial Start [OF demo_start]] by simp
  have again: "protect_start demo_deps demo_params ''0x00'' after_start = (Inr (Inr (Fin 0)), after_start)"
    by (simp add: protect_start_def demo_deps_def demo_params_def demo_service_def register_def allow_def
      can_start_def is_locked_def in_cooldown_def set_state_def service_sigma_for_def sigma_for_def volatility_for_def
      demo_sigma dict_setdefault_def Let_def after_start_def)
  have 2: "reachable demo_deps demo_service (after_start, [Evaluating demo_params, Evaluating demo_params])"
    using Step [OF 1 Start [OF again]] by simp
  have "step demo_deps (after_start, [Evaluating demo_params, Evaluating demo_params])
     (inc ASSESSED after_start, [Evaluating demo_params, Evaluating demo_params][0 := Dry_running demo_params demo_response])"
    by (rule Evaluated [OF _ _ demo_assessed]) simp_all
  then have 3: "reachable demo_deps demo_service (inc ASSESSED after_start,
      [Dry_running demo_params demo_response, Evaluating demo_params])"
    using Step [OF 2] by simp
  obtain s where s: "protect_simulated demo_deps demo_params demo_response demo_sim (inc ASSESSED after_start) = (Inr (), s)"
    using demo_go [of "inc ASSESSED after_start"] by (auto simp: inc_def after_start_def demo_service_def)
  have "step demo_deps (inc ASSESSED after_start, [Dry_running demo_params demo_response, Evaluating demo_params])
     (s, [Dry_running demo_params demo_response, Evaluating demo_params][0 := Submitting demo_params demo_response])"
    by (rule Simulated [OF _ _ s]) simp_all
  then have 4: "reachable demo_deps demo_service (s, [Submitting demo_params demo_response, Evaluating demo_params])"
    using Step [OF 3] by simp
  let ?s' = "inc DECLINED_C (set_state ''alice'' DECLINED (inc ASSESSED s))"
  have dec: "protect_assessed demo_deps demo_params demo_response None s =
     (Inl (response ''alice'' DECLINED (Some demo_response) None), ?s')"
    by (simp add: protect_assessed_def demo_params_def demo_response_def Let_def)
  have "step demo_deps (s, [Submitting demo_params demo_response, Evaluating demo_params])
     (?s', [Submitting demo_params demo_response, Evaluating demo_params][1 := Finished_task])"
    by (rule Evaluated_return [OF _ _ dec]) simp_all
  then have 5: "reachable demo_deps demo_service (?s', [Submitting demo_params demo_response, Finished_task])"
    using Step [OF 4] by simp
  have "is_locked (sv_inflight s) ''alice''" using simulated_go(2) [OF s] by (simp add: demo_params_def)
  then show ?thesis
    using 5 by (intro exI [of _ ?s'] exI [of _ "[Submitting demo_params demo_response, Finished_task]"]) simp
qed

end
