(* ===== verification/Chain_Frames.thy ===== *)
theory Chain_Frames
  imports Submitter
begin

text \<open>
  What an awaited computation leaves alone. \<open>io_keeps R m\<close> says that every run of \<open>m\<close>, returning or raising,
  relates the state before to the state after by \<open>R\<close>; the rules follow the shape of the program. The
  locale is the contract between the chain side and a client with tables of its own: whatever
  relation the client asks for that is blind to the clients' caches, and that the nodes keep, is kept by every
  chain operation of the backend over such nodes, retries and failover included.
\<close>

section \<open>Rules\<close>

definition io_keeps :: "('w \<Rightarrow> 'w \<Rightarrow> bool) \<Rightarrow> ('w, 'a) io \<Rightarrow> bool" where
  "io_keeps R m \<longleftrightarrow> (\<forall>s r s'. m s = (r, s') \<longrightarrow> R s s')"

lemma io_keepsD: "io_keeps R m \<Longrightarrow> m s = (r, s') \<Longrightarrow> R s s'"
  by (auto simp: io_keeps_def)

definition preorder_rel :: "('w \<Rightarrow> 'w \<Rightarrow> bool) \<Rightarrow> bool" where
  "preorder_rel R \<longleftrightarrow> (\<forall>s. R s s) \<and> (\<forall>s t u. R s t \<longrightarrow> R t u \<longrightarrow> R s u)"

lemma io_keeps_bind:
  assumes "preorder_rel R" "io_keeps R m" "\<And>a. io_keeps R (f a)"
  shows "io_keeps R (io_bind m f)"
  using assms unfolding io_keeps_def preorder_rel_def io_bind_def
  by (auto split: prod.splits sum.splits) blast+

lemma io_keeps_try:
  assumes "preorder_rel R" "io_keeps R m" "\<And>e. io_keeps R (h e)"
  shows "io_keeps R (io_try m h)"
  using assms unfolding io_keeps_def preorder_rel_def io_try_def
  by (auto split: prod.splits sum.splits) blast+

section \<open>Nodes and vaults that keep a relation\<close>

definition node_keeps :: "('z cs \<Rightarrow> 'z cs \<Rightarrow> bool) \<Rightarrow> 'z cs node \<Rightarrow> bool" where
  "node_keeps R nd \<longleftrightarrow>
     (\<forall>k. io_keeps R (nd_sleep nd k)) \<and> (\<forall>i. io_keeps R (nd_getPool nd i)) \<and>
     (\<forall>i. io_keeps R (nd_getPriceOracle nd i)) \<and> (\<forall>p b i. io_keeps R (nd_getUserAccountData nd p b i)) \<and>
     (\<forall>p b i. io_keeps R (nd_getReserveData nd p b i)) \<and> (\<forall>p b i. io_keeps R (nd_getAssetPrice nd p b i)) \<and>
     (\<forall>p b q i. io_keeps R (nd_allowance nd p b q i)) \<and> (\<forall>x i. io_keeps R (nd_quoteExactOutputSingle nd x i))"

definition vault_keeps :: "('s \<Rightarrow> 's \<Rightarrow> bool) \<Rightarrow> 's vault_node \<Rightarrow> bool" where
  "vault_keeps R vt \<longleftrightarrow>
     (\<forall>x k i. io_keeps R (vt_call vt x k i)) \<and> (\<forall>k i. io_keeps R (vt_nonce vt k i)) \<and>
     (\<forall>i. io_keeps R (vt_chain_id vt i)) \<and> (\<forall>x k n c i. io_keeps R (vt_build vt x k n c i)) \<and>
     (\<forall>r i. io_keeps R (vt_send_raw vt r i)) \<and> (\<forall>h i. io_keeps R (vt_wait vt h i)) \<and>
     (\<forall>a b c n i. io_keeps R (vt_approve vt a b c n i)) \<and> (\<forall>a b n c i. io_keeps R (vt_repay vt a b n c i)) \<and>
     (\<forall>h i. io_keeps R (vt_wait_fallback vt h i))"

lemma node_keepsD:
  assumes "node_keeps R nd"
  shows "io_keeps R (nd_sleep nd k)" "io_keeps R (nd_getPool nd i)" "io_keeps R (nd_getPriceOracle nd i)"
    "io_keeps R (nd_getUserAccountData nd p b i)" "io_keeps R (nd_getReserveData nd p b i)"
    "io_keeps R (nd_getAssetPrice nd p b i)" "io_keeps R (nd_allowance nd p b q i)"
    "io_keeps R (nd_quoteExactOutputSingle nd x i)"
  using assms by (simp_all add: node_keeps_def del: split_paired_All)

lemma vault_keepsD:
  assumes "vault_keeps R vt"
  shows "io_keeps R (vt_call vt x k i)" "io_keeps R (vt_nonce vt k i)" "io_keeps R (vt_chain_id vt i)"
    "io_keeps R (vt_build vt x k n c i)" "io_keeps R (vt_send_raw vt r i)" "io_keeps R (vt_wait vt h i)"
    "io_keeps R (vt_approve vt a b t n i)" "io_keeps R (vt_repay vt a b n t i)" "io_keeps R (vt_wait_fallback vt h i)"
  using assms by (simp_all add: vault_keeps_def del: split_paired_All)

section \<open>The contract\<close>

locale chain_frame =
  fixes R :: "'z pipeline_state_scheme \<Rightarrow> 'z pipeline_state_scheme \<Rightarrow> bool"
  assumes R_refl: "R s s" and R_trans: "R s t \<Longrightarrow> R t u \<Longrightarrow> R s u"
    and R_client: "R s (s\<lparr>ch_client := c\<rparr>)" and R_pool: "R s (s\<lparr>ch_pool_address := a\<rparr>)"
    and R_oracle: "R s (s\<lparr>ch_oracle_address := a\<rparr>)" and R_vols: "R s (s\<lparr>pp_vols := v\<rparr>)"
begin

lemma pre: "preorder_rel R"
  unfolding preorder_rel_def using R_refl R_trans by blast

lemmas k_bind = io_keeps_bind [OF pre] and k_try = io_keeps_try [OF pre]

lemma k_return: "io_keeps R (io_return a)" and k_raise: "io_keeps R (io_raise e)" and k_lift: "io_keeps R (io_lift r)"
  by (simp_all add: io_keeps_def R_refl)

lemmas k_rules = k_return k_raise k_lift node_keepsD

lemma k_try_endpoint:
  assumes nd: "node_keeps R nd" and fn: "\<And>i. io_keeps R (fn i)"
  shows "try_endpoint fn (nd_sleep nd) idx a n l s = (out, s') \<Longrightarrow> R s s'"
proof (induction n arbitrary: a l s)
  case (Suc n)
  obtain r s1 where f: "fn idx s = (r, s1)" by fastforce
  obtain q s2 where sl: "nd_sleep nd a s1 = (q, s2)" by fastforce
  have s1: "R s s1" and s2: "R s1 s2" by (rule io_keepsD [OF fn f], rule io_keepsD [OF node_keepsD(1) [OF nd] sl])
  show ?case
    using Suc.prems f sl R_trans [OF s1 R_client] R_trans [OF s1 s2] s1 R_trans [OF R_trans [OF s1 s2]] Suc.IH
    by (cases r; cases q) (auto split: if_splits)
qed (simp add: R_refl)

lemma k_try_endpoints:
  assumes nd: "node_keeps R nd" and fn: "\<And>i. io_keeps R (fn i)"
  shows "try_endpoints fn (nd_sleep nd) t k l s = (r, s') \<Longrightarrow> R s s'"
proof (induction k arbitrary: l s)
  case (Suc k)
  obtain out s1 where e: "try_endpoint fn (nd_sleep nd) ((active s + (t - Suc k)) mod t) 1 (nat (cl_max_retries (ch_client s))) l s
      = (out, s1)" by fastforce
  have "R s s1" by (rule k_try_endpoint [OF nd fn e])
  then show ?case using Suc e R_trans by (cases out) (auto simp: Let_def)
qed (simp add: R_refl)

lemma k_via: "node_keeps R nd \<Longrightarrow> (\<And>i. io_keeps R (fn i)) \<Longrightarrow> io_keeps R (via nd fn)"
  unfolding io_keeps_def [of R "via nd fn"] client_call_def Let_def using k_try_endpoints by blast

lemma k_pool:
  assumes nd: "node_keeps R nd"
  shows "io_keeps R (pool_address nd)"
proof -
  have "io_keeps R (\<lambda>s. (Inr p, s\<lparr>ch_pool_address := Some p\<rparr>))" for p by (auto simp: io_keeps_def R_pool)
  then have m: "io_keeps R (io_bind (via nd (nd_getPool nd)) (\<lambda>a.
      io_bind (io_lift (nd_checksum nd a)) (\<lambda>p s. (Inr p, s\<lparr>ch_pool_address := Some p\<rparr>))))"
    using nd by (intro k_bind k_via k_rules)
  show ?thesis unfolding io_keeps_def [of R "pool_address nd"] pool_address_def
    by (auto split: option.splits simp: R_refl dest: io_keepsD [OF m])
qed

lemma k_oracle:
  assumes nd: "node_keeps R nd"
  shows "io_keeps R (oracle_address nd)"
proof -
  have "io_keeps R (\<lambda>s. (Inr p, s\<lparr>ch_oracle_address := Some p\<rparr>))" for p by (auto simp: io_keeps_def R_oracle)
  then have m: "io_keeps R (io_bind (via nd (nd_getPriceOracle nd)) (\<lambda>a.
      io_bind (io_lift (nd_checksum nd a)) (\<lambda>p s. (Inr p, s\<lparr>ch_oracle_address := Some p\<rparr>))))"
    using nd by (intro k_bind k_via k_rules)
  show ?thesis unfolding io_keeps_def [of R "oracle_address nd"] oracle_address_def
    by (auto split: option.splits simp: R_refl dest: io_keepsD [OF m])
qed

lemma k_account: "node_keeps R nd \<Longrightarrow> io_keeps R (get_user_account_data nd b)"
  unfolding get_user_account_data_def
  by (intro k_bind k_via k_pool k_rules) (auto simp: k_rules split: prod.split)

lemma k_reserve: "node_keeps R nd \<Longrightarrow> io_keeps R (get_reserve_info nd a)"
  unfolding get_reserve_info_def
  by (rule k_bind, rule k_lift, rule k_bind, intro k_via k_bind k_pool k_rules) (auto intro!: k_bind k_rules split: prod.split)

lemma k_price: "node_keeps R nd \<Longrightarrow> io_keeps R (get_asset_price nd a)"
  unfolding get_asset_price_def by (intro k_bind k_via k_oracle k_rules)

lemma k_allowance: "node_keeps R nd \<Longrightarrow> io_keeps R (allowance nd a b c)"
  unfolding allowance_def by (intro k_bind k_via k_rules)

lemma k_quote: "node_keeps R nd \<Longrightarrow> io_keeps R (quote_exact_output_single nd a b c fee)"
  unfolding quote_exact_output_single_def
  by (cases fee) (auto intro!: k_bind k_via k_rules split: prod.split)

lemma k_poll: "node_keeps R nd \<Longrightarrow> io_keeps R (poll_once nd b t)"
  unfolding poll_once_def Let_def by (intro k_bind k_account k_rules)

lemma k_score: "node_keeps R nd \<Longrightarrow> io_keeps R (score_candidates nd b v a out reserve price cs)"
  by (induction cs) (auto simp: quoted_amount_in_def Let_def
      intro!: k_bind k_try k_reserve k_price k_quote k_allowance k_rules)

lemma k_select: "node_keeps R nd \<Longrightarrow> io_keeps R (select_best nd b v a out cs)"
  unfolding select_best_def evaluate_collaterals_def by (intro k_bind k_reserve k_price k_score k_rules)

lemma k_sigma: "io_keeps R (pipeline_sigma_for a)"
  by (auto simp: io_keeps_def pipeline_sigma_for_def R_vols split: prod.splits)

lemma k_decline: "io_keeps R (decline hf risk r reason)"
  unfolding decline_def by (intro k_bind k_rules)

lemma k_evaluate: "node_keeps R nd \<Longrightarrow> io_keeps R (evaluate lm vault nd params sigma gas)"
  unfolding evaluate_def Let_def
  by (intro k_bind k_poll) (auto split: option.split list.split
    intro!: k_bind k_sigma k_decline k_reserve k_price k_select k_rules)

lemma k_assess: "node_keeps R nd \<Longrightarrow> io_keeps R (assess lm vault nd params sigma gas)"
  unfolding assess_def by (intro k_bind k_evaluate) (auto simp: k_return split: prod.split)

lemmas v_rules = k_rules vault_keepsD

lemma k_eth_call: "node_keeps R nd \<Longrightarrow> vault_keeps R vt \<Longrightarrow> io_keeps R (eth_call nd vt keeper plan params sig r a)"
  unfolding eth_call_def by (intro k_bind k_via v_rules)

lemma k_sim_loop:
  assumes nd: "node_keeps R nd" and vt: "vault_keeps R vt"
  shows "sim_loop n mb nd vt keeper plan params sig r a b l s = (q, s') \<Longrightarrow> R s s'"
proof (induction n arbitrary: r a b l s)
  case (Suc n)
  obtain o' s1 where e: "eth_call nd vt keeper plan params sig r (amount_in_maximum_of a (pl_max_slippage_bps plan)) s = (o', s1)"
    by fastforce
  have s1: "R s s1" by (rule io_keepsD [OF k_eth_call [OF nd vt] e])
  let ?r = "bump_repay r"
  obtain q' s2 where qt: "quote_exact_output_single nd (pl_collateral_asset plan) (pl_debt_asset plan)
      (?r + ?r * FLASH_PREMIUM_BPS div BPS) (Some (pl_fee_tier plan)) s1 = (q', s2)" by fastforce
  have s2: "R s1 s2" by (rule io_keepsD [OF k_quote [OF nd] qt])
  show ?case
    using Suc.prems e qt s1 R_trans [OF s1 s2] R_trans [OF R_trans [OF s1 s2]] Suc.IH
    by (auto simp: Let_def R_refl split: if_splits sum.splits exn.splits)
qed (simp add: R_refl)

lemma k_simulate: "node_keeps R nd \<Longrightarrow> vault_keeps R vt \<Longrightarrow> io_keeps R (simulate mb nd vt keeper plan params sig)"
  unfolding simulate_def io_keeps_def using k_sim_loop by blast

lemma k_direct: "vault_keeps R vt \<Longrightarrow> io_keeps R (direct_send vt account x i)"
  unfolding direct_send_def by (intro k_bind v_rules) (auto simp: k_return split: prod.split)

lemma k_fallback: "vault_keeps R vt \<Longrightarrow> io_keeps R (fallback_send nd vt plan r i)"
  unfolding fallback_send_def by (intro k_bind v_rules) (auto simp: k_return split: prod.split)

lemma k_send:
  assumes vt: "vault_keeps R vt"
  shows "io_keeps R (send_tx nd vt account plan params sig r a i)"
proof -
  have "io_keeps R (\<lambda>s. case direct_send vt account x i s of
         (Inr r, s') \<Rightarrow> (Inr r, s')
       | (Inl e, s') \<Rightarrow> if fallback_trigger e then fallback_send nd vt plan r i s' else (Inl e, s'))" for x
    unfolding io_keeps_def
    by (auto split: prod.splits sum.splits if_splits dest: io_keepsD [OF k_direct [OF vt]] io_keepsD [OF k_fallback [OF vt]] intro: R_trans)
  then show ?thesis unfolding send_tx_def by (intro k_bind k_lift)
qed

lemma k_submit: "node_keeps R nd \<Longrightarrow> vault_keeps R vt \<Longrightarrow> io_keeps R (submit nd vt account plan params sig r a)"
  unfolding submit_def Let_def
  by (intro k_bind k_via k_send k_lift) (auto intro!: k_bind k_account k_rules split: prod.split)

end

end
