(* ===== verification/Service_Refinement.thy ===== *)
theory Service_Refinement
  imports Service_Concurrency Chain_Frames
begin

text \<open>
  The sequential functions refine the interleaved steps: a call of \<^verbatim>\<open>protect\<close>, or a pass of the worker, is a
  run of the step relation, so what holds in every reachable configuration holds around the functions too.
  The chain side enters through the contract of \<open>Chain_Frames\<close>, interpreted on the relation that
  leaves the service's own tables alone.
\<close>

section \<open>Quiet collaborators\<close>

text \<open>
  The awaited calls of one protective action, seen without other tasks: they may change the clients and
  the caches but not the service's tables.
\<close>

definition quiet_deps :: "'z svs deps \<Rightarrow> bool" where
  "quiet_deps d \<longleftrightarrow> node_keeps same_service (dp_node d) \<and> vault_keeps same_service (dp_vault d) \<and>
     (\<forall>t i. io_keeps same_service (dp_hash_params d t i))"

interpretation sv: chain_frame same_service
  by unfold_locales (auto simp: same_service_def)

lemma quiet_depsD:
  assumes "quiet_deps d"
  shows "node_keeps same_service (dp_node d)" "vault_keeps same_service (dp_vault d)"
    "io_keeps same_service (dp_hash_params d t i)"
  using assms by (simp_all add: quiet_deps_def del: split_paired_All)

lemma demo_sign_keeps: "quiet_deps d \<Longrightarrow> io_keeps same_service (demo_sign d params sig)"
  unfolding demo_sign_def resolve_demo_signature_def
  by (auto dest: quiet_depsD split: option.split intro!: sv.k_try sv.k_bind sv.k_via sv.k_return sv.k_lift)

lemma sample_keeps:
  assumes "node_keeps same_service nd"
  shows "io_keeps same_service (sample_price sv_vols (\<lambda>v s. s\<lparr>sv_vols := v\<rparr>) w nd a)"
proof -
  have "io_keeps same_service (\<lambda>s. case record_price w a v (sv_vols s) of
         (Inl e, vols') \<Rightarrow> (Inl e, s\<lparr>sv_vols := vols'\<rparr>)
       | (Inr x, vols') \<Rightarrow> (Inr v, s\<lparr>sv_vols := vols'\<rparr>))" for v
    by (auto simp: io_keeps_def same_service_def split: prod.splits sum.splits)
  then show ?thesis unfolding sample_price_def using assms
    by (intro sv.k_bind sv.k_price sv.k_lift)
qed

section \<open>Runs\<close>

inductive steps :: "'z svs deps \<Rightarrow> 'z config \<Rightarrow> 'z config \<Rightarrow> bool" for d where
  steps_refl: "steps d c c"
| steps_step: "steps d c c' \<Longrightarrow> step d c' c'' \<Longrightarrow> steps d c c''"

lemma steps_one: "step d c c' \<Longrightarrow> steps d c c'"
  by (rule steps_step [OF steps_refl])

lemma steps_trans: "steps d c' c'' \<Longrightarrow> steps d c c' \<Longrightarrow> steps d c c''"
  by (induction rule: steps.induct) (auto intro: steps_step)

lemma reachable_steps: "steps d c c' \<Longrightarrow> reachable d s0 c \<Longrightarrow> reachable d s0 c'"
  by (induction rule: steps.induct) (auto intro: Step)

text \<open>
  \<open>done_by d s s'\<close>: beside any calls in progress, steps lead from \<open>s\<close> to \<open>s'\<close> and leave only finished calls behind.
\<close>

definition done_by :: "'z svs deps \<Rightarrow> 'z svs \<Rightarrow> 'z svs \<Rightarrow> bool" where
  "done_by d s s' \<longleftrightarrow> (\<forall>ts. \<exists>n. steps d (s, ts) (s', ts @ replicate n Finished_task))"

lemma done_by_refl: "done_by d s s"
  unfolding done_by_def by (auto intro!: exI [of _ 0] steps_refl)

lemma done_by_trans:
  assumes "done_by d s t" "done_by d t u"
  shows "done_by d s u"
  unfolding done_by_def
proof
  fix ts
  obtain n where n: "steps d (s, ts) (t, ts @ replicate n Finished_task)" using assms(1) unfolding done_by_def by blast
  obtain m where "steps d (t, ts @ replicate n Finished_task) (u, (ts @ replicate n Finished_task) @ replicate m Finished_task)"
    using assms(2) unfolding done_by_def by blast
  then show "\<exists>n. steps d (s, ts) (u, ts @ replicate n Finished_task)"
    using steps_trans n by (intro exI [of _ "n + m"]) (simp add: replicate_add)
qed

lemma done_by_step: "(\<And>ts. step d (s, ts) (s', ts)) \<Longrightarrow> done_by d s s'"
  unfolding done_by_def by (auto intro!: exI [of _ 0] steps_one)

lemma done_by_chain: "same_service s s' \<Longrightarrow> done_by d s s'"
  by (rule done_by_step) (rule Chain_activity)

lemma done_by_operation: "done_by d s (run_operation d opn s)"
  by (rule done_by_step) (rule Operate)

text \<open>One call in progress, in the last place.\<close>

definition call_done :: "'z svs deps \<Rightarrow> task \<Rightarrow> 'z svs \<Rightarrow> 'z svs \<Rightarrow> bool" where
  "call_done d t s s' \<longleftrightarrow> (\<forall>ts. steps d (s, ts @ [t]) (s', ts @ [Finished_task]))"

lemma call_done_chain: "same_service s s1 \<Longrightarrow> call_done d t s1 s' \<Longrightarrow> call_done d t s s'"
  unfolding call_done_def using steps_trans steps_one Chain_activity by meson

lemma call_done_finish:
  "(\<And>i ts. i < length ts \<Longrightarrow> ts ! i = t \<Longrightarrow> step d (s, ts) (s', ts[i := Finished_task])) \<Longrightarrow> call_done d t s s'"
  unfolding call_done_def
proof
  fix ts
  assume h: "\<And>i ts. i < length ts \<Longrightarrow> ts ! i = t \<Longrightarrow> step d (s, ts) (s', ts[i := Finished_task])"
  show "steps d (s, ts @ [t]) (s', ts @ [Finished_task])"
    using h [of "length ts" "ts @ [t]"] by (auto intro: steps_one)
qed

lemma call_done_next:
  assumes "\<And>i ts. i < length ts \<Longrightarrow> ts ! i = t \<Longrightarrow> step d (s, ts) (s1, ts[i := t1])" "call_done d t1 s1 s'"
  shows "call_done d t s s'"
  unfolding call_done_def
proof
  fix ts
  have "steps d (s, ts @ [t]) (s1, ts @ [t1])"
    using assms(1) [of "length ts" "ts @ [t]"] by (auto intro: steps_one)
  then show "steps d (s, ts @ [t]) (s', ts @ [Finished_task])"
    using assms(2) steps_trans unfolding call_done_def by blast
qed

lemma call_done_start:
  assumes "\<And>ts. step d (s, ts) (s1, ts @ [t])" "call_done d t s1 s'"
  shows "done_by d s s'"
  unfolding done_by_def
proof
  fix ts
  have "steps d (s, ts) (s', ts @ [Finished_task])"
    using assms steps_trans steps_one unfolding call_done_def by blast
  then show "\<exists>n. steps d (s, ts) (s', ts @ replicate n Finished_task)" by (intro exI [of _ 1]) simp
qed

section \<open>protect\<close>

lemma submit_run:
  assumes "quiet_deps d" "protect_submit d params a sig p sim s = (r, s')"
  shows "call_done d (Submitting params a) s s'"
proof -
  obtain q s1 where q: "submit (dp_node d) (dp_vault d) (dp_keeper d) p params sig (sr_repay_amount sim) (sr_amount_in_maximum sim) s
      = (q, s1)" by fastforce
  have s1: "same_service s s1"
    by (rule io_keepsD [OF sv.k_submit q]) (use assms(1) in \<open>auto dest: quiet_depsD\<close>)
  have "snd (protect_submitted d params a q s1) = s'"
    using assms(2) q by (auto simp: protect_submit_def split: prod.splits)
  then have "call_done d (Submitting params a) s1 s'"
    by (intro call_done_finish Submitted) (auto intro: prod_eqI)
  then show ?thesis using s1 by (rule call_done_chain [rotated])
qed

lemma simulation_run:
  assumes "quiet_deps d" "protect_after_simulation d params a sig p sim s = (r, s')"
  shows "call_done d (Dry_running params a) s s'"
proof (cases "protect_simulated d params a sim s")
  case (Pair o' s1)
  show ?thesis
  proof (cases o')
    case (Inl x)
    then show ?thesis using Pair assms(2)
      by (intro call_done_finish Simulated_return) (auto simp: protect_after_simulation_def)
  next
    case (Inr u)
    then have "protect_submit d params a sig p sim s1 = (r, s')" using Pair assms(2) by (simp add: protect_after_simulation_def)
    then have rest: "call_done d (Submitting params a) s1 s'" by (rule submit_run [OF assms(1)])
    show ?thesis
    proof (rule call_done_next [OF _ rest])
      fix i and ts :: "task list"
      assume "i < length ts" "ts ! i = Dry_running params a"
      then show "step d (s, ts) (s1, ts[i := Submitting params a])" by (rule Simulated [where sim = sim and u = u]) (simp add: Pair Inr)
    qed
  qed
qed

lemma await_run:
  assumes "io_keeps same_service m" "io_bind m f s = (r, s')"
    and "t = Evaluating params \<or> t = Dry_running params a"
    and "\<And>x s1. f x s1 = (r, s') \<Longrightarrow> call_done d t s1 s'"
  shows "call_done d t s s'"
proof -
  obtain q s1 where q: "m s = (q, s1)" by fastforce
  have s1: "same_service s s1" by (rule io_keepsD [OF assms(1) q])
  have "call_done d t s1 s'"
  proof (cases q)
    case (Inl e)
    then have "s' = s1" using assms(2) q by (simp add: io_bind_def)
    then show ?thesis using assms(3) by (intro call_done_finish) (auto intro: Await_raise)
  next
    case (Inr x)
    then show ?thesis using assms(2,4) q by (simp add: io_bind_def)
  qed
  then show ?thesis using s1 by (rule call_done_chain [rotated])
qed

lemma evaluation_run:
  assumes "quiet_deps d" "protect_after_evaluation d params sig a plan s = (r, s')"
  shows "call_done d (Evaluating params) s s'"
proof (cases "protect_assessed d params a plan s")
  case (Pair o' s1)
  show ?thesis
  proof (cases o')
    case (Inl x)
    then show ?thesis using Pair assms(2)
      by (intro call_done_finish Evaluated_return) (auto simp: protect_after_evaluation_def)
  next
    case (Inr p)
    then have rest: "io_bind (demo_sign d params sig) (\<lambda>sig.
          io_bind (simulate sv_max_bumps (dp_node d) (dp_vault d) (dp_keeper d) p params sig) (\<lambda>(sim, p').
          protect_after_simulation d params a sig p' sim)) s1 = (r, s')"
      using Pair assms(2) by (simp add: protect_after_evaluation_def)
    have "call_done d (Dry_running params a) s1 s'"
    proof (rule await_run [OF demo_sign_keeps [OF assms(1)] rest])
      fix sig' s2
      assume m: "io_bind (simulate sv_max_bumps (dp_node d) (dp_vault d) (dp_keeper d) p params sig') (\<lambda>(sim, p').
          protect_after_simulation d params a sig' p' sim) s2 = (r, s')"
      show "call_done d (Dry_running params a) s2 s'"
        by (rule await_run [OF sv.k_simulate m]) (use assms(1) simulation_run in \<open>auto dest: quiet_depsD split: prod.splits\<close>)
    qed simp
    then show ?thesis
    proof (rule call_done_next [rotated])
      fix i and ts :: "task list"
      assume "i < length ts" "ts ! i = Evaluating params"
      then show "step d (s, ts) (s1, ts[i := Dry_running params a])" by (rule Evaluated [where plan = plan and p = p]) (simp add: Pair Inr)
    qed
  qed
qed

lemma protect_run:
  assumes "quiet_deps d" "protect d params sig s = (r, s')"
  shows "done_by d s s'"
proof -
  obtain x s1 where x: "protect_start d params sig s = (x, s1)" by fastforce
  show ?thesis
  proof (cases x)
    case (Inl e)
    then show ?thesis using x assms(2) by (intro done_by_step) (auto simp: protect_def io_bind_def intro: Start_raise)
  next
    case (Inr y)
    show ?thesis
    proof (cases y)
      case (Inl q)
      then show ?thesis using x Inr assms(2)
        by (intro done_by_step) (auto simp: protect_def io_bind_def io_return_def intro: Start_return)
    next
      case (Inr sigma)
      then have rest: "io_bind (evaluate (dp_libm d) (dp_vault_address d) (dp_node d) params (Some sigma) DEFAULT_GAS_COST_BASE)
          (\<lambda>(assessment, plan). protect_after_evaluation d params sig assessment plan) s1 = (r, s')"
        using x \<open>x = Inr y\<close> assms(2) by (simp add: protect_def io_bind_def [of "protect_start _ _ _"])
      have "call_done d (Evaluating params) s1 s'"
        by (rule await_run [OF sv.k_evaluate rest]) (use assms(1) evaluation_run in \<open>auto dest: quiet_depsD split: prod.splits\<close>)
      moreover have "step d (s, ts) (s1, ts @ [Evaluating params])" for ts
        by (rule Start [where sig = sig and sigma = sigma]) (simp add: x \<open>x = Inr y\<close> Inr)
      ultimately show ?thesis by (rule call_done_start [rotated])
    qed
  qed
qed

section \<open>The worker\<close>

lemma tick_entry_run:
  assumes "quiet_deps d" "tick_one d e s = (r, s')"
  shows "done_by d s s'"
proof -
  obtain b params sig where e: "e = (b, params, sig)" by (cases e) auto
  let ?price = "case rp_allowed_collaterals params of [] \<Rightarrow> io_return (Fin 0)
      | c # _ \<Rightarrow> sample_price sv_vols (\<lambda>v s. s\<lparr>sv_vols := v\<rparr>) VOL_WINDOW (dp_node d) c"
  let ?act = "\<lambda>snap s0. let s = snapshot_done b snap s0 in
        if ps_state snap = ASSESSING \<and> allow (sv_breaker s) \<and> can_start b (dp_clock d 0 s) (sv_inflight s)
        then io_bind (protect d params sig) (\<lambda>_. io_return ()) s else (Inr (), s)"
  let ?body = "io_bind (poll_once (dp_node d) b (rp_hf_trigger_bps params)) (\<lambda>snap. io_bind ?price (\<lambda>_. ?act snap))"
  have kp: "io_keeps same_service (poll_once (dp_node d) b t)" for t
    using assms(1) by (intro sv.k_poll) (auto dest: quiet_depsD)
  have kq: "io_keeps same_service ?price"
    using assms(1) by (auto intro: sv.k_return sample_keeps dest: quiet_depsD split: list.split)
  have act: "done_by d s0 s1" if "?act snap s0 = (q, s1)" for snap s0 q s1
  proof -
    have "done_by d s0 (snapshot_done b snap s0)" using done_by_operation [of d s0 "Snapshot_done b snap"] by simp
    moreover have "done_by d (snapshot_done b snap s0) s1"
      using that protect_run [OF assms(1)]
      by (auto simp: Let_def io_bind_def done_by_refl split: if_splits prod.splits sum.splits)
    ultimately show ?thesis by (rule done_by_trans)
  qed
  have body: "done_by d s s1" if "?body s = (q, s1)" for q s1
  proof -
    obtain x s2 where x: "poll_once (dp_node d) b (rp_hf_trigger_bps params) s = (x, s2)" by fastforce
    then have s2: "done_by d s s2" by (intro done_by_chain io_keepsD [OF kp])
    show ?thesis
    proof (cases x)
      case (Inl q)
      then show ?thesis using that x s2 by (simp add: io_bind_def)
    next
      case (Inr snap)
      obtain y s3 where y: "?price s2 = (y, s3)" by fastforce
      then have s3: "done_by d s2 s3" by (intro done_by_chain io_keepsD [OF kq])
      have "y = Inl q' \<Longrightarrow> s1 = s3" "y = Inr v \<Longrightarrow> ?act snap s3 = (q, s1)" for q' v
        using that x y Inr by (simp_all add: io_bind_def [of "poll_once _ _ _"] io_bind_def [of ?price])
      then have "done_by d s3 s1" using act done_by_refl by (cases y) auto
      then show ?thesis using s2 s3 done_by_trans by blast
    qed
  qed
  obtain q s1 where q: "?body s = (q, s1)" by fastforce
  then have "s' = s1 \<or> s' = inc ERRORS s1"
    using assms(2) unfolding e tick_one_def prod.case io_try_def [of ?body] by (auto split: sum.splits)
  then show ?thesis
    using body [OF q] done_by_operation [of d s1 Count_error] done_by_trans by auto
qed

lemma tick_all_run: "quiet_deps d \<Longrightarrow> tick_all d es s = (r, s') \<Longrightarrow> done_by d s s'"
proof (induction es arbitrary: s r)
  case (Cons e es)
  obtain q s1 where q: "tick_one d e s = (q, s1)" by fastforce
  have "done_by d s s1" by (rule tick_entry_run [OF Cons.prems(1) q])
  moreover have "done_by d s1 s'"
    using Cons q by (cases q) (auto simp: io_bind_def done_by_refl)
  ultimately show ?case by (rule done_by_trans)
qed (simp add: done_by_refl)

lemma tick_run: "quiet_deps d \<Longrightarrow> tick d s = (r, s') \<Longrightarrow> done_by d s s'"
  using tick_all_run by (auto simp: tick_def done_by_refl split: if_splits)

section \<open>Refinement\<close>

text \<open>
  C7: beside any calls in progress, a call of the protective action is a run of the interleaved steps that
  ends where the function ends and leaves at most a finished call behind, and so is a pass of the
  worker over the registry, whatever the chain answers and whichever stage raises.
\<close>

theorem functions_refine_steps:
  assumes "quiet_deps d"
  shows "(protect d params sig s = (r, s') \<longrightarrow> (\<exists>n. steps d (s, ts) (s', ts @ replicate n Finished_task))) \<and>
     (tick d s = (q, t) \<longrightarrow> (\<exists>n. steps d (s, ts) (t, ts @ replicate n Finished_task)))"
  using protect_run [OF assms] tick_run [OF assms] unfolding done_by_def by blast

text \<open>
  What a service is asked to do, one request after the other: calls of the protective action, passes of the worker, the operations
  that do not wait (registration, a monitor's snapshot, the breaker, the configuration), and other use of the chain clients.
\<close>

inductive served :: "'z svs deps \<Rightarrow> 'z svs \<Rightarrow> 'z svs \<Rightarrow> bool" for d where
  served_none: "served d s s"
| served_pass: "served d s t \<Longrightarrow> tick d t = (r, u) \<Longrightarrow> served d s u"
| served_call: "served d s t \<Longrightarrow> protect d params sig t = (q, u) \<Longrightarrow> served d s u"
| served_operation: "served d s t \<Longrightarrow> served d s (run_operation d opn t)"
| served_elsewhere: "served d s t \<Longrightarrow> same_service t u \<Longrightarrow> served d s u"

lemma served_done: "served d s t \<Longrightarrow> quiet_deps d \<Longrightarrow> done_by d s t"
  by (induction rule: served.induct)
    (auto intro: done_by_refl done_by_trans tick_run protect_run done_by_operation done_by_chain)

lemma finished_settled:
  assumes "fresh s0" "done_by d s0 s"
  shows "\<not> is_locked (sv_inflight s) b \<and> cnt SUBMITTED_C s = cnt RESTORED_C s + cnt REVERTED_C s"
proof -
  obtain n where "steps d (s0, []) (s, replicate n Finished_task)"
    using assms(2) unfolding done_by_def by (metis append_Nil)
  then have "lock_inv (s, replicate n Finished_task)"
    using reachable_steps [OF _ Initial] lock_inv_reachable fresh_inv [OF assms(1)] by blast
  then show ?thesis
    using lock_inv_exclusive(2) [of s "replicate n Finished_task" b]
    by (auto simp: lock_inv_def balance_def submissions_def)
qed

text \<open>
  C16: when nothing is being served nothing is in flight: after any sequence of protective actions, passes of the worker and other operations
  of a fresh service, whatever the chain answered and whichever of them raised, no
  borrower is left locked, and every submission counted has been counted as restored or reverted.
\<close>

theorem calls_leave_nothing:
  assumes "served d s0 s" "quiet_deps d" "fresh s0"
  shows "\<not> is_locked (sv_inflight s) b \<and> cnt SUBMITTED_C s = cnt RESTORED_C s + cnt REVERTED_C s"
  using finished_settled [OF assms(3) served_done [OF assms(1,2)]] by blast

section \<open>An example\<close>

lemma keeps_const: "io_keeps same_service (\<lambda>s. (r, s))"
  by (simp add: io_keeps_def same_service_def)

lemma demo_quiet: "quiet_deps demo_deps"
  by (auto simp: quiet_deps_def node_keeps_def vault_keeps_def demo_deps_def demo_node_def const_node_def quiet_vault_def
      io_return_def [abs_def] keeps_const split: option.split)

theorem functions_refine_steps_witness:
  "\<exists>r s' n. protect demo_deps demo_params ''0x00'' demo_service = (Inr r, s') \<and> pr_submitted r \<and>
     steps demo_deps (demo_service, []) (s', replicate n Finished_task)"
proof -
  obtain r s' where r: "protect demo_deps demo_params ''0x00'' demo_service = (Inr r, s')" "pr_submitted r"
    using demo_protect by fastforce
  then show ?thesis using functions_refine_steps [OF demo_quiet, of demo_params "''0x00''" demo_service "Inr r" s' "[]"] by auto
qed

theorem calls_leave_nothing_witness:
  "\<exists>r s q t. protect demo_deps demo_params ''0x00'' demo_service = (Inr r, s) \<and> pr_submitted r \<and> cnt SUBMITTED_C s = 1 \<and>
     tick demo_deps s = (q, t) \<and> \<not> is_locked (sv_inflight s) ''alice'' \<and> cnt RESTORED_C s + cnt REVERTED_C s = 1 \<and>
     \<not> is_locked (sv_inflight t) ''alice'' \<and> cnt SUBMITTED_C t = cnt RESTORED_C t + cnt REVERTED_C t"
proof -
  obtain r s where p: "protect demo_deps demo_params ''0x00'' demo_service = (Inr r, s)" "pr_submitted r"
    "cnt SUBMITTED_C s = cnt SUBMITTED_C demo_service + 1"
    using demo_protect by fastforce
  then have c: "cnt SUBMITTED_C s = 1" by (simp add: demo_service_def counter_value_def)
  have s: "served demo_deps demo_service s" by (rule served_call [OF served_none p(1)])
  obtain q t where t: "tick demo_deps s = (q, t)" by fastforce
  have "served demo_deps demo_service t" by (rule served_pass [OF s t])
  from calls_leave_nothing [OF this demo_quiet demo_fresh, of "''alice''"] calls_leave_nothing [OF s demo_quiet demo_fresh, of "''alice''"]
  show ?thesis using p(1,2) c t by auto
qed

end
