(* ===== verification/Approval_Flow.thy ===== *)
theory Approval_Flow
  imports Agent_Routes Service_Refinement
begin

text \<open>
  What the deciding routes guarantee when they run undisturbed. The awaited chain side enters through the
  contract of \<open>Chain_Frames\<close>, interpreted on two relations: one that leaves the agent's store alone, which a
  whole protective action keeps, and one that also leaves the keeper's registry, locks, breaker and
  counters alone, which the revalidation keeps.
\<close>

section \<open>Frames\<close>

definition contents :: "'z ags \<Rightarrow> agent_db" where
  "contents s = as_db (store_connect (ag_store s))"

definition same_store :: "'z ags \<Rightarrow> 'z ags \<Rightarrow> bool" where
  "same_store s s' \<longleftrightarrow> ag_store s' = ag_store s"

definition same_keeper :: "'z ags \<Rightarrow> 'z ags \<Rightarrow> bool" where
  "same_keeper s s' \<longleftrightarrow> sv_registry s' = sv_registry s \<and> sv_inflight s' = sv_inflight s \<and>
     sv_breaker s' = sv_breaker s \<and> sv_counters s' = sv_counters s"

definition same_agent :: "'z ags \<Rightarrow> 'z ags \<Rightarrow> bool" where
  "same_agent s s' \<longleftrightarrow> same_service s s' \<and> ag_store s' = ag_store s"

definition same_desk :: "'z ags \<Rightarrow> 'z ags \<Rightarrow> bool" where
  "same_desk s s' \<longleftrightarrow> same_keeper s s' \<and> same_store s s'"

definition calm_deps :: "'z ags deps \<Rightarrow> bool" where
  "calm_deps d \<longleftrightarrow> node_keeps same_agent (dp_node d) \<and> vault_keeps same_agent (dp_vault d) \<and>
     (\<forall>t i. io_keeps same_agent (dp_hash_params d t i))"

lemmas same_defs = same_store_def same_keeper_def same_agent_def same_desk_def same_service_def

lemma io_keeps_mono: "io_keeps R m \<Longrightarrow> (\<And>s s'. R s s' \<Longrightarrow> Q s s') \<Longrightarrow> io_keeps Q m"
  unfolding io_keeps_def by blast

lemma io_bindE:
  assumes "io_bind m f s = (r, s')"
  obtains (raised) e where "m s = (Inl e, s')" "r = Inl e" | (ran) a t where "m s = (Inr a, t)" "f a t = (r, s')"
  using assms by (auto simp: io_bind_def split: prod.splits sum.splits)

lemma node_keeps_mono: "node_keeps R nd \<Longrightarrow> (\<And>s s'. R s s' \<Longrightarrow> Q s s') \<Longrightarrow> node_keeps Q nd"
  unfolding node_keeps_def [of Q] by (intro conjI allI) (erule io_keeps_mono [OF node_keepsD(1)] io_keeps_mono [OF node_keepsD(2)]
    io_keeps_mono [OF node_keepsD(3)] io_keeps_mono [OF node_keepsD(4)] io_keeps_mono [OF node_keepsD(5)]
    io_keeps_mono [OF node_keepsD(6)] io_keeps_mono [OF node_keepsD(7)] io_keeps_mono [OF node_keepsD(8)]; blast)+

lemma vault_keeps_mono: "vault_keeps R vt \<Longrightarrow> (\<And>s s'. R s s' \<Longrightarrow> Q s s') \<Longrightarrow> vault_keeps Q vt"
  unfolding vault_keeps_def [of Q] by (intro conjI allI) (erule io_keeps_mono [OF vault_keepsD(1)] io_keeps_mono [OF vault_keepsD(2)]
    io_keeps_mono [OF vault_keepsD(3)] io_keeps_mono [OF vault_keepsD(4)] io_keeps_mono [OF vault_keepsD(5)]
    io_keeps_mono [OF vault_keepsD(6)] io_keeps_mono [OF vault_keepsD(7)] io_keeps_mono [OF vault_keepsD(8)]
    io_keeps_mono [OF vault_keepsD(9)]; blast)+

interpretation sd: chain_frame same_desk
  by unfold_locales (auto simp: same_defs)

lemma calm_depsD:
  assumes "calm_deps d"
  shows "node_keeps same_store (dp_node d)" "vault_keeps same_store (dp_vault d)"
    "io_keeps same_store (dp_hash_params d t i)" "node_keeps same_desk (dp_node d)"
proof -
  have a: "node_keeps same_agent (dp_node d)" "vault_keeps same_agent (dp_vault d)"
    "io_keeps same_agent (dp_hash_params d t i)"
    using assms by (simp_all add: calm_deps_def del: split_paired_All)
  have w: "same_store s s'" "same_desk s s'" if "same_agent s s'" for s s' :: "'a ags"
    using that by (auto simp: same_defs)
  show "node_keeps same_store (dp_node d)" "node_keeps same_desk (dp_node d)"
    by (rule node_keeps_mono [OF a(1)], erule w)+
  show "vault_keeps same_store (dp_vault d)" by (rule vault_keeps_mono [OF a(2)], erule w)
  show "io_keeps same_store (dp_hash_params d t i)" by (rule io_keeps_mono [OF a(3)], erule w)
qed

section \<open>What a protective action keeps\<close>

text \<open>
  A relation that the four segments of \<^verbatim>\<open>protect\<close> keep, and that the awaited calls between them keep, is kept by the whole
  action.
\<close>

locale service_frame = chain_frame R for R :: "'z svs \<Rightarrow> 'z svs \<Rightarrow> bool" +
  assumes start_keeps: "protect_start d params sig s = (r1, s') \<Longrightarrow> R s s'"
    and assessed_keeps: "protect_assessed d params a plan s = (r2, s') \<Longrightarrow> R s s'"
    and simulated_keeps: "protect_simulated d params a sim s = (r3, s') \<Longrightarrow> R s s'"
    and submitted_keeps: "protect_submitted d params a result s = (r4, s') \<Longrightarrow> R s s'"
begin

lemma k_submission:
  assumes n: "node_keeps R (dp_node d)" and v: "vault_keeps R (dp_vault d)" and h: "\<And>t i. io_keeps R (dp_hash_params d t i)"
  shows "io_keeps R (io_bind (demo_sign d params x) (\<lambda>sig.
    io_bind (simulate sv_max_bumps (dp_node d) (dp_vault d) (dp_keeper d) p params sig) (\<lambda>(sim, p').
    protect_after_simulation d params a sig p' sim)))"
proof -
  have sign: "io_keeps R (demo_sign d params x)" for x
    unfolding demo_sign_def resolve_demo_signature_def
    by (auto intro!: k_try k_bind k_via k_return k_lift h n split: option.split)
  have submit: "io_keeps R (protect_submit d params a x p sim)" for a x p sim
    unfolding io_keeps_def protect_submit_def
    by (auto split: prod.splits intro: R_trans dest!: submitted_keeps io_keepsD [OF k_submit [OF n v]])
  have sim: "io_keeps R (protect_after_simulation d params a x p sim)" for a x p sim
    unfolding io_keeps_def protect_after_simulation_def
    by (auto split: prod.splits sum.splits intro: R_trans dest!: simulated_keeps io_keepsD [OF submit])
  show ?thesis
    by (auto intro!: k_bind sign k_simulate sim n v split: prod.split)
qed

lemma k_protect:
  assumes n: "node_keeps R (dp_node d)" and v: "vault_keeps R (dp_vault d)" and h: "\<And>t i. io_keeps R (dp_hash_params d t i)"
  shows "io_keeps R (protect d params sig)"
proof -
  have after: "io_keeps R (protect_after_evaluation d params x a plan)" for x a plan
    unfolding io_keeps_def protect_after_evaluation_def
    by (auto split: prod.splits sum.splits intro: R_trans dest!: assessed_keeps io_keepsD [OF k_submission [OF n v h]])
  have start: "io_keeps R (protect_start d params sig)"
    unfolding io_keeps_def by (auto dest: start_keeps)
  show ?thesis
    unfolding protect_def
    by (auto intro!: k_bind start k_return k_evaluate after n v split: sum.split prod.split)
qed

end

lemmas segment_defs = protect_start_def protect_assessed_def protect_simulated_def protect_submitted_def
  register_def inc_def set_state_def service_sigma_for_def count_trip_def do_release_def Let_def

interpretation ss: service_frame same_store
  by unfold_locales (auto simp: same_defs segment_defs split: if_splits list.splits prod.splits sum.splits option.splits bool.splits)

lemma protect_keeps_store: "calm_deps d \<Longrightarrow> io_keeps same_store (protect d params sig)"
  by (intro ss.k_protect calm_depsD)

section \<open>Revalidation leaves the keeper and the proposals alone\<close>

lemma store_ioE:
  assumes "store_io ints q s = (r, s')"
  obtains (overflow) e where "r = Inl e" "contents s' = contents s" "same_keeper s s'"
    | (ran) "q (contents s) = (r, contents s')" "same_keeper s s'"
  using assms that
  by (auto simp: store_io_def store_call_def contents_def same_keeper_def Let_def store_connect_def
      split: prod.splits if_splits)

text \<open>\<open>same_rows\<close>: the keeper is untouched and the database has the same contents.\<close>

definition same_rows :: "'z ags \<Rightarrow> 'z ags \<Rightarrow> bool" where
  "same_rows s s' \<longleftrightarrow> same_keeper s s' \<and> contents s' = contents s"

interpretation sr: chain_frame same_rows
  by unfold_locales (auto simp: same_defs same_rows_def contents_def)

lemma desk_rows: "same_desk s s' \<Longrightarrow> same_rows s s'"
  by (simp add: same_desk_def same_rows_def same_store_def contents_def)

lemma keeps_rows: "io_keeps same_desk m \<Longrightarrow> io_keeps same_rows m"
  by (rule io_keeps_mono [OF _ desk_rows])

lemma read_keeps_rows:
  assumes "\<And>db r db'. q db = (r, db') \<Longrightarrow> db' = db"
  shows "io_keeps same_rows (store_io ints q)"
  unfolding io_keeps_def same_rows_def by (auto elim!: store_ioE dest: assms)

lemma snapshot_keeps_rows: "calm_deps d \<Longrightarrow> io_keeps same_rows (snapshot d b t)"
  unfolding snapshot_def
  by (intro sr.k_bind keeps_rows [OF sd.k_poll] calm_depsD(4))
    (auto simp: io_keeps_def snapshot_done_def set_state_def same_rows_def same_keeper_def contents_def)

lemma global_client_keeps_rows:
  assumes "io_keeps same_desk m"
  shows "io_keeps same_rows (with_global_client st m)"
  unfolding io_keeps_def with_global_client_def
  by (auto split: sum.splits prod.splits dest!: io_keepsD [OF assms]
      simp: same_rows_def same_defs contents_def)

lemma sigma_keeps_rows: "io_keeps same_rows (tools_sigma_for params)"
  unfolding tools_sigma_for_def
  by (auto simp: io_keeps_def service_sigma_for_def same_rows_def same_keeper_def contents_def split: list.splits prod.splits)

lemma revalidate_keeps_rows:
  assumes "calm_deps (ae_deps env)"
  shows "io_keeps same_rows (revalidate env b params)"
proof -
  note c = calm_depsD(4) [OF assms]
  have price: "io_keeps same_rows (debt_price_base env a)" for a
    unfolding debt_price_base_def
    by (intro sr.k_try sr.k_bind global_client_keeps_rows sd.k_price c sr.k_return)
  have count: "io_keeps same_rows (store_io [] (count_recent_proposals t q))" for t q
    by (rule read_keeps_rows) (simp add: count_recent_proposals_def)
  have rest: "io_keeps same_rows (\<lambda>s. io_bind (io_lift (lim s)) (\<lambda>l. io_bind (store_io [] (count_recent_proposals (t s) p))
      (\<lambda>x. io_bind (store_io [] (count_recent_proposals (t s) q)) (\<lambda>y. io_lift (g s l x y)))) s)" for lim t p q g
    unfolding io_keeps_def
  proof (intro allI impI)
    fix s r s'
    assume "io_bind (io_lift (lim s)) (\<lambda>l. io_bind (store_io [] (count_recent_proposals (t s) p))
      (\<lambda>x. io_bind (store_io [] (count_recent_proposals (t s) q)) (\<lambda>y. io_lift (g s l x y)))) s = (r, s')"
    then show "same_rows s s'"
      by (rule io_keepsD [rotated]) (intro sr.k_bind count sr.k_lift)
  qed
  show ?thesis
    unfolding revalidate_def service_assess_def Let_def
    by (auto intro!: sr.k_bind sigma_keeps_rows keeps_rows [OF sd.k_assess] c snapshot_keeps_rows assms price
        sr.k_lift rest split: prod.split)
qed

section \<open>What each call to the store does\<close>

definition row_of :: "'z ags \<Rightarrow> int \<Rightarrow> ProposalRow option" where
  "row_of s i = find (\<lambda>r. pw_id r = i) (db_proposals (contents s))"

lemma status_row: "proposal_status (contents s) i = map_option pw_status (row_of s i)"
  by (simp add: proposal_status_def row_of_def)

lemma finish_done:
  assumes "finish env i st who note tx res s = (Inr u, s')"
  shows "same_keeper s s'" "row_of s' j = (if j = i then map_option (\<lambda>r. r\<lparr>pw_status := st, pw_decided_at := Some (ae_time env 2 s),
        pw_decided_by := coalesce who (pw_decided_by r), pw_decision_note := coalesce note (pw_decision_note r),
        pw_tx_hash := coalesce tx (pw_tx_hash r), pw_result := coalesce res (pw_result r)\<rparr>) (row_of s i) else row_of s j)"
    "contents s' = execute (Finish_proposal i st who note tx res (ae_time env 2 s)) (contents s)"
proof -
  show "same_keeper s s'" using assms unfolding finish_def by (auto elim: store_ioE)
  have e: "finish_proposal i st who note tx res (ae_time env 2 s) (contents s) = (Inr u, contents s')"
    using assms unfolding finish_def by (auto elim: store_ioE)
  then show c: "contents s' = execute (Finish_proposal i st who note tx res (ae_time env 2 s)) (contents s)" by simp
  let ?f = "\<lambda>r. r\<lparr>pw_status := st, pw_decided_at := Some (ae_time env 2 s),
        pw_decided_by := coalesce who (pw_decided_by r), pw_decision_note := coalesce note (pw_decision_note r),
        pw_tx_hash := coalesce tx (pw_tx_hash r), pw_result := coalesce res (pw_result r)\<rparr>"
  have "db_proposals (contents s') = map (\<lambda>r. if pw_id r = i then ?f r else r) (db_proposals (contents s))"
    by (simp add: c finish_proposal_def sql_update_def)
  then have "row_of s' j = map_option (\<lambda>r. if pw_id r = i then ?f r else r) (row_of s j)"
    unfolding row_of_def by (simp only:) (rule find_map_key, simp)
  then show "row_of s' j = (if j = i then map_option ?f (row_of s i) else row_of s j)"
    by (cases "row_of s j") (auto simp: row_of_def dest: find_SomeD)
qed

lemma claim_done:
  assumes "store_io [i] (claim_proposal i st) s = (Inr b, s')" "db_ok (contents s)"
  shows "same_keeper s s'" "b \<longleftrightarrow> map_option pw_status (row_of s i) = Some PENDING"
    "row_of s' i = (if b then map_option (\<lambda>r. r\<lparr>pw_status := st\<rparr>) (row_of s i) else row_of s i)"
    "contents s' = execute (Claim_proposal i st) (contents s)"
proof -
  show "same_keeper s s'" using assms(1) by (auto elim: store_ioE)
  have e: "claim_proposal i st (contents s) = (Inr b, contents s')" using assms(1) by (auto elim: store_ioE)
  then show b: "b \<longleftrightarrow> map_option pw_status (row_of s i) = Some PENDING"
    using claim_proposal_result(1) [OF assms(2), of i st] by (simp add: won_def status_row)
  show "contents s' = execute (Claim_proposal i st) (contents s)" using e by simp
  have "db_proposals (contents s') = map (\<lambda>r. if pw_id r = i \<and> pw_status r = PENDING then r\<lparr>pw_status := st\<rparr> else r)
      (db_proposals (contents s))"
    using arg_cong [OF e, of "\<lambda>x. db_proposals (snd x)"] by (simp add: claim_proposal_def sql_update_def)
  then have "row_of s' i = map_option (\<lambda>r. if pw_id r = i \<and> pw_status r = PENDING then r\<lparr>pw_status := st\<rparr> else r) (row_of s i)"
    unfolding row_of_def by (simp only:) (rule find_map_key, simp)
  then show "row_of s' i = (if b then map_option (\<lambda>r. r\<lparr>pw_status := st\<rparr>) (row_of s i) else row_of s i)"
    using b by (cases "row_of s i") (auto simp: row_of_def dest: find_SomeD)
qed

lemma audit_done:
  assumes "write_audit env who act b i det s = (Inr n, s')"
  shows "same_keeper s s'" "row_of s' j = row_of s j"
    "contents s' = execute (Audit who act b i det (ae_time env 3 s)) (contents s)"
proof -
  have e: "audit_write who act b i det (ae_time env 3 s) (contents s) = (Inr n, contents s')" "same_keeper s s'"
    using assms unfolding write_audit_def by (auto elim: store_ioE)
  then show "same_keeper s s'" "contents s' = execute (Audit who act b i det (ae_time env 3 s)) (contents s)" by simp_all
  then show "row_of s' j = row_of s j" by (simp add: row_of_def audit_write_def Let_def)
qed

lemma get_done:
  assumes "store_io [i] (get_proposal i) s = (Inr x, s')"
  shows "same_rows s s'" "x = row_of s i"
  using assms by (auto elim!: store_ioE simp: same_rows_def get_proposal_def row_of_def)

lemma same_rowsD: "same_rows s s' \<Longrightarrow> row_of s' i = row_of s i" "same_rows s s' \<Longrightarrow> same_keeper s s'"
  by (simp_all add: same_rows_def row_of_def)

lemma same_storeD: "same_store s s' \<Longrightarrow> row_of s' i = row_of s i"
  by (simp add: same_store_def row_of_def contents_def)

lemma same_keeper_trans: "same_keeper s t \<Longrightarrow> same_keeper t u \<Longrightarrow> same_keeper s u"
  by (simp add: same_keeper_def)

lemma refreshed_done:
  assumes "refreshed i s = (Inr r, s')"
  shows "row_of s i = Some r" "same_rows s s'"
proof -
  obtain x s1 where g: "store_io [i] (get_proposal i) s = (Inr x, s1)"
    and n: "(case x of None \<Rightarrow> io_raise (OtherError '''') | Some r \<Rightarrow> io_return r) s1 = (Inr r, s')"
    using assms unfolding refreshed_def io_bind_Inr_iff by blast
  have "x = Some r" "s' = s1" using n by (cases x; simp)+
  then show "row_of s i = Some r" "same_rows s s'" using get_done [OF g] by simp_all
qed


section \<open>Approving\<close>

lemma approve_execute_done:
  assumes "approve_execute env i body row params sig gate s = (Inr (Reply r), s')" and "calm_deps (ae_deps env)"
  shows "al_revalidated_gate r = gate \<and> row_of s' i = Some (al_proposal r) \<and>
    (\<exists>p s1 s2. protect (ae_deps env) params sig s1 = (Inr p, s2) \<and> same_keeper s s1 \<and>
       (row_of s i \<noteq> None \<longrightarrow> map_option pw_status (row_of s1 i) = Some APPROVED) \<and> al_protect r = Some p \<and>
       pw_status (al_proposal r) = (if pr_submitted p then EXECUTED else FAILED) \<and>
       pw_result (al_proposal r) = Some (protect_json p) \<and> pw_id (al_proposal r) = i \<and>
       (pr_tx_hash p \<noteq> None \<longrightarrow> pw_tx_hash (al_proposal r) = pr_tx_hash p))"
proof -
  obtain u s1 n s2 where f1: "finish env i APPROVED (Some (aq_approved_by body)) (aq_note body) None None s = (Inr u, s1)"
    and w1: "write_audit env ''human'' AA_APPROVED (Some (pw_borrower row)) (Some i) [(''by'', JStr (aq_approved_by body))] s1 = (Inr n, s2)"
    and p: "(case protect (ae_deps env) params sig s2 of
       (Inl exc, s') \<Rightarrow>
         io_bind (finish env i FAILED None (Some (''execution error: '' @ exn_str exc)) None None) (\<lambda>_.
         io_bind (write_audit env ''system'' AA_FAILED (Some (pw_borrower row)) (Some i)
           [(''error'', JStr (exn_str exc))]) (\<lambda>_.
         io_return (Refuse 502 (JStr (''execution failed: '' @ exn_str exc))))) s'
     | (Inr result, s') \<Rightarrow>
         io_bind (finish env i (if pr_submitted result then EXECUTED else FAILED) None None
           (pr_tx_hash result) (Some (protect_json result))) (\<lambda>_.
         io_bind (write_audit env ''system'' (if pr_submitted result then AA_EXECUTED else AA_FAILED)
           (Some (pw_borrower row)) (Some i)
           [(''tx_hash'', opt_str (pr_tx_hash result)), (''state'', JStr (state_value (pr_state result))),
            (''reason'', opt_str (pr_reason result))]) (\<lambda>_.
         io_bind (refreshed i) (\<lambda>r. io_return (Reply \<lparr>al_proposal = r, al_revalidated_gate = gate,
           al_protect = Some result, al_reason = pr_reason result\<rparr>)))) s') = (Inr (Reply r), s')"
    using assms(1) unfolding approve_execute_def io_bind_Inr_iff by blast
  obtain q s3 where q: "protect (ae_deps env) params sig s2 = (q, s3)" by fastforce
  show ?thesis
  proof (cases q)
    case (Inl e)
    then show ?thesis using p q by (auto simp: io_bind_Inr_iff)
  next
    case (Inr res)
    obtain u4 s4 n5 s5 row' where f: "finish env i (if pr_submitted res then EXECUTED else FAILED) None None
           (pr_tx_hash res) (Some (protect_json res)) s3 = (Inr u4, s4)"
      and w: "write_audit env ''system'' (if pr_submitted res then AA_EXECUTED else AA_FAILED)
           (Some (pw_borrower row)) (Some i)
           [(''tx_hash'', opt_str (pr_tx_hash res)), (''state'', JStr (state_value (pr_state res))),
            (''reason'', opt_str (pr_reason res))] s4 = (Inr n5, s5)"
      and g: "refreshed i s5 = (Inr row', s')"
      and r: "r = \<lparr>al_proposal = row', al_revalidated_gate = gate, al_protect = Some res, al_reason = pr_reason res\<rparr>"
      using p unfolding q Inr prod.case sum.case io_bind_Inr_iff by auto
    have "row_of s5 i = Some row'" "row_of s' i = Some row'"
      using refreshed_done [OF g] by (simp_all add: same_rowsD)
    moreover have "row_of s5 i = row_of s4 i" by (rule audit_done(2) [OF w])
    ultimately have s4: "row_of s4 i = Some row'" and s': "row_of s' i = Some row'" by simp_all
    then obtain r0 where "row' = r0\<lparr>pw_status := (if pr_submitted res then EXECUTED else FAILED),
        pw_decided_at := Some (ae_time env 2 s3), pw_decided_by := coalesce None (pw_decided_by r0),
        pw_decision_note := coalesce None (pw_decision_note r0), pw_tx_hash := coalesce (pr_tx_hash res) (pw_tx_hash r0),
        pw_result := coalesce (Some (protect_json res)) (pw_result r0)\<rparr>"
      using finish_done(2) [OF f, of i] by (auto simp: map_option_case split: option.splits)
    moreover have "pw_id row' = i" using s' unfolding row_of_def by (rule find_SomeD)
    ultimately have "row_of s' i = Some row'" "pw_status row' = (if pr_submitted res then EXECUTED else FAILED)"
      "pw_result row' = Some (protect_json res)" "pw_id row' = i" "pr_tx_hash res \<noteq> None \<longrightarrow> pw_tx_hash row' = pr_tx_hash res"
      using s' by (auto simp: coalesce_def)
    moreover have "same_keeper s s2" by (rule same_keeper_trans [OF finish_done(1) [OF f1] audit_done(1) [OF w1]])
    moreover have "row_of s i \<noteq> None \<longrightarrow> map_option pw_status (row_of s2 i) = Some APPROVED"
      using finish_done(2) [OF f1, of i] audit_done(2) [OF w1, of i] by auto
    ultimately show ?thesis using q Inr r by auto
  qed
qed

lemma approve_execute_refuse:
  assumes "approve_execute env i body row params sig gate s = (Inr (Refuse c x), s')"
  shows "c = 502"
proof -
  have "io_post (approve_execute env i body row params sig gate) (\<lambda>h. \<forall>c x. h = Refuse c x \<longrightarrow> c = 502)"
    unfolding approve_execute_def
    by (intro io_post_bind_any) (auto simp: io_post_def io_bind_Inr_iff split: prod.splits sum.splits)
  from io_postD [OF this assms] show ?thesis by blast
qed

lemma approve_gated_reply:
  assumes "approve_gated env i body row params sig gate s = (Inr (Reply r), s')" "db_ok (contents s)"
  shows "pd_allowed gate" "flt (pw_expires_at row) (ae_time env 4 s) \<Longrightarrow> aq_acknowledge_stale body"
    "map_option pw_status (row_of s i) = Some PENDING"
    "\<exists>s1. approve_execute env i body row params sig gate s1 = (Inr (Reply r), s') \<and> same_keeper s s1 \<and>
       map_option pw_status (row_of s1 i) = Some APPROVED"
proof -
  show "pd_allowed gate"
    using assms(1) unfolding approve_gated_def by (auto simp: io_bind_Inr_iff split: if_splits)
  show "aq_acknowledge_stale body" if "flt (pw_expires_at row) (ae_time env 4 s)"
    using assms(1) that unfolding approve_gated_def by (auto simp: io_bind_Inr_iff split: if_splits)
  obtain b s1 where c: "store_io [i] (claim_proposal i APPROVED) s = (Inr b, s1)" and b
    and x: "approve_execute env i body row params sig gate s1 = (Inr (Reply r), s')"
    using assms(1) unfolding approve_gated_def by (auto simp: io_bind_Inr_iff split: if_splits)
  show "map_option pw_status (row_of s i) = Some PENDING" using claim_done(2) [OF c assms(2)] \<open>b\<close> by simp
  show "\<exists>s1. approve_execute env i body row params sig gate s1 = (Inr (Reply r), s') \<and> same_keeper s s1 \<and>
      map_option pw_status (row_of s1 i) = Some APPROVED"
    using x claim_done(1-3) [OF c assms(2)] \<open>b\<close> by (auto simp: option.map_comp comp_def)
qed

lemma closing_done:
  assumes "finish env i st who note None None s = (Inr u, s1)" "write_audit env actor act b k det s1 = (Inr n, s')"
    and "map_option pw_status (row_of s i) = Some PENDING"
  shows "same_keeper s s' \<and> map_option pw_status (row_of s' i) = Some st"
  using same_keeper_trans [OF finish_done(1) [OF assms(1)] audit_done(1) [OF assms(2)]]
    finish_done(2) [OF assms(1), of i] audit_done(2) [OF assms(2), of i] assms(3)
  by (auto simp: option.map_comp comp_def)

lemma approve_gated_refuse:
  assumes "approve_gated env i body row params sig gate s = (Inr (Refuse c x), s')" "c \<noteq> 502"
    and "db_ok (contents s)" "map_option pw_status (row_of s i) = Some PENDING"
  shows "same_keeper s s' \<and> map_option pw_status (row_of s' i) \<in> {Some STALE, Some EXPIRED}"
proof (cases "pd_allowed gate")
  case False
  then obtain u s1 n where "finish env i STALE (Some (aq_approved_by body)) (aq_note body) None None s = (Inr u, s1)"
    "write_audit env ''system'' STALE_ON_APPROVE (Some (pw_borrower row)) (Some i)
       [(''blocking'', JList (map JStr (pd_blocking gate)))] s1 = (Inr n, s')"
    using assms(1) unfolding approve_gated_def by (auto simp: io_bind_Inr_iff)
  from closing_done [OF this assms(4)] show ?thesis by simp
next
  case True
  show ?thesis
  proof (cases "flt (pw_expires_at row) (ae_time env 4 s) \<and> \<not> aq_acknowledge_stale body")
    case late: True
    then obtain u s1 n where "finish env i EXPIRED (Some (aq_approved_by body)) None None None s = (Inr u, s1)"
      "write_audit env ''system'' EXPIRED_ON_APPROVE (Some (pw_borrower row)) (Some i) [] s1 = (Inr n, s')"
      using assms(1) True unfolding approve_gated_def by (auto simp: io_bind_Inr_iff)
    from closing_done [OF this assms(4)] show ?thesis by simp
  next
    case False
    then obtain b s1 where c: "store_io [i] (claim_proposal i APPROVED) s = (Inr b, s1)"
      and y: "(if \<not> b then io_return (Refuse 409 (JStr ''proposal was already decided by someone else''))
        else approve_execute env i body row params sig gate) s1 = (Inr (Refuse c x), s')"
      using assms(1) True unfolding approve_gated_def by (auto simp: io_bind_Inr_iff split: if_splits)
    have b using claim_done(2) [OF c assms(3)] assms(4) by simp
    then have "c = 502" using y by (auto intro: approve_execute_refuse)
    with assms(2) show ?thesis by simp
  qed
qed

text \<open>
  \<open>gate_reads env b params s g s'\<close>: the gate's input \<open>g\<close> is what a revalidation started in \<open>s\<close> reads, one read after the
  other, and \<open>s'\<close> is the state it leaves. The volatility comes from the window of the mandate's collateral, the
  assessment and the snapshot from the service, the debt price from the oracle, the counters and the two times from
  the moment after these reads, and the two counts from the proposals of the last hour in the database.
\<close>

definition gate_reads :: "'z ags agent_env \<Rightarrow> string \<Rightarrow> RiskParams \<Rightarrow> 'z ags \<Rightarrow> gate_input \<Rightarrow> 'z ags \<Rightarrow> bool" where
  "gate_reads env b params s g s' \<longleftrightarrow> (\<exists>sigma s1 s2 s3 asset s4.
     tools_sigma_for params s = (Inr sigma, s1) \<and>
     service_assess (ae_deps env) params (Some sigma) s1 = (Inr (gi_assessment g), s2) \<and>
     snapshot (ae_deps env) b (rp_hf_trigger_bps params) s2 = (Inr (gi_snapshot g), s3) \<and>
     debt_asset_facts = Inr (asset, gi_debt_decimals g) \<and>
     debt_price_base env asset s3 = (Inr (gi_debt_price_base g), s4) \<and>
     gi_params g = Some params \<and> policy_limits (ae_settings env) = Inr (gi_limits g) \<and>
     gi_metrics g = metrics s4 \<and> gi_now g = ae_time env 1 s4 \<and>
     count_recent_proposals (fsub (ae_time env 0 s4) HOUR) (Some b) (contents s) = (Inr (gi_recent_borrower g), contents s) \<and>
     count_recent_proposals (fsub (ae_time env 0 s4) HOUR) None (contents s) = (Inr (gi_recent_global g), contents s) \<and>
     same_rows s s4 \<and> same_rows s4 s')"

lemma price_keeps_rows: "calm_deps (ae_deps env) \<Longrightarrow> io_keeps same_rows (debt_price_base env a)"
  unfolding debt_price_base_def
  by (intro sr.k_try sr.k_bind global_client_keeps_rows sd.k_price calm_depsD(4) sr.k_return)

lemma count_done:
  assumes "store_io [] (count_recent_proposals t q) s = (Inr n, s')"
  shows "count_recent_proposals t q (contents s) = (Inr n, contents s)" "same_rows s s'"
  using assms by (auto elim!: store_ioE simp: count_recent_proposals_def same_rows_def)

lemma revalidate_reads:
  assumes "revalidate env b params s = (Inr gate, s')" "calm_deps (ae_deps env)"
  shows "\<exists>g. gate_reads env b params s g s' \<and> gate_evaluate g = Inr gate"
proof -
  obtain sg s1 as s2 sn s3 asset dec pr s4 l x s5 y where
    1: "tools_sigma_for params s = (Inr sg, s1)" and 2: "service_assess (ae_deps env) params (Some sg) s1 = (Inr as, s2)"
    and 3: "snapshot (ae_deps env) b (rp_hf_trigger_bps params) s2 = (Inr sn, s3)" and 4: "Inr (asset, dec) = debt_asset_facts"
    and 5: "debt_price_base env asset s3 = (Inr pr, s4)" and l: "Inr l = policy_limits (ae_settings env)"
    and x: "store_io [] (count_recent_proposals (fsub (ae_time env 0 s4) HOUR) (Some b)) s4 = (Inr x, s5)"
    and y: "store_io [] (count_recent_proposals (fsub (ae_time env 0 s4) HOUR) None) s5 = (Inr y, s')"
    and g: "Inr gate = gate_evaluate \<lparr>gi_params = Some params, gi_assessment = as, gi_snapshot = sn,
        gi_metrics = metrics s4, gi_limits = l, gi_now = ae_time env (Suc 0) s4, gi_debt_price_base = pr,
        gi_debt_decimals = dec, gi_recent_borrower = x, gi_recent_global = y\<rparr>" (is "_ = gate_evaluate ?g")
    using assms(1) unfolding revalidate_def Let_def by (clarsimp simp: io_bind_Inr_iff)
  have s4: "same_rows s s4"
    using sr.R_trans [OF sr.R_trans [OF sr.R_trans [OF io_keepsD [OF sigma_keeps_rows 1]
        io_keepsD [OF keeps_rows [OF sd.k_assess] 2 [unfolded service_assess_def]]]
        io_keepsD [OF snapshot_keeps_rows 3]] io_keepsD [OF price_keeps_rows 5]] assms(2) calm_depsD(4) by blast
  note cx = count_done [OF x] and cy = count_done [OF y]
  have c: "contents s4 = contents s" "contents s5 = contents s" using s4 cx(2) by (simp_all add: same_rows_def)
  have "gate_reads env b params s ?g s'"
    unfolding gate_reads_def
    by (rule exI [of _ sg], rule exI [of _ s1], rule exI [of _ s2], rule exI [of _ s3], rule exI [of _ asset], rule exI [of _ s4])
      (use 1 2 3 4 [symmetric] 5 l [symmetric] cx(1) cy(1) c s4 sr.R_trans [OF cx(2) cy(2)] in simp)
  then show ?thesis using g [symmetric] by blast
qed

text \<open>
  C6: an approval that replies found the proposal pending and its borrower under a signed mandate, and ran the
  gate on figures read for this request: the assessment, the snapshot and the debt price the service and the oracle return after the row
  was read, the keeper's counters and the clock at that moment, the operator's limits and the counts of the last hour. The gate allowed
  them; the proposal's time, judged by the clock after the revalidation, had not run out unless that was acknowledged; the row was then
  claimed while still pending. The reply carries the outcome of the protective action on the signed
  pair, started with the proposal marked as approved, and the stored proposal is the one replied, executed exactly when
  the action submitted and failed otherwise, with the action's transaction hash and full response.
\<close>

theorem approve_honours_gate:
  assumes "approve_proposal env i body s = (Inr (Reply r), s')" "calm_deps (ae_deps env)" "db_ok (contents s)"
  shows "\<exists>row params sig s1 g s2 t p t'. store_io [i] (get_proposal i) s = (Inr (Some row), s1) \<and> pw_status row = PENDING \<and>
     params_of (pw_borrower row) s = Some (params, sig) \<and>
     gate_reads env (pw_borrower row) params s1 g s2 \<and> gate_evaluate g = Inr (al_revalidated_gate r) \<and>
     pd_allowed (al_revalidated_gate r) \<and> (flt (pw_expires_at row) (ae_time env 4 s2) \<longrightarrow> aq_acknowledge_stale body) \<and>
     proposal_status (contents s2) i = Some PENDING \<and>
     same_keeper s2 t \<and> proposal_status (contents t) i = Some APPROVED \<and> protect (ae_deps env) params sig t = (Inr p, t') \<and>
     al_protect r = Some p \<and> pr_borrower p = rp_borrower params \<and> row_of s' i = Some (al_proposal r) \<and>
     pw_status (al_proposal r) = (if pr_submitted p then EXECUTED else FAILED) \<and>
     pw_result (al_proposal r) = Some (protect_json p) \<and>
     (pr_submitted p \<longrightarrow> pr_state p = RESTORED \<and> pw_tx_hash (al_proposal r) = pr_tx_hash p \<and> pr_tx_hash p \<noteq> None)"
proof -
  obtain x s1 where g: "store_io [i] (get_proposal i) s = (Inr x, s1)"
    and k: "(case x of None \<Rightarrow> io_return (not_found i)
     | Some row \<Rightarrow>
         if pw_status row \<noteq> PENDING then io_return (not_pending row)
         else (\<lambda>s. case params_of (pw_borrower row) s of
             None \<Rightarrow>
               io_bind (finish env i STALE (Some (aq_approved_by body)) None None None) (\<lambda>_.
               io_return (Refuse 409 (JStr ''borrower no longer has a registered signed mandate''))) s
           | Some (params, signature) \<Rightarrow>
               io_bind (revalidate env (pw_borrower row) params)
                 (approve_gated env i body row params signature) s)) s1 = (Inr (Reply r), s')"
    using assms(1) unfolding approve_proposal_def io_bind_Inr_iff by blast
  note get = get_done [OF g]
  obtain row where row: "x = Some row" "pw_status row = PENDING"
    using k by (auto simp: not_found_def not_pending_def split: option.splits if_splits)
  obtain params sig where ps: "params_of (pw_borrower row) s1 = Some (params, sig)"
    and v: "io_bind (revalidate env (pw_borrower row) params) (approve_gated env i body row params sig) s1 = (Inr (Reply r), s')"
    using k row by (auto simp: io_bind_Inr_iff split: option.splits)
  obtain gate s2 where r2: "revalidate env (pw_borrower row) params s1 = (Inr gate, s2)"
    and a: "approve_gated env i body row params sig gate s2 = (Inr (Reply r), s')"
    using v unfolding io_bind_Inr_iff by blast
  have keep: "same_rows s1 s2" by (rule io_keepsD [OF revalidate_keeps_rows [OF assms(2)] r2])
  have ok: "db_ok (contents s2)" using assms(3) get(1) keep by (simp add: same_rows_def)
  note gated = approve_gated_reply [OF a ok]
  obtain w where w: "approve_execute env i body row params sig gate w = (Inr (Reply r), s')" "same_keeper s2 w"
    "map_option pw_status (row_of w i) = Some APPROVED"
    using gated(4) by blast
  note ran = approve_execute_done [OF w(1) assms(2)]
  obtain g where gg: "gate_reads env (pw_borrower row) params s1 g s2" "gate_evaluate g = Inr gate"
    using revalidate_reads [OF r2 assms(2)] by blast
  obtain p t t' where p: "protect (ae_deps env) params sig t = (Inr p, t')" "same_keeper w t"
      "proposal_status (contents t) i = Some APPROVED" "al_protect r = Some p"
      "pw_status (al_proposal r) = (if pr_submitted p then EXECUTED else FAILED)"
      "pw_result (al_proposal r) = Some (protect_json p)"
      "pr_tx_hash p \<noteq> None \<longrightarrow> pw_tx_hash (al_proposal r) = pr_tx_hash p"
    using ran w(3) by (auto simp: status_row)
  have h: "honest params p" by (rule io_postD [OF protect_post p(1)])
  have "params_of (pw_borrower row) s = Some (params, sig)"
    using ps get(1) by (simp add: same_rows_def same_keeper_def params_of_def)
  moreover have "store_io [i] (get_proposal i) s = (Inr (Some row), s1)" using g row(1) by simp
  moreover have "gate_evaluate g = Inr (al_revalidated_gate r)" "pd_allowed (al_revalidated_gate r)" "row_of s' i = Some (al_proposal r)"
    using ran gg gated(1) by simp_all
  moreover have "proposal_status (contents s2) i = Some PENDING" using gated(3) by (simp add: status_row)
  moreover have "same_keeper s2 t" by (rule same_keeper_trans [OF w(2) p(2)])
  ultimately show ?thesis
    using row(2) gg(1) gated(2) p(1,3-) h unfolding honest_def by blast
qed

text \<open>What the revalidation counts: the proposals of the last hour, the one being approved included.\<close>

lemma revalidate_counts:
  assumes "revalidate env b params s = (Inr gate, s')" "calm_deps (ae_deps env)"
  shows "\<exists>g w. gate_evaluate g = Inr gate \<and> policy_limits (ae_settings env) = Inr (gi_limits g) \<and>
     count_recent_proposals (fsub (ae_time env 0 w) HOUR) (Some b) (contents s) = (Inr (gi_recent_borrower g), contents s)"
  using revalidate_reads [OF assms] unfolding gate_reads_def by blast

text \<open>
  C33: once the borrower's proposals of the last hour are as many as the operator's limit, none of them can be
  approved any more: the revalidation counts the proposal it judges, so the one that used up the limit, which
  the gate allowed when it was made, is refused and closed as stale, and so are the earlier ones.
\<close>

theorem last_proposal_unapprovable:
  assumes "approve_proposal env i body s = (Inr x, s')" "calm_deps (ae_deps env)" "db_ok (contents s)"
    and "row_of s i = Some row" "\<And>k w. ae_time env k w = now" "policy_limits (ae_settings env) = Inr l"
    and "count_recent_proposals (fsub now HOUR) (Some (pw_borrower row)) (contents s) = (Inr n, db)"
    and "pm_max_proposals_per_borrower_per_hour l \<le> n"
  shows "\<exists>c detail. x = Refuse c detail"
proof (cases x)
  case (Reply r)
  obtain y s1 where g: "store_io [i] (get_proposal i) s = (Inr y, s1)"
    and k: "(case y of None \<Rightarrow> io_return (not_found i)
     | Some row \<Rightarrow>
         if pw_status row \<noteq> PENDING then io_return (not_pending row)
         else (\<lambda>s. case params_of (pw_borrower row) s of
             None \<Rightarrow>
               io_bind (finish env i STALE (Some (aq_approved_by body)) None None None) (\<lambda>_.
               io_return (Refuse 409 (JStr ''borrower no longer has a registered signed mandate''))) s
           | Some (params, signature) \<Rightarrow>
               io_bind (revalidate env (pw_borrower row) params)
                 (approve_gated env i body row params signature) s)) s1 = (Inr (Reply r), s')"
    using assms(1) unfolding Reply approve_proposal_def io_bind_Inr_iff by blast
  note get = get_done [OF g]
  have y: "y = Some row" using get(2) assms(4) by simp
  obtain params sig gate s2 where r2: "revalidate env (pw_borrower row) params s1 = (Inr gate, s2)"
    and a: "approve_gated env i body row params sig gate s2 = (Inr (Reply r), s')"
    using k unfolding y by (auto simp: io_bind_Inr_iff not_pending_def split: if_splits option.splits)
  obtain g w where e: "gate_evaluate g = Inr gate" "policy_limits (ae_settings env) = Inr (gi_limits g)"
    and c: "count_recent_proposals (fsub (ae_time env 0 w) HOUR) (Some (pw_borrower row)) (contents s1) = (Inr (gi_recent_borrower g), contents s1)"
    using revalidate_counts [OF r2 assms(2)] by blast
  have "gi_recent_borrower g = n" using c assms(5,7) get(1) by (simp add: same_rows_def)
  then have "\<not> rate_met g" using e(2) assms(6,8) by (simp add: rate_met_def)
  then have "\<not> pd_allowed gate" using gate_allowed_iff [OF e(1)] by blast
  moreover have "pd_allowed gate"
    using approve_gated_reply(1) [OF a] assms(3) get(1) io_keepsD [OF revalidate_keeps_rows [OF assms(2)] r2]
    by (simp add: same_rows_def)
  ultimately show ?thesis by blast
qed simp

text \<open>
  An approval that is refused before the action ran leaves the keeper's registry, locks, breaker and counters
  as they were, and a proposal that was pending is closed as stale or expired.
\<close>

lemma approve_refusal_closes:
  assumes "approve_proposal env i body s = (Inr (Refuse c x), s')" "c \<noteq> 502" "calm_deps (ae_deps env)" "db_ok (contents s)"
  shows "same_keeper s s' \<and> (if proposal_status (contents s) i = Some PENDING
     then proposal_status (contents s') i \<in> {Some STALE, Some EXPIRED} else contents s' = contents s)"
proof -
  obtain y s1 where g: "store_io [i] (get_proposal i) s = (Inr y, s1)"
    and k: "(case y of None \<Rightarrow> io_return (not_found i)
     | Some row \<Rightarrow>
         if pw_status row \<noteq> PENDING then io_return (not_pending row)
         else (\<lambda>s. case params_of (pw_borrower row) s of
             None \<Rightarrow>
               io_bind (finish env i STALE (Some (aq_approved_by body)) None None None) (\<lambda>_.
               io_return (Refuse 409 (JStr ''borrower no longer has a registered signed mandate''))) s
           | Some (params, signature) \<Rightarrow>
               io_bind (revalidate env (pw_borrower row) params)
                 (approve_gated env i body row params signature) s)) s1 = (Inr (Refuse c x), s')"
    using assms(1) unfolding approve_proposal_def io_bind_Inr_iff by blast
  note get = get_done [OF g]
  show ?thesis
  proof (cases "\<exists>row. y = Some row \<and> pw_status row = PENDING")
    case False
    then have "s' = s1" using k by (auto split: option.splits)
    then show ?thesis using get False by (auto simp: same_rows_def status_row)
  next
    case True
    then obtain row where row: "y = Some row" "pw_status row = PENDING" by blast
    have rw: "row_of s i = Some row" using get(2) row(1) by simp
    then have st: "proposal_status (contents s) i = Some PENDING" using row(2) by (simp add: status_row)
    show ?thesis
    proof (cases "params_of (pw_borrower row) s1")
      case None
      then obtain u where f: "finish env i STALE (Some (aq_approved_by body)) None None None s1 = (Inr u, s')"
        using k row by (auto simp: io_bind_Inr_iff)
      show ?thesis
        using finish_done(1,2) [OF f] get rw st by (auto simp: status_row same_rows_def row_of_def intro: same_keeper_trans)
    next
      case (Some ps)
      then obtain gate s2 where r2: "revalidate env (pw_borrower row) (fst ps) s1 = (Inr gate, s2)"
        and a: "approve_gated env i body row (fst ps) (snd ps) gate s2 = (Inr (Refuse c x), s')"
        using k row by (auto simp: io_bind_Inr_iff split: prod.splits)
      have keep: "same_rows s s2"
        using sr.R_trans [OF get(1) io_keepsD [OF revalidate_keeps_rows [OF assms(3)] r2]] .
      then have ok: "db_ok (contents s2)" "map_option pw_status (row_of s2 i) = Some PENDING"
        using assms(4) st by (simp_all add: same_rows_def status_row row_of_def)
      show ?thesis
        using approve_gated_refuse [OF a assms(2) ok] keep st
        by (auto simp: same_rows_def status_row intro: same_keeper_trans)
    qed
  qed
qed

section \<open>An example\<close>

definition demo_agent :: "agent_db \<Rightarrow> unit agent_state_scheme" where
  "demo_agent db = \<lparr>ch_client = \<lparr>cl_urls = [''rpc''], cl_max_retries = 3, cl_active = 0, cl_contracts = []\<rparr>,
     ch_pool_address = Some ''pool'', ch_oracle_address = Some ''oracle'', ch_decimals = [], pp_vols = [],
     sv_vols = [], sv_registry = [(''alice'', demo_params, ''0x00'')], sv_states = [],
     sv_inflight = \<lparr>fl_cooldown = Fin 30, fl_locked = [], fl_cooldown_until = []\<rparr>,
     sv_breaker = \<lparr>cb_max = 3, cb_consecutive = 0, cb_paused = False, cb_reason = None\<rparr>,
     sv_counters = [], sv_autonomous = True, sv_max_bumps = 3,
     ag_store = \<lparr>as_path = ''agent.db'', as_open = True, as_db = db\<rparr>,
     ag_global_client = Some \<lparr>cl_urls = [''rpc''], cl_max_retries = 3, cl_active = 0, cl_contracts = []\<rparr>\<rparr>"

definition demo_env :: "'z ags agent_env" where
  "demo_env = \<lparr>ae_deps = demo_deps, ae_settings = default_settings, ae_time = (\<lambda>_ _. Fin 500)\<rparr>"

lemma demo_env_sel [simp]: "ae_deps demo_env = demo_deps" "ae_settings demo_env = default_settings"
    "ae_time demo_env n s = Fin 500"
  by (simp_all add: demo_env_def)

lemma keeps_agent: "io_keeps same_agent (\<lambda>s. (r, s))"
  by (simp add: io_keeps_def same_agent_def same_service_def)

lemma demo_calm: "calm_deps demo_deps"
  by (auto simp: calm_deps_def node_keeps_def vault_keeps_def demo_deps_def demo_node_def const_node_def quiet_vault_def
      io_return_def [abs_def] keeps_agent split: option.split)

lemma demo_limits: "policy_limits default_settings = Inr default_limits"
  by (simp add: policy_limits_def default_settings_def validate_policy_limits_def default_limits_def fle_def)

text \<open>At rest, with the store given: what an approval of the example runs from.\<close>

definition demo_at :: "agent_db \<Rightarrow> 'z ags \<Rightarrow> bool" where
  "demo_at db s \<longleftrightarrow> at_rest s \<and> ag_store s = \<lparr>as_path = ''agent.db'', as_open = True, as_db = db\<rparr> \<and>
     sv_registry s = [(''alice'', demo_params, ''0x00'')] \<and>
     ag_global_client s = Some \<lparr>cl_urls = [''rpc''], cl_max_retries = 3, cl_active = 0, cl_contracts = []\<rparr>"

lemma demo_agent_at: "demo_at db (demo_agent db)"
  by (simp add: demo_at_def demo_agent_def at_rest_def ready_def allow_def)

lemma demo_store:
  assumes "demo_at db s" "q db = (r, db')" "\<forall>n\<in>set ints. sql_int_ok n"
  shows "\<exists>s'. store_io ints q s = (r, s') \<and> demo_at db' s' \<and> sv_states s' = sv_states s"
  using assms by (auto simp: store_io_def store_call_def store_connect_def demo_at_def at_rest_def ready_def Let_def)

lemma demo_price:
  assumes "demo_at db s"
  shows "\<exists>s'. debt_price_base demo_env a s = (Inr 100000000, s') \<and> demo_at db s' \<and> sv_states s' = sv_states s"
proof -
  let ?c = "\<lparr>cl_urls = [''rpc''], cl_max_retries = 3, cl_active = 0, cl_contracts = []\<rparr>"
  let ?s = "s\<lparr>ch_client := ?c, ch_oracle_address := None\<rparr>" and ?nd = "demo_node 2165000000 :: 'a ags node"
  have o1: "via ?nd (nd_getPriceOracle ?nd) ?s = (Inr ''oracle'', ?s)"
    by (subst client_call_first [of _ _ "''oracle''" ?s]) (simp_all add: demo_node_def const_node_def io_return_def)
  then have o2: "oracle_address ?nd ?s = (Inr ''oracle'', ?s\<lparr>ch_oracle_address := Some ''oracle''\<rparr>)"
    by (simp add: oracle_address_def io_bind_def io_lift_def demo_node_def)
  have "via ?nd (\<lambda>i. io_bind (oracle_address ?nd) (\<lambda>oracle. nd_getAssetPrice ?nd oracle a i)) ?s =
      (Inr 100000000, ?s\<lparr>ch_oracle_address := Some ''oracle''\<rparr>)"
    by (subst client_call_first [of _ _ 100000000 "?s\<lparr>ch_oracle_address := Some ''oracle''\<rparr>"])
      (simp_all add: io_bind_def [of "oracle_address _"] o2, simp add: demo_node_def const_node_def io_return_def)
  then have p: "get_asset_price ?nd a ?s = (Inr \<lparr>op_asset = a, op_price = 100000000, op_decimals = 8, op_updated_at = 0, op_stale = False\<rparr>,
      ?s\<lparr>ch_oracle_address := Some ''oracle''\<rparr>)"
    unfolding get_asset_price_def
    by (simp add: io_bind_def [of "via _ _"] io_bind_def [of "io_lift _"] io_lift_def io_return_def AAVE_BASE_CURRENCY_DECIMALS_def demo_checksum)
  show ?thesis
    using assms unfolding debt_price_base_def
    by (simp add: with_global_client_def get_client_def demo_deps_sel p io_try_def io_bind_def io_return_def demo_at_def
      at_rest_def ready_def)
qed

definition demo_snapshot :: PositionSnapshot where
  "demo_snapshot = \<lparr>ps_borrower = ''alice'', ps_account = \<lparr>ua_total_collateral_base = 800000000000,
        ua_total_debt_base = 600000000000, ua_available_borrows_base = 0, ua_liquidation_threshold_bps = 8250,
        ua_ltv_bps = 8000, ua_health_factor = 10 ^ 18\<rparr>, ps_state = ASSESSING, ps_hf = Fin 1,
        ps_hf_trigger_bps = 10500\<rparr>"

lemma demo_poll:
  assumes "ready s"
  shows "poll_once (demo_node al) ''alice'' 10500 s = (Inr demo_snapshot, s)"
proof -
  have hf: "ua_hf \<lparr>ua_total_collateral_base = 800000000000, ua_total_debt_base = 600000000000,
      ua_available_borrows_base = 0, ua_liquidation_threshold_bps = 8250, ua_ltv_bps = 8000,
      ua_health_factor = 10 ^ 18\<rparr> = Inr (Fin 1)"
    by (simp add: ua_hf_def int_truediv_def scale_defs demo_floats)
  show ?thesis unfolding poll_once_def demo_snapshot_def
    by (simp only: io_bind_def [of "get_user_account_data _ _"] demo_account [OF assms] prod.case sum.case Let_def hf)
       (simp add: io_bind_def io_lift_def io_return_def classify_state_def ua_has_debt_def)
qed

text \<open>The gate of the example, whatever the keeper counts, while it is neither paused nor busy with the borrower.\<close>

lemma demo_gate_opens:
  assumes "\<not> ms_breaker_paused m" "''alice'' \<notin> set (ms_in_flight_borrowers m)" "n < 10"
  shows "\<exists>d. gate_evaluate \<lparr>gi_params = Some demo_params, gi_assessment = demo_response, gi_snapshot = demo_snapshot,
      gi_metrics = m, gi_limits = default_limits, gi_now = now, gi_debt_price_base = 100000000, gi_debt_decimals = 6,
      gi_recent_borrower = k, gi_recent_global = n\<rparr> = Inr d \<and> (pd_allowed d \<longleftrightarrow> k < 3)"
proof -
  let ?g = "\<lparr>gi_params = Some demo_params, gi_assessment = demo_response, gi_snapshot = demo_snapshot,
      gi_metrics = m, gi_limits = default_limits, gi_now = now, gi_debt_price_base = 100000000, gi_debt_decimals = 6,
      gi_recent_borrower = k, gi_recent_global = n\<rparr>"
  have "\<exists>h t. Fin 1 = Fin h \<and> Fin (5 / 4) = Fin t \<and> \<bar>h\<bar> \<le> 2 ^ 198 \<and> \<bar>t\<bar> \<le> 2 ^ 198"
    by (intro exI conjI; (rule refl)?) simp_all
  moreover have "\<exists>f. Fin (1 / 2) = Fin f \<and> 0 \<le> f \<and> f \<le> 1" by (intro exI conjI; (rule refl)?) simp_all
  ultimately have sane: "sane_input ?g"
    by (simp add: sane_input_def demo_params_def demo_response_def demo_snapshot_def Let_def gate_repay_value_def
        repay_value_base_def default_limits_def del: pyfloat.inject)
  obtain position bound where "position_checks ?g = Inr position" "bound_check ?g = Inr bound"
    using position_answers [OF sane] bound_check_answers [OF sane] by blast
  moreover have "\<exists>cs. mandate_checks demo_params ?g h = Inr cs" for h
    by (rule mandate_answers [of _ "5 / 4"]) (auto simp: demo_response_def demo_params_def)
  ultimately obtain d where d: "gate_evaluate ?g = Inr d"
    unfolding gate_evaluate_Inr by (simp, fastforce)
  have "mandate_met demo_params ?g" "position_met ?g" "keeper_free ?g" "rate_met ?g \<longleftrightarrow> k < 3"
    using demo_gap demo_ceiling assms
    by (simp_all add: mandate_met_def position_met_def rate_met_def keeper_free_def Let_def not_expired_def demo_params_def
        demo_response_def demo_snapshot_def default_limits_def gate_repay_value_def repay_value_base_def)
  then show ?thesis using gate_allowed_iff [OF d] d by simp
qed

lemma demo_times: "fsub (Fin 500) HOUR = Fin (-3100)"
  using to_float_dyadic [of "-3100" "-3100" 0] by (simp add: fsub_def HOUR_def)

lemma demo_facts: "debt_asset_facts = Inr (USDC, 6)"
  by (simp add: debt_asset_facts_def TOKENS_def TOKEN_DECIMALS_def WETH_def USDC_def)

lemma demo_revalidate:
  assumes "demo_at db s" "count_recent_proposals (Fin (-3100)) (Some ''alice'') db = (Inr k, db)"
    "count_recent_proposals (Fin (-3100)) None db = (Inr n, db)" "n < 10"
  shows "\<exists>d s'. revalidate demo_env ''alice'' demo_params s = (Inr d, s') \<and> (pd_allowed d \<longleftrightarrow> k < 3) \<and> demo_at db s'"
proof -
  let ?v = "s\<lparr>sv_vols := [(''WETH'', \<lparr>rv_window = 30, rv_prices = []\<rparr>)]\<rparr>"
  let ?t = "set_state ''alice'' ASSESSING ?v"
  have v: "demo_at db ?v" "demo_at db ?t"
    using assms by (simp_all add: demo_at_def at_rest_def ready_def set_state_def)
  have sg: "tools_sigma_for demo_params s = (Inr (Fin 0), ?v)"
    using rest_sigma [of s] assms by (simp add: tools_sigma_for_def demo_params_def demo_at_def)
  have rd: "ready ?v" using v(1) by (simp add: demo_at_def at_rest_def)
  have as: "service_assess demo_deps demo_params (Some (Fin 0)) ?v = (Inr demo_response, ?v)"
    unfolding service_assess_def assess_def demo_deps_sel DEFAULT_GAS_COST_BASE_def
    by (simp add: io_bind_def io_return_def demo_evaluate [OF rd order_refl])
  have sn: "snapshot demo_deps ''alice'' 10500 ?v = (Inr demo_snapshot, ?t)"
    using v(1) unfolding snapshot_def demo_deps_sel
    by (simp add: io_bind_def demo_poll [OF rd] snapshot_done_def is_locked_def demo_at_def at_rest_def)
       (simp add: demo_snapshot_def)
  obtain u where pr: "debt_price_base demo_env USDC ?t = (Inr 100000000, u)" and u: "demo_at db u"
    using demo_price [OF v(2)] by blast
  obtain w1 where w1: "store_io [] (count_recent_proposals (Fin (-3100)) (Some ''alice'')) u = (Inr k, w1)" "demo_at db w1"
    using demo_store [where ints = "[]" and q = "count_recent_proposals (Fin (-3100)) (Some ''alice'')", OF u assms(2)] by auto
  obtain w2 where w2: "store_io [] (count_recent_proposals (Fin (-3100)) None) w1 = (Inr n, w2)" "demo_at db w2"
    using demo_store [where ints = "[]" and q = "count_recent_proposals (Fin (-3100)) None", OF w1(2) assms(3)] by auto
  have free: "\<not> ms_breaker_paused (metrics u)" "''alice'' \<notin> set (ms_in_flight_borrowers (metrics u))"
    using u by (simp_all add: metrics_def demo_at_def at_rest_def allow_def locked_borrowers_def)
  obtain d where d: "gate_evaluate \<lparr>gi_params = Some demo_params, gi_assessment = demo_response, gi_snapshot = demo_snapshot,
      gi_metrics = metrics u, gi_limits = default_limits, gi_now = Fin 500, gi_debt_price_base = 100000000, gi_debt_decimals = 6,
      gi_recent_borrower = k, gi_recent_global = n\<rparr> = Inr d" "pd_allowed d \<longleftrightarrow> k < 3"
    using demo_gate_opens [OF free assms(4), of "Fin 500" k] by auto
  have tr: "rp_hf_trigger_bps demo_params = 10500" by (simp add: demo_params_def)
  have "revalidate demo_env ''alice'' demo_params s = (Inr d, w2)"
    unfolding revalidate_def Let_def
    by (simp add: io_bind_def io_lift_def sg as tr sn demo_facts pr demo_times demo_limits w1(1) w2(1) d(1))
  then show ?thesis using d(2) w2(2) by blast
qed

lemma demo_count:
  "q = Some ''alice'' \<or> q = None \<Longrightarrow> count_recent_proposals (Fin (-3100)) q demo_db = (Inr 1, demo_db)"
  by (auto simp: count_recent_proposals_def demo_insert demo_row_def if_given_def)

lemma finish_runs: "sql_int_ok i \<Longrightarrow> \<exists>s'. finish env i st who note tx res s = (Inr (), s')"
  by (simp add: finish_def store_io_def store_call_def Let_def finish_proposal_def case_prod_beta)

lemma audit_runs: "sql_int_ok i \<Longrightarrow> \<exists>n s'. write_audit env who act b (Some i) det s = (Inr n, s')"
  by (simp add: write_audit_def store_io_def store_call_def Let_def audit_write_def)

lemma get_runs: "sql_int_ok i \<Longrightarrow> \<exists>s'. store_io [i] (get_proposal i) s = (Inr (row_of s i), s')"
  by (simp add: store_io_def store_call_def Let_def get_proposal_def row_of_def contents_def)

definition demo_approval :: ApprovalRequest where
  "demo_approval = \<lparr>aq_approved_by = ''op'', aq_note = None, aq_acknowledge_stale = False\<rparr>"

lemma demo_rows: "demo_at db s \<Longrightarrow> contents s = db"
  by (simp add: demo_at_def contents_def store_connect_def)

lemma sql_one: "sql_int_ok 1"
  by (simp add: sql_int_ok_def)

lemma demo_execute:
  assumes "demo_at db s" "map_option pw_status (row_of s 1) \<noteq> None"
  shows "\<exists>r s'. approve_execute demo_env 1 demo_approval row demo_params ''0x00'' gate s = (Inr (Reply r), s')"
proof -
  let ?o = "\<lambda>m w. \<exists>w'. m w = (Inr (), w') \<and> demo_at (contents w') w' \<and> row_of w' 1 \<noteq> None"
  obtain s1 where f: "finish demo_env 1 APPROVED (Some (aq_approved_by demo_approval)) (aq_note demo_approval) None None s = (Inr (), s1)"
    using finish_runs [OF sql_one] by blast
  obtain n s2 where a: "write_audit demo_env ''human'' AA_APPROVED (Some (pw_borrower row)) (Some 1)
       [(''by'', JStr (aq_approved_by demo_approval))] s1 = (Inr n, s2)"
    using audit_runs [OF sql_one] by blast
  have r2: "row_of s2 1 \<noteq> None" using finish_done(2) [OF f, of 1] audit_done(2) [OF a, of 1] assms(2) by auto
  have "at_rest s1" using f assms(1)
    by (auto simp: finish_def store_io_def demo_at_def at_rest_def ready_def split: prod.splits)
  then have "at_rest s2" using a
    by (auto simp: write_audit_def store_io_def at_rest_def ready_def split: prod.splits)
  then obtain p s3 where p: "protect demo_deps demo_params ''0x00'' s2 = (Inr p, s3)" using rest_protect by blast
  have r3: "row_of s3 1 \<noteq> None"
    using r2 same_storeD [OF io_keepsD [OF protect_keeps_store [OF demo_calm] p]] by simp
  obtain s4 where f4: "finish demo_env 1 (if pr_submitted p then EXECUTED else FAILED) None None
           (pr_tx_hash p) (Some (protect_json p)) s3 = (Inr (), s4)" using finish_runs [OF sql_one] by blast
  obtain n5 s5 where a5: "write_audit demo_env ''system'' (if pr_submitted p then AA_EXECUTED else AA_FAILED)
           (Some (pw_borrower row)) (Some 1)
           [(''tx_hash'', opt_str (pr_tx_hash p)), (''state'', JStr (state_value (pr_state p))),
            (''reason'', opt_str (pr_reason p))] s4 = (Inr n5, s5)" using audit_runs [OF sql_one] by blast
  obtain row' where r5: "row_of s5 1 = Some row'"
    using finish_done(2) [OF f4, of 1] audit_done(2) [OF a5, of 1] r3 by auto
  obtain s6 where g: "store_io [1] (get_proposal 1) s5 = (Inr (row_of s5 1), s6)" using get_runs [OF sql_one] by blast
  have rf: "refreshed 1 s5 = (Inr row', s6)" by (simp add: refreshed_def io_bind_def g r5 io_return_def)
  have "\<exists>r. approve_execute demo_env 1 demo_approval row demo_params ''0x00'' gate s = (Inr (Reply r), s6)"
    unfolding approve_execute_def demo_env_sel
    by (simp add: io_bind_def io_return_def f a p f4 a5 rf)
  then show ?thesis by blast
qed

lemma demo_approve:
  "\<exists>r s'. approve_proposal demo_env 1 demo_approval (demo_agent demo_db) = (Inr (Reply r), s')"
proof -
  let ?s = "demo_agent demo_db"
  have at: "demo_at demo_db ?s" by (rule demo_agent_at)
  have gp: "get_proposal 1 demo_db = (Inr (Some demo_row), demo_db)"
    unfolding get_proposal_def demo_insert by (simp add: demo_row_def)
  obtain s1 where g: "store_io [1] (get_proposal 1) ?s = (Inr (Some demo_row), s1)" and s1: "demo_at demo_db s1"
    using demo_store [where q = "get_proposal 1" and ints = "[1]", OF at gp] by (auto simp: sql_one)
  obtain d s2 where r: "revalidate demo_env ''alice'' demo_params s1 = (Inr d, s2)" "pd_allowed d" and s2: "demo_at demo_db s2"
    using demo_revalidate [OF s1 demo_count demo_count] by auto
  obtain db3 where c: "claim_proposal 1 APPROVED demo_db = (Inr True, db3)"
    using claim_proposal_result(1) [OF demo_db_ok, of 1 APPROVED]
    by (auto simp: won_def proposal_status_def demo_insert demo_row_def claim_proposal_def Let_def case_prod_beta)
  obtain s3 where s3: "store_io [1] (claim_proposal 1 APPROVED) s2 = (Inr True, s3)" "demo_at db3 s3"
    using demo_store [where q = "claim_proposal 1 APPROVED" and ints = "[1]", OF s2 c] by (auto simp: sql_one)
  have "map_option pw_status (row_of s3 1) \<noteq> None"
    using claim_done(4) [OF s3(1)] demo_rows [OF s2] demo_db_ok
    by (simp add: row_of_def demo_insert demo_row_def claim_proposal_def sql_update_def)
  then obtain r' s' where x: "approve_execute demo_env 1 demo_approval demo_row demo_params ''0x00'' d s3 = (Inr (Reply r'), s')"
    using demo_execute [OF s3(2)] by blast
  have "approve_gated demo_env 1 demo_approval demo_row demo_params ''0x00'' d s2 = (Inr (Reply r'), s')"
    unfolding approve_gated_def demo_env_sel using r(2)
    by (simp add: io_bind_def s3(1) x) (simp add: demo_row_def)
  moreover have "params_of ''alice'' s1 = Some (demo_params, ''0x00'')" using s1 by (simp add: params_of_def demo_at_def)
  moreover have "pw_status demo_row = PENDING" "pw_borrower demo_row = ''alice''" by (simp_all add: demo_row_def)
  ultimately have "approve_proposal demo_env 1 demo_approval ?s = (Inr (Reply r'), s')"
    unfolding approve_proposal_def by (simp add: io_bind_def g r(1))
  then show ?thesis by blast
qed

theorem approve_honours_gate_witness:
  "\<exists>r s'. approve_proposal demo_env 1 demo_approval (demo_agent demo_db) = (Inr (Reply r), s') \<and>
     pd_allowed (al_revalidated_gate r) \<and> pw_status (al_proposal r) \<in> {EXECUTED, FAILED}"
proof -
  obtain r s' where r: "approve_proposal demo_env 1 demo_approval (demo_agent demo_db) = (Inr (Reply r), s')"
    using demo_approve by blast
  have "calm_deps (ae_deps (demo_env :: unit agent_state_scheme agent_env))" "db_ok (contents (demo_agent demo_db))"
    using demo_rows [OF demo_agent_at] demo_db_ok by (simp_all add: demo_calm)
  from approve_honours_gate [OF r this] show ?thesis using r by (auto split: if_splits)
qed

lemma approve_refusal_closes_witness:
  "\<exists>x s'. approve_proposal demo_env 1 demo_approval ((demo_agent demo_db)\<lparr>sv_registry := []\<rparr>) = (Inr (Refuse 409 x), s') \<and>
     proposal_status (contents s') 1 \<in> {Some STALE, Some EXPIRED}"
proof -
  let ?s = "(demo_agent demo_db)\<lparr>sv_registry := []\<rparr>"
  have c: "contents ?s = demo_db" by (simp add: contents_def store_connect_def demo_agent_def)
  obtain s1 where g: "store_io [1] (get_proposal 1) ?s = (Inr (row_of ?s 1), s1)" using get_runs [OF sql_one] by blast
  have rw: "row_of ?s 1 = Some demo_row" using c by (simp add: row_of_def demo_insert demo_row_def)
  have "params_of ''alice'' s1 = None"
    using get_done(1) [OF g] by (simp add: same_rows_def same_keeper_def params_of_def)
  moreover obtain s2 where "finish demo_env 1 STALE (Some (aq_approved_by demo_approval)) None None None s1 = (Inr (), s2)"
    using finish_runs [OF sql_one] by blast
  moreover have "pw_status demo_row = PENDING" "pw_borrower demo_row = ''alice''" by (simp_all add: demo_row_def)
  ultimately obtain x where x: "approve_proposal demo_env 1 demo_approval ?s = (Inr (Refuse 409 x), s2)"
    unfolding approve_proposal_def by (simp add: io_bind_def g rw io_return_def)
  have "calm_deps (ae_deps (demo_env :: unit agent_state_scheme agent_env))" by (simp add: demo_calm)
  from approve_refusal_closes [OF x _ this] show ?thesis using x c demo_db_ok
    by (auto simp: proposal_status_def demo_insert demo_row_def)
qed


text \<open>Three proposals of the same borrower within the hour: as many as the default limit lets through.\<close>

definition demo_again :: "agent_db \<Rightarrow> agent_db" where
  "demo_again db = execute (Insert_proposal ''run'' ''alice'' ''protect_now'' [] demo_proposal ''why'' 900 False (Fin 100)) db"

definition demo_db3 :: agent_db where
  "demo_db3 = demo_again (demo_again demo_db)"

lemma demo_db3_ok: "db_ok demo_db3"
  unfolding demo_db3_def demo_again_def by (intro execute_ok demo_db_ok)

lemma demo_db3_rows: "\<exists>r2 r3. db_proposals demo_db3 = [demo_row, r2, r3] \<and> pw_borrower r2 = ''alice'' \<and> pw_created_at r2 = Fin 100 \<and>
    pw_borrower r3 = ''alice'' \<and> pw_created_at r3 = Fin 100"
  by (simp add: demo_db3_def demo_again_def insert_proposal_def demo_floats_store Let_def demo_insert)

lemma demo_count3:
  "q = Some ''alice'' \<or> q = None \<Longrightarrow> count_recent_proposals (Fin (-3100)) q demo_db3 = (Inr 3, demo_db3)"
  using demo_db3_rows by (auto simp: count_recent_proposals_def demo_row_def if_given_def)

theorem last_proposal_unapprovable_witness:
  "\<exists>c detail s'. approve_proposal demo_env 1 demo_approval (demo_agent demo_db3) = (Inr (Refuse c detail), s')"
proof -
  let ?s = "demo_agent demo_db3"
  have at: "demo_at demo_db3 ?s" by (rule demo_agent_at)
  have first: "find (\<lambda>r. pw_id r = 1) (db_proposals demo_db3) = Some demo_row"
    using demo_db3_rows by (auto simp: demo_row_def)
  then have gp: "get_proposal 1 demo_db3 = (Inr (Some demo_row), demo_db3)" by (simp add: get_proposal_def)
  obtain s1 where g: "store_io [1] (get_proposal 1) ?s = (Inr (Some demo_row), s1)" and s1: "demo_at demo_db3 s1"
    using demo_store [where q = "get_proposal 1" and ints = "[1]", OF at gp] by (auto simp: sql_one)
  obtain d s2 where r: "revalidate demo_env ''alice'' demo_params s1 = (Inr d, s2)" "\<not> pd_allowed d"
    using demo_revalidate [OF s1 demo_count3 demo_count3] by auto
  obtain s3 where f: "finish demo_env 1 STALE (Some (aq_approved_by demo_approval)) (aq_note demo_approval) None None s2 = (Inr (), s3)"
    using finish_runs [OF sql_one] by blast
  obtain n s4 where a: "write_audit demo_env ''system'' STALE_ON_APPROVE (Some (pw_borrower demo_row)) (Some 1)
      [(''blocking'', JList (map JStr (pd_blocking d)))] s3 = (Inr n, s4)"
    using audit_runs [OF sql_one] by blast
  have "\<exists>x. approve_gated demo_env 1 demo_approval demo_row demo_params ''0x00'' d s2 = (Inr x, s4)"
    unfolding approve_gated_def using r(2) by (simp add: io_bind_def f a io_return_def)
  moreover have "params_of ''alice'' s1 = Some (demo_params, ''0x00'')" using s1 by (simp add: params_of_def demo_at_def)
  moreover have "pw_status demo_row = PENDING" "pw_borrower demo_row = ''alice''" by (simp_all add: demo_row_def)
  ultimately obtain x where x: "approve_proposal demo_env 1 demo_approval ?s = (Inr x, s4)"
    unfolding approve_proposal_def by (auto simp: io_bind_def g r(1))
  have c: "contents ?s = demo_db3" by (rule demo_rows [OF at])
  have cl: "calm_deps (ae_deps (demo_env :: unit agent_state_scheme agent_env))" by (simp add: demo_calm)
  have ok: "db_ok (contents ?s)" "row_of ?s 1 = Some demo_row"
    using demo_db3_ok first by (simp_all add: c row_of_def)
  have count: "count_recent_proposals (fsub (Fin 500) HOUR) (Some (pw_borrower demo_row)) (contents ?s) = (Inr 3, demo_db3)"
    using demo_count3 by (simp add: c demo_times demo_row_def)
  have lim: "policy_limits (ae_settings (demo_env :: unit agent_state_scheme agent_env)) = Inr default_limits"
    "pm_max_proposals_per_borrower_per_hour default_limits \<le> 3" by (simp_all add: demo_limits default_limits_def)
  obtain c' detail where "x = Refuse c' detail"
    using last_proposal_unapprovable [OF x cl ok demo_env_sel(3) lim(1) count lim(2)] by blast
  then show ?thesis using x by blast
qed

end
