(* ===== verification/Approval_Concurrency.thy ===== *)
theory Approval_Concurrency
  imports Approval_Flow
begin

text \<open>
  Approvals of many operators at once. A request is cut at its awaits; between two of its segments any
  other request may run, and any other statement of the store that does not reopen a decided row. The ghost
  list holds the proposals whose protective action was started, in order. The route of \<open>Agent_Routes\<close> refines
  these steps.
\<close>

section \<open>Requests in progress\<close>

datatype approval =
    Deciding int
  | Claimed int
  | Noted int
  | Ran int ProposalStatus
  | Ended

type_synonym approvals = "agent_db \<times> approval list \<times> int list"

text \<open>
  A request that read the row as pending is deciding. It may be refused, which closes the row without asking
  for its status; otherwise it tries the claim, notes the approver, runs the action and records the outcome. An
  exception ends it anywhere.
\<close>

inductive approval_step :: "approvals \<Rightarrow> approvals \<Rightarrow> bool" where
  Request: "proposal_status db i = Some PENDING \<Longrightarrow> approval_step (db, ts, ex) (db, ts @ [Deciding i], ex)"
| Refuse_late: "k < length ts \<Longrightarrow> ts ! k = Deciding i \<Longrightarrow> st = STALE \<or> st = EXPIRED \<Longrightarrow>
     approval_step (db, ts, ex) (execute (Finish_proposal i st who why None None now) db, ts[k := Ended], ex)"
| Claim_row: "k < length ts \<Longrightarrow> ts ! k = Deciding i \<Longrightarrow> claim_proposal i APPROVED db = (Inr b, db') \<Longrightarrow>
     approval_step (db, ts, ex) (db', ts[k := (if b then Claimed i else Ended)], ex)"
| Note: "k < length ts \<Longrightarrow> ts ! k = Claimed i \<Longrightarrow>
     approval_step (db, ts, ex) (execute (Finish_proposal i APPROVED who why None None now) db, ts[k := Noted i], ex)"
| Act: "k < length ts \<Longrightarrow> ts ! k = Noted i \<Longrightarrow> st = EXECUTED \<or> st = FAILED \<Longrightarrow>
     approval_step (db, ts, ex) (db, ts[k := Ran i st], ex @ [i])"
| Record: "k < length ts \<Longrightarrow> ts ! k = Ran i st \<Longrightarrow>
     approval_step (db, ts, ex) (execute (Finish_proposal i st None why tx res now) db, ts[k := Ended], ex)"
| Abandon: "k < length ts \<Longrightarrow> approval_step (db, ts, ex) (db, ts[k := Ended], ex)"
| Other: "decides q \<Longrightarrow> approval_step (db, ts, ex) (execute q db, ts, ex)"

inductive approvals_from :: "agent_db \<Rightarrow> approvals \<Rightarrow> bool" for db0 where
  Nobody: "approvals_from db0 (db0, [], [])"
| Further: "approvals_from db0 c \<Longrightarrow> approval_step c c' \<Longrightarrow> approvals_from db0 c'"

section \<open>The invariant\<close>

definition holds_claim :: "approval \<Rightarrow> int \<Rightarrow> bool" where
  "holds_claim t i \<longleftrightarrow> t = Claimed i \<or> t = Noted i"

definition settled :: "agent_db \<Rightarrow> int \<Rightarrow> bool" where
  "settled db i \<longleftrightarrow> (\<exists>st. proposal_status db i = Some st \<and> st \<noteq> PENDING)"

definition approval_inv :: "approvals \<Rightarrow> bool" where
  "approval_inv c \<longleftrightarrow> (case c of (db, ts, ex) \<Rightarrow>
     db_ok db \<and> distinct ex \<and> (\<forall>i\<in>set ex. settled db i) \<and>
     (\<forall>k i. k < length ts \<and> holds_claim (ts ! k) i \<longrightarrow> settled db i \<and> i \<notin> set ex) \<and>
     (\<forall>k l i. k < length ts \<and> l < length ts \<and> holds_claim (ts ! k) i \<and> holds_claim (ts ! l) i \<longrightarrow> k = l) \<and>
     (\<forall>k i st. k < length ts \<and> ts ! k = Ran i st \<longrightarrow> st \<noteq> PENDING))"

lemma holds_simps [simp]: "holds_claim (Claimed j) i \<longleftrightarrow> j = i" "holds_claim (Noted j) i \<longleftrightarrow> j = i"
  "\<not> holds_claim (Deciding j) i" "\<not> holds_claim (Ran j st) i" "\<not> holds_claim Ended i"
  by (auto simp: holds_claim_def)

lemma settled_execute: "db_ok db \<Longrightarrow> decides q \<Longrightarrow> settled db i \<Longrightarrow> settled (execute q db) i"
  unfolding settled_def using execute_keeps_decided by blast

lemma approval_invD:
  assumes "approval_inv (db, ts, ex)"
  shows "db_ok db" "distinct ex" "i \<in> set ex \<Longrightarrow> settled db i"
    "k < length ts \<Longrightarrow> holds_claim (ts ! k) i \<Longrightarrow> settled db i" "k < length ts \<Longrightarrow> holds_claim (ts ! k) i \<Longrightarrow> i \<notin> set ex"
    "k < length ts \<Longrightarrow> l < length ts \<Longrightarrow> holds_claim (ts ! k) i \<Longrightarrow> holds_claim (ts ! l) i \<Longrightarrow> k = l"
    "k < length ts \<Longrightarrow> ts ! k = Ran i st \<Longrightarrow> st \<noteq> PENDING"
  using assms unfolding approval_inv_def prod.case by blast+

lemma approval_invI:
  assumes "db_ok db" "distinct ex" "\<And>i. i \<in> set ex \<Longrightarrow> settled db i"
    "\<And>k i. k < length ts \<Longrightarrow> holds_claim (ts ! k) i \<Longrightarrow> settled db i \<and> i \<notin> set ex"
    "\<And>k l i. k < length ts \<Longrightarrow> l < length ts \<Longrightarrow> holds_claim (ts ! k) i \<Longrightarrow> holds_claim (ts ! l) i \<Longrightarrow> k = l"
    "\<And>k i st. k < length ts \<Longrightarrow> ts ! k = Ran i st \<Longrightarrow> st \<noteq> PENDING"
  shows "approval_inv (db, ts, ex)"
  using assms unfolding approval_inv_def prod.case by blast

text \<open>A statement that decides, and a task that moves without a new claim, keep the invariant.\<close>

lemma inv_statement:
  assumes "approval_inv (db, ts, ex)" "decides q"
  shows "approval_inv (execute q db, ts, ex)"
  using approval_invD [OF assms(1)] settled_execute [OF approval_invD(1) [OF assms(1)] assms(2)]
  by (intro approval_invI) (auto intro: execute_ok)

lemma inv_move:
  assumes "approval_inv (db, ts, ex)" "\<And>i. holds_claim t i \<Longrightarrow> holds_claim (ts ! k) i" "\<And>i st. t = Ran i st \<Longrightarrow> st \<noteq> PENDING"
  shows "approval_inv (db, ts[k := t], ex)"
proof -
  note inv = approval_invD [OF assms(1)]
  have h: "holds_claim (ts ! l) i" if "holds_claim (ts[k := t] ! l) i" "l < length ts" for l i
    using assms(2) that by (cases "l = k") auto
  have r: "st \<noteq> PENDING" if "ts[k := t] ! l = Ran i st" "l < length ts" for l i st
    using inv(7) assms(3) that by (cases "l = k") auto
  show ?thesis by (rule approval_invI) (auto intro: inv(1,2) dest: h r inv(3-7))
qed

lemma inv_claim:
  assumes "approval_inv (db, ts, ex)" "ts ! k = Deciding i" "claim_proposal i APPROVED db = (Inr True, db')"
  shows "approval_inv (db', ts[k := Claimed i], ex)"
proof -
  note inv = approval_invD [OF assms(1)]
  have open_row: "proposal_status db i = Some PENDING"
    using claim_proposal_result(1) [OF inv(1), of i APPROVED] by (simp add: assms(3) won_def)
  then have un: "\<not> settled db i" by (simp add: settled_def)
  have new: "settled db' i"
    using claim_proposal_result(2) [OF inv(1), of i APPROVED i] open_row by (simp add: assms(3) won_def settled_def)
  have "approval_inv (execute (Claim_proposal i APPROVED) db, ts, ex)" by (rule inv_statement [OF assms(1)]) simp
  then have "approval_inv (db', ts, ex)" by (simp add: assms(3))
  note inv' = approval_invD [OF this]
  have h: "l = k \<and> j = i \<or> holds_claim (ts ! l) j \<and> j \<noteq> i" if "holds_claim (ts[k := Claimed i] ! l) j" "l < length ts" for l j
    using inv(4) un that by (cases "l = k") auto
  have r: "ts ! l = Ran j st" if "ts[k := Claimed i] ! l = Ran j st" "l < length ts" for l j st
    using that by (cases "l = k") auto
  show ?thesis
  proof (rule approval_invI)
    show "settled db' j \<and> j \<notin> set ex" if "l < length (ts[k := Claimed i])" "holds_claim (ts[k := Claimed i] ! l) j" for l j
      using h [OF that(2)] that(1) new inv'(4,5) inv(3) un by auto
    show "l = m" if "l < length (ts[k := Claimed i])" "m < length (ts[k := Claimed i])"
      "holds_claim (ts[k := Claimed i] ! l) j" "holds_claim (ts[k := Claimed i] ! m) j" for l m j
      using h [OF that(3)] h [OF that(4)] that(1,2) inv'(6) by auto
  qed (use inv' r in auto)
qed

lemma inv_act:
  assumes "approval_inv (db, ts, ex)" "k < length ts" "ts ! k = Noted i" "st \<noteq> PENDING"
  shows "approval_inv (db, ts[k := Ran i st], ex @ [i])"
proof -
  note inv = approval_invD [OF assms(1)]
  have i: "i \<notin> set ex" "settled db i" using inv(4,5) [OF assms(2), of i] assms(3) by auto
  have h: "holds_claim (ts ! l) j \<and> j \<noteq> i" if "holds_claim (ts[k := Ran i st] ! l) j" "l < length ts" for l j
    using that inv(6) [OF assms(2) that(2), of i] assms(3) by (cases "l = k") auto
  have r: "st' \<noteq> PENDING" if "ts[k := Ran i st] ! l = Ran j st'" "l < length ts" for l j st'
    using that inv(7) assms(4) by (cases "l = k") auto
  show ?thesis by (rule approval_invI) (use i inv(1,2) in \<open>auto dest: h r inv(3-7)\<close>)
qed

lemma approval_inv_step: "approval_step c c' \<Longrightarrow> approval_inv c \<Longrightarrow> approval_inv c'"
proof (induction rule: approval_step.induct)
  case (Request db i ts ex)
  then show ?case by (auto simp: approval_inv_def nth_append split: if_splits)
next
  case (Refuse_late k ts i st db ex who why now)
  then show ?case by (intro inv_move inv_statement) auto
next
  case (Claim_row k ts i db b db' ex)
  then show ?case
  proof (cases b)
    case False
    have "approval_inv (db', ts, ex)"
      using inv_statement [OF Claim_row.prems, of "Claim_proposal i APPROVED"] Claim_row.hyps(3) by simp
    then show ?thesis using False by (auto intro: inv_move)
  qed (auto intro: inv_claim)
next
  case (Note k ts i db ex who why now)
  then show ?case by (intro inv_move inv_statement) auto
next
  case (Act k ts i st db ex)
  then show ?case by (intro inv_act) auto
next
  case (Record k ts i st db ex why tx res now)
  then have "st \<noteq> PENDING" by (auto simp: approval_inv_def)
  with Record show ?case by (intro inv_move inv_statement) auto
next
  case (Abandon k ts db ex)
  then show ?case by (intro inv_move) auto
next
  case (Other q db ts ex)
  then show ?case by (intro inv_statement)
qed

lemma approval_inv_from: "approvals_from db0 c \<Longrightarrow> db_ok db0 \<Longrightarrow> approval_inv c"
proof (induction rule: approvals_from.induct)
  case (Further c c')
  then show ?case by (blast intro: approval_inv_step)
qed (simp add: approval_inv_def)

text \<open>
  C13: however the approvals of any number of operators interleave with each other and with the rest of
  the store's statements, and wherever a request breaks off, the action of a proposal is started at most once,
  and a proposal whose action was started is never pending again, so no later approval can start it.
\<close>

theorem proposal_executed_once:
  assumes "approvals_from db0 (db, ts, ex)" "db_ok db0"
  shows "distinct ex \<and> (\<forall>i\<in>set ex. \<exists>st. proposal_status db i = Some st \<and> st \<noteq> PENDING) \<and>
     (\<forall>k l i. k < length ts \<and> l < length ts \<and> holds_claim (ts ! k) i \<and> holds_claim (ts ! l) i \<longrightarrow> k = l)"
  using approval_inv_from [OF assms] by (simp add: approval_inv_def settled_def)

lemma two_approvals:
  assumes "db_ok db" "proposal_status db i = Some PENDING" "claim_proposal i APPROVED db = (Inr True, db1)"
    and "db2 = execute (Finish_proposal i APPROVED None None None None t) db1"
    and "db3 = execute (Finish_proposal i EXECUTED None None tx res t) db2"
  shows "approvals_from db (execute (Finish_proposal i STALE None None None None t) db3, [Ended, Ended], [i])"
proof -
  have 1: "approvals_from db (db, [Deciding i], [])"
    using Further [OF Nobody Request [OF assms(2)]] by simp
  have 2: "approvals_from db (db, [Deciding i, Deciding i], [])"
    using Further [OF 1 Request [OF assms(2)]] by simp
  have 3: "approvals_from db (db1, [Claimed i, Deciding i], [])"
    using Further [OF 2 Claim_row [of 0 _ i, OF _ _ assms(3)]] by simp
  have 4: "approvals_from db (db2, [Noted i, Deciding i], [])"
    using Further [OF 3 Note [of 0 _ i _ _ None None t]] by (simp add: assms(4))
  have 5: "approvals_from db (db2, [Ran i EXECUTED, Deciding i], [i])"
    using Further [OF 4 Act [of 0 _ i EXECUTED]] by simp
  have 6: "approvals_from db (db3, [Ended, Deciding i], [i])"
    using Further [OF 5 Record [of 0 _ i EXECUTED _ _ None tx res t]] by (simp add: assms(5))
  show ?thesis using Further [OF 6 Refuse_late [of 1 _ i STALE _ _ None None t]] by simp
qed

theorem proposal_executed_once_witness:
  "\<exists>db. approvals_from demo_db (db, [Ended, Ended], [1]) \<and> distinct [1 :: int] \<and> proposal_status db 1 \<noteq> Some PENDING"
proof -
  have pend: "proposal_status demo_db 1 = Some PENDING" by (simp add: proposal_status_def demo_insert demo_row_def)
  obtain db1 where c: "claim_proposal 1 APPROVED demo_db = (Inr True, db1)"
    using claim_proposal_result(1) [OF demo_db_ok, of 1 APPROVED] pend
    by (auto simp: won_def claim_proposal_def Let_def case_prod_beta)
  have run: "\<exists>db. approvals_from demo_db (db, [Ended, Ended], [1])"
    using two_approvals [OF demo_db_ok pend c refl refl] by blast
  then obtain db where db: "approvals_from demo_db (db, [Ended, Ended], [1])" by blast
  from proposal_executed_once [OF db demo_db_ok] show ?thesis using db by auto
qed

section \<open>One request over the whole state\<close>

text \<open>
  The same stages for one request over the keeper and the store together. \<open>pair\<close> is the signed pair registered for the
  borrower and \<open>r\<close> what the route answers or raises. Beside reads, which move neither the keeper nor the database, and
  audit records, every step is one statement of the route; the action is a call of \<^verbatim>\<open>protect\<close> itself, and its
  outcomes are collected. Only a route that raises may stop before its stage is over.
\<close>

type_synonym 'z request = "'z ags \<times> approval \<times> ProtectResponse res list"

definition final_status :: "ProtectResponse res \<Rightarrow> ProposalStatus" where
  "final_status q = (case q of Inl _ \<Rightarrow> FAILED | Inr p \<Rightarrow> if pr_submitted p then EXECUTED else FAILED)"

definition outcome_statement :: "int \<Rightarrow> ProtectResponse res \<Rightarrow> pyfloat \<Rightarrow> statement" where
  "outcome_statement i q now = (case q of
       Inl e \<Rightarrow> Finish_proposal i FAILED None (Some (''execution error: '' @ exn_str e)) None None now
     | Inr p \<Rightarrow> Finish_proposal i (final_status q) None None (pr_tx_hash p) (Some (protect_json p)) now)"

inductive request_step :: "'z ags agent_env \<Rightarrow> int \<Rightarrow> (RiskParams \<times> string) option \<Rightarrow> 'a res \<Rightarrow> 'z request \<Rightarrow> 'z request \<Rightarrow> bool"
  for env i pair r where
  Quiet: "same_rows s s' \<Longrightarrow> request_step env i pair r (s, t, qs) (s', t, qs)"
| Log: "t = Noted i \<or> t = Ended \<Longrightarrow> same_keeper s s' \<Longrightarrow> contents s' = execute (Audit who what b (Some i) det now) (contents s) \<Longrightarrow>
     request_step env i pair r (s, t, qs) (s', t, qs)"
| Refuse: "st = STALE \<or> st = EXPIRED \<Longrightarrow> same_keeper s s' \<Longrightarrow>
     contents s' = execute (Finish_proposal i st who why None None now) (contents s) \<Longrightarrow>
     request_step env i pair r (s, Deciding i, qs) (s', Ended, qs)"
| Claim: "same_keeper s s' \<Longrightarrow> claim_proposal i APPROVED (contents s) = (Inr b, contents s') \<Longrightarrow>
     request_step env i pair r (s, Deciding i, qs) (s', if b then Claimed i else Ended, qs)"
| Note_approver: "same_keeper s s' \<Longrightarrow> contents s' = execute (Finish_proposal i APPROVED who why None None now) (contents s) \<Longrightarrow>
     request_step env i pair r (s, Claimed i, qs) (s', Noted i, qs)"
| Protect: "pair = Some (params, sig) \<Longrightarrow> protect (ae_deps env) params sig s = (q, s') \<Longrightarrow>
     request_step env i pair r (s, Noted i, qs) (s', Ran i (final_status q), qs @ [q])"
| Outcome: "same_keeper s s' \<Longrightarrow> qs \<noteq> [] \<Longrightarrow> contents s' = execute (outcome_statement i (last qs) now) (contents s) \<Longrightarrow>
     request_step env i pair r (s, Ran i st, qs) (s', Ended, qs)"
| Raised: "isl r \<Longrightarrow> request_step env i pair r (s, t, qs) (s, Ended, qs)"

inductive request_run :: "'z ags agent_env \<Rightarrow> int \<Rightarrow> (RiskParams \<times> string) option \<Rightarrow> 'a res \<Rightarrow> 'z request \<Rightarrow> 'z request \<Rightarrow> bool"
  for env i pair r where
  Here: "request_run env i pair r c c"
| Step: "request_step env i pair r c c' \<Longrightarrow> request_run env i pair r c' c'' \<Longrightarrow> request_run env i pair r c c''"

text \<open>What a run can do: the action is called at most once, and a run without it leaves the keeper alone.\<close>

definition may_act :: "approval \<Rightarrow> ProtectResponse res list \<Rightarrow> bool" where
  "may_act t qs \<longleftrightarrow> length qs \<le> 1 \<and> ((\<exists>j. holds_claim t j) \<or> (\<exists>j. t = Deciding j) \<longrightarrow> qs = [])"

lemma request_run_acts:
  "request_run env i pair r (s, t, qs) (s', t', qs') \<Longrightarrow> may_act t qs \<Longrightarrow>
     may_act t' qs' \<and> (qs' = [] \<longrightarrow> same_keeper s s')"
proof (induction "(s, t, qs)" "(s', t', qs')" arbitrary: s t qs rule: request_run.induct)
  case Here
  then show ?case by (simp add: same_keeper_def)
next
  case (Step c')
  obtain s1 t1 qs1 where c': "c' = (s1, t1, qs1)" by (metis prod.exhaust)
  have one: "may_act t1 qs1 \<and> (qs1 = [] \<longrightarrow> same_keeper s s1)"
    using Step.hyps(1) Step.prems unfolding c'
    by (cases rule: request_step.cases) (auto simp: may_act_def holds_claim_def same_rows_def same_keeper_def split: if_splits)
  have grow: "qs1 \<noteq> [] \<Longrightarrow> qs' \<noteq> []"
    using Step.hyps(2) unfolding c'
  proof (induction "(s1, t1, qs1)" "(s', t', qs')" arbitrary: s1 t1 qs1 rule: request_run.induct)
    case (Step c2)
    then show ?case by (cases c2) (auto elim!: request_step.cases)
  qed
  have two: "may_act t' qs' \<and> (qs' = [] \<longrightarrow> same_keeper s1 s')"
    using Step.hyps(3) [OF c'] one by blast
  show ?case using one two grow same_keeper_trans by blast
qed

text \<open>A run of one request is a run of the interleaved steps, beside any other requests.\<close>

inductive approval_steps :: "approvals \<Rightarrow> approvals \<Rightarrow> bool" where
  no_step: "approval_steps c c"
| more_steps: "approval_step c c' \<Longrightarrow> approval_steps c' c'' \<Longrightarrow> approval_steps c c''"

definition stage_of_run :: "approval \<Rightarrow> ProtectResponse res list \<Rightarrow> bool" where
  "stage_of_run t qs \<longleftrightarrow> (\<forall>j st. t = Ran j st \<longrightarrow> qs \<noteq> [] \<and> st = final_status (last qs))"

lemma outcome_cases: "final_status q = EXECUTED \<or> final_status q = FAILED"
  by (auto simp: final_status_def split: sum.splits)

lemma outcome_finishes: "\<exists>why tx res. outcome_statement i q now = Finish_proposal i (final_status q) None why tx res now"
  by (auto simp: outcome_statement_def final_status_def split: sum.splits)

lemma request_step_projects:
  assumes "request_step env i pair r (s, t, qs) (s', t', qs')" "calm_deps (ae_deps env)" "stage_of_run t qs"
  shows "stage_of_run t' qs' \<and> (\<exists>new. qs' = qs @ new \<and>
     approval_steps (contents s, ts @ [t], ex) (contents s', ts @ [t'], ex @ map (\<lambda>_. i) new))"
proof -
  let ?k = "length ts"
  have k: "?k < length (ts @ [t])" "(ts @ [t]) ! ?k = t" "(ts @ [t])[?k := t'] = ts @ [t']" by simp_all
  have one: ?thesis if "stage_of_run t' qs'" "qs' = qs @ new" "approval_step (contents s, ts @ [t], ex) (contents s', (ts @ [t])[?k := t'], ex @ map (\<lambda>_. i) new)" for new
    using that(1,2) more_steps [OF that(3) no_step] unfolding k(3) by blast
  have none: ?thesis if "stage_of_run t qs" "t' = t" "qs' = qs" "contents s' = contents s"
    using that no_step by auto
  show ?thesis
    using assms(1)
  proof (cases rule: request_step.cases)
    case Quiet
    then show ?thesis using assms(3) by (intro none) (simp_all add: same_rows_def)
  next
    case (Log who what b det now)
    have "approval_step (contents s, ts @ [t], ex) (execute (Audit who what b (Some i) det now) (contents s), ts @ [t], ex)"
      by (rule Other) simp
    then show ?thesis using Log assms(3) more_steps [OF _ no_step] by auto
  next
    case (Refuse st who why now)
    have "approval_step (contents s, ts @ [t], ex)
        (execute (Finish_proposal i st who why None None now) (contents s), (ts @ [t])[?k := Ended], ex)"
      by (rule approval_step.Refuse_late) (use Refuse k in simp_all)
    then show ?thesis using Refuse by (intro one [of "[]"]) (simp_all add: stage_of_run_def)
  next
    case (Claim b)
    have "approval_step (contents s, ts @ [t], ex) (contents s', (ts @ [t])[?k := (if b then Claimed i else Ended)], ex)"
      by (rule approval_step.Claim_row) (use Claim k in simp_all)
    then show ?thesis using Claim by (intro one [of "[]"]) (auto simp: stage_of_run_def)
  next
    case (Note_approver who why now)
    have "approval_step (contents s, ts @ [t], ex)
        (execute (Finish_proposal i APPROVED who why None None now) (contents s), (ts @ [t])[?k := Noted i], ex)"
      by (rule approval_step.Note) (use Note_approver k in simp_all)
    then show ?thesis using Note_approver by (intro one [of "[]"]) (simp_all add: stage_of_run_def)
  next
    case (Protect params sig q)
    have "contents s' = contents s"
      using io_keepsD [OF protect_keeps_store [OF assms(2)] Protect(5)] by (simp add: same_store_def contents_def)
    moreover have "approval_step (contents s, ts @ [t], ex) (contents s, (ts @ [t])[?k := Ran i (final_status q)], ex @ [i])"
      by (rule approval_step.Act) (use Protect k outcome_cases in simp_all)
    ultimately show ?thesis using Protect by (intro one [of "[q]"]) (simp_all add: stage_of_run_def)
  next
    case (Outcome now st)
    obtain why tx res where o: "outcome_statement i (last qs) now = Finish_proposal i (final_status (last qs)) None why tx res now"
      using outcome_finishes by blast
    have "st = final_status (last qs)" using assms(3) Outcome by (simp add: stage_of_run_def)
    then have "approval_step (contents s, ts @ [t], ex)
        (execute (outcome_statement i (last qs) now) (contents s), (ts @ [t])[?k := Ended], ex)"
      unfolding o by (intro approval_step.Record) (use Outcome k in simp_all)
    then show ?thesis using Outcome by (intro one [of "[]"]) (simp_all add: stage_of_run_def)
  next
    case Raised
    have "approval_step (contents s, ts @ [t], ex) (contents s, (ts @ [t])[?k := Ended], ex)"
      by (rule approval_step.Abandon) simp
    then show ?thesis using Raised by (intro one [of "[]"]) (simp_all add: stage_of_run_def)
  qed
qed

lemma steps_append: "approval_steps c c' \<Longrightarrow> approval_steps c' c'' \<Longrightarrow> approval_steps c c''"
  by (induction rule: approval_steps.induct) (auto intro: more_steps)

lemma request_run_projects:
  assumes "request_run env i pair r (s, t, qs) (s', t', qs')" "calm_deps (ae_deps env)" "stage_of_run t qs"
  shows "\<exists>new. qs' = qs @ new \<and> approval_steps (contents s, ts @ [t], ex) (contents s', ts @ [t'], ex @ map (\<lambda>_. i) new)"
  using assms
proof (induction "(s, t, qs)" "(s', t', qs')" arbitrary: s t qs ex rule: request_run.induct)
  case Here
  then show ?case using no_step by auto
next
  case (Step c')
  obtain s1 t1 qs1 where c': "c' = (s1, t1, qs1)" by (metis prod.exhaust)
  obtain new where 1: "stage_of_run t1 qs1" "qs1 = qs @ new"
      "approval_steps (contents s, ts @ [t], ex) (contents s1, ts @ [t1], ex @ map (\<lambda>_. i) new)"
    using request_step_projects [OF Step.hyps(1) [unfolded c'] Step.prems, of ts ex] by blast
  obtain new' where 2: "qs' = qs1 @ new'"
      "approval_steps (contents s1, ts @ [t1], ex @ map (\<lambda>_. i) new) (contents s', ts @ [t'], (ex @ map (\<lambda>_. i) new) @ map (\<lambda>_. i) new')"
    using Step.hyps(3) [OF c' Step.prems(1) 1(1)] by blast
  show ?case using 1(2) 2(1) steps_append [OF 1(3) 2(2)] by (intro exI [of _ "new @ new'"]) simp
qed

section \<open>The route refines the steps\<close>

lemma finish_fails: "finish env i st who note tx res s = (Inl e, s') \<Longrightarrow> same_rows s s'"
  unfolding finish_def same_rows_def by (auto elim!: store_ioE simp: finish_proposal_def Let_def case_prod_beta)

lemma audit_fails: "write_audit env who act b i det s = (Inl e, s') \<Longrightarrow> same_rows s s'"
  unfolding write_audit_def same_rows_def by (auto elim!: store_ioE simp: audit_write_def Let_def)

lemma claim_fails: "store_io [i] (claim_proposal i st) s = (Inl e, s') \<Longrightarrow> same_rows s s'"
  unfolding same_rows_def by (auto elim!: store_ioE simp: claim_proposal_def Let_def case_prod_beta)

lemma get_keeps: "io_keeps same_rows (store_io [i] (get_proposal i))"
  by (rule read_keeps_rows) (simp add: get_proposal_def)

lemma refreshed_keeps: "io_keeps same_rows (refreshed i)"
  unfolding refreshed_def by (auto intro!: sr.k_bind get_keeps sr.k_raise sr.k_return split: option.split)

lemma run_ended: "same_rows s s' \<Longrightarrow> request_run env i pair r (s, Ended, qs) (s', Ended, qs)"
  by (rule Step [OF Quiet Here])

lemma run_raised: "same_rows s s' \<Longrightarrow> r = Inl e \<Longrightarrow> request_run env i pair r (s, t, qs) (s', Ended, qs)"
  by (rule Step [OF Quiet Step [OF Raised Here]]) simp_all

text \<open>A closing statement, its audit record and a read of the row end a request, whatever of it raises.\<close>

lemma run_finish_audit:
  assumes "io_bind (finish env i st who note tx res) (\<lambda>_. io_bind (write_audit env actor act b (Some i) det) (\<lambda>_. m)) s = (r, s')"
    and m: "io_keeps same_rows m"
    and step: "\<And>s1. same_keeper s s1 \<Longrightarrow> contents s1 = execute (Finish_proposal i st who note tx res (ae_time env 2 s)) (contents s) \<Longrightarrow>
        request_step env i pair r (s, t, qs) (s1, Ended, qs)"
  shows "request_run env i pair r (s, t, qs) (s', Ended, qs)"
  using assms(1)
proof (cases rule: io_bindE)
  case (raised e)
  then show ?thesis by (rule run_raised [OF finish_fails])
next
  case f: (ran u s1)
  note st = step [OF finish_done(1,3) [OF f(1)]]
  show ?thesis
    using f(2)
  proof (cases rule: io_bindE)
    case (raised e)
    then show ?thesis using Step [OF st run_ended [OF audit_fails]] by blast
  next
    case w: (ran n s2)
    have "request_step env i pair r (s1, Ended, qs) (s2, Ended, qs)"
      by (rule Log [OF _ audit_done(1,3) [OF w(1)]]) simp
    then show ?thesis using Step [OF st Step [OF _ run_ended [OF io_keepsD [OF m w(2)]]]] by blast
  qed
qed

lemma execute_runs:
  assumes "approve_execute env i body row params sig gate s = (r, s')"
  shows "\<exists>qs. request_run env i (Some (params, sig)) r (s, Claimed i, []) (s', Ended, qs) \<and>
     (\<forall>x. r = Inr (Reply x) \<longrightarrow> (\<exists>p. qs = [Inr p] \<and> al_protect x = Some p))"
  using assms unfolding approve_execute_def
proof (cases rule: io_bindE)
  case (raised e)
  show ?thesis using run_raised [OF finish_fails [OF raised(1)] raised(2)] raised(2) by (auto intro!: exI [of _ "[]"])
next
  case f: (ran u s1)
  let ?run = "request_run env i (Some (params, sig)) r"
  have noted: "request_step env i (Some (params, sig)) r (s, Claimed i, []) (s1, Noted i, [])"
    by (rule Note_approver [OF finish_done(1,3) [OF f(1)]])
  show ?thesis
    using f(2)
  proof (cases rule: io_bindE)
    case (raised e)
    show ?thesis using Step [OF noted run_raised [OF audit_fails [OF raised(1)] raised(2)]] raised(2) by auto
  next
    case w: (ran n s2)
    have log: "request_step env i (Some (params, sig)) r (s1, Noted i, []) (s2, Noted i, [])"
      by (rule Log [OF _ audit_done(1,3) [OF w(1)]]) simp
    obtain q s3 where p: "protect (ae_deps env) params sig s2 = (q, s3)" by fastforce
    have act: "request_step env i (Some (params, sig)) r (s2, Noted i, []) (s3, Ran i (final_status q), [q])"
      using Protect [OF refl p, of i r "[]"] by simp
    have go: "?run (s, Claimed i, []) (s', Ended, [q])" if "?run (s3, Ran i (final_status q), [q]) (s', Ended, [q])"
      by (rule Step [OF noted Step [OF log Step [OF act that]]])
    show ?thesis
    proof (cases q)
      case (Inl e)
      have m: "io_bind (finish env i FAILED None (Some (''execution error: '' @ exn_str e)) None None) (\<lambda>_.
             io_bind (write_audit env ''system'' AA_FAILED (Some (pw_borrower row)) (Some i)
               [(''error'', JStr (exn_str e))]) (\<lambda>_.
             io_return (Refuse 502 (JStr (''execution failed: '' @ exn_str e))))) s3 = (r, s')"
        using w(2) p Inl by simp
      then have "?run (s3, Ran i (final_status q), [q]) (s', Ended, [q])"
      proof (rule run_finish_audit)
        show "request_step env i (Some (params, sig)) r (s3, Ran i (final_status q), [q]) (w, Ended, [q])"
          if "same_keeper s3 w" "contents w = execute (Finish_proposal i FAILED None (Some (''execution error: '' @ exn_str e))
            None None (ae_time env 2 s3)) (contents s3)" for w
          by (rule Outcome [OF that(1)]) (use that(2) Inl in \<open>simp_all add: outcome_statement_def\<close>)
      qed (rule sr.k_return)
      moreover have "\<forall>x. r \<noteq> Inr (Reply x)" using m by (auto simp: io_bind_def split: prod.splits sum.splits)
      ultimately show ?thesis using go by blast
    next
      case (Inr res)
      have m: "io_bind (finish env i (final_status q) None None (pr_tx_hash res) (Some (protect_json res))) (\<lambda>_.
             io_bind (write_audit env ''system'' (if pr_submitted res then AA_EXECUTED else AA_FAILED)
               (Some (pw_borrower row)) (Some i)
               [(''tx_hash'', opt_str (pr_tx_hash res)), (''state'', JStr (state_value (pr_state res))),
                (''reason'', opt_str (pr_reason res))]) (\<lambda>_.
             io_bind (refreshed i) (\<lambda>r. io_return (Reply \<lparr>al_proposal = r, al_revalidated_gate = gate,
               al_protect = Some res, al_reason = pr_reason res\<rparr>)))) s3 = (r, s')"
        using w(2) p Inr by (simp add: final_status_def)
      then have "?run (s3, Ran i (final_status q), [q]) (s', Ended, [q])"
      proof (rule run_finish_audit)
        show "request_step env i (Some (params, sig)) r (s3, Ran i (final_status q), [q]) (w, Ended, [q])"
          if "same_keeper s3 w" "contents w = execute (Finish_proposal i (final_status q) None None (pr_tx_hash res)
            (Some (protect_json res)) (ae_time env 2 s3)) (contents s3)" for w
          by (rule Outcome [OF that(1)]) (use that(2) Inr in \<open>simp_all add: outcome_statement_def\<close>)
      qed (intro sr.k_bind refreshed_keeps sr.k_return)
      moreover have "\<forall>x. r = Inr (Reply x) \<longrightarrow> al_protect x = Some res"
        using m by (auto simp: io_bind_Inr_iff)
      ultimately show ?thesis using go Inr by blast
    qed
  qed
qed

lemma gated_runs:
  assumes "approve_gated env i body row params sig gate s = (r, s')"
  shows "\<exists>qs. request_run env i (Some (params, sig)) r (s, Deciding i, []) (s', Ended, qs) \<and>
     (\<forall>x. r = Inr (Reply x) \<longrightarrow> (\<exists>p. qs = [Inr p] \<and> al_protect x = Some p))"
proof -
  let ?run = "request_run env i (Some (params, sig)) r"
  have refused: ?thesis if "?run (s, Deciding i, []) (s', Ended, [])" "\<forall>x. r \<noteq> Inr (Reply x)"
    using that by blast
  have close: ?thesis if "io_bind (finish env i st who nt None None) (\<lambda>_. io_bind (write_audit env actor act b (Some i) det)
      (\<lambda>_. io_return (Refuse c d))) s = (r, s')" "st = STALE \<or> st = EXPIRED" for st who nt actor act b det c d
    by (rule refused, rule run_finish_audit [OF that(1)], rule sr.k_return, rule Refuse [OF that(2)], assumption+)
      (use that(1) in \<open>auto simp: io_bind_def split: prod.splits sum.splits\<close>)
  show ?thesis
  proof (cases "pd_allowed gate")
    case False
    then show ?thesis using assms by (intro close [of STALE]) (auto simp: approve_gated_def)
  next
    case True
    show ?thesis
    proof (cases "flt (pw_expires_at row) (ae_time env 4 s) \<and> \<not> aq_acknowledge_stale body")
      case late: True
      then show ?thesis using assms True by (intro close [of EXPIRED]) (auto simp: approve_gated_def)
    next
      case False
      then have "io_bind (store_io [i] (claim_proposal i APPROVED)) (\<lambda>won.
          if \<not> won then io_return (Refuse 409 (JStr ''proposal was already decided by someone else''))
          else approve_execute env i body row params sig gate) s = (r, s')"
        using assms True unfolding approve_gated_def by (simp only: if_False not_True_eq_False)
      then show ?thesis
      proof (cases rule: io_bindE)
        case (raised e)
        then show ?thesis using run_raised [OF claim_fails [OF raised(1)] raised(2)] by (intro refused) simp_all
      next
        case c: (ran b s1)
        have "same_keeper s s1" "claim_proposal i APPROVED (contents s) = (Inr b, contents s1)"
          using c(1) by (auto elim: store_ioE)
        from Claim [OF this, of env "Some (params, sig)" r "[]"]
        have claim: "request_step env i (Some (params, sig)) r (s, Deciding i, []) (s1, if b then Claimed i else Ended, [])" .
        show ?thesis
        proof (cases b)
          case True
          then have "approve_execute env i body row params sig gate s1 = (r, s')" using c(2) by simp
          from execute_runs [OF this] show ?thesis using Step [OF claim] True by auto
        next
          case False
          then show ?thesis using c(2) Step [OF claim Here] by (intro refused) auto
        qed
      qed
    qed
  qed
qed

text \<open>The rest of a request whose row was read as pending, up to the gate and from there on.\<close>

definition decide_row :: "'z ags agent_env \<Rightarrow> int \<Rightarrow> ApprovalRequest \<Rightarrow> ProposalRow \<Rightarrow> ('z ags, ApprovalResult http) io" where
  "decide_row env i body row s = (case params_of (pw_borrower row) s of
       None \<Rightarrow> io_bind (finish env i STALE (Some (aq_approved_by body)) None None None) (\<lambda>_.
         io_return (Refuse 409 (JStr ''borrower no longer has a registered signed mandate''))) s
     | Some (params, sig) \<Rightarrow>
         io_bind (revalidate env (pw_borrower row) params) (approve_gated env i body row params sig) s)"

lemma approve_read:
  assumes "store_io [i] (get_proposal i) s = (Inr (Some row), s1)" "pw_status row = PENDING"
  shows "approve_proposal env i body s = decide_row env i body row s1"
  using assms by (simp add: approve_proposal_def io_bind_def [of "store_io _ _"] decide_row_def)

lemma decide_runs:
  assumes "decide_row env i body row s = (r, s')" "calm_deps (ae_deps env)"
  shows "\<exists>qs. request_run env i (params_of (pw_borrower row) s) r (s, Deciding i, []) (s', Ended, qs) \<and>
     (\<forall>x. r = Inr (Reply x) \<longrightarrow> (\<exists>p. qs = [Inr p] \<and> al_protect x = Some p))"
proof (cases "params_of (pw_borrower row) s")
  case None
  then have "io_bind (finish env i STALE (Some (aq_approved_by body)) None None None) (\<lambda>_.
      io_return (Refuse 409 (JStr ''borrower no longer has a registered signed mandate''))) s = (r, s')"
    using assms(1) by (simp add: decide_row_def)
  then show ?thesis
  proof (cases rule: io_bindE)
    case (raised e)
    show ?thesis using run_raised [OF finish_fails [OF raised(1)] raised(2)] raised(2) by (auto intro!: exI [of _ "[]"])
  next
    case (ran u s1)
    then show ?thesis using Step [OF Refuse [OF _ finish_done(1,3)] Here] by (intro exI [of _ "[]"]) fastforce
  qed
next
  case (Some ps)
  obtain params sig where ps: "ps = (params, sig)" by fastforce
  have "io_bind (revalidate env (pw_borrower row) params) (approve_gated env i body row params sig) s = (r, s')"
    using assms(1) Some ps by (simp add: decide_row_def)
  then show ?thesis
  proof (cases rule: io_bindE)
    case (raised e)
    show ?thesis
      using run_raised [OF io_keepsD [OF revalidate_keeps_rows [OF assms(2)] raised(1)] raised(2)] raised(2) by (auto intro!: exI [of _ "[]"])
  next
    case (ran gate s1)
    have "request_step env i (Some (params, sig)) r (s, Deciding i, []) (s1, Deciding i, [])"
      by (rule Quiet [OF io_keepsD [OF revalidate_keeps_rows [OF assms(2)] ran(1)]])
    from Step [OF this] show ?thesis using gated_runs [OF ran(2)] unfolding Some ps by metis
  qed
qed

text \<open>
  C17: whatever the chain answers and wherever it raises, a call of the approval route either reads the row, moves
  neither keeper nor database and does not reply, or it is a run of one request over the whole state: it finds the
  row pending and takes the pair registered for its borrower, and every move of the keeper in it is the one call of
  \<^verbatim>\<open>protect\<close> on that pair, made after the claim was won and the approver noted, with its outcome recorded unless the route raises. A
  reply carries the response of that call; without the call the keeper is untouched. For the store, and beside any other requests, the
  run is one of the interleaved steps.
\<close>

theorem approval_refines_steps:
  assumes "approve_proposal env i body s = (r, s')" "calm_deps (ae_deps env)"
  shows "same_rows s s' \<and> (\<forall>x. r \<noteq> Inr (Reply x)) \<or>
     (\<exists>row qs. row_of s i = Some row \<and> pw_status row = PENDING \<and>
        request_run env i (params_of (pw_borrower row) s) r (s, Deciding i, []) (s', Ended, qs) \<and>
        length qs \<le> 1 \<and> (qs = [] \<longrightarrow> same_keeper s s') \<and>
        (\<forall>x. r = Inr (Reply x) \<longrightarrow> (\<exists>p. qs = [Inr p] \<and> al_protect x = Some p)) \<and>
        (\<forall>ts ex. approval_steps (contents s, ts, ex) (contents s', ts @ [Ended], ex @ map (\<lambda>_. i) qs)))"
proof -
  obtain q s1 where g: "store_io [i] (get_proposal i) s = (q, s1)" by fastforce
  have s1: "same_rows s s1" by (rule io_keepsD [OF get_keeps g])
  show ?thesis
  proof (cases "\<exists>row. q = Inr (Some row) \<and> pw_status row = PENDING")
    case False
    then have "s' = s1 \<and> (\<forall>x. r \<noteq> Inr (Reply x))"
      using assms(1) g unfolding approve_proposal_def
      by (auto simp: io_bind_def not_found_def not_pending_def split: sum.splits option.splits)
    then show ?thesis using s1 by blast
  next
    case True
    then obtain row where q: "q = Inr (Some row)" and row: "pw_status row = PENDING" by blast
    have found: "row_of s i = Some row" using get_done(2) [OF g [unfolded q]] by simp
    have m: "decide_row env i body row s1 = (r, s')"
      using approve_read [OF g [unfolded q] row, of env body] assms(1) by simp
    have p: "params_of (pw_borrower row) s1 = params_of (pw_borrower row) s"
      using s1 by (simp add: same_rows_def same_keeper_def params_of_def)
    obtain qs where run: "request_run env i (params_of (pw_borrower row) s) r (s, Deciding i, []) (s', Ended, qs)"
      and rep: "\<forall>x. r = Inr (Reply x) \<longrightarrow> (\<exists>p. qs = [Inr p] \<and> al_protect x = Some p)"
      using decide_runs [OF m assms(2)] Step [OF Quiet [OF s1]] unfolding p by metis
    have acts: "length qs \<le> 1 \<and> (qs = [] \<longrightarrow> same_keeper s s')"
      using request_run_acts [OF run] by (simp add: may_act_def)
    have "approval_steps (contents s, ts, ex) (contents s', ts @ [Ended], ex @ map (\<lambda>_. i) qs)" for ts ex
    proof (rule more_steps)
      show "approval_step (contents s, ts, ex) (contents s, ts @ [Deciding i], ex)"
        by (rule Request) (simp add: status_row found row)
      show "approval_steps (contents s, ts @ [Deciding i], ex) (contents s', ts @ [Ended], ex @ map (\<lambda>_. i) qs)"
        using request_run_projects [OF run assms(2), of ts ex] by (auto simp: stage_of_run_def)
    qed
    then show ?thesis using found row run rep acts by blast
  qed
qed

theorem approval_refines_steps_witness:
  "\<exists>r s' p. approve_proposal demo_env 1 demo_approval (demo_agent demo_db) = (Inr (Reply r), s') \<and> al_protect r = Some p \<and>
     request_run demo_env 1 (Some (demo_params, ''0x00'')) (Inr (Reply r) :: ApprovalResult http res)
       (demo_agent demo_db, Deciding 1, []) (s', Ended, [Inr p]) \<and>
     approval_steps (demo_db, [Deciding 7], []) (contents s', [Deciding 7, Ended], [1])"
proof -
  obtain r s' where r: "approve_proposal demo_env 1 demo_approval (demo_agent demo_db) = (Inr (Reply r), s')"
    using demo_approve by blast
  have calm: "calm_deps (ae_deps (demo_env :: unit agent_state_scheme agent_env))" by (simp add: demo_calm)
  have c: "contents (demo_agent demo_db) = demo_db" by (rule demo_rows [OF demo_agent_at])
  have "row_of (demo_agent demo_db) 1 = Some demo_row" using c by (simp add: row_of_def demo_insert demo_row_def)
  moreover have "params_of (pw_borrower demo_row) (demo_agent demo_db) = Some (demo_params, ''0x00'')"
    using demo_agent_at [of demo_db] by (simp add: params_of_def demo_at_def demo_row_def)
  ultimately obtain qs where qs: "request_run demo_env 1 (Some (demo_params, ''0x00'')) (Inr (Reply r) :: ApprovalResult http res)
      (demo_agent demo_db, Deciding 1, []) (s', Ended, qs)" "\<exists>p. qs = [Inr p] \<and> al_protect r = Some p"
    "\<forall>ts ex. approval_steps (demo_db, ts, ex) (contents s', ts @ [Ended], ex @ map (\<lambda>_. 1) qs)"
    using approval_refines_steps [OF r calm] c by auto
  then obtain p where p: "qs = [Inr p]" "al_protect r = Some p" by blast
  have "approval_steps (demo_db, [Deciding 7], []) (contents s', [Deciding 7, Ended], [1])"
    using qs(3) [rule_format, of "[Deciding 7]" "[]"] p(1) by simp
  then show ?thesis using r qs(1) p by blast
qed

section \<open>A late refusal overwrites the outcome\<close>

lemma decide_reply:
  assumes "decide_row env i body row s = (Inr (Reply r), s')" "calm_deps (ae_deps env)" "db_ok (contents s)"
  shows "row_of s' i = Some (al_proposal r)" "pw_status (al_proposal r) \<in> {EXECUTED, FAILED}"
proof -
  obtain params sig where "io_bind (revalidate env (pw_borrower row) params) (approve_gated env i body row params sig) s = (Inr (Reply r), s')"
    using assms(1) by (auto simp: decide_row_def io_bind_Inr_iff split: option.splits)
  then obtain gate s2 where v: "revalidate env (pw_borrower row) params s = (Inr gate, s2)"
    and a: "approve_gated env i body row params sig gate s2 = (Inr (Reply r), s')"
    unfolding io_bind_Inr_iff by blast
  have "db_ok (contents s2)"
    using assms(3) io_keepsD [OF revalidate_keeps_rows [OF assms(2)] v] by (simp add: same_rows_def)
  from approve_gated_reply(4) [OF a this] obtain w where "approve_execute env i body row params sig gate w = (Inr (Reply r), s')"
    by blast
  from approve_execute_done [OF this assms(2)]
  show "row_of s' i = Some (al_proposal r)" "pw_status (al_proposal r) \<in> {EXECUTED, FAILED}" by (auto split: if_splits)
qed

lemma decide_refused:
  assumes "decide_row env i body row s = (Inr h, s')" "params_of (pw_borrower row) s = Some (params, sig)"
    and "revalidate env (pw_borrower row) params s = (Inr gate, s1)" "\<not> pd_allowed gate" "calm_deps (ae_deps env)"
    and "row_of s i = Some old"
  shows "(\<exists>d. h = Refuse 409 d) \<and> (\<exists>late. row_of s' i = Some late \<and> pw_status late = STALE \<and>
     pw_tx_hash late = pw_tx_hash old \<and> pw_result late = pw_result old)"
proof -
  let ?det = "[(''blocking'', JList (map JStr (pd_blocking gate)))]"
  have "approve_gated env i body row params sig gate s1 = (Inr h, s')"
    using assms(1-3) by (simp add: decide_row_def io_bind_def)
  then obtain u s2 n where f: "finish env i STALE (Some (aq_approved_by body)) (aq_note body) None None s1 = (Inr u, s2)"
    and w: "write_audit env ''system'' STALE_ON_APPROVE (Some (pw_borrower row)) (Some i) ?det s2 = (Inr n, s')"
    and h: "\<exists>d. h = Refuse 409 d"
    using assms(4) unfolding approve_gated_def by (auto simp: io_bind_Inr_iff)
  have "row_of s1 i = Some old"
    using assms(6) same_rowsD(1) [OF io_keepsD [OF revalidate_keeps_rows [OF assms(5)] assms(3)]] by simp
  then show ?thesis using h finish_done(2) [OF f, of i] audit_done(2) [OF w, of i] by (simp add: coalesce_def)
qed

text \<open>
  C34: the claim asks for a pending row, the refusals of the same route do not. When one operator has read a proposal as
  pending, another approves it to its end and is answered, and the first one's request then goes on, its
  revalidation not being allowed any more (the position was restored, the borrower is busy, the hour's limit is
  reached), the refusal is written over the outcome: the row that was executed or failed, and still carries the
  transaction and the response, becomes stale.
\<close>

theorem late_refusal_overwrites_outcome:
  assumes read: "store_io [i] (get_proposal i) s = (Inr (Some row), s1)" "pw_status row = PENDING"
    and first: "approve_proposal env i body s1 = (Inr (Reply x), t)"
    and later: "row_of w i = row_of t i" "params_of (pw_borrower row) w = Some (params, sig)"
      "revalidate env (pw_borrower row) params w = (Inr gate, w1)" "\<not> pd_allowed gate"
    and second: "decide_row env i late_body row w = (Inr h, w')"
    and "calm_deps (ae_deps env)" "db_ok (contents s)"
  shows "approve_proposal env i late_body s = decide_row env i late_body row s1 \<and>
     row_of t i = Some (al_proposal x) \<and> pw_status (al_proposal x) \<in> {EXECUTED, FAILED} \<and>
     (\<exists>d. h = Refuse 409 d) \<and> (\<exists>late. row_of w' i = Some late \<and> pw_status late = STALE \<and>
        pw_tx_hash late = pw_tx_hash (al_proposal x) \<and> pw_result late = pw_result (al_proposal x))"
proof -
  have keep: "same_rows s s1" by (rule get_done(1) [OF read(1)])
  obtain q s2 where g: "store_io [i] (get_proposal i) s1 = (Inr q, s2)"
    using first unfolding approve_proposal_def io_bind_Inr_iff by blast
  have again: "q = Some row \<and> same_rows s1 s2"
    using get_done [OF g] get_done(2) [OF read(1)] same_rowsD(1) [OF keep, of i] by simp
  have "decide_row env i body row s2 = (Inr (Reply x), t)"
    using first approve_read [OF _ read(2), of i s1 s2 env body] g again by simp
  moreover have "db_ok (contents s2)" using assms(10) keep again by (simp add: same_rows_def)
  ultimately have t: "row_of t i = Some (al_proposal x)" "pw_status (al_proposal x) \<in> {EXECUTED, FAILED}"
    using decide_reply assms(9) by blast+
  from decide_refused [OF second later(2-4) assms(9)] show ?thesis
    using t later(1) approve_read [OF read] by simp
qed

text \<open>
  The second operator goes on when three more proposals of the same borrower were made within the hour.
\<close>

definition demo_later :: "ProposalRow \<Rightarrow> agent_db" where
  "demo_later row = demo_again (demo_again (demo_again (demo_db\<lparr>db_proposals := [row]\<rparr>)))"

lemma demo_later_rows: "\<exists>r2 r3 r4. db_proposals (demo_later row) = [row, r2, r3, r4] \<and>
    (\<forall>r\<in>{r2, r3, r4}. pw_borrower r = ''alice'' \<and> pw_created_at r = Fin 100)"
  by (simp add: demo_later_def demo_again_def insert_proposal_def demo_floats_store Let_def)

lemma demo_later_count:
  "\<exists>k. count_recent_proposals (Fin (-3100)) (Some ''alice'') (demo_later row) = (Inr k, demo_later row) \<and> 3 \<le> k"
  "\<exists>n. count_recent_proposals (Fin (-3100)) None (demo_later row) = (Inr n, demo_later row) \<and> n < 10"
  using demo_later_rows [of row] by (auto simp: count_recent_proposals_def if_given_def)

lemma refusal_runs:
  assumes "\<not> pd_allowed gate" "sql_int_ok i"
  shows "\<exists>h s'. approve_gated env i body row params sig gate s = (Inr h, s')"
proof -
  obtain s1 where f: "finish env i STALE (Some (aq_approved_by body)) (aq_note body) None None s = (Inr (), s1)"
    using finish_runs [OF assms(2)] by blast
  obtain n s2 where a: "write_audit env ''system'' STALE_ON_APPROVE (Some (pw_borrower row)) (Some i)
      [(''blocking'', JList (map JStr (pd_blocking gate)))] s1 = (Inr n, s2)"
    using audit_runs [OF assms(2)] by blast
  show ?thesis unfolding approve_gated_def using assms(1) by (simp add: io_bind_def f a io_return_def)
qed

theorem late_refusal_overwrites_outcome_witness:
  "\<exists>x t (w :: unit agent_state_scheme) h w' late. approve_proposal demo_env 1 demo_approval (demo_agent demo_db) = (Inr (Reply x), t) \<and>
     pw_status (al_proposal x) \<in> {EXECUTED, FAILED} \<and> row_of w 1 = row_of t 1 \<and>
     decide_row demo_env 1 demo_approval demo_row w = (Inr h, w') \<and> row_of w' 1 = Some late \<and> pw_status late = STALE"
proof -
  let ?s = "demo_agent demo_db"
  have calm: "calm_deps (ae_deps (demo_env :: unit agent_state_scheme agent_env))" by (simp add: demo_calm)
  have c: "contents ?s = demo_db" by (rule demo_rows [OF demo_agent_at])
  have "get_proposal 1 demo_db = (Inr (Some demo_row), demo_db)" by (simp add: get_proposal_def demo_insert demo_row_def)
  then have read: "store_io [1] (get_proposal 1) ?s = (Inr (Some demo_row), ?s)"
    by (simp add: store_io_def store_call_def store_connect_def demo_agent_def sql_one Let_def)
  obtain x t where first: "approve_proposal demo_env 1 demo_approval ?s = (Inr (Reply x), t)" using demo_approve by blast
  have "decide_row demo_env 1 demo_approval demo_row ?s = (Inr (Reply x), t)"
    using approve_read [OF read, of demo_env demo_approval] first by (simp add: demo_row_def)
  then have rt: "row_of t 1 = Some (al_proposal x)" using decide_reply(1) [OF _ calm] c demo_db_ok by simp
  then have key: "pw_id (al_proposal x) = 1" unfolding row_of_def by (rule find_SomeD)
  let ?db = "demo_later (al_proposal x)" and ?w = "demo_agent (demo_later (al_proposal x))"
  have at: "demo_at ?db ?w" by (rule demo_agent_at)
  have rw: "row_of ?w 1 = row_of t 1"
    using demo_later_rows [of "al_proposal x"] demo_rows [OF at] key rt by (auto simp: row_of_def)
  obtain k n where k: "count_recent_proposals (Fin (-3100)) (Some ''alice'') ?db = (Inr k, ?db)" "3 \<le> k"
    and n: "count_recent_proposals (Fin (-3100)) None ?db = (Inr n, ?db)" "n < 10"
    using demo_later_count by blast
  obtain d w1 where v: "revalidate demo_env ''alice'' demo_params ?w = (Inr d, w1)" "\<not> pd_allowed d"
    using demo_revalidate [OF at k(1) n] k(2) by auto
  have p: "params_of (pw_borrower demo_row) ?w = Some (demo_params, ''0x00'')" "pw_borrower demo_row = ''alice''" "pw_status demo_row = PENDING"
    by (simp_all add: params_of_def demo_agent_def demo_row_def)
  obtain h w' where g: "approve_gated demo_env 1 demo_approval demo_row demo_params ''0x00'' d w1 = (Inr h, w')"
    using refusal_runs [OF v(2) sql_one] by blast
  have second: "decide_row demo_env 1 demo_approval demo_row ?w = (Inr h, w')"
    using g v(1) p by (simp add: decide_row_def io_bind_def)
  have "revalidate demo_env (pw_borrower demo_row) demo_params ?w = (Inr d, w1)" using v(1) p(2) by simp
  from late_refusal_overwrites_outcome [OF read p(3) first rw p(1) this v(2) second calm] c demo_db_ok
  obtain late where "pw_status (al_proposal x) \<in> {EXECUTED, FAILED}" "row_of w' 1 = Some late" "pw_status late = STALE"
    by (simp only:) blast
  then show ?thesis using first rw second by blast
qed

end
