(* ===== verification/Py_Repr.thy ===== *)
theory Py_Repr
  imports Py_Text
begin

text \<open>
  How Python writes a float: \<^verbatim>\<open>repr\<close>, the shortest decimal that reads back as the same float, the format \<^verbatim>\<open>g\<close>
  with its six significant digits, and \<^verbatim>\<open>round\<close> to decimal places. A decimal is its digits, an integer, with
  the power of ten of the last one.
\<close>

section \<open>Decimals\<close>

definition ten_to :: "int \<Rightarrow> rat" where
  "ten_to k = 10 powi k"

text \<open>\<open>exp10 a\<close>: the power of ten of the leading digit of a positive number.\<close>

definition exp10 :: "rat \<Rightarrow> int" where
  "exp10 a = (if 1 \<le> a then int (length (show_pos \<lfloor>a\<rfloor>)) - 1 else - int (length (show_pos (\<lceil>1 / a\<rceil> - 1))))"

text \<open>The decimals of \<open>n\<close> significant digits next to \<open>a\<close>, the nearest first.\<close>

definition nearby :: "nat \<Rightarrow> rat \<Rightarrow> (int \<times> int) list" where
  "nearby n a = (let e = exp10 a - int n + 1; x = a / ten_to e in map (\<lambda>c. (c, e)) [round_even x, \<lfloor>x\<rfloor>, \<lceil>x\<rceil>])"

definition reads_back :: "rat \<Rightarrow> int \<times> int \<Rightarrow> bool" where
  "reads_back a d = (rnd (of_int (fst d) * ten_to (snd d)) = a)"

definition shortest :: "rat \<Rightarrow> int \<times> int" where
  "shortest a = (case find (reads_back a) (concat (map (\<lambda>n. nearby n a) [1..<18])) of
     Some d \<Rightarrow> d | None \<Rightarrow> (0, 0))"

definition strip_zeros :: "string \<Rightarrow> string" where
  "strip_zeros s = rev (dropWhile (\<lambda>c. c = CHR ''0'') (rev s))"

definition zeros :: "int \<Rightarrow> string" where
  "zeros n = replicate (nat n) (CHR ''0'')"

text \<open>An exponent has a sign and at least two digits.\<close>

definition show_exp :: "int \<Rightarrow> string" where
  "show_exp e = ''e'' @ (if e < 0 then ''-'' else ''+'') @ (if \<bar>e\<bar> < 10 then ''0'' else []) @ show_pos \<bar>e\<bar>"

definition mantissa :: "string \<Rightarrow> string" where
  "mantissa ds = take 1 ds @ (if length ds \<le> 1 then [] else ''.'' @ drop 1 ds)"

section \<open>repr\<close>

definition repr_pos :: "rat \<Rightarrow> string" where
  "repr_pos a = (let (c, e) = shortest a; all = show_pos c; point = int (length all) + e; ds = strip_zeros all; k = int (length ds) in
     if -4 < point \<and> point \<le> 16 then
       if point \<le> 0 then ''0.'' @ zeros (- point) @ ds
       else if k \<le> point then ds @ zeros (point - k) @ ''.0''
       else take (nat point) ds @ ''.'' @ drop (nat point) ds
     else mantissa ds @ show_exp (point - 1))"

fun float_repr :: "pyfloat \<Rightarrow> string" where
  "float_repr (Fin a) = (if a = 0 then ''0.0'' else if a < 0 then ''-'' @ repr_pos (- a) else repr_pos a)"
| "float_repr PInf = ''inf''"
| "float_repr NInf = ''-inf''"
| "float_repr NaN = ''nan''"

section \<open>Format g\<close>

definition fmt_g_pos :: "rat \<Rightarrow> string" where
  "fmt_g_pos a = (let e0 = exp10 a; c0 = round_even (a / ten_to (e0 - 5));
       (c, e) = (if c0 = 10 ^ 6 then (10 ^ 5, e0 + 1) else (c0, e0)); ds = strip_zeros (show_pos c); k = int (length ds) in
     if -4 \<le> e \<and> e < 6 then
       if e < 0 then ''0.'' @ zeros (- e - 1) @ ds
       else if k \<le> e + 1 then ds @ zeros (e + 1 - k)
       else take (nat (e + 1)) ds @ ''.'' @ drop (nat (e + 1)) ds
     else mantissa ds @ show_exp e)"

fun fmt_g :: "pyfloat \<Rightarrow> string" where
  "fmt_g (Fin a) = (if a = 0 then ''0'' else if a < 0 then ''-'' @ fmt_g_pos (- a) else fmt_g_pos a)"
| "fmt_g PInf = ''inf''"
| "fmt_g NInf = ''-inf''"
| "fmt_g NaN = ''nan''"

section \<open>Rounding to decimal places\<close>

fun round_to_places :: "nat \<Rightarrow> pyfloat \<Rightarrow> pyfloat" where
  "round_to_places n (Fin a) = to_float (of_int (round_even (a * 10 ^ n)) / 10 ^ n)"
| "round_to_places n x = x"

section \<open>What is printed reads back\<close>

text \<open>Seventeen significant digits determine a binary64, so the search for the shortest decimal succeeds.\<close>

lemma show_pos_nonempty: "show_pos n \<noteq> []"
  by (subst show_pos.simps) simp

lemma show_pos_length: "0 \<le> n \<Longrightarrow> n < 10 ^ length (show_pos n)"
proof (induction n rule: show_pos.induct)
  case (1 n)
  show ?case
  proof (cases "n < 10")
    case False
    then have "n div 10 < 10 ^ length (show_pos (n div 10))" using 1 by simp
    then have "n < 10 ^ Suc (length (show_pos (n div 10)))" by simp
    then show ?thesis using False by (subst show_pos.simps) simp
  qed (subst show_pos.simps, simp)
qed

lemma show_pos_length_le: "1 \<le> n \<Longrightarrow> 10 ^ (length (show_pos n) - 1) \<le> n"
proof (induction n rule: show_pos.induct)
  case (1 n)
  show ?case
  proof (cases "n < 10")
    case True
    then show ?thesis using 1 by (subst show_pos.simps) simp
  next
    case False
    then have "10 ^ (length (show_pos (n div 10)) - 1) \<le> n div 10" using 1 by simp
    moreover have "length (show_pos (n div 10)) \<noteq> 0" by (subst show_pos.simps) simp
    ultimately have "10 ^ length (show_pos (n div 10)) \<le> n" by (cases "length (show_pos (n div 10))") auto
    then show ?thesis using False by (subst show_pos.simps) simp
  qed
qed

lemma ten_to_pos [simp]: "0 < ten_to k"
  by (simp add: ten_to_def)

lemma ten_to_nat: "ten_to (int n) = 10 ^ n" "ten_to (- int n) = 1 / 10 ^ n"
  by (simp_all add: ten_to_def power_int_minus field_simps)

lemma ten_to_add: "ten_to (a + b) = ten_to a * ten_to b"
  by (simp add: ten_to_def power_int_add)

lemma exp10_le:
  assumes "0 < a"
  shows "ten_to (exp10 a) \<le> a"
proof (cases "1 \<le> a")
  case True
  then have f: "1 \<le> \<lfloor>a\<rfloor>" by simp
  define k where "k = length (show_pos \<lfloor>a\<rfloor>) - 1"
  have "show_pos \<lfloor>a\<rfloor> \<noteq> []" by (rule show_pos_nonempty)
  then have e: "exp10 a = int k" using True by (cases "show_pos \<lfloor>a\<rfloor>") (simp_all add: exp10_def k_def)
  have "(of_int (10 ^ k) :: rat) \<le> of_int \<lfloor>a\<rfloor>" using show_pos_length_le [OF f] by (simp only: k_def of_int_le_iff)
  then have "(of_int (10 ^ k) :: rat) \<le> a" using of_int_floor_le [of a] by linarith
  then show ?thesis unfolding e ten_to_nat by simp
next
  case False
  define n where "n = \<lceil>1 / a\<rceil> - 1"
  have "1 < 1 / a" using False assms by (simp add: field_simps)
  then have "1 < \<lceil>1 / a\<rceil>" by (simp only: less_ceiling_iff of_int_1)
  then have n: "0 \<le> n" unfolding n_def by linarith
  define k where "k = length (show_pos n)"
  have e: "exp10 a = - int k" using False by (simp add: exp10_def k_def n_def)
  have "n + 1 \<le> 10 ^ k" using show_pos_length [OF n] by (simp add: k_def)
  then have "(of_int (n + 1) :: rat) \<le> of_int (10 ^ k)" by (simp only: of_int_le_iff)
  moreover have "1 / a \<le> of_int (n + 1)" unfolding n_def by simp
  ultimately have "1 / a \<le> 10 ^ k" by simp
  then show ?thesis unfolding e ten_to_nat using assms by (simp add: field_simps)
qed

lemma seventeen_digits:
  assumes "representable a" "0 < a"
  shows "reads_back a (round_even (a / ten_to (exp10 a - 16)), exp10 a - 16)"
proof -
  define t where "t = ten_to (exp10 a - 16)"
  have t: "0 < t" by (simp add: t_def)
  define c where "c = round_even (a / t)"
  have "ten_to (exp10 a) = ten_to 16 * t" unfolding t_def ten_to_add [symmetric] by simp
  moreover have "ten_to 16 = 10 ^ 16" using ten_to_nat(1) [of 16] by simp
  ultimately have "10 ^ 16 * t \<le> a" using exp10_le [OF assms(2)] by simp
  then have "t / 2 < a / 2 ^ 54" using t by (simp add: field_simps)
  moreover have "\<bar>of_int c * t - a\<bar> \<le> t / 2"
  proof -
    have "of_int c * t - a = (of_int c - a / t) * t" using t by (simp add: field_simps)
    then have "\<bar>of_int c * t - a\<bar> = \<bar>of_int c - a / t\<bar> * t" using t by (simp add: abs_mult)
    also have "\<dots> \<le> 1 / 2 * t" using round_even_error [of "a / t"] t by (intro mult_right_mono) (auto simp: c_def)
    finally show ?thesis by simp
  qed
  ultimately have "rnd (of_int c * t) = a" by (intro rnd_near assms) linarith
  then show ?thesis by (simp add: reads_back_def c_def t_def)
qed

lemma shortest_reads_back:
  assumes "representable a" "0 < a"
  shows "reads_back a (shortest a)"
proof -
  have "(17::nat) \<in> set [1..<18]" by simp
  then have "nearby 17 a \<in> set (map (\<lambda>n. nearby n a) [1..<18])" by (metis image_eqI set_map)
  moreover have "(round_even (a / ten_to (exp10 a - 16)), exp10 a - 16) \<in> set (nearby 17 a)"
    by (simp add: nearby_def Let_def)
  ultimately have "(round_even (a / ten_to (exp10 a - 16)), exp10 a - 16) \<in> set (concat (map (\<lambda>n. nearby n a) [1..<18]))"
    by (metis UN_I set_concat)
  then have "find (reads_back a) (concat (map (\<lambda>n. nearby n a) [1..<18])) \<noteq> None"
    using seventeen_digits [OF assms] unfolding find_None_iff by blast
  then obtain d where d: "find (reads_back a) (concat (map (\<lambda>n. nearby n a) [1..<18])) = Some d" by blast
  then have "reads_back a d" by (auto simp: find_Some_iff)
  then show ?thesis using d by (simp add: shortest_def)
qed

end
