(* ===== verification/Agent_Guard.thy ===== *)
theory Agent_Guard
  imports Models Py_Repr
begin

text \<open>
  \<^verbatim>\<open>app/agent/guard.py\<close>: the check of the figures in a text of the language model against the figures the
  backend produced. The three regular expressions are scanners over the text; they are exact for ASCII, and a byte
  outside ASCII counts as punctuation, which it is in the texts of the product.
\<close>

section \<open>Characters and pieces of a pattern\<close>

definition is_digit :: "char \<Rightarrow> bool" where
  "is_digit c = (let n = (of_char c :: nat) in 48 \<le> n \<and> n \<le> 57)"

definition is_hex :: "char \<Rightarrow> bool" where
  "is_hex c \<longleftrightarrow> hex_digit c \<noteq> None"

definition is_word :: "char \<Rightarrow> bool" where
  "is_word c = (let n = (of_char c :: nat) in is_digit c \<or> (65 \<le> n \<and> n \<le> 90) \<or> (97 \<le> n \<and> n \<le> 122) \<or> n = 95)"

definition skip_digits :: "nat \<Rightarrow> string \<Rightarrow> string option" where
  "skip_digits n s = (if n \<le> length s \<and> list_all is_digit (take n s) then Some (drop n s) else None)"

definition skip_char :: "char \<Rightarrow> string \<Rightarrow> string option" where
  "skip_char c s = (case s of x # r \<Rightarrow> if x = c then Some r else None | [] \<Rightarrow> None)"

text \<open>\<^verbatim>\<open>re.sub\<close> with a blank: a matcher gives what follows the match, which is never empty.\<close>

function sub_all :: "(string \<Rightarrow> string option) \<Rightarrow> string \<Rightarrow> string" where
  "sub_all m [] = []"
| "sub_all m (c # cs) = (case m (c # cs) of
       Some rest \<Rightarrow> if length rest \<le> length cs then CHR '' '' # sub_all m rest else c # sub_all m cs
     | None \<Rightarrow> c # sub_all m cs)"
  by pat_completeness auto
termination
  by (relation "measure (\<lambda>(m, s). length s)") auto

section \<open>Identifiers and timestamps\<close>

definition match_hex :: "string \<Rightarrow> string option" where
  "match_hex s =
     Option.bind (skip_char (CHR ''0'') s) (\<lambda>s.
     Option.bind (skip_char (CHR ''x'') s) (\<lambda>s.
     if s \<noteq> [] \<and> is_hex (hd s) then Some (dropWhile is_hex s) else None))"

definition is_clock :: "char \<Rightarrow> bool" where
  "is_clock c \<longleftrightarrow> is_digit c \<or> c = CHR '':''"

definition skip_zone :: "string \<Rightarrow> string" where
  "skip_zone s = (case s of
       [] \<Rightarrow> []
     | c # r \<Rightarrow> if (c = CHR ''+'' \<or> c = CHR ''-'') \<and> r \<noteq> [] \<and> is_clock (hd r) then dropWhile is_clock r
         else if c = CHR ''Z'' then r else s)"

definition match_iso :: "string \<Rightarrow> string option" where
  "match_iso s =
     Option.bind (skip_digits 4 s) (\<lambda>s. Option.bind (skip_char (CHR ''-'') s) (\<lambda>s.
     Option.bind (skip_digits 2 s) (\<lambda>s. Option.bind (skip_char (CHR ''-'') s) (\<lambda>s.
     Option.bind (skip_digits 2 s) (\<lambda>s. case s of
       c # r \<Rightarrow> if (c = CHR ''T'' \<or> c = CHR '' '') \<and> r \<noteq> [] \<and> is_clock (hd r)
         then Some (skip_zone (dropWhile is_clock r)) else None
     | [] \<Rightarrow> None)))))"

section \<open>Numbers\<close>

definition digit_of :: "char \<Rightarrow> int" where
  "digit_of c = int (of_char c) - 48"

definition read_digits :: "string \<Rightarrow> int" where
  "read_digits ds = foldl (\<lambda>a c. 10 * a + digit_of c) 0 ds"

text \<open>\<^verbatim>\<open>float\<close> of a literal: the float nearest to the decimal.\<close>

definition read_float :: "bool \<Rightarrow> string \<Rightarrow> string \<Rightarrow> pyfloat" where
  "read_float neg ds fs = to_float ((if neg then -1 else 1) *
     (of_int (read_digits ds) + of_int (read_digits fs) / 10 ^ length fs))"

text \<open>Groups of a comma and three digits, the digits read and the rest.\<close>

function groups :: "string \<Rightarrow> string \<times> string" where
  "groups s = (case skip_char (CHR '','') s of
       None \<Rightarrow> ([], s)
     | Some r \<Rightarrow> (case skip_digits 3 r of
           None \<Rightarrow> ([], s)
         | Some r' \<Rightarrow> (case groups r' of (ds, rest) \<Rightarrow> (take 3 r @ ds, rest))))"
  by pat_completeness auto
termination
  by (relation "measure length") (auto simp: skip_char_def skip_digits_def split: list.splits if_splits)

declare groups.simps [simp del]

definition fraction :: "string \<Rightarrow> string \<times> string" where
  "fraction s = (case skip_char (CHR ''.'') s of
       None \<Rightarrow> ([], s)
     | Some r \<Rightarrow> (let ds = takeWhile is_digit r in if ds = [] then ([], s) else (ds, dropWhile is_digit r)))"

definition match_number :: "string \<Rightarrow> (pyfloat \<times> string) option" where
  "match_number s =
     (let (neg, t) = (case skip_char (CHR ''-'') s of Some r \<Rightarrow> (True, r) | None \<Rightarrow> (False, s));
          ds = takeWhile is_digit t; r = dropWhile is_digit t in
      if ds = [] then None
      else case (if length ds \<le> 3 then groups r else ([], r)) of (gs, r1) \<Rightarrow>
           case fraction r1 of (fs, r2) \<Rightarrow> Some (read_float neg (ds @ gs) fs, r2))"

text \<open>The lookbehind: no match starts after a word character, a point or a hyphen.\<close>

definition blocks :: "char \<Rightarrow> bool" where
  "blocks c \<longleftrightarrow> is_word c \<or> c = CHR ''.'' \<or> c = CHR ''-''"

function scan_numbers :: "bool \<Rightarrow> string \<Rightarrow> pyfloat list" where
  "scan_numbers blocked [] = []"
| "scan_numbers blocked (c # cs) = (case (if blocked then None else match_number (c # cs)) of
       Some (x, rest) \<Rightarrow> if length rest \<le> length cs then x # scan_numbers True rest else scan_numbers (blocks c) cs
     | None \<Rightarrow> scan_numbers (blocks c) cs)"
  by pat_completeness auto
termination
  by (relation "measure (\<lambda>(b, s). length s)") auto

definition extract_numbers :: "string \<Rightarrow> pyfloat list" where
  "extract_numbers text = scan_numbers False (sub_all match_iso (sub_all match_hex text))"

section \<open>Renderings of a backed figure\<close>

fun fabs :: "pyfloat \<Rightarrow> pyfloat" where
  "fabs (Fin a) = Fin \<bar>a\<bar>"
| "fabs PInf = PInf"
| "fabs NInf = PInf"
| "fabs NaN = NaN"

definition fmax :: "pyfloat \<Rightarrow> pyfloat \<Rightarrow> pyfloat" where
  "fmax a b = (if flt a b then b else a)"

definition renderings :: "pyfloat \<Rightarrow> pyfloat list res" where
  "renderings v =
     res_bind (int_of_float v) (\<lambda>i.
     res_bind (float_of_int i) (\<lambda>whole.
     res_bind (fdiv v (Fin 100)) (\<lambda>per_cent.
     res_bind (fdiv v (Fin 10000)) (\<lambda>per_bps.
     res_bind (fdiv v (Fin (10 ^ 6))) (\<lambda>units.
     res_bind (fdiv v (Fin (10 ^ 18))) (\<lambda>wad. Inr
       ([v, round_to_places 2 v, round_to_places 4 v, whole,
         fmul v (Fin 100), round_to_places 2 (fmul v (Fin 100)), per_cent, round_to_places 2 per_cent,
         per_bps, round_to_places 4 per_bps] @
        (if fle (Fin 1000000) (fabs v) then [units, round_to_places 2 units] else []) @
        (if fle (Fin (10 ^ 16)) (fabs v) then [wad, round_to_places 4 wad] else []))))))))"

section \<open>Collecting figures\<close>

definition stack_size :: "json list \<Rightarrow> nat" where
  "stack_size js = sum_list (map (\<lambda>j. Suc (size j)) js)"

lemma stack_size_simps [simp]: "stack_size [] = 0" "stack_size (j # js) = Suc (size j) + stack_size js"
  "stack_size (js @ ks) = stack_size js + stack_size ks" "stack_size (rev js) = stack_size js"
  by (simp_all add: stack_size_def rev_map [symmetric])

lemma stack_size_list: "stack_size xs \<le> size_list size xs"
  by (induction xs) auto

lemma stack_size_values: "stack_size (map snd kvs) \<le> size_list (size_prod (\<lambda>_. 0) size) (kvs :: (string \<times> json) list)"
  by (induction kvs) auto

function collect_stack :: "json list \<Rightarrow> pyfloat list res" where
  "collect_stack [] = Inr []"
| "collect_stack (item # stack) = (case item of
       JInt n \<Rightarrow> res_bind (float_of_int n) (\<lambda>x. res_bind (collect_stack stack) (\<lambda>xs. Inr (x # xs)))
     | JFloat x \<Rightarrow> res_bind (collect_stack stack) (\<lambda>xs. Inr (x # xs))
     | JDict kvs \<Rightarrow> collect_stack (rev (map snd kvs) @ stack)
     | JList xs \<Rightarrow> collect_stack (rev xs @ stack)
     | _ \<Rightarrow> collect_stack stack)"
  by pat_completeness auto
termination
proof (relation "measure stack_size")
  fix item stack and xs :: "json list"
  assume "item = JList xs"
  then show "(rev xs @ stack, item # stack) \<in> measure stack_size" using stack_size_list [of xs] by simp
next
  fix item stack and kvs :: "(string \<times> json) list"
  assume "item = JDict kvs"
  then show "(rev (map snd kvs) @ stack, item # stack) \<in> measure stack_size" using stack_size_values [of kvs] by simp
qed simp_all

definition collect_numbers :: "json \<Rightarrow> pyfloat list res" where
  "collect_numbers payload = collect_stack [payload]"

section \<open>The check\<close>

definition ALLOWED_BARE :: "pyfloat list" where
  "ALLOWED_BARE = [Fin 0, Fin 1, Fin 2, Fin 3, Fin 4, Fin 5, Fin 10, Fin 100, Fin 1000, Fin 10000]"

definition REL_TOL :: pyfloat where "REL_TOL = to_float (5 / 1000)"

definition ABS_TOL :: pyfloat where "ABS_TOL = to_float (1 / 10 ^ 9)"

definition close_to :: "pyfloat \<Rightarrow> pyfloat \<Rightarrow> bool" where
  "close_to found c = fle (fabs (fsub found c)) (fmax (fmul REL_TOL (fmax (fabs found) (fabs c))) ABS_TOL)"

fun all_renderings :: "pyfloat list \<Rightarrow> pyfloat list res" where
  "all_renderings [] = Inr []"
| "all_renderings (v # vs) = res_bind (renderings v) (\<lambda>r. res_bind (all_renderings vs) (\<lambda>rs. Inr (r @ rs)))"

definition guard_check :: "string \<Rightarrow> pyfloat list \<Rightarrow> (bool \<times> pyfloat list) res" where
  "guard_check text allowed =
     res_bind (all_renderings allowed) (\<lambda>candidates.
     let unverified = filter (\<lambda>x. \<not> (\<exists>b\<in>set ALLOWED_BARE. feq x b) \<and> \<not> (\<exists>c\<in>set candidates. close_to x c)) (extract_numbers text)
     in Inr (unverified = [], unverified))"

section \<open>The guard of a turn\<close>

record NumberGuard =
  ng_allowed :: "pyfloat list"

definition guard_init :: NumberGuard where
  "guard_init = \<lparr>ng_allowed = []\<rparr>"

definition guard_observe :: "json \<Rightarrow> NumberGuard \<Rightarrow> NumberGuard res" where
  "guard_observe payload g =
     res_bind (collect_numbers payload) (\<lambda>xs. Inr (g\<lparr>ng_allowed := ng_allowed g @ xs\<rparr>))"

definition guard_verify :: "string \<Rightarrow> NumberGuard \<Rightarrow> (bool \<times> pyfloat list) res" where
  "guard_verify text g = guard_check text (ng_allowed g)"

fun join :: "string \<Rightarrow> string list \<Rightarrow> string" where
  "join sep [] = []"
| "join sep [x] = x"
| "join sep (x # y # xs) = x @ sep @ join sep (y # xs)"

text \<open>The banner opens with two line breaks and a warning sign, which is three bytes.\<close>

definition guard_banner :: "pyfloat list \<Rightarrow> string" where
  "guard_banner unverified = map char_of [10, 10, 226, 154, 160 :: nat] @ '' Unverified figures: '' @
     join '', '' (map fmt_g unverified) @
     ''. These could not be traced to a backend response and must not be '' @
     ''treated as live data '' @ map char_of [226, 128, 148 :: nat] @ '' check the console's own metrics instead.''"

definition guard_annotate :: "string \<Rightarrow> NumberGuard \<Rightarrow> (string \<times> bool \<times> pyfloat list) res" where
  "guard_annotate text g =
     res_bind (guard_verify text g) (\<lambda>(ok, unverified).
     if ok then Inr (text, False, [])
     else Inr (text @ guard_banner unverified, True, unverified))"

section \<open>What is flagged\<close>

definition backed :: "pyfloat list \<Rightarrow> pyfloat \<Rightarrow> bool" where
  "backed allowed x \<longleftrightarrow> (\<exists>b\<in>set ALLOWED_BARE. feq x b) \<or> (\<exists>v\<in>set allowed. \<exists>rs. renderings v = Inr rs \<and> (\<exists>c\<in>set rs. close_to x c))"

lemma all_renderings_set:
  "all_renderings vs = Inr rs \<Longrightarrow> c \<in> set rs \<longleftrightarrow> (\<exists>v\<in>set vs. \<exists>r. renderings v = Inr r \<and> c \<in> set r)"
proof (induction vs arbitrary: rs)
  case (Cons v vs)
  then show ?case by (auto simp: res_bind_Inr_iff)
qed simp

lemma guard_check_iff:
  assumes "guard_check text allowed = Inr (ok, un)"
  shows "un = filter (\<lambda>x. \<not> backed allowed x) (extract_numbers text)" "ok \<longleftrightarrow> un = []"
  using assms all_renderings_set by (auto simp: guard_check_def res_bind_Inr_iff backed_def Let_def intro!: filter_cong)

lemma annotate_annotated:
  assumes "guard_annotate text g = Inr (text', flagged, unverified)"
  shows "let un = filter (\<lambda>x. \<not> backed (ng_allowed g) x) (extract_numbers text) in
     unverified = un \<and> flagged = (un \<noteq> []) \<and> text' = (if un = [] then text else text @ guard_banner un)"
proof -
  obtain ok un where c: "guard_check text (ng_allowed g) = Inr (ok, un)"
    using assms by (cases "guard_check text (ng_allowed g)") (auto simp: guard_annotate_def guard_verify_def)
  then have "(if ok then (text, False, []) else (text @ guard_banner un, True, un)) = (text', flagged, unverified)"
    using assms by (cases ok) (auto simp: guard_annotate_def guard_verify_def)
  then show ?thesis using guard_check_iff [OF c] by (cases ok) (auto simp: Let_def)
qed

text \<open>
  C20: when the guard answers, the figures it reports are exactly those of the text that are neither one of
  the small round numbers nor within tolerance of a rendering of a figure it was shown; the text is
  returned unchanged when there are none and with the banner appended otherwise.
\<close>

theorem guard_flags_exactly:
  assumes "guard_annotate text g = Inr (text', flagged, unverified)"
  shows "unverified = filter (\<lambda>x. \<not> backed (ng_allowed g) x) (extract_numbers text) \<and>
     (flagged \<longleftrightarrow> (\<exists>x\<in>set (extract_numbers text). \<not> backed (ng_allowed g) x)) \<and>
     text' = (if flagged then text @ guard_banner unverified else text)"
  using annotate_annotated [OF assms] by (auto simp: Let_def filter_empty_conv)

end
