(* ===== verification/Guard_Roundtrip.thy ===== *)
theory Guard_Roundtrip
  imports Agent_Guard
begin

text \<open>
  A figure of the backend that is repeated is accepted: what is printed is read back as the same figure, and a figure that was
  shown is within tolerance of itself. Figures that cannot be rendered make the guard raise.
\<close>

section \<open>Printed figures are read back\<close>

lemma sub_all_none: "(\<And>u v. s = u @ v \<Longrightarrow> m v = None) \<Longrightarrow> sub_all m s = s"
proof (induction s)
  case (Cons c cs)
  have "m (c # cs) = None" using Cons.prems [of "[]"] by simp
  moreover have "sub_all m cs = cs" using Cons.prems by (intro Cons.IH) (metis append_Cons)
  ultimately show ?case by simp
qed simp

lemma skip_char_none: "c \<notin> set s \<Longrightarrow> skip_char c s = None"
  by (cases s) (auto simp: skip_char_def)

lemma no_hex:
  assumes "CHR ''x'' \<notin> set s"
  shows "match_hex s = None"
proof (cases "skip_char (CHR ''0'') s")
  case (Some r)
  then have "set r \<subseteq> set s" by (auto simp: skip_char_def split: list.splits if_splits)
  then have "skip_char (CHR ''x'') r = None" using assms by (intro skip_char_none) auto
  then show ?thesis by (simp add: match_hex_def Some)
qed (simp add: match_hex_def)

lemma no_iso:
  assumes "CHR ''-'' \<notin> set s"
  shows "match_iso s = None"
proof (cases "skip_digits 4 s")
  case (Some r)
  then have "set r \<subseteq> set s" by (auto simp: skip_digits_def split: if_splits dest: in_set_dropD)
  then have "skip_char (CHR ''-'') r = None" using assms by (intro skip_char_none) auto
  then show ?thesis by (simp add: match_iso_def Some)
qed (simp add: match_iso_def)

lemma digit_chars: "0 \<le> n \<Longrightarrow> c \<in> set (show_pos n) \<Longrightarrow> is_digit c"
proof (induction n rule: show_pos.induct)
  case (1 n)
  have "is_digit (''0123456789'' ! nat k)" if "0 \<le> k" "k < 10" for k :: int
  proof -
    have "nat k \<in> set [0..<10]" using that by auto
    then have "''0123456789'' ! nat k \<in> set ''0123456789''" by (intro nth_mem) auto
    then show ?thesis by (auto simp: is_digit_def)
  qed
  then show ?case using 1 by (subst (asm) show_pos.simps) (auto split: if_splits)
qed

lemma read_digits_snoc: "read_digits (ds @ [c]) = 10 * read_digits ds + digit_of c"
  by (simp add: read_digits_def)

lemma digit_of_show: "0 \<le> k \<Longrightarrow> k < 10 \<Longrightarrow> digit_of (''0123456789'' ! nat k) = k"
proof -
  assume "0 \<le> k" "k < 10"
  then have "nat k \<in> set [0..<10]" by auto
  then have "digit_of (''0123456789'' ! nat k) = int (nat k)" by (auto simp: digit_of_def upt_rec)
  then show "digit_of (''0123456789'' ! nat k) = k" using \<open>0 \<le> k\<close> by simp
qed

lemma read_show: "0 \<le> n \<Longrightarrow> read_digits (show_pos n) = n"
proof (induction n rule: show_pos.induct)
  case (1 n)
  show ?case
  proof (cases "n < 10")
    case True
    then show ?thesis using 1(2) digit_of_show [of n] by (subst show_pos.simps) (simp add: read_digits_def)
  next
    case False
    then show ?thesis using 1 digit_of_show [of "n mod 10"]
      by (subst show_pos.simps) (simp add: read_digits_snoc)
  qed
qed

lemma groups_Nil: "groups [] = ([], [])"
  by (subst groups.simps) (simp add: skip_char_def)

lemma extract_integer:
  assumes "0 \<le> n" "n \<le> 2 ^ 53"
  shows "extract_numbers (show_int n) = [Fin (of_int n)]"
proof -
  have d: "\<forall>c\<in>set (show_pos n). is_digit c" using digit_chars [OF assms(1)] by blast
  then have x: "CHR ''x'' \<notin> set (show_pos n)" "CHR ''-'' \<notin> set (show_pos n)" by (auto simp: is_digit_def)
  have h: "sub_all match_hex (show_pos n) = show_pos n" by (rule sub_all_none) (use x in \<open>auto intro: no_hex\<close>)
  have i: "sub_all match_iso (show_pos n) = show_pos n" by (rule sub_all_none) (use x in \<open>auto intro: no_iso\<close>)
  have t: "takeWhile is_digit (show_pos n) = show_pos n" "dropWhile is_digit (show_pos n) = []"
    using d by (simp_all add: takeWhile_eq_all_conv)
  have neg: "skip_char (CHR ''-'') (show_pos n) = None"
    using x(2) by (auto simp: skip_char_def split: list.split)
  have "match_number (show_pos n) = Some (read_float False (show_pos n) [], [])"
    using show_pos_nonempty [of n]
    by (simp add: match_number_def neg t groups_Nil fraction_def Let_def) (simp add: skip_char_def)
  moreover have "read_float False (show_pos n) [] = Fin (of_int n)"
    using assms by (simp add: read_float_def read_show read_digits_def [of "[]"] to_float_exact representable_of_int)
  moreover have "extract_numbers (show_int n) = scan_numbers False (show_pos n)"
    using assms(1) by (simp add: extract_numbers_def show_int_def h i)
  moreover obtain c cs where "show_pos n = c # cs" using show_pos_nonempty by (cases "show_pos n") auto
  ultimately show ?thesis
    by simp
qed

lemma read_digits_append: "read_digits (xs @ ys) = read_digits xs * 10 ^ length ys + read_digits ys"
proof (induction ys rule: rev_induct)
  case (snoc y ys)
  have "read_digits (xs @ ys @ [y]) = 10 * read_digits (xs @ ys) + digit_of y"
    using read_digits_snoc [of "xs @ ys" y] by simp
  then show ?case using snoc by (simp add: read_digits_snoc algebra_simps)
qed (simp add: read_digits_def)

lemma digit_zero: "digit_of (CHR ''0'') = 0"
  by (simp add: digit_of_def)

lemma read_zeros: "read_digits (replicate n (CHR ''0'')) = 0"
  by (induction n) (simp_all only: replicate_0 replicate_Suc read_digits_def foldl_Nil foldl_Cons digit_zero mult_zero_right add_0)

lemma read_zero: "read_digits ''0'' = 0"
  using read_zeros [of 1] by (simp only: One_nat_def replicate.simps)

lemma strip_zeros_split: "\<exists>n. ds = strip_zeros ds @ replicate n (CHR ''0'')"
proof -
  let ?t = "takeWhile (\<lambda>c. c = CHR ''0'') (rev ds)"
  have "replicate (length ?t) (CHR ''0'') = ?t" by (rule replicate_length_same) (auto dest: set_takeWhileD)
  then have r: "replicate (length ?t) (CHR ''0'') = rev ?t" by (metis rev_replicate)
  have "ds = strip_zeros ds @ rev ?t"
    unfolding strip_zeros_def rev_append [symmetric] takeWhile_dropWhile_id by (rule rev_rev_ident [symmetric])
  then have "ds = strip_zeros ds @ replicate (length ?t) (CHR ''0'')" unfolding r .
  then show ?thesis by (rule exI)
qed

lemma extract_decimal:
  assumes "list_all is_digit ds" "ds \<noteq> []" "list_all is_digit fs" "fs \<noteq> []"
  shows "extract_numbers (ds @ ''.'' @ fs) = [read_float False ds fs]"
proof -
  let ?s = "ds @ CHR ''.'' # fs"
  have ch: "c \<in> set ?s \<Longrightarrow> is_digit c \<or> c = CHR ''.''" for c using assms by (auto simp: list_all_iff)
  have nd: "\<not> is_digit (CHR ''x'')" "\<not> is_digit (CHR ''-'')" "CHR ''x'' \<noteq> CHR ''.''" "CHR ''-'' \<noteq> CHR ''.''"
    by (simp_all add: is_digit_def)
  have x: "CHR ''x'' \<notin> set ?s" "CHR ''-'' \<notin> set ?s" using ch nd by blast+
  have h: "sub_all match_hex ?s = ?s" by (rule sub_all_none) (use x in \<open>auto intro: no_hex\<close>)
  have i: "sub_all match_iso ?s = ?s" by (rule sub_all_none) (use x in \<open>auto intro: no_iso\<close>)
  have pt: "\<not> is_digit (CHR ''.'')" by (simp add: is_digit_def)
  have t: "takeWhile is_digit ?s = ds" "dropWhile is_digit ?s = CHR ''.'' # fs"
    using assms(1) pt by (simp_all add: list_all_iff takeWhile_append dropWhile_append)
  have f: "takeWhile is_digit fs = fs" "dropWhile is_digit fs = []"
    using assms(3) by (simp_all add: list_all_iff takeWhile_eq_all_conv)
  have neg: "skip_char (CHR ''-'') ?s = None" using x(2) by (intro skip_char_none)
  have g: "groups (CHR ''.'' # fs) = ([], CHR ''.'' # fs)" by (subst groups.simps) (simp add: skip_char_def)
  have fr: "fraction (CHR ''.'' # fs) = (fs, [])" using assms(4) by (simp add: fraction_def Let_def f skip_char_def)
  have m: "match_number ?s = Some (read_float False ds fs, [])"
    using assms(2) by (simp add: match_number_def neg t g fr Let_def)
  obtain c cs where "?s = c # cs" by (cases ?s) auto
  then have "scan_numbers False ?s = [read_float False ds fs]" using m by simp
  then show ?thesis by (simp add: extract_numbers_def h i)
qed

lemma read_float_value: "read_float False ds fs = to_float (of_int (read_digits (ds @ fs)) / 10 ^ length fs)"
  by (simp add: read_float_def read_digits_append add_divide_distrib)

lemma zeros_digits: "list_all is_digit (zeros n)"
  by (simp add: zeros_def list_all_iff is_digit_def)

lemma repr_pos_text:
  assumes c: "0 < fst (shortest a)" and e: "CHR ''e'' \<notin> set (repr_pos a)"
  obtains ds fs where "repr_pos a = ds @ ''.'' @ fs" "list_all is_digit ds" "ds \<noteq> []" "list_all is_digit fs" "fs \<noteq> []"
    "of_int (read_digits (ds @ fs)) / 10 ^ length fs = of_int (fst (shortest a)) * ten_to (snd (shortest a))"
proof -
  define all where "all = show_pos (fst (shortest a))"
  define ds where "ds = strip_zeros all"
  define point where "point = int (length all) + snd (shortest a)"
  obtain z where z: "all = ds @ replicate z (CHR ''0'')" using strip_zeros_split unfolding ds_def by blast
  have rd: "fst (shortest a) = read_digits ds * 10 ^ z"
    using read_show [of "fst (shortest a)"] c z by (simp add: all_def [symmetric] read_digits_append read_zeros)
  have "list_all is_digit all" using c digit_chars [of "fst (shortest a)"] unfolding all_def list_all_iff by auto
  then have dd: "list_all is_digit ds" using z by simp
  have ne: "ds \<noteq> []" using rd c by (auto simp: read_digits_def)
  have val: "of_int (fst (shortest a)) * ten_to (snd (shortest a)) = of_int (read_digits ds) * ten_to (point - int (length ds))"
    by (simp add: rd point_def z ten_to_add [of "int z", symmetric] ten_to_nat(1) [symmetric] mult.assoc)
  have shape: "repr_pos a = (if -4 < point \<and> point \<le> 16 then
       if point \<le> 0 then ''0.'' @ zeros (- point) @ ds
       else if int (length ds) \<le> point then ds @ zeros (point - int (length ds)) @ ''.0''
       else take (nat point) ds @ ''.'' @ drop (nat point) ds
     else mantissa ds @ show_exp (point - 1))"
    by (simp add: repr_pos_def Let_def ds_def point_def all_def split: prod.split)
  have "CHR ''e'' \<in> set (show_exp (point - 1))" by (simp add: show_exp_def)
  then have pos: "-4 < point \<and> point \<le> 16" using e unfolding shape by (auto split: if_splits)
  consider "point \<le> 0" | "0 < point" "int (length ds) \<le> point" | "0 < point" "point < int (length ds)" by linarith
  then show thesis
  proof cases
    case 1
    have "of_int (read_digits (''0'' @ zeros (- point) @ ds)) / 10 ^ length (zeros (- point) @ ds) =
        (of_int (read_digits ds) * ten_to (point - int (length ds)) :: rat)"
    proof -
      have "point - int (length ds) = - int (length (zeros (- point) @ ds))" using 1 by (simp add: zeros_def)
      moreover have "read_digits (''0'' @ zeros (- point) @ ds) = read_digits ds"
        by (simp only: read_digits_append zeros_def read_zeros read_zero)
      ultimately show ?thesis by (simp only: ten_to_nat(2))  simp
    qed
    then show thesis using 1 pos ne dd zeros_digits by (intro that [of "''0''" "zeros (- point) @ ds"]) (simp_all add: shape val is_digit_def)
  next
    case 2
    let ?z = "zeros (point - int (length ds))"
    have "of_int (read_digits ((ds @ ?z) @ ''0'')) / 10 ^ length ''0'' = (of_int (read_digits ds) * ten_to (point - int (length ds)) :: rat)"
    proof -
      obtain n where n: "point - int (length ds) = int n" using 2 zle_iff_zadd [of "int (length ds)" point] by auto
      have "read_digits ((ds @ ?z) @ ''0'') = read_digits ds * 10 ^ n * 10"
        by (simp only: n read_digits_append zeros_def read_zeros read_zero) simp
      then show ?thesis unfolding n ten_to_nat(1) by simp
    qed
    then show thesis using 2 pos ne dd zeros_digits by (intro that [of "ds @ ?z" "''0''"]) (simp_all add: shape val is_digit_def)
  next
    case 3
    have "of_int (read_digits (take (nat point) ds @ drop (nat point) ds)) / 10 ^ length (drop (nat point) ds) =
       (of_int (read_digits ds) * ten_to (point - int (length ds)) :: rat)"
    proof -
      have "point - int (length ds) = - int (length (drop (nat point) ds))" using 3 by simp
      then show ?thesis by (simp only: ten_to_nat(2)) simp
    qed
    then show thesis using 3 pos ne dd by (intro that [of "take (nat point) ds" "drop (nat point) ds"])
        (auto simp: shape val list_all_iff dest: in_set_takeD in_set_dropD)
  qed
qed

lemma extract_repr:
  assumes "representable a" "0 < a" "a < 2 ^ 1024" "CHR ''e'' \<notin> set (float_repr (Fin a))"
  shows "extract_numbers (float_repr (Fin a)) = [Fin a]"
proof -
  have r: "rnd (of_int (fst (shortest a)) * ten_to (snd (shortest a))) = a"
    using shortest_reads_back [OF assms(1,2)] by (simp add: reads_back_def)
  have c: "0 < fst (shortest a)"
  proof (rule ccontr)
    assume "\<not> 0 < fst (shortest a)"
    then have "of_int (fst (shortest a)) * ten_to (snd (shortest a)) \<le> 0"
      by (intro mult_nonpos_nonneg less_imp_le [OF ten_to_pos]) auto
    then have "a \<le> rnd 0" using rnd_mono r by metis
    then show False using assms(2) by simp
  qed
  have shape: "float_repr (Fin a) = repr_pos a" using assms(2) by simp
  then obtain ds fs where d: "repr_pos a = ds @ ''.'' @ fs" "list_all is_digit ds" "ds \<noteq> []" "list_all is_digit fs" "fs \<noteq> []"
    "of_int (read_digits (ds @ fs)) / 10 ^ length fs = of_int (fst (shortest a)) * ten_to (snd (shortest a))"
    using repr_pos_text [OF c] assms(4) by metis
  have "to_float (of_int (fst (shortest a)) * ten_to (snd (shortest a))) = Fin a"
    using r assms(2,3) by (simp add: to_float_def Let_def)
  then show ?thesis unfolding shape d(1) using extract_decimal [OF d(2-5)] by (simp add: read_float_value d(6))
qed

section \<open>A figure shown is a figure accepted\<close>

theorem guard_flags_exactly_witness:
  "guard_annotate (show_int 7) guard_init = Inr (show_int 7 @ guard_banner [Fin 7], True, [Fin 7]) \<and>
   (\<exists>x\<in>set (extract_numbers (show_int 7)). \<not> backed [] x)"
proof -
  have e: "extract_numbers (show_int 7) = [Fin 7]" using extract_integer [of 7] by simp
  have a: "guard_annotate (show_int 7) guard_init = Inr (show_int 7 @ guard_banner [Fin 7], True, [Fin 7])"
    by (simp add: guard_annotate_def guard_verify_def guard_check_def guard_init_def e ALLOWED_BARE_def feq_def Let_def)
  then show ?thesis using guard_flags_exactly [OF a] by (simp add: guard_init_def)
qed

lemma fle_to_float_nonneg: "0 \<le> x \<Longrightarrow> fle (Fin 0) (to_float x)"
proof -
  assume "0 \<le> x"
  then have "0 \<le> rnd x" by (rule rnd_nonneg)
  then have "to_float x = PInf \<or> to_float x = Fin (rnd x)" by (simp add: to_float_def Let_def)
  then show ?thesis using \<open>0 \<le> rnd x\<close> by (auto simp: fle_def feq_def)
qed

lemma close_self: "close_to (Fin a) (Fin a)"
proof -
  have z: "fabs (fsub (Fin a) (Fin a)) = Fin 0"
    using to_float_dyadic [of 0 0 0] by (simp add: fsub_def)
  have "0 \<le> rnd (5 / 1000)" "\<bar>5 / 1000 :: rat\<bar> \<le> 2 ^ 1023" by (simp_all add: rnd_nonneg)
  then have rel: "fle (Fin 0) (fmul REL_TOL (Fin \<bar>a\<bar>))"
    by (simp add: REL_TOL_def to_float_finite fle_to_float_nonneg)
  have "fle (Fin 0) ABS_TOL" by (simp add: ABS_TOL_def fle_to_float_nonneg)
  then have "fle (Fin 0) (fmax (fmul REL_TOL (fmax (Fin \<bar>a\<bar>) (Fin \<bar>a\<bar>))) ABS_TOL)"
    using rel by (simp add: fmax_def)
  then show ?thesis by (simp add: close_to_def z fmax_def)
qed

lemma renderings_self: "renderings v = Inr rs \<Longrightarrow> v \<in> set rs"
  by (auto simp: renderings_def res_bind_Inr_iff)

text \<open>\<open>sane_figure\<close>: a finite figure of any size the backend produces.\<close>

definition sane_figure :: "pyfloat \<Rightarrow> bool" where
  "sane_figure v \<longleftrightarrow> (\<exists>a. v = Fin a \<and> \<bar>a\<bar> \<le> 2 ^ 512)"

lemma renderings_answer:
  assumes "sane_figure v"
  shows "\<exists>rs. renderings v = Inr rs"
proof -
  obtain a where a: "v = Fin a" "\<bar>a\<bar> \<le> 2 ^ 512" using assms by (auto simp: sane_figure_def)
  have "(2::int) ^ 512 \<le> 2 ^ 1000" by (rule power_increasing) auto
  then have "\<bar>trunc a\<bar> \<le> 2 ^ 1000" using trunc_abs [of a "2 ^ 512"] a(2) by simp
  then obtain d where "float_of_int (trunc a) = Inr (Fin d)" using float_of_int_ok by blast
  then show ?thesis by (simp add: renderings_def a(1))
qed

lemma all_renderings_answer: "\<forall>v\<in>set vs. sane_figure v \<Longrightarrow> \<exists>rs. all_renderings vs = Inr rs"
  by (induction vs) (auto dest: renderings_answer)

lemma shown_backed:
  assumes "sane_figure v" "v \<in> set allowed"
  shows "backed allowed v"
proof -
  obtain rs where "renderings v = Inr rs" using renderings_answer [OF assms(1)] by blast
  moreover have "close_to v v" using assms(1) close_self by (auto simp: sane_figure_def)
  ultimately show ?thesis using assms(2) renderings_self unfolding backed_def by blast
qed

lemma shown_unflagged:
  assumes "\<forall>v\<in>set (ng_allowed g). sane_figure v" "set (extract_numbers text) \<subseteq> set (ng_allowed g)"
  shows "guard_annotate text g = Inr (text, False, [])"
proof -
  obtain rs where "all_renderings (ng_allowed g) = Inr rs" using all_renderings_answer [OF assms(1)] by blast
  then obtain ok un where c: "guard_check text (ng_allowed g) = Inr (ok, un)" by (auto simp: guard_check_def Let_def)
  have "un = []" using guard_check_iff(1) [OF c] assms shown_backed by (auto simp: filter_empty_conv)
  then show ?thesis using guard_check_iff(2) [OF c] by (simp add: guard_annotate_def guard_verify_def c)
qed

lemma all_renderings_raise:
  "v \<in> set vs \<Longrightarrow> renderings v = Inl e \<Longrightarrow> \<exists>e'. all_renderings vs = Inl e'"
proof (induction vs)
  case (Cons a vs)
  show ?case
  proof (cases "renderings a")
    case (Inr r)
    then have "\<exists>e'. all_renderings vs = Inl e'" using Cons by auto
    then show ?thesis by (auto simp: Inr)
  qed simp
qed simp

lemma observed_unflagged:
  assumes "\<forall>v\<in>set (ng_allowed g). sane_figure v" "collect_numbers j = Inr [v]" "sane_figure v" "extract_numbers text = [v]"
  shows "\<exists>g'. guard_observe j g = Inr g' \<and> guard_annotate text g' = Inr (text, False, [])"
proof -
  have "guard_annotate text (g\<lparr>ng_allowed := ng_allowed g @ [v]\<rparr>) = Inr (text, False, [])"
    using assms(1,3,4) by (intro shown_unflagged) auto
  then show ?thesis using assms(2) by (simp add: guard_observe_def)
qed

text \<open>
  C21: a figure the backend produced is accepted when it is repeated: a reply whose numbers all occur among the
  figures the turn has shown, of any size the backend produces, is returned unchanged and unflagged; and so is the
  decimal form of a figure after it has been observed, of any whole one up to \<open>2 ^ 53\<close> and of any positive float that Python
  prints without an exponent: what is printed is read back as the same binary64.
\<close>

theorem guard_accepts_shown:
  assumes "\<forall>v\<in>set (ng_allowed g). sane_figure v" "set (extract_numbers text) \<subseteq> set (ng_allowed g)" "0 \<le> n" "n \<le> 2 ^ 53"
    "representable a" "0 < a" "a \<le> 2 ^ 512" "CHR ''e'' \<notin> set (float_repr (Fin a))"
  shows "guard_annotate text g = Inr (text, False, []) \<and>
     (\<exists>g'. guard_observe (JInt n) g = Inr g' \<and> guard_annotate (show_int n) g' = Inr (show_int n, False, [])) \<and>
     (\<exists>g'. guard_observe (JFloat (Fin a)) g = Inr g' \<and>
        guard_annotate (float_repr (Fin a)) g' = Inr (float_repr (Fin a), False, []))"
proof -
  have r: "to_float (of_int n) = Fin (of_int n)" using assms(3,4) by (simp add: to_float_exact representable_of_int)
  then have n: "collect_numbers (JInt n) = Inr [Fin (of_int n)]" by (simp add: float_of_int_def collect_numbers_def)
  have "(2::rat) ^ 53 \<le> 2 ^ 512" by (rule power_increasing) auto
  moreover have "(of_int n :: rat) \<le> 2 ^ 53" using assms(4) by (metis of_int_le_numeral_power_cancel_iff)
  ultimately have sn: "sane_figure (Fin (of_int n))" using assms(3) by (simp add: sane_figure_def)
  have sa: "sane_figure (Fin a)" using assms(6,7) by (simp add: sane_figure_def)
  have "(2::rat) ^ 512 < 2 ^ 1024" by (rule power_strict_increasing) auto
  then have ea: "extract_numbers (float_repr (Fin a)) = [Fin a]" using assms(7) by (intro extract_repr assms) linarith
  have "collect_numbers (JFloat (Fin a)) = Inr [Fin a]" by (simp add: collect_numbers_def)
  then show ?thesis
    using shown_unflagged [OF assms(1,2)] observed_unflagged [OF assms(1) n sn extract_integer [OF assms(3,4)]]
      observed_unflagged [OF assms(1) _ sa ea] by blast
qed

lemma demo_repr: "float_repr (Fin (3 / 2)) = ''1.5''"
  by code_simp

theorem guard_accepts_shown_witness:
  "guard_annotate (show_int 35) \<lparr>ng_allowed = [Fin 35]\<rparr> = Inr (show_int 35, False, []) \<and>
   (\<exists>g'. guard_observe (JFloat (Fin (3 / 2))) \<lparr>ng_allowed = [Fin 35]\<rparr> = Inr g' \<and>
      guard_annotate ''1.5'' g' = Inr (''1.5'', False, []))"
proof -
  have e: "extract_numbers (show_int 35) = [Fin 35]" using extract_integer [of 35] by simp
  have f: "sane_figure (Fin 35)" by (simp add: sane_figure_def)
  have "representable (3 / 2)" unfolding representable_def by (intro exI [of _ 3] exI [of _ "- 1"]) (simp add: power_int_minus)
  then show ?thesis
    using guard_accepts_shown [of "\<lparr>ng_allowed = [Fin 35]\<rparr>" "show_int 35" 12 "3 / 2"] by (simp add: e f demo_repr del: float_repr.simps)
qed

lemma fdiv_raises: "fdiv a b = Inl e \<Longrightarrow> \<exists>m. e = ZeroDivisionError m"
  by (cases "(a, b)" rule: fdiv.cases) (auto split: if_splits)

lemma annotate_raises:
  assumes "PInf \<in> set (ng_allowed g) \<or> NaN \<in> set (ng_allowed g)"
  shows "\<exists>e. guard_annotate text g = Inl e \<and> (\<exists>m. e = OverflowError m \<or> e = ValueError m \<or> e = ZeroDivisionError m)"
proof -
  have i: "int_of_float v = Inl e \<Longrightarrow> \<exists>m. e = OverflowError m \<or> e = ValueError m \<or> e = ZeroDivisionError m" for v e
    by (cases v) auto
  have f: "float_of_int n = Inl e \<Longrightarrow> \<exists>m. e = OverflowError m \<or> e = ValueError m \<or> e = ZeroDivisionError m" for n e
    by (auto simp: float_of_int_def split: pyfloat.splits)
  have d: "fdiv v w = Inl e \<Longrightarrow> \<exists>m. e = OverflowError m \<or> e = ValueError m \<or> e = ZeroDivisionError m" for v w e
    using fdiv_raises by blast
  have r: "renderings v = Inl e \<Longrightarrow> \<exists>m. e = OverflowError m \<or> e = ValueError m \<or> e = ZeroDivisionError m" for v e
    unfolding renderings_def res_bind_Inl_iff using i f d by blast
  have a: "all_renderings vs = Inl e \<Longrightarrow> \<exists>m. e = OverflowError m \<or> e = ValueError m \<or> e = ZeroDivisionError m" for vs e
    by (induction vs) (auto simp: res_bind_Inl_iff dest: r)
  have "\<exists>e. renderings PInf = Inl e" "\<exists>e. renderings NaN = Inl e" by (simp_all add: renderings_def)
  then obtain e where "all_renderings (ng_allowed g) = Inl e" using assms all_renderings_raise by metis
  then show ?thesis using a by (simp add: guard_annotate_def guard_verify_def guard_check_def)
qed

end
