(* ===== verification/Agent_Facts.thy ===== *)
theory Agent_Facts
  imports Agent_Tools Guard_Roundtrip
begin

text \<open>
  \<^verbatim>\<open>app/agent/facts.py\<close>: the sheet of figures every number the agent shows comes from. It is assembled from
  the responses of the service; the time stamp is an argument.
\<close>

section \<open>The sheet\<close>

record FactSheet =
  fs_borrower :: string
  fs_as_of :: string
  fs_hf :: pyfloat
  fs_hf_bps :: int
  fs_hf_target :: pyfloat
  fs_hf_target_bps :: int
  fs_hf_trigger_bps :: int
  fs_state :: string
  fs_collateral_usd :: pyfloat
  fs_debt_usd :: pyfloat
  fs_liquidation_threshold_bps :: int
  fs_repay_amount :: int
  fs_repay_amount_human :: string
  fs_collateral_asset :: string
  fs_collateral_symbol :: string
  fs_est_cost_bps :: int
  fs_viable :: bool
  fs_reason :: "string option"
  fs_sigma :: pyfloat
  fs_breach_probability :: pyfloat
  fs_sources :: "(string, string) pydict"

definition SOURCES :: "(string, string) pydict" where
  "SOURCES = [
     (''hf'', ''AssessmentResponse.hf''),
     (''hf_target'', ''AssessmentResponse.hf_target''),
     (''repay_amount'', ''AssessmentResponse.repay_amount''),
     (''collateral_asset'', ''AssessmentResponse.collateral_asset''),
     (''est_cost_bps'', ''AssessmentResponse.est_cost_bps''),
     (''viable'', ''AssessmentResponse.viable''),
     (''reason'', ''AssessmentResponse.reason''),
     (''sigma'', ''RiskSignal.sigma''),
     (''breach_probability'', ''RiskSignal.breach_probability''),
     (''hf_target_bps'', ''RiskSignal.hf_target_bps''),
     (''hf_trigger_bps'', ''PositionSnapshot.hf_trigger_bps''),
     (''state'', ''PositionSnapshot.state''),
     (''collateral_usd'', ''UserAccountData.total_collateral_base''),
     (''debt_usd'', ''UserAccountData.total_debt_base''),
     (''liquidation_threshold_bps'', ''UserAccountData.liquidation_threshold_bps''),
     (''hf_bps'', ''UserAccountData.health_factor'')]"

definition numeric_leaves :: "FactSheet \<Rightarrow> json list" where
  "numeric_leaves f = [JFloat (fs_hf f), JInt (fs_hf_bps f), JFloat (fs_hf_target f), JInt (fs_hf_target_bps f),
     JInt (fs_hf_trigger_bps f), JFloat (fs_collateral_usd f), JFloat (fs_debt_usd f),
     JInt (fs_liquidation_threshold_bps f), JInt (fs_repay_amount f), JInt (fs_est_cost_bps f),
     JFloat (fs_sigma f), JFloat (fs_breach_probability f)]"

text \<open>\<^verbatim>\<open>model_dump\<close>: the fields in their declared order.\<close>

definition sheet_dump :: "FactSheet \<Rightarrow> (string, json) pydict" where
  "sheet_dump f = [
     (''borrower'', JStr (fs_borrower f)), (''as_of'', JStr (fs_as_of f)),
     (''hf'', JFloat (fs_hf f)), (''hf_bps'', JInt (fs_hf_bps f)),
     (''hf_target'', JFloat (fs_hf_target f)), (''hf_target_bps'', JInt (fs_hf_target_bps f)),
     (''hf_trigger_bps'', JInt (fs_hf_trigger_bps f)), (''state'', JStr (fs_state f)),
     (''collateral_usd'', JFloat (fs_collateral_usd f)), (''debt_usd'', JFloat (fs_debt_usd f)),
     (''liquidation_threshold_bps'', JInt (fs_liquidation_threshold_bps f)),
     (''repay_amount'', JInt (fs_repay_amount f)), (''repay_amount_human'', JStr (fs_repay_amount_human f)),
     (''collateral_asset'', JStr (fs_collateral_asset f)), (''collateral_symbol'', JStr (fs_collateral_symbol f)),
     (''est_cost_bps'', JInt (fs_est_cost_bps f)), (''viable'', JBool (fs_viable f)),
     (''reason'', opt_str (fs_reason f)), (''sigma'', JFloat (fs_sigma f)),
     (''breach_probability'', JFloat (fs_breach_probability f)),
     (''sources'', JDict (map (\<lambda>(k, v). (k, JStr v)) (fs_sources f)))]"

section \<open>Renderings\<close>

text \<open>The ellipsis is one character of three bytes; an address is ASCII.\<close>

definition ELLIPSIS :: string where "ELLIPSIS = map char_of [226, 128, 166 :: nat]"

definition symbol_for :: "string \<Rightarrow> string" where
  "symbol_for asset = (case dict_get TOKEN_SYMBOLS asset of
       Some s \<Rightarrow> s | None \<Rightarrow> take 6 asset @ ELLIPSIS @ drop (length asset - 4) asset)"

definition human_amount :: "int \<Rightarrow> string \<Rightarrow> string res" where
  "human_amount amount asset = (case dict_get TOKEN_DECIMALS asset of
       None \<Rightarrow> Inr (show_int amount)
     | Some decimals \<Rightarrow> res_bind (int_truediv amount (10 ^ decimals)) (\<lambda>x. Inr (fmt_comma_f2 x)))"

section \<open>Assembly\<close>

definition build_factsheet ::
  "PositionSnapshot \<Rightarrow> AssessmentResponse \<Rightarrow> RiskSignal option \<Rightarrow> string option \<Rightarrow> string \<Rightarrow> FactSheet res" where
  "build_factsheet snap assessment risk debt_asset stamp =
     (let account = ps_account snap in
      res_bind (case risk of Some r \<Rightarrow> Inr (rs_hf_target_bps r)
        | None \<Rightarrow> res_bind (float_of_int BPS) (\<lambda>b. round_float (fmul (ar_hf_target assessment) b))) (\<lambda>target_bps.
      res_bind (int_truediv (ua_total_collateral_base account) (10 ^ AAVE_BASE_CURRENCY_DECIMALS)) (\<lambda>coll.
      res_bind (int_truediv (ua_total_debt_base account) (10 ^ AAVE_BASE_CURRENCY_DECIMALS)) (\<lambda>debt.
      res_bind (human_amount (ar_repay_amount assessment) (case debt_asset of Some a \<Rightarrow> a | None \<Rightarrow> [])) (\<lambda>human.
      Inr \<lparr>fs_borrower = ps_borrower snap, fs_as_of = stamp, fs_hf = ar_hf assessment,
        fs_hf_bps = ua_health_factor account div 10 ^ 14, fs_hf_target = ar_hf_target assessment,
        fs_hf_target_bps = target_bps, fs_hf_trigger_bps = ps_hf_trigger_bps snap,
        fs_state = state_value (ps_state snap), fs_collateral_usd = coll, fs_debt_usd = debt,
        fs_liquidation_threshold_bps = ua_liquidation_threshold_bps account,
        fs_repay_amount = ar_repay_amount assessment, fs_repay_amount_human = human,
        fs_collateral_asset = ar_collateral_asset assessment,
        fs_collateral_symbol = symbol_for (ar_collateral_asset assessment),
        fs_est_cost_bps = ar_est_cost_bps assessment, fs_viable = ar_viable assessment,
        fs_reason = ar_reason assessment,
        fs_sigma = (case risk of Some r \<Rightarrow> rs_sigma r | None \<Rightarrow> Fin 0),
        fs_breach_probability = (case risk of Some r \<Rightarrow> rs_breach_probability r | None \<Rightarrow> Fin 0),
        fs_sources = SOURCES\<rparr>)))))"

section \<open>The figures a sheet asserts\<close>

lemma collect_strings: "collect_stack (map (\<lambda>x. JStr (f x)) xs @ stack) = collect_stack stack"
  by (induction xs) simp_all

lemma collect_sources: "collect_stack (rev (map (\<lambda>x. snd (case x of (k, v) \<Rightarrow> (k, JStr v))) kvs) @ stack) = collect_stack stack"
proof -
  have "map (\<lambda>x. snd (case x of (k, v) \<Rightarrow> (k, JStr v))) kvs = map (\<lambda>x. JStr (snd x)) kvs" by (auto split: prod.split)
  then show ?thesis using collect_strings [of "\<lambda>x. snd x" "rev kvs" stack] by (simp only: rev_map)
qed

lemma opt_str_cases: "opt_str x = JNone \<or> (\<exists>s. opt_str x = JStr s)"
  by (cases x) (simp_all add: opt_str_def)

text \<open>What the guard takes from a sheet are exactly the figures the sheet declares, last first.\<close>

lemma collect_sheet: "collect_numbers (JDict (sheet_dump f)) = collect_stack (rev (numeric_leaves f))"
  using opt_str_cases [of "fs_reason f"]
  by (auto simp: collect_numbers_def sheet_dump_def numeric_leaves_def comp_def collect_sources)

lemma collect_float: "collect_stack js = Inr xs \<Longrightarrow> JFloat x \<in> set js \<Longrightarrow> x \<in> set xs"
proof (induction js arbitrary: xs rule: collect_stack.induct)
  case (2 item stack)
  then show ?case by (cases item) (auto simp: res_bind_Inr_iff)
qed simp

end
