(* ===== verification/Agent_Model.thy ===== *)
theory Agent_Model
  imports Agent_Facts Agent_Routes
begin

text \<open>
  The language model as the agent sees it, with the parts of \<^verbatim>\<open>app/agent/llm.py\<close> that wrap it. The model is a parameter:
  one awaited function per way it is asked. A plain turn answers with the content of a message, a
  structured turn with an instance of the asked class or with a raw value that the class validates. What it is
  asked with are a system prompt of \<^verbatim>\<open>app/agent/prompts.py\<close>, named, and the text of the human message.
\<close>

section \<open>Python's repr of a value\<close>

text \<open>\<^verbatim>\<open>repr\<close> and \<^verbatim>\<open>str\<close> differ on strings only.\<close>

function json_repr :: "json \<Rightarrow> string" where
  "json_repr JNone = ''None''"
| "json_repr (JBool b) = (if b then ''True'' else ''False'')"
| "json_repr (JInt n) = show_int n"
| "json_repr (JFloat x) = float_repr x"
| "json_repr (JStr s) = py_repr s"
| "json_repr (JList xs) = ''['' @ join '', '' (map json_repr xs) @ '']''"
| "json_repr (JDict kvs) = ''{'' @ join '', '' (map (\<lambda>kv. py_repr (fst kv) @ '': '' @ json_repr (snd kv)) kvs) @ ''}''"
  by pat_completeness auto
termination
proof (relation "measure size", goal_cases)
  case (2 xs x)
  then show ?case by (induction xs) auto
next
  case (3 kvs kv)
  then show ?case by (induction kvs) (auto simp: less_Suc_eq_le)
qed simp

fun json_str :: "json \<Rightarrow> string" where
  "json_str (JStr s) = s"
| "json_str j = json_repr j"

section \<open>Calling the model\<close>

datatype prompt = ANALYST_SYSTEM | STRATEGIST_SYSTEM | TUNER_SYSTEM | AUDITOR_SYSTEM

text \<open>\<open>ainvoke_guarded\<close>: a call that exceeds its time raises the agent's own exception.\<close>

definition ainvoke_guarded :: "pyfloat \<Rightarrow> ('s, 'a) io \<Rightarrow> ('s, 'a) io" where
  "ainvoke_guarded timeout_s call =
     io_try call (\<lambda>e. case e of
       TimeoutError _ \<Rightarrow> io_raise (AgentTimeout (''the model did not answer within '' @ fmt_f0 timeout_s @ ''s''))
     | _ \<Rightarrow> io_raise e)"

text \<open>
  \<open>text_of\<close>: a string as it is, of a list the strings and the text blocks, one per line, and anything else, or a list
  without text, as Python prints it.
\<close>

fun text_block :: "json \<Rightarrow> string option" where
  "text_block (JStr s) = Some s"
| "text_block (JDict d) = (if dict_get d ''type'' = Some (JStr ''text'')
     then Some (json_str (case dict_get d ''text'' of Some t \<Rightarrow> t | None \<Rightarrow> JStr [])) else None)"
| "text_block j = None"

fun text_of :: "json \<Rightarrow> string" where
  "text_of (JStr s) = s"
| "text_of (JList bs) =
     (let parts = List.map_filter text_block bs;
          joined = py_strip (join [char_of (10 :: nat)] (filter (\<lambda>p. p \<noteq> []) parts)) in
      if joined \<noteq> [] then joined else json_str (JList bs))"
| "text_of j = json_str j"

section \<open>Structured answers\<close>

datatype Strategy = Protect_now | Watch | Stand_down | Retune

fun strategy_value :: "Strategy \<Rightarrow> string" where
  "strategy_value Protect_now = ''protect_now''"
| "strategy_value Watch = ''watch''"
| "strategy_value Stand_down = ''stand_down''"
| "strategy_value Retune = ''retune''"

definition all_strategies :: "Strategy list" where
  "all_strategies = [Protect_now, Watch, Stand_down, Retune]"

fun tunable_field_value :: "TunableField \<Rightarrow> string" where
  "tunable_field_value F_hf_trigger_bps = ''hf_trigger_bps''"
| "tunable_field_value F_hf_target_base_bps = ''hf_target_base_bps''"
| "tunable_field_value F_hf_target_max_bps = ''hf_target_max_bps''"
| "tunable_field_value F_vol_coeff_k = ''vol_coeff_k''"
| "tunable_field_value F_max_slippage_bps = ''max_slippage_bps''"
| "tunable_field_value F_max_cost_bps = ''max_cost_bps''"

definition all_tunable_fields :: "TunableField list" where
  "all_tunable_fields = [F_hf_trigger_bps, F_hf_target_base_bps, F_hf_target_max_bps, F_vol_coeff_k, F_max_slippage_bps, F_max_cost_bps]"

record StrategyChoice =
  sc_strategy :: Strategy
  sc_rationale :: string

record TuningChoice =
  tc_field_name :: TunableField
  tc_suggested_value :: int
  tc_rationale :: string

datatype 'c answer = Instance 'c | Raw json

text \<open>A field of a raw answer; one that is missing has no value to validate.\<close>

definition raw_field :: "json \<Rightarrow> string \<Rightarrow> json option" where
  "raw_field j k = (case j of JDict d \<Rightarrow> dict_get d k | _ \<Rightarrow> None)"

definition raw_rationale :: "json \<Rightarrow> string res" where
  "raw_rationale j = (case raw_field j ''rationale'' of
       Some (JStr s) \<Rightarrow> if char_count s < 1 \<or> 1200 < char_count s then Inl (ValueError ''rationale'') else Inr s
     | _ \<Rightarrow> Inl (ValueError ''rationale''))"

definition raw_literal :: "('c \<Rightarrow> string) \<Rightarrow> 'c list \<Rightarrow> string \<Rightarrow> json \<Rightarrow> 'c res" where
  "raw_literal show_c all k j = (case raw_field j k of
       Some (JStr s) \<Rightarrow> (case find (\<lambda>c. show_c c = s) all of Some c \<Rightarrow> Inr c | None \<Rightarrow> Inl (ValueError k))
     | _ \<Rightarrow> Inl (ValueError k))"

fun validate_strategy_choice :: "StrategyChoice answer \<Rightarrow> StrategyChoice res" where
  "validate_strategy_choice (Instance c) = Inr c"
| "validate_strategy_choice (Raw j) =
     res_bind (raw_literal strategy_value all_strategies ''strategy'' j) (\<lambda>s.
     res_bind (raw_rationale j) (\<lambda>r. Inr \<lparr>sc_strategy = s, sc_rationale = r\<rparr>))"

text \<open>\<open>as_int\<close> is pydantic's reading of a value as an integer.\<close>

fun validate_tuning_choice :: "(json \<Rightarrow> int option) \<Rightarrow> TuningChoice answer \<Rightarrow> TuningChoice res" where
  "validate_tuning_choice as_int (Instance c) = Inr c"
| "validate_tuning_choice as_int (Raw j) =
     res_bind (raw_literal tunable_field_value all_tunable_fields ''field_name'' j) (\<lambda>f.
     res_bind (case Option.bind (raw_field j ''suggested_value'') as_int of
         Some n \<Rightarrow> if n < 0 \<or> 1000000 < n then Inl (ValueError ''suggested_value'') else Inr n
       | None \<Rightarrow> Inl (ValueError ''suggested_value'')) (\<lambda>n.
     res_bind (raw_rationale j) (\<lambda>r. Inr \<lparr>tc_field_name = f, tc_suggested_value = n, tc_rationale = r\<rparr>)))"

section \<open>The crew's surroundings\<close>

record 's crew_model =
  lm_prose :: "prompt \<Rightarrow> string \<Rightarrow> ('s, json) io"
  lm_strategy :: "string \<Rightarrow> ('s, StrategyChoice answer) io"
  lm_tuning :: "string \<Rightarrow> ('s, TuningChoice answer) io"

record 's crew_env =
  ce_agent :: "'s agent_env"
  ce_model :: "'s crew_model"
  ce_timeout :: pyfloat
  ce_run_id :: string
  ce_stamp :: "'s \<Rightarrow> string"
  ce_latency :: "string \<Rightarrow> 's \<Rightarrow> int"
  ce_as_int :: "json \<Rightarrow> int option"

end
