(* ===== verification/Crew_Graph.thy ===== *)
theory Crew_Graph
  imports Agent_Model
begin

text \<open>
  \<^verbatim>\<open>app/agent/graph.py\<close>: the crew of the agent. Each node is a function from the state of the run to the state with
  the keys it writes; \<^verbatim>\<open>langgraph\<close> runs the nodes one at a time along the edges and merges what each returns, which
  is the composition in \<open>crew_graph\<close>. A key that was never written and one holding \<^verbatim>\<open>None\<close> are told apart nowhere.
\<close>

section \<open>State of a run\<close>

datatype Terminal = T_proposed | T_no_action | T_gate_blocked | T_tuning_suggested | T_error

fun terminal_value :: "Terminal \<Rightarrow> string" where
  "terminal_value T_proposed = ''proposed''"
| "terminal_value T_no_action = ''no_action''"
| "terminal_value T_gate_blocked = ''gate_blocked''"
| "terminal_value T_tuning_suggested = ''tuning_suggested''"
| "terminal_value T_error = ''error''"

record CrewState =
  cw_borrower :: string
  cw_trigger :: string
  cw_run_id :: string
  cw_facts :: "FactSheet option"
  cw_registered :: "bool option"
  cw_debt_price_base :: "int option"
  cw_debt_decimals :: "int option"
  cw_risk_narrative :: "string option"
  cw_strategy :: "Strategy option"
  cw_strategy_rationale :: "string option"
  cw_summary :: "string option"
  cw_gate :: "PolicyDecision option"
  cw_proposal_id :: "int option"
  cw_tuning_id :: "int option"
  cw_guard_flagged :: "bool option"
  cw_error :: "string option"
  cw_terminal :: "Terminal option"

definition crew_initial :: "string \<Rightarrow> string \<Rightarrow> string \<Rightarrow> CrewState" where
  "crew_initial borrower trigger run_id = \<lparr>cw_borrower = borrower, cw_trigger = trigger, cw_run_id = run_id, cw_facts = None, cw_registered = None,
     cw_debt_price_base = None, cw_debt_decimals = None, cw_risk_narrative = None, cw_strategy = None,
     cw_strategy_rationale = None, cw_summary = None, cw_gate = None, cw_proposal_id = None, cw_tuning_id = None,
     cw_guard_flagged = None, cw_error = None, cw_terminal = None\<rparr>"

definition default_to :: "'a \<Rightarrow> 'a option \<Rightarrow> 'a" where
  "default_to d x = (case x of None \<Rightarrow> d | Some v \<Rightarrow> v)"

definition facts_dict :: "CrewState \<Rightarrow> (string, json) pydict" where
  "facts_dict st = (case cw_facts st of None \<Rightarrow> [] | Some f \<Rightarrow> sheet_dump f)"

definition dict_str :: "(string, json) pydict \<Rightarrow> string \<Rightarrow> string" where
  "dict_str d k = json_str (default_to JNone (dict_get d k))"

section \<open>Tracing and prose\<close>

text \<open>A row that cannot be written is not an error of the run.\<close>

definition record_node ::
  "'z ags crew_env \<Rightarrow> CrewState \<Rightarrow> string \<Rightarrow> (string, json) pydict \<Rightarrow> bool \<Rightarrow> string option \<Rightarrow> ('z ags, unit) io" where
  "record_node env st node output llm_used error =
     io_try (\<lambda>s. let latency = ce_latency env node s in
       io_bind (store_io [latency] (insert_decision (cw_run_id st) (cw_borrower st) node output (Some latency) llm_used error
         (ae_time (ce_agent env) 5 s))) (\<lambda>_. io_return ()) s)
     (\<lambda>_. io_return ())"

definition ask_prose :: "'z ags crew_env \<Rightarrow> prompt \<Rightarrow> (string, json) pydict \<Rightarrow> string \<Rightarrow> ('z ags, string) io" where
  "ask_prose env system payload fallback =
     io_try (io_bind (ainvoke_guarded (ce_timeout env) (lm_prose (ce_model env) system (json_repr (JDict payload)))) (\<lambda>content.
       let text = text_of content in io_return (if py_strip text \<noteq> [] then text else fallback)))
     (\<lambda>_. io_return fallback)"

section \<open>Monitor\<close>

definition crew_debt_price :: "'z ags crew_env \<Rightarrow> string \<Rightarrow> ('z ags, int) io" where
  "crew_debt_price env debt_asset =
     io_try (io_bind (with_global_client (ae_settings (ce_agent env))
         (get_asset_price (dp_node (ae_deps (ce_agent env))) debt_asset)) (\<lambda>p. io_return (op_price p)))
       (\<lambda>_. io_return 0)"

definition node_monitor :: "'z ags crew_env \<Rightarrow> CrewState \<Rightarrow> ('z ags, CrewState) io" where
  "node_monitor env st s0 =
     (let d = ae_deps (ce_agent env); borrower = cw_borrower st in
      case params_of borrower s0 of
        None \<Rightarrow>
          let error = ''borrower has no registered signed mandate'' in
          io_bind (record_node env st ''monitor'' [(''registered'', JBool False), (''terminal'', JStr (terminal_value T_no_action)),
            (''error'', JStr error)] False None) (\<lambda>_.
          io_return (st\<lparr>cw_registered := Some False, cw_terminal := Some T_no_action, cw_error := Some error\<rparr>)) s0
      | Some (params, _) \<Rightarrow>
          io_bind (tools_sigma_for params) (\<lambda>sigma.
          io_bind (service_assess d params (Some sigma)) (\<lambda>assessment.
          io_bind (snapshot d borrower (rp_hf_trigger_bps params)) (\<lambda>snap.
          io_bind (risk_signal d params (ps_hf snap)) (\<lambda>signal.
          io_bind (io_lift debt_asset_facts) (\<lambda>(debt_asset, debt_decimals).
          io_bind (\<lambda>s. (build_factsheet snap assessment (Some signal) (Some debt_asset) (ce_stamp env s), s)) (\<lambda>sheet.
          io_bind (crew_debt_price env debt_asset) (\<lambda>price.
          io_bind (record_node env st ''monitor'' [(''state'', JStr (fs_state sheet)), (''hf'', JFloat (fs_hf sheet))] False None) (\<lambda>_.
          io_return (st\<lparr>cw_registered := Some True, cw_facts := Some sheet, cw_debt_decimals := Some debt_decimals,
            cw_debt_price_base := Some price\<rparr>))))))))) s0)"

section \<open>Analyst and strategist\<close>

definition node_analyst :: "'z ags crew_env \<Rightarrow> CrewState \<Rightarrow> ('z ags, CrewState) io" where
  "node_analyst env st =
     (let sheet = facts_dict st;
          fallback = ''Health factor '' @ dict_str sheet ''hf'' @ '' against a target of '' @ dict_str sheet ''hf_target'' @
            ''; state '' @ dict_str sheet ''state'' @ ''.'' in
      io_bind (ask_prose env ANALYST_SYSTEM sheet fallback) (\<lambda>narrative.
      io_bind (record_node env st ''analyst'' [(''risk_narrative'', JStr narrative)] True None) (\<lambda>_.
      io_return (st\<lparr>cw_risk_narrative := Some narrative\<rparr>))))"

definition deterministic_strategy :: "FactSheet option \<Rightarrow> Strategy" where
  "deterministic_strategy sheet =
     (case sheet of
        None \<Rightarrow> Stand_down
      | Some f \<Rightarrow>
          if fs_viable f \<and> fs_hf_bps f \<le> fs_hf_trigger_bps f then Protect_now
          else if fs_hf_bps f \<le> fs_hf_trigger_bps f + 500 then Watch
          else Stand_down)"

definition choose_strategy :: "'z ags crew_env \<Rightarrow> CrewState \<Rightarrow> ('z ags, Strategy \<times> string) io" where
  "choose_strategy env st =
     io_try (io_bind (ainvoke_guarded (ce_timeout env) (lm_strategy (ce_model env) (json_repr (JDict
         [(''facts'', JDict (facts_dict st)), (''analysis'', JStr (default_to [] (cw_risk_narrative st)))])))) (\<lambda>reply.
       io_bind (io_lift (validate_strategy_choice reply)) (\<lambda>parsed.
       io_return (sc_strategy parsed, sc_rationale parsed))))
     (\<lambda>_. io_return (deterministic_strategy (cw_facts st), ''Chosen from the fact sheet without a model.''))"

definition node_strategist :: "'z ags crew_env \<Rightarrow> CrewState \<Rightarrow> ('z ags, CrewState) io" where
  "node_strategist env st =
     io_bind (choose_strategy env st) (\<lambda>(choice, rationale).
     io_bind (record_node env st ''strategist'' [(''strategy'', JStr (strategy_value choice)),
       (''strategy_rationale'', JStr rationale)] True None) (\<lambda>_.
     io_return (st\<lparr>cw_strategy := Some choice, cw_strategy_rationale := Some rationale\<rparr>)))"

section \<open>Policy gate\<close>

definition node_policy_gate :: "'z ags crew_env \<Rightarrow> CrewState \<Rightarrow> ('z ags, CrewState) io" where
  "node_policy_gate env st s0 =
     (let a = ce_agent env; d = ae_deps a; borrower = cw_borrower st in
      case params_of borrower s0 of
        None \<Rightarrow>
          let error = ''mandate disappeared mid-run'' in
          io_bind (record_node env st ''policy_gate'' [(''gate'', JNone), (''terminal'', JStr (terminal_value T_gate_blocked)),
            (''error'', JStr error)] False None) (\<lambda>_.
          io_return (st\<lparr>cw_gate := None, cw_terminal := Some T_gate_blocked, cw_error := Some error\<rparr>)) s0
      | Some (params, _) \<Rightarrow>
          io_bind (tools_sigma_for params) (\<lambda>sigma.
          io_bind (service_assess d params (Some sigma)) (\<lambda>assessment.
          io_bind (snapshot d borrower (rp_hf_trigger_bps params)) (\<lambda>snap.
          io_bind (\<lambda>s.
            let since = fsub (ae_time a 8 s) HOUR; m = metrics s; now = ae_time a 9 s in
            io_bind (io_lift (policy_limits (ae_settings a))) (\<lambda>limits.
            io_bind (store_io [] (count_recent_proposals since (Some borrower))) (\<lambda>recent_borrower.
            io_bind (store_io [] (count_recent_proposals since None)) (\<lambda>recent_global.
            io_lift (gate_evaluate \<lparr>gi_params = Some params, gi_assessment = assessment, gi_snapshot = snap,
              gi_metrics = m, gi_limits = limits, gi_now = now, gi_debt_price_base = default_to 0 (cw_debt_price_base st),
              gi_debt_decimals = default_to 6 (cw_debt_decimals st), gi_recent_borrower = recent_borrower,
              gi_recent_global = recent_global\<rparr>)))) s) (\<lambda>decision.
          io_bind (record_node env st ''policy_gate'' [(''allowed'', JBool (pd_allowed decision)),
            (''blocking'', JList (map JStr (pd_blocking decision)))] False None) (\<lambda>_.
          io_return (st\<lparr>cw_gate := Some decision\<rparr>)))))) s0)"

section \<open>Propose\<close>

definition guard_facts :: "CrewState \<Rightarrow> string \<Rightarrow> ('z ags, string \<times> bool) io" where
  "guard_facts st text =
     io_bind (io_lift (guard_observe (JDict (facts_dict st)) guard_init)) (\<lambda>g.
     io_bind (io_lift (guard_annotate text g)) (\<lambda>(text', flagged, _). io_return (text', flagged)))"

definition node_propose :: "'z ags crew_env \<Rightarrow> CrewState \<Rightarrow> ('z ags, CrewState) io" where
  "node_propose env st =
     (case cw_gate st of
        None \<Rightarrow> io_raise (ValueError ''gate'')
      | Some gate \<Rightarrow>
          io_bind (guard_facts st (default_to [] (cw_strategy_rationale st))) (\<lambda>(rationale, flagged).
          io_bind (io_lift (policy_limits (ae_settings (ce_agent env)))) (\<lambda>limits.
          io_bind (\<lambda>s. t_propose_protection (cw_run_id st) (cw_borrower st) (facts_dict st) rationale gate
            (pm_proposal_ttl_seconds limits) flagged (ae_time (ce_agent env) 6 s) s) (\<lambda>proposal_id.
          io_bind (write_audit (ce_agent env) ''agent'' PROPOSED (Some (cw_borrower st)) (Some proposal_id)
            [(''strategy'', JStr ''protect_now''), (''run_id'', JStr (cw_run_id st))]) (\<lambda>_.
          io_bind (record_node env st ''propose'' [(''proposal_id'', JInt proposal_id), (''guard_flagged'', JBool flagged),
            (''terminal'', JStr (terminal_value T_proposed))] False None) (\<lambda>_.
          io_return (st\<lparr>cw_proposal_id := Some proposal_id, cw_guard_flagged := Some flagged,
            cw_terminal := Some T_proposed\<rparr>)))))))"

section \<open>Tuner\<close>

definition tuner_payload :: "CrewState \<Rightarrow> RiskParams \<Rightarrow> (string, json) pydict" where
  "tuner_payload st params = [(''facts'', JDict (facts_dict st)),
     (''current_mandate'', JDict [
       (''hf_trigger_bps'', JInt (rp_hf_trigger_bps params)),
       (''hf_target_base_bps'', JInt (rp_hf_target_base_bps params)),
       (''hf_target_max_bps'', JInt (rp_hf_target_max_bps params)),
       (''vol_coeff_k'', JInt (rp_vol_coeff_k params)),
       (''max_slippage_bps'', JInt (rp_max_slippage_bps params)),
       (''max_cost_bps'', JInt (rp_max_cost_bps params))])]"

definition suggest_tuning :: "'z ags crew_env \<Rightarrow> CrewState \<Rightarrow> RiskParams \<Rightarrow> ('z ags, TuningChoice \<times> int) io" where
  "suggest_tuning env st params =
     io_bind (ainvoke_guarded (ce_timeout env) (lm_tuning (ce_model env) (json_repr (JDict (tuner_payload st params))))) (\<lambda>reply.
     io_bind (io_lift (validate_tuning_choice (ce_as_int env) reply)) (\<lambda>choice.
     io_bind (\<lambda>s. t_propose_tuning (nd_checksum (dp_node (ae_deps (ce_agent env)))) (cw_run_id st) (cw_borrower st) params
       (tc_field_name choice) (tc_suggested_value choice) (tc_rationale choice) (ae_time (ce_agent env) 7 s) s) (\<lambda>tuning_id.
     io_return (choice, tuning_id))))"

definition node_tuner :: "'z ags crew_env \<Rightarrow> CrewState \<Rightarrow> ('z ags, CrewState) io" where
  "node_tuner env st s0 =
     (case params_of (cw_borrower st) s0 of
        None \<Rightarrow>
          let error = ''mandate disappeared mid-run'' in
          io_bind (record_node env st ''tuner'' [(''terminal'', JStr (terminal_value T_no_action)), (''error'', JStr error)]
            False None) (\<lambda>_.
          io_return (st\<lparr>cw_terminal := Some T_no_action, cw_error := Some error\<rparr>)) s0
      | Some (params, _) \<Rightarrow>
          (case suggest_tuning env st params s0 of
             (Inl exc, s) \<Rightarrow>
               let error = ''no usable tuning suggestion: '' @ exn_str exc in
               io_bind (record_node env st ''tuner'' [(''terminal'', JStr (terminal_value T_no_action)), (''error'', JStr error)]
                 True (Some (exn_str exc))) (\<lambda>_.
               io_return (st\<lparr>cw_terminal := Some T_no_action, cw_error := Some error\<rparr>)) s
           | (Inr (choice, tuning_id), s) \<Rightarrow>
               io_bind (write_audit (ce_agent env) ''agent'' TUNING_SUGGESTED (Some (cw_borrower st)) None
                 [(''tuning_id'', JInt tuning_id), (''field'', JStr (tunable_field_value (tc_field_name choice))),
                  (''suggested_value'', JInt (tc_suggested_value choice))]) (\<lambda>_.
               io_bind (record_node env st ''tuner'' [(''tuning_id'', JInt tuning_id),
                 (''terminal'', JStr (terminal_value T_tuning_suggested))] True None) (\<lambda>_.
               io_return (st\<lparr>cw_tuning_id := Some tuning_id, cw_terminal := Some T_tuning_suggested\<rparr>))) s))"

section \<open>Auditor\<close>

text \<open>A key of zero counts as no key, as in Python.\<close>

definition has_key :: "int option \<Rightarrow> bool" where
  "has_key i \<longleftrightarrow> i \<noteq> None \<and> i \<noteq> Some 0"

definition terminal_for :: "CrewState \<Rightarrow> Terminal" where
  "terminal_for st =
     (if has_key (cw_proposal_id st) then T_proposed
      else if has_key (cw_tuning_id st) then T_tuning_suggested
      else (case cw_gate st of
          Some gate \<Rightarrow> if \<not> pd_allowed gate then T_gate_blocked else T_no_action
        | None \<Rightarrow> T_no_action))"

definition gate_blocking_names :: "CrewState \<Rightarrow> string list" where
  "gate_blocking_names st = (case cw_gate st of None \<Rightarrow> [] | Some gate \<Rightarrow> pd_blocking gate)"

definition fallback_summary :: "CrewState \<Rightarrow> Terminal \<Rightarrow> string" where
  "fallback_summary st terminal =
     (let borrower = cw_borrower st; sheet = facts_dict st in
      if terminal = T_proposed then
        ''Queued a rescue proposal for '' @ borrower @ '': HF '' @ dict_str sheet ''hf'' @ '' is at or below '' @
        ''its trigger and the pipeline judged the intervention viable.''
      else if terminal = T_gate_blocked then
        (let joined = join '', '' (gate_blocking_names st); names = (if joined = [] then ''unknown'' else joined) in
         ''Policy gate refused an intervention for '' @ borrower @ ''; failed checks: '' @ names @ ''.'')
      else if terminal = T_tuning_suggested then ''Raised a mandate re-sign request for '' @ borrower @ ''.''
      else ''No action warranted for '' @ borrower @ '' (state '' @
        json_str (default_to (JStr ''unknown'') (dict_get sheet ''state'')) @ '').'')"

definition auditor_payload :: "CrewState \<Rightarrow> Terminal \<Rightarrow> (string, json) pydict" where
  "auditor_payload st terminal = [
     (''facts'', JDict (facts_dict st)),
     (''strategy'', opt_str (map_option strategy_value (cw_strategy st))),
     (''rationale'', opt_str (cw_strategy_rationale st)),
     (''gate_allowed'', (case cw_gate st of None \<Rightarrow> JNone | Some g \<Rightarrow> JBool (pd_allowed g))),
     (''gate_blocking'', (case cw_gate st of None \<Rightarrow> JNone | Some g \<Rightarrow> JList (map JStr (pd_blocking g)))),
     (''terminal'', JStr (terminal_value terminal))]"

definition node_auditor :: "'z ags crew_env \<Rightarrow> CrewState \<Rightarrow> ('z ags, CrewState) io" where
  "node_auditor env st =
     (let terminal = default_to (terminal_for st) (cw_terminal st); a = ce_agent env in
      io_bind (ask_prose env AUDITOR_SYSTEM (auditor_payload st terminal) (fallback_summary st terminal)) (\<lambda>text.
      io_bind (guard_facts st text) (\<lambda>(summary, flagged).
      io_bind (if terminal = T_gate_blocked
        then io_bind (write_audit a ''agent'' GATE_BLOCKED (Some (cw_borrower st)) None
          [(''blocking'', JList (map JStr (gate_blocking_names st))), (''run_id'', JStr (cw_run_id st))]) (\<lambda>_. io_return ())
        else io_return ()) (\<lambda>_.
      io_bind (write_audit a ''agent'' CREW_RUN (Some (cw_borrower st)) None
        [(''run_id'', JStr (cw_run_id st)), (''terminal'', JStr (terminal_value terminal)),
         (''strategy'', opt_str (map_option strategy_value (cw_strategy st)))]) (\<lambda>_.
      io_bind (record_node env st ''auditor'' [(''terminal'', JStr (terminal_value terminal))] True None) (\<lambda>_.
      io_return (st\<lparr>cw_summary := Some summary, cw_terminal := Some terminal,
        cw_guard_flagged := Some (default_to False (cw_guard_flagged st) \<or> flagged)\<rparr>)))))))"

section \<open>Routing and assembly\<close>

datatype crew_route = R_gate | R_tune | R_done

definition route_strategy :: "CrewState \<Rightarrow> crew_route" where
  "route_strategy st =
     (if \<not> default_to False (cw_registered st) then R_done
      else if cw_strategy st = Some Protect_now then R_gate
      else if cw_strategy st = Some Retune then R_tune
      else R_done)"

definition route_gate :: "CrewState \<Rightarrow> bool" where
  "route_gate st = (case cw_gate st of Some gate \<Rightarrow> pd_allowed gate | None \<Rightarrow> False)"

definition crew_middle :: "'z ags crew_env \<Rightarrow> CrewState \<Rightarrow> ('z ags, CrewState) io" where
  "crew_middle env st =
     (case route_strategy st of
        R_gate \<Rightarrow> io_bind (node_policy_gate env st) (\<lambda>st. if route_gate st then node_propose env st else io_return st)
      | R_tune \<Rightarrow> node_tuner env st
      | R_done \<Rightarrow> io_return st)"

definition crew_graph :: "'z ags crew_env \<Rightarrow> CrewState \<Rightarrow> ('z ags, CrewState) io" where
  "crew_graph env st =
     io_bind (node_monitor env st) (\<lambda>st.
     io_bind (node_analyst env st) (\<lambda>st.
     io_bind (node_strategist env st) (\<lambda>st.
     io_bind (crew_middle env st) (node_auditor env))))"

record CrewRunResult =
  cr_run_id :: string
  cr_borrower :: string
  cr_terminal :: Terminal
  cr_strategy :: string
  cr_summary :: string
  cr_facts :: "(string, json) pydict"
  cr_gate :: "PolicyDecision option"
  cr_proposal_id :: "int option"
  cr_tuning_id :: "int option"
  cr_guard_flagged :: bool
  cr_trace :: "DecisionRow list"

fun is_agent_error :: "exn \<Rightarrow> bool" where
  "is_agent_error (AgentTimeout _) = True"
| "is_agent_error (AgentError _) = True"
| "is_agent_error _ = False"

definition run_crew :: "'z ags crew_env \<Rightarrow> string \<Rightarrow> string \<Rightarrow> ('z ags, CrewRunResult) io" where
  "run_crew env borrower trigger s0 =
     (case crew_graph env (crew_initial borrower trigger (ce_run_id env)) s0 of
        (Inl exc, s) \<Rightarrow>
          if is_agent_error exc then (Inl exc, s)
          else (Inr \<lparr>cr_run_id = ce_run_id env, cr_borrower = borrower, cr_terminal = T_error,
             cr_strategy = strategy_value Stand_down, cr_summary = ''The crew run failed: '' @ exn_str exc, cr_facts = [],
             cr_gate = None, cr_proposal_id = None, cr_tuning_id = None, cr_guard_flagged = False, cr_trace = []\<rparr>, s)
      | (Inr final, s) \<Rightarrow>
          io_bind (store_io [] (list_decisions (ce_run_id env))) (\<lambda>trace. io_return
            \<lparr>cr_run_id = ce_run_id env, cr_borrower = borrower, cr_terminal = default_to T_no_action (cw_terminal final),
             cr_strategy = strategy_value (default_to Stand_down (cw_strategy final)),
             cr_summary = default_to [] (cw_summary final), cr_facts = facts_dict final, cr_gate = cw_gate final,
             cr_proposal_id = cw_proposal_id final, cr_tuning_id = cw_tuning_id final,
             cr_guard_flagged = default_to False (cw_guard_flagged final), cr_trace = trace\<rparr>) s)"

record CrewRunRequest =
  cn_borrower :: string
  cn_trigger :: string

definition validate_crew_run_request :: "CrewRunRequest \<Rightarrow> CrewRunRequest res" where
  "validate_crew_run_request q = (if cn_trigger q \<in> {''manual'', ''worker''} then Inr q else Inl (ValueError ''trigger''))"

definition route_crew_run :: "'z ags crew_env \<Rightarrow> CrewRunRequest \<Rightarrow> ('z ags, CrewRunResult) io" where
  "route_crew_run env body = run_crew env (cn_borrower body) (cn_trigger body)"

end
