(* ===== verification/Crew_Safety.thy ===== *)
theory Crew_Safety
  imports Crew_Graph Approval_Flow
begin

text \<open>
  What a run of the crew can do. Everything the language model answers is arbitrary here; it is only assumed to
  run outside the keeper and the store, as the third-party service it is.
\<close>

section \<open>Frames of the nodes\<close>

definition calm_crew :: "'z ags crew_env \<Rightarrow> bool" where
  "calm_crew env \<longleftrightarrow> calm_deps (ae_deps (ce_agent env)) \<and>
     (\<forall>p t. io_keeps same_desk (lm_prose (ce_model env) p t)) \<and>
     (\<forall>t. io_keeps same_desk (lm_strategy (ce_model env) t)) \<and> (\<forall>t. io_keeps same_desk (lm_tuning (ce_model env) t))"

definition no_proposal :: "'z ags \<Rightarrow> 'z ags \<Rightarrow> bool" where
  "no_proposal s s' \<longleftrightarrow> same_keeper s s' \<and> db_proposals (contents s') = db_proposals (contents s) \<and>
     db_proposal_seq (contents s') = db_proposal_seq (contents s)"

interpretation sq: chain_frame no_proposal
  by unfold_locales (auto simp: same_defs no_proposal_def contents_def)

lemma rows_quiet: "same_rows s s' \<Longrightarrow> no_proposal s s'"
  by (simp add: same_rows_def no_proposal_def)

lemma keeps_quiet: "io_keeps same_rows m \<Longrightarrow> io_keeps no_proposal m"
  by (rule io_keeps_mono [OF _ rows_quiet])

lemma desk_quiet: "io_keeps same_desk m \<Longrightarrow> io_keeps no_proposal m"
  by (rule keeps_quiet [OF keeps_rows])

lemma io_keeps_at: "(\<And>x. io_keeps R (m x)) \<Longrightarrow> io_keeps R (\<lambda>s. m s s)"
  unfolding io_keeps_def by blast

lemma keeps_registered:
  "io_keeps R m \<Longrightarrow> (\<And>a b. io_keeps R (f a b)) \<Longrightarrow> io_keeps R (\<lambda>s. case g s of None \<Rightarrow> m s | Some p \<Rightarrow> (case p of (a, b) \<Rightarrow> f a b s))"
  unfolding io_keeps_def by (auto split: option.splits prod.splits)

lemma store_quiet:
  assumes "\<And>db r db'. q db = (r, db') \<Longrightarrow> db_proposals db' = db_proposals db \<and> db_proposal_seq db' = db_proposal_seq db"
  shows "io_keeps no_proposal (store_io ints q)"
  unfolding io_keeps_def no_proposal_def by (auto elim!: store_ioE dest: assms)

lemma audit_quiet: "io_keeps no_proposal (write_audit env who act b i det)"
  unfolding write_audit_def by (rule io_keeps_at, rule store_quiet) (auto simp: audit_write_def Let_def)

lemma record_quiet: "io_keeps no_proposal (record_node env st node out llm err)"
proof -
  have "io_keeps no_proposal (\<lambda>s. io_bind (store_io (x s) (insert_decision a b node out (y s) llm err (t s))) (\<lambda>_. io_return ()) s)"
    for x a b y t
    by (rule io_keeps_at, intro sq.k_bind sq.k_return store_quiet) (auto simp: insert_decision_def Let_def)
  then show ?thesis unfolding record_node_def Let_def by (intro sq.k_try sq.k_return)
qed

lemma invoke_quiet: "io_keeps same_desk m \<Longrightarrow> io_keeps no_proposal (ainvoke_guarded t m)"
  unfolding ainvoke_guarded_def by (intro sq.k_try) (auto intro: desk_quiet sq.k_raise split: exn.split)

lemma prose_quiet: "calm_crew env \<Longrightarrow> io_keeps no_proposal (ask_prose env p d f)"
  unfolding ask_prose_def calm_crew_def Let_def by (intro sq.k_try sq.k_bind invoke_quiet sq.k_return) blast

lemma strategy_quiet: "calm_crew env \<Longrightarrow> io_keeps no_proposal (choose_strategy env st)"
  unfolding choose_strategy_def calm_crew_def by (intro sq.k_try sq.k_bind invoke_quiet sq.k_return sq.k_lift) blast

lemma tuning_quiet: "calm_crew env \<Longrightarrow> io_keeps no_proposal (suggest_tuning env st params)"
proof -
  assume c: "calm_crew env"
  have "io_keeps no_proposal (store_io ints (insert_tuning a b f c v r p t))" for ints a b f c v r p t
    by (rule store_quiet) (auto simp: insert_tuning_def Let_def)
  then have "io_keeps no_proposal (t_propose_tuning ck a b params f v r t)" for ck a b f v r t
    unfolding t_propose_tuning_def Let_def by (intro sq.k_bind sq.k_lift)
  then have "io_keeps no_proposal (\<lambda>s. t_propose_tuning ck a b params f v r (t s) s)" for ck a b f v r t
    by (rule io_keeps_at [where m = "\<lambda>x. t_propose_tuning ck a b params f v r (t x)"])
  then show ?thesis using c unfolding suggest_tuning_def calm_crew_def
    by (intro sq.k_bind invoke_quiet sq.k_return sq.k_lift) blast+
qed

lemma guard_facts_pure: "io_keeps no_proposal (guard_facts st t)"
  unfolding guard_facts_def by (intro sq.k_bind sq.k_lift) (auto simp: sq.k_return split: prod.split)

lemma risk_quiet: "io_keeps no_proposal (risk_signal d params hf)"
  unfolding risk_signal_def by (intro sq.k_bind keeps_quiet [OF sigma_keeps_rows] sq.k_lift)

lemma price_quiet: "calm_deps (ae_deps (ce_agent env)) \<Longrightarrow> io_keeps no_proposal (crew_debt_price env a)"
  unfolding crew_debt_price_def
  by (rule keeps_quiet) (intro sr.k_try sr.k_bind global_client_keeps_rows sd.k_price calm_depsD(4) sr.k_return)

lemma reads_quiet:
  assumes "calm_deps d"
  shows "io_keeps no_proposal (tools_sigma_for params)" "io_keeps no_proposal (service_assess d params sg)"
    "io_keeps no_proposal (snapshot d b t)"
  unfolding service_assess_def
  by (intro keeps_quiet sigma_keeps_rows keeps_rows [OF sd.k_assess] calm_depsD(4) [OF assms] snapshot_keeps_rows assms)+

lemma count_quiet: "io_keeps no_proposal (store_io ints (count_recent_proposals t q))"
  by (rule store_quiet) (simp add: count_recent_proposals_def)

lemma calm_crewD: "calm_crew env \<Longrightarrow> calm_deps (ae_deps (ce_agent env))"
  by (simp add: calm_crew_def)

lemmas quiet_rules = sq.k_bind sq.k_return sq.k_lift record_quiet reads_quiet risk_quiet price_quiet audit_quiet
  guard_facts_pure prose_quiet strategy_quiet count_quiet

lemma monitor_quiet:
  assumes "calm_crew env"
  shows "io_keeps no_proposal (node_monitor env st)"
proof -
  note c = calm_crewD [OF assms]
  have sheet: "io_keeps no_proposal (\<lambda>s. (f s, s))" for f :: "'a ags \<Rightarrow> 'b res" by (simp add: io_keeps_def sq.R_refl)
  show ?thesis unfolding node_monitor_def Let_def
    by (rule keeps_registered) (auto split: prod.split intro!: quiet_rules c sheet)
qed

lemma analyst_quiet: "calm_crew env \<Longrightarrow> io_keeps no_proposal (node_analyst env st)"
  unfolding node_analyst_def Let_def by (intro quiet_rules)

lemma strategist_quiet: "calm_crew env \<Longrightarrow> io_keeps no_proposal (node_strategist env st)"
  unfolding node_strategist_def by (auto intro!: quiet_rules split: prod.split)

lemma gate_quiet:
  assumes "calm_crew env"
  shows "io_keeps no_proposal (node_policy_gate env st)"
proof -
  note c = calm_crewD [OF assms]
  have q: "io_keeps no_proposal (\<lambda>s. io_bind (io_lift l) (\<lambda>limits.
      io_bind (store_io [] (count_recent_proposals (t s) b)) (\<lambda>x.
      io_bind (store_io [] (count_recent_proposals (t s) b')) (\<lambda>y. io_lift (g limits x y s)))) s)"
    for l t b b' g
    by (rule io_keeps_at [where m = "\<lambda>s. io_bind (io_lift l) (\<lambda>limits.
      io_bind (store_io [] (count_recent_proposals (t s) b)) (\<lambda>x.
      io_bind (store_io [] (count_recent_proposals (t s) b')) (\<lambda>y. io_lift (g limits x y s))))"]) (intro quiet_rules)
  show ?thesis unfolding node_policy_gate_def Let_def
    by (rule keeps_registered) (auto intro!: quiet_rules c q)
qed

lemma tuner_quiet:
  assumes "calm_crew env"
  shows "io_keeps no_proposal (node_tuner env st)"
proof -
  have q: "io_keeps no_proposal (\<lambda>s. case suggest_tuning env st params s of
      (Inl exc, s) \<Rightarrow> m exc s | (Inr x, s) \<Rightarrow> (case x of (choice, i) \<Rightarrow> f choice i s))"
    if "\<And>e. io_keeps no_proposal (m e)" "\<And>a b. io_keeps no_proposal (f a b)" for params m f
    using tuning_quiet [OF assms, of st params] that sq.R_trans unfolding io_keeps_def
    by (auto split: prod.splits sum.splits) blast+
  show ?thesis unfolding node_tuner_def Let_def
    by (rule keeps_registered) (auto intro!: quiet_rules q)
qed

lemma auditor_quiet: "calm_crew env \<Longrightarrow> io_keeps no_proposal (node_auditor env st)"
  unfolding node_auditor_def Let_def by (auto intro!: quiet_rules split: prod.split)

section \<open>What the nodes write\<close>

text \<open>
  \<open>backed_sheet\<close>: a fact sheet built from an assessment and a snapshot of the service for these parameters.
  \<open>backed_gate\<close>: a verdict of the gate on such figures, under the operator's limits.
\<close>

definition backed_sheet :: "'z ags crew_env \<Rightarrow> string \<Rightarrow> RiskParams \<Rightarrow> FactSheet \<Rightarrow> bool" where
  "backed_sheet env b params f \<longleftrightarrow> (\<exists>sg a snap risk stamp t t' u u'.
     service_assess (ae_deps (ce_agent env)) params (Some sg) t = (Inr a, t') \<and>
     snapshot (ae_deps (ce_agent env)) b (rp_hf_trigger_bps params) u = (Inr snap, u') \<and>
     build_factsheet snap a (Some risk) (Some USDC) stamp = Inr f)"

definition backed_gate :: "'z ags crew_env \<Rightarrow> string \<Rightarrow> RiskParams \<Rightarrow> PolicyDecision \<Rightarrow> bool" where
  "backed_gate env b params decision \<longleftrightarrow> (\<exists>g sg t t' u u'.
     gi_params g = Some params \<and> policy_limits (ae_settings (ce_agent env)) = Inr (gi_limits g) \<and>
     service_assess (ae_deps (ce_agent env)) params (Some sg) t = (Inr (gi_assessment g), t') \<and>
     snapshot (ae_deps (ce_agent env)) b (rp_hf_trigger_bps params) u = (Inr (gi_snapshot g), u') \<and>
     gate_evaluate g = Inr decision)"

lemma facts_USDC: "debt_asset_facts = Inr (a, n) \<Longrightarrow> a = USDC \<and> n = 6"
  by (simp add: demo_facts)

lemma monitor_writes:
  assumes "node_monitor env st s = (Inr st', s')"
  shows "(params_of (cw_borrower st) s = None \<and> st' = st\<lparr>cw_registered := Some False, cw_terminal := Some T_no_action,
      cw_error := Some ''borrower has no registered signed mandate''\<rparr>) \<or>
    (\<exists>params sig sheet price. params_of (cw_borrower st) s = Some (params, sig) \<and> backed_sheet env (cw_borrower st) params sheet \<and>
      st' = st\<lparr>cw_registered := Some True, cw_facts := Some sheet, cw_debt_decimals := Some 6, cw_debt_price_base := Some price\<rparr>)"
proof (cases "params_of (cw_borrower st) s")
  case None
  then show ?thesis using assms by (auto simp: node_monitor_def Let_def io_bind_Inr_iff)
next
  case (Some ps)
  obtain params sig where ps: "ps = (params, sig)" by fastforce
  have "\<exists>sg t1 a t2 snap t3 risk t4 sheet price.
      service_assess (ae_deps (ce_agent env)) params (Some sg) t1 = (Inr a, t2) \<and>
      snapshot (ae_deps (ce_agent env)) (cw_borrower st) (rp_hf_trigger_bps params) t2 = (Inr snap, t3) \<and>
      build_factsheet snap a (Some risk) (Some USDC) (ce_stamp env t4) = Inr sheet \<and>
      st' = st\<lparr>cw_registered := Some True, cw_facts := Some sheet, cw_debt_decimals := Some 6, cw_debt_price_base := Some price\<rparr>"
    using assms unfolding node_monitor_def Let_def Some ps option.case prod.case io_bind_Inr_iff demo_facts
    by (clarsimp simp: io_bind_Inr_iff simp del: CrewState.unfold_congs) blast
  then show ?thesis using Some ps unfolding backed_sheet_def by blast
qed

lemma analyst_writes: "node_analyst env st s = (Inr st', s') \<Longrightarrow> \<exists>x. st' = st\<lparr>cw_risk_narrative := Some x\<rparr>"
  by (auto simp: node_analyst_def Let_def io_bind_Inr_iff)

lemma strategist_writes:
  "node_strategist env st s = (Inr st', s') \<Longrightarrow> \<exists>x y. st' = st\<lparr>cw_strategy := Some x, cw_strategy_rationale := Some y\<rparr>"
  by (auto simp: node_strategist_def io_bind_Inr_iff split: prod.splits)

lemma gate_writes:
  assumes "node_policy_gate env st s = (Inr st', s')"
  shows "(params_of (cw_borrower st) s = None \<and> st' = st\<lparr>cw_gate := None, cw_terminal := Some T_gate_blocked,
      cw_error := Some ''mandate disappeared mid-run''\<rparr>) \<or>
    (\<exists>params sig d. params_of (cw_borrower st) s = Some (params, sig) \<and> backed_gate env (cw_borrower st) params d \<and>
      st' = st\<lparr>cw_gate := Some d\<rparr>)"
proof (cases "params_of (cw_borrower st) s")
  case None
  then show ?thesis using assms by (auto simp: node_policy_gate_def Let_def io_bind_Inr_iff)
next
  case (Some ps)
  obtain params sig where ps: "ps = (params, sig)" by fastforce
  have "\<exists>sg t1 a t2 snap t3 limits d m now k n.
      service_assess (ae_deps (ce_agent env)) params (Some sg) t1 = (Inr a, t2) \<and>
      snapshot (ae_deps (ce_agent env)) (cw_borrower st) (rp_hf_trigger_bps params) t2 = (Inr snap, t3) \<and>
      policy_limits (ae_settings (ce_agent env)) = Inr limits \<and>
      gate_evaluate \<lparr>gi_params = Some params, gi_assessment = a, gi_snapshot = snap,
              gi_metrics = m, gi_limits = limits, gi_now = now, gi_debt_price_base = default_to 0 (cw_debt_price_base st),
              gi_debt_decimals = default_to 6 (cw_debt_decimals st), gi_recent_borrower = k, gi_recent_global = n\<rparr> = Inr d \<and>
      st' = st\<lparr>cw_gate := Some d\<rparr>"
    using assms unfolding node_policy_gate_def Let_def Some ps option.case prod.case io_bind_Inr_iff
    by (clarsimp simp del: CrewState.unfold_congs) metis
  then obtain sg t1 a t2 snap t3 g d where
    c: "service_assess (ae_deps (ce_agent env)) params (Some sg) t1 = (Inr a, t2)"
      "snapshot (ae_deps (ce_agent env)) (cw_borrower st) (rp_hf_trigger_bps params) t2 = (Inr snap, t3)"
      "policy_limits (ae_settings (ce_agent env)) = Inr (gi_limits g)" "gi_params g = Some params" "gi_assessment g = a"
      "gi_snapshot g = snap" "gate_evaluate g = Inr d" "st' = st\<lparr>cw_gate := Some d\<rparr>"
    by (metis gate_input.select_convs(1,2,3,5))
  then have "backed_gate env (cw_borrower st) params d" unfolding backed_gate_def by blast
  then show ?thesis using Some ps c(8) by blast
qed

lemma tuner_writes:
  "node_tuner env st s = (Inr st', s') \<Longrightarrow> (\<exists>i. st' = st\<lparr>cw_tuning_id := Some i, cw_terminal := Some T_tuning_suggested\<rparr>) \<or>
     (\<exists>e. st' = st\<lparr>cw_terminal := Some T_no_action, cw_error := Some e\<rparr>)"
  by (auto simp: node_tuner_def Let_def io_bind_Inr_iff split: option.splits prod.splits sum.splits)

lemma auditor_writes:
  "node_auditor env st s = (Inr st', s') \<Longrightarrow>
     \<exists>x y. st' = st\<lparr>cw_summary := Some x, cw_terminal := Some (default_to (terminal_for st) (cw_terminal st)), cw_guard_flagged := Some y\<rparr>"
  by (auto simp: node_auditor_def Let_def io_bind_Inr_iff split: prod.splits)

section \<open>Queueing a proposal\<close>

definition queued :: "CrewState \<Rightarrow> PolicyDecision \<Rightarrow> 'z ags \<Rightarrow> ProposalRow \<Rightarrow> bool" where
  "queued st gate s row \<longleftrightarrow> pd_allowed gate \<and> pw_id row = db_proposal_seq (contents s) + 1 \<and> pw_status row = PENDING \<and>
     pw_borrower row = cw_borrower st \<and> pw_run_id row = cw_run_id st \<and> pw_strategy row = ''protect_now'' \<and>
     pw_facts row = facts_dict st \<and> pw_gate row = gate"

definition one_proposal :: "ProposalRow \<Rightarrow> 'z ags \<Rightarrow> 'z ags \<Rightarrow> bool" where
  "one_proposal row s s' \<longleftrightarrow> same_keeper s s' \<and> db_proposals (contents s') = db_proposals (contents s) @ [row]"

lemma one_after_none: "no_proposal s t \<Longrightarrow> one_proposal row t u \<Longrightarrow> one_proposal row s u"
  by (auto simp: no_proposal_def one_proposal_def same_keeper_def)

lemma none_after_one: "one_proposal row s t \<Longrightarrow> no_proposal t u \<Longrightarrow> one_proposal row s u"
  by (auto simp: no_proposal_def one_proposal_def same_keeper_def)

lemma t_propose_adds:
  assumes "t_propose_protection (cw_run_id st) (cw_borrower st) (facts_dict st) rat gate ttl flag now s = (r, s')"
  shows "(no_proposal s s' \<and> (\<exists>e. r = Inl e)) \<or> (\<exists>row. queued st gate s row \<and> one_proposal row s s' \<and> r = Inr (pw_id row))"
proof (cases "pd_allowed gate")
  case True
  then have q: "store_io [] (insert_proposal (cw_run_id st) (cw_borrower st) ''protect_now'' (facts_dict st) gate rat ttl flag now) s = (r, s')"
    using assms by (simp add: t_propose_protection_def)
  then show ?thesis
  proof (cases rule: store_ioE)
    case overflow
    then show ?thesis by (auto simp: no_proposal_def)
  next
    case ran
    show ?thesis
    proof (cases "float_of_int ttl")
      case (Inl e)
      then show ?thesis using ran by (auto simp: insert_proposal_def no_proposal_def)
    next
      case (Inr x)
      let ?i = "db_proposal_seq (contents s) + 1"
      let ?row = "\<lparr>pw_id = ?i, pw_run_id = cw_run_id st, pw_borrower = cw_borrower st, pw_created_at = now,
                pw_expires_at = fadd now x, pw_status = PENDING, pw_strategy = ''protect_now'', pw_facts = facts_dict st,
                pw_gate = gate, pw_rationale = rat, pw_guard_flagged = flag, pw_decided_at = None,
                pw_decided_by = None, pw_decision_note = None, pw_tx_hash = None, pw_result = None\<rparr>"
      have "contents s' = (contents s)\<lparr>db_proposals := db_proposals (contents s) @ [?row], db_proposal_seq := ?i\<rparr>" "r = Inr ?i"
        using ran(1) by (simp_all add: insert_proposal_def Inr Let_def)
      then have "queued st gate s ?row" "one_proposal ?row s s'" "r = Inr (pw_id ?row)"
        using True ran(2) by (simp_all add: queued_def one_proposal_def)
      then show ?thesis by blast
    qed
  qed
qed (use assms in \<open>auto simp: t_propose_protection_def sq.R_refl\<close>)

lemma guard_facts_same: "guard_facts st t s = (r, s') \<Longrightarrow> s' = s"
  by (auto simp: guard_facts_def io_bind_def io_lift_def io_return_def split: sum.splits prod.splits)

lemma propose_adds:
  assumes "node_propose env st s = (r, s')"
  shows "(no_proposal s s' \<and> (\<exists>e. r = Inl e)) \<or> (\<exists>row gate. cw_gate st = Some gate \<and> queued st gate s row \<and> one_proposal row s s' \<and>
     (\<forall>st'. r = Inr st' \<longrightarrow> (\<exists>x. st' = st\<lparr>cw_proposal_id := Some (pw_id row), cw_guard_flagged := Some x, cw_terminal := Some T_proposed\<rparr>)))"
proof (cases "cw_gate st")
  case None
  then show ?thesis using assms by (simp add: node_propose_def sq.R_refl)
next
  case (Some gate)
  obtain q s0 where g: "guard_facts st (default_to [] (cw_strategy_rationale st)) s = (q, s0)" by fastforce
  have s0: "s0 = s" by (rule guard_facts_same [OF g])
  show ?thesis
  proof (cases q)
    case (Inl e)
    then show ?thesis using assms Some g s0 by (auto simp: node_propose_def io_bind_def sq.R_refl)
  next
    case (Inr x)
    obtain rat flag where x: "x = (rat, flag)" by fastforce
    show ?thesis
    proof (cases "policy_limits (ae_settings (ce_agent env))")
      case (Inl e)
      then show ?thesis using assms Some g s0 x \<open>q = Inr x\<close> by (auto simp: node_propose_def io_bind_def io_lift_def sq.R_refl)
    next
      case (Inr lim)
      let ?t = "\<lambda>s. t_propose_protection (cw_run_id st) (cw_borrower st) (facts_dict st) rat gate
            (pm_proposal_ttl_seconds lim) flag (ae_time (ce_agent env) 6 s) s"
      let ?k = "\<lambda>i. io_bind (write_audit (ce_agent env) ''agent'' PROPOSED (Some (cw_borrower st)) (Some i)
            [(''strategy'', JStr ''protect_now''), (''run_id'', JStr (cw_run_id st))]) (\<lambda>_.
          io_bind (record_node env st ''propose'' [(''proposal_id'', JInt i), (''guard_flagged'', JBool flag),
            (''terminal'', JStr (terminal_value T_proposed))] False None) (\<lambda>_.
          io_return (st\<lparr>cw_proposal_id := Some i, cw_guard_flagged := Some flag, cw_terminal := Some T_proposed\<rparr>)))"
      have e: "io_bind ?t ?k s = (r, s')"
        using assms Some g s0 x Inr \<open>q = Inr x\<close> by (simp add: node_propose_def io_bind_def [of "guard_facts _ _"] io_bind_def [of "io_lift _"] io_lift_def)
      obtain y s1 where t: "?t s = (y, s1)" by fastforce
      have k: "io_keeps no_proposal (?k i)" for i by (intro quiet_rules)
      from t_propose_adds [OF t] show ?thesis
      proof
        assume "no_proposal s s1 \<and> (\<exists>e. y = Inl e)"
        then show ?thesis using e t by (auto simp: io_bind_def)
      next
        assume "\<exists>row. queued st gate s row \<and> one_proposal row s s1 \<and> y = Inr (pw_id row)"
        then obtain row where row: "queued st gate s row" "one_proposal row s s1" "y = Inr (pw_id row)" by blast
        then have ks: "?k (pw_id row) s1 = (r, s')" using e t by (simp add: io_bind_def [of ?t])
        then have "one_proposal row s s'" using none_after_one row(2) io_keepsD [OF k] by blast
        moreover have "\<forall>st'. r = Inr st' \<longrightarrow> st' = st\<lparr>cw_proposal_id := Some (pw_id row), cw_guard_flagged := Some flag, cw_terminal := Some T_proposed\<rparr>"
          using ks by (auto simp: io_bind_Inr_iff)
        ultimately show ?thesis using Some row(1) by blast
      qed
    qed
  qed
qed

section \<open>A whole run\<close>

lemma quiet_params: "no_proposal s s' \<Longrightarrow> params_of b s' = params_of b s"
  by (simp add: no_proposal_def same_keeper_def params_of_def)

definition quiet_end :: "CrewState \<Rightarrow> CrewState \<Rightarrow> bool" where
  "quiet_end st st' \<longleftrightarrow>
     (route_strategy st = R_done \<and> st' = st) \<or>
     (route_strategy st = R_gate \<and> (\<exists>e. st' = st\<lparr>cw_gate := None, cw_terminal := Some T_gate_blocked, cw_error := Some e\<rparr>)) \<or>
     (route_strategy st = R_gate \<and> (\<exists>d. \<not> pd_allowed d \<and> st' = st\<lparr>cw_gate := Some d\<rparr>)) \<or>
     (route_strategy st = R_tune \<and> (\<exists>i. st' = st\<lparr>cw_tuning_id := Some i, cw_terminal := Some T_tuning_suggested\<rparr>)) \<or>
     (route_strategy st = R_tune \<and> (\<exists>e. st' = st\<lparr>cw_terminal := Some T_no_action, cw_error := Some e\<rparr>))"

definition proposed_end :: "CrewState \<Rightarrow> PolicyDecision \<Rightarrow> int \<Rightarrow> CrewState \<Rightarrow> bool" where
  "proposed_end st gate i st' \<longleftrightarrow> route_strategy st = R_gate \<and> (\<exists>x. st' = st\<lparr>cw_gate := Some gate, cw_proposal_id := Some i,
     cw_guard_flagged := Some x, cw_terminal := Some T_proposed\<rparr>)"

lemma middle_result:
  assumes "crew_middle env st s = (r, s')" and calm: "calm_crew env"
  shows "(no_proposal s s' \<and> (\<forall>st'. r = Inr st' \<longrightarrow> quiet_end st st')) \<or>
    (\<exists>row params sig. params_of (cw_borrower st) s = Some (params, sig) \<and> backed_gate env (cw_borrower st) params (pw_gate row) \<and>
       queued st (pw_gate row) s row \<and> one_proposal row s s' \<and> (\<forall>st'. r = Inr st' \<longrightarrow> proposed_end st (pw_gate row) (pw_id row) st'))"
proof (cases "route_strategy st")
  case R_done
  then show ?thesis using assms(1) by (auto simp: crew_middle_def quiet_end_def sq.R_refl)
next
  case R_tune
  then have t: "node_tuner env st s = (r, s')" using assms(1) by (simp add: crew_middle_def)
  have "quiet_end st st'" if "r = Inr st'" for st'
    using tuner_writes [of env st s st' s'] t that R_tune unfolding quiet_end_def by blast
  then show ?thesis using io_keepsD [OF tuner_quiet [OF calm] t] by blast
next
  case R_gate
  let ?k = "\<lambda>st. if route_gate st then node_propose env st else io_return st"
  have "io_bind (node_policy_gate env st) ?k s = (r, s')" using assms(1) R_gate by (simp add: crew_middle_def)
  then show ?thesis
  proof (cases rule: io_bindE)
    case (raised e)
    then show ?thesis using io_keepsD [OF gate_quiet [OF calm] raised(1)] by blast
  next
    case (ran st1 t)
    have q: "no_proposal s t" by (rule io_keepsD [OF gate_quiet [OF calm] ran(1)])
    from gate_writes [OF ran(1)] show ?thesis
    proof (elim disjE exE conjE)
      assume "st1 = st\<lparr>cw_gate := None, cw_terminal := Some T_gate_blocked, cw_error := Some ''mandate disappeared mid-run''\<rparr>"
      then show ?thesis using ran(2) q R_gate unfolding quiet_end_def by (auto simp: route_gate_def)
    next
      fix params sig d
      assume d: "params_of (cw_borrower st) s = Some (params, sig)" "backed_gate env (cw_borrower st) params d" "st1 = st\<lparr>cw_gate := Some d\<rparr>"
      show ?thesis
      proof (cases "pd_allowed d")
        case False
        then show ?thesis using ran(2) q R_gate d(3) unfolding quiet_end_def by (auto simp: route_gate_def)
      next
        case True
        then have p: "node_propose env st1 t = (r, s')" using ran(2) d(3) by (simp add: route_gate_def)
        from propose_adds [OF p] show ?thesis
        proof (elim disjE exE conjE)
          fix e assume "no_proposal t s'" "r = Inl e"
          then show ?thesis using sq.R_trans [OF q] by blast
        next
          fix row gate
          assume row: "cw_gate st1 = Some gate" "queued st1 gate t row" "one_proposal row t s'" "\<forall>st'. r = Inr st' \<longrightarrow>
            (\<exists>x. st' = st1\<lparr>cw_proposal_id := Some (pw_id row), cw_guard_flagged := Some x, cw_terminal := Some T_proposed\<rparr>)"
          have g: "gate = d" "pw_gate row = d" using row(1,2) d(3) by (auto simp: queued_def)
          have "queued st d s row" using row(2) q g d(3) by (simp add: queued_def no_proposal_def facts_dict_def)
          moreover have "\<forall>st'. r = Inr st' \<longrightarrow> proposed_end st d (pw_id row) st'"
            using row(4) d(3) R_gate by (auto simp: proposed_end_def)
          ultimately show ?thesis using d(1,2) g one_after_none [OF q row(3)] by blast
        qed
      qed
    qed
  qed
qed

text \<open>The three nodes before the routing, as one step.\<close>

definition crew_front :: "'z ags crew_env \<Rightarrow> CrewState \<Rightarrow> ('z ags, CrewState) io" where
  "crew_front env st = io_bind (node_monitor env st) (\<lambda>st. io_bind (node_analyst env st) (node_strategist env))"

lemma crew_graph_front: "crew_graph env st = io_bind (crew_front env st) (\<lambda>st. io_bind (crew_middle env st) (node_auditor env))"
  unfolding crew_graph_def crew_front_def by (rule ext) (simp add: io_bind_def split: prod.split sum.split)

lemma front_quiet: "calm_crew env \<Longrightarrow> io_keeps no_proposal (crew_front env st)"
  unfolding crew_front_def by (intro sq.k_bind monitor_quiet analyst_quiet strategist_quiet)

definition front_end :: "'z ags crew_env \<Rightarrow> string \<Rightarrow> string \<Rightarrow> 'z ags \<Rightarrow> CrewState \<Rightarrow> bool" where
  "front_end env b trigger s st \<longleftrightarrow> (\<exists>x y z.
     (params_of b s = None \<and> st = (crew_initial b trigger (ce_run_id env))\<lparr>cw_registered := Some False, cw_terminal := Some T_no_action,
        cw_error := Some ''borrower has no registered signed mandate'', cw_risk_narrative := Some x, cw_strategy := Some y,
        cw_strategy_rationale := Some z\<rparr>) \<or>
     (\<exists>params sig sheet price. params_of b s = Some (params, sig) \<and> backed_sheet env b params sheet \<and>
        st = (crew_initial b trigger (ce_run_id env))\<lparr>cw_registered := Some True, cw_facts := Some sheet, cw_debt_decimals := Some 6,
          cw_debt_price_base := Some price, cw_risk_narrative := Some x, cw_strategy := Some y, cw_strategy_rationale := Some z\<rparr>))"

lemma front_writes:
  assumes "crew_front env (crew_initial b trigger (ce_run_id env)) s = (Inr st, s')"
  shows "front_end env b trigger s st"
proof -
  let ?i = "crew_initial b trigger (ce_run_id env)"
  obtain st1 t1 st2 t2 where m: "node_monitor env ?i s = (Inr st1, t1)" "node_analyst env st1 t1 = (Inr st2, t2)"
    "node_strategist env st2 t2 = (Inr st, s')"
    using assms unfolding crew_front_def io_bind_Inr_iff by blast
  obtain x where st2: "st2 = st1\<lparr>cw_risk_narrative := Some x\<rparr>" using analyst_writes [OF m(2)] by blast
  obtain y z where st: "st = st2\<lparr>cw_strategy := Some y, cw_strategy_rationale := Some z\<rparr>" using strategist_writes [OF m(3)] by blast
  have b: "cw_borrower ?i = b" by (simp add: crew_initial_def)
  from monitor_writes [OF m(1)] show ?thesis
  proof (elim disjE exE conjE)
    assume "params_of (cw_borrower ?i) s = None" "st1 = ?i\<lparr>cw_registered := Some False, cw_terminal := Some T_no_action,
      cw_error := Some ''borrower has no registered signed mandate''\<rparr>"
    then show ?thesis unfolding front_end_def st st2 b by (intro exI disjI1) simp
  next
    fix params sig sheet price
    assume "params_of (cw_borrower ?i) s = Some (params, sig)" "backed_sheet env (cw_borrower ?i) params sheet"
      "st1 = ?i\<lparr>cw_registered := Some True, cw_facts := Some sheet, cw_debt_decimals := Some 6, cw_debt_price_base := Some price\<rparr>"
    then show ?thesis unfolding front_end_def st st2 b
      by (intro exI [of _ x] exI [of _ y] exI [of _ z] disjI2 exI [of _ params] exI [of _ sig] exI [of _ sheet] exI [of _ price]) simp
  qed
qed

lemma front_end_state:
  assumes "front_end env b trigger s st"
  shows "cw_borrower st = b" "cw_run_id st = ce_run_id env" "cw_gate st = None" "cw_proposal_id st = None" "cw_tuning_id st = None"
    "\<exists>y. cw_strategy st = Some y"
    "cw_registered st = Some (params_of b s \<noteq> None)" "cw_terminal st = (if params_of b s = None then Some T_no_action else None)"
    "cw_facts st = None \<longleftrightarrow> params_of b s = None"
  using assms by (auto simp: front_end_def crew_initial_def)

lemma front_end_sheet:
  "front_end env b trigger s st \<Longrightarrow> params_of b s = Some (params, sig) \<Longrightarrow> \<exists>sheet. cw_facts st = Some sheet \<and> backed_sheet env b params sheet"
  by (auto simp: front_end_def)

lemma auditor_keeps_outcome:
  assumes "node_auditor env st s = (Inr fin, s')"
  shows "cw_proposal_id fin = cw_proposal_id st" "cw_tuning_id fin = cw_tuning_id st" "cw_gate fin = cw_gate st"
    "cw_strategy fin = cw_strategy st" "cw_facts fin = cw_facts st"
    "cw_terminal fin = Some (default_to (terminal_for st) (cw_terminal st))"
  using auditor_writes [OF assms] by auto

text \<open>A run is what its two ends make of it: nothing queued, or one gated proposal.\<close>

lemma graph_result:
  assumes "crew_graph env (crew_initial b trigger (ce_run_id env)) s = (r, s')" and calm: "calm_crew env"
  shows "(no_proposal s s' \<and> (\<forall>fin. r = Inr fin \<longrightarrow> cw_proposal_id fin = None)) \<or>
    (\<exists>row params sig sheet st. params_of b s = Some (params, sig) \<and> backed_gate env b params (pw_gate row) \<and>
       backed_sheet env b params sheet \<and> cw_facts st = Some sheet \<and> cw_borrower st = b \<and> cw_run_id st = ce_run_id env \<and>
       queued st (pw_gate row) s row \<and> one_proposal row s s' \<and> (\<forall>fin. r = Inr fin \<longrightarrow> cw_proposal_id fin = Some (pw_id row)))"
proof -
  from assms(1) [unfolded crew_graph_front] show ?thesis
  proof (cases rule: io_bindE)
    case (raised e)
    then show ?thesis using io_keepsD [OF front_quiet [OF calm] raised(1)] by blast
  next
    case (ran st t)
    note fe = front_writes [OF ran(1)]
    note fs = front_end_state [OF fe]
    have q: "no_proposal s t" by (rule io_keepsD [OF front_quiet [OF calm] ran(1)])
    obtain x u where m: "crew_middle env st t = (x, u)" by fastforce
    have rest: "(\<exists>e. x = Inl e \<and> r = Inl e \<and> s' = u) \<or> (\<exists>st'. x = Inr st' \<and> node_auditor env st' u = (r, s'))"
      using ran(2) m by (cases x) (auto simp: io_bind_def)
    have tail: "no_proposal u s'" using rest io_keepsD [OF auditor_quiet [OF calm]] sq.R_refl by blast
    from middle_result [OF m calm] show ?thesis
    proof (elim disjE exE conjE)
      assume "no_proposal t u" "\<forall>st'. x = Inr st' \<longrightarrow> quiet_end st st'"
      then have "no_proposal s s'" "\<forall>st'. x = Inr st' \<longrightarrow> cw_proposal_id st' = None"
        using sq.R_trans [OF sq.R_trans [OF q] tail] fs(4) by (auto simp: quiet_end_def)
      then show ?thesis using rest auditor_keeps_outcome(1) by (metis Inr_not_Inl)
    next
      fix row params sig
      assume row: "params_of (cw_borrower st) t = Some (params, sig)" "backed_gate env (cw_borrower st) params (pw_gate row)"
        "queued st (pw_gate row) t row" "one_proposal row t u" "\<forall>st'. x = Inr st' \<longrightarrow> proposed_end st (pw_gate row) (pw_id row) st'"
      have p: "params_of b s = Some (params, sig)" "backed_gate env b params (pw_gate row)"
        using row(1,2) fs(1) quiet_params [OF q] by simp_all
      obtain sheet where sheet: "cw_facts st = Some sheet" "backed_sheet env b params sheet" using front_end_sheet [OF fe p(1)] by blast
      have "one_proposal row s s'" by (rule none_after_one [OF one_after_none [OF q row(4)] tail])
      moreover have "queued st (pw_gate row) s row" using row(3) q by (simp add: queued_def no_proposal_def)
      moreover have "\<forall>fin. r = Inr fin \<longrightarrow> cw_proposal_id fin = Some (pw_id row)"
        using rest row(5) auditor_keeps_outcome(1) by (fastforce simp: proposed_end_def)
      ultimately show ?thesis using p sheet fs(1,2) by blast
    qed
  qed
qed

text \<open>
  C8: whatever the language model answers, a run of the crew leaves the keeper's registry, locks, breaker and counters
  alone and queues at most one proposal. A queued proposal is pending, is for the borrower of the run under a registered
  signed mandate, carries the verdict of the gate on figures read from the service, and that verdict is an approval; its facts
  are a sheet built from the service's own responses.
\<close>

theorem crew_proposes_only_allowed:
  assumes "calm_crew env" "run_crew env b trigger s = (r, s')"
  shows "same_keeper s s' \<and>
    (db_proposals (contents s') = db_proposals (contents s) \<and> (\<forall>res. r = Inr res \<longrightarrow> cr_proposal_id res = None) \<or>
     (\<exists>row params sig sheet. db_proposals (contents s') = db_proposals (contents s) @ [row] \<and> params_of b s = Some (params, sig) \<and>
        pw_status row = PENDING \<and> pw_borrower row = b \<and> pw_run_id row = ce_run_id env \<and> pw_strategy row = ''protect_now'' \<and>
        pd_allowed (pw_gate row) \<and> backed_gate env b params (pw_gate row) \<and>
        backed_sheet env b params sheet \<and> pw_facts row = sheet_dump sheet \<and>
        (\<forall>res. r = Inr res \<longrightarrow> cr_terminal res = T_error \<or> cr_proposal_id res = Some (pw_id row))))"
proof -
  obtain q t where g: "crew_graph env (crew_initial b trigger (ce_run_id env)) s = (q, t)" by fastforce
  have list: "same_rows t s'" if "io_bind (store_io [] (list_decisions (ce_run_id env))) k t = (r, s')" "\<And>x y. k x y = (Inr (h x), y)"
    for k :: "DecisionRow list \<Rightarrow> ('a ags, CrewRunResult) io" and h
  proof -
    have "io_keeps same_rows (store_io [] (list_decisions (ce_run_id env)))"
      by (rule read_keeps_rows) (simp add: list_decisions_def)
    then have "io_keeps same_rows (io_bind (store_io [] (list_decisions (ce_run_id env))) k)"
      using that(2) by (intro sr.k_bind) (auto simp: io_keeps_def sr.R_refl)
    then show ?thesis using that(1) by (rule io_keepsD)
  qed
  have fin: "no_proposal t s' \<and> (\<forall>res. r = Inr res \<longrightarrow> (cr_terminal res = T_error \<and> cr_proposal_id res = None) \<or>
      (\<exists>fin. q = Inr fin \<and> cr_proposal_id res = cw_proposal_id fin))"
  proof (cases q)
    case (Inl e)
    then show ?thesis using assms(2) g by (auto simp: run_crew_def sq.R_refl split: if_splits)
  next
    case (Inr f)
    then show ?thesis using assms(2) g rows_quiet [OF list]
      by (auto simp: run_crew_def io_bind_Inr_iff io_return_def)
  qed
  from graph_result [OF g assms(1)] show ?thesis
  proof (elim disjE exE conjE)
    assume "no_proposal s t" "\<forall>fin. q = Inr fin \<longrightarrow> cw_proposal_id fin = None"
    then show ?thesis using fin sq.R_trans [of s t s'] by (auto simp: no_proposal_def)
  next
    fix row params sig sheet st
    assume row: "params_of b s = Some (params, sig)" "backed_gate env b params (pw_gate row)" "backed_sheet env b params sheet"
      "cw_facts st = Some sheet" "cw_borrower st = b" "cw_run_id st = ce_run_id env" "queued st (pw_gate row) s row"
      "one_proposal row s t" "\<forall>fin. q = Inr fin \<longrightarrow> cw_proposal_id fin = Some (pw_id row)"
    have "one_proposal row s s'" by (rule none_after_one [OF row(8) conjunct1 [OF fin]])
    moreover have "\<forall>res. r = Inr res \<longrightarrow> cr_terminal res = T_error \<or> cr_proposal_id res = Some (pw_id row)" using fin row(9) by auto
    ultimately show ?thesis using row(1-7) unfolding one_proposal_def queued_def facts_dict_def
      by (intro conjI disjI2 exI [of _ row] exI [of _ params] exI [of _ sig] exI [of _ sheet]) simp_all
  qed
qed

end
