(* ===== verification/Chat_Safety.thy ===== *)
theory Chat_Safety
  imports Agent_Chat Crew_Safety
begin

text \<open>
  What a turn of the chat agent can do. The language model is arbitrary: which tools it calls, with what arguments and
  how often is its own choice.
\<close>

section \<open>The tools read\<close>

definition calm_chat :: "'z ags chat_env \<Rightarrow> bool" where
  "calm_chat env \<longleftrightarrow> calm_deps (ae_deps (ch_agent env)) \<and> (\<forall>conversation. io_keeps same_desk (ch_model env conversation))"

lemma shapes_keep:
  "io_keeps same_rows m \<Longrightarrow> io_keeps same_rows (no_args env m args)"
  "(\<And>v. io_keeps same_rows (f v)) \<Longrightarrow> io_keeps same_rows (one_arg env k f args)"
  "(\<And>v. io_keeps same_rows (g v)) \<Longrightarrow> io_keeps same_rows (opt_args env ks g args)"
  by (auto simp: no_args_def one_arg_def opt_args_def intro: sr.k_raise split: option.split)

lemma pure_tools_keep:
  "io_keeps same_rows t_doctrine" "io_keeps same_rows t_list_positions" "io_keeps same_rows (t_position_state b)"
  "io_keeps same_rows (t_registered_params b)" "io_keeps same_rows t_metrics" "io_keeps same_rows (t_explain_state nm)"
  "io_keeps same_rows (t_explain_revert nm)"
  by (auto simp: io_keeps_def t_doctrine_def t_list_positions_def t_position_state_def t_registered_params_def t_metrics_def
      t_explain_state_def t_explain_revert_def io_return_def Let_def sr.R_refl split: option.splits)

lemma pure_keeps: "io_keeps same_rows (\<lambda>s. (f s, s))"
  by (simp add: io_keeps_def sr.R_refl)

lemma snapshot_tool_keeps:
  assumes "calm_deps d"
  shows "io_keeps same_rows (t_position_snapshot d b)"
  unfolding t_position_snapshot_def Let_def
  by (rule io_keeps_at [where m = "\<lambda>s0. io_bind (snapshot d b (case params_of b s0 of None \<Rightarrow> DEFAULT_TRIGGER_BPS
      | Some (p, _) \<Rightarrow> rp_hf_trigger_bps p)) (F s0)" for F]) (intro sr.k_bind snapshot_keeps_rows assms sr.k_lift sr.k_return)

lemma assess_tool_keeps:
  assumes "calm_deps d"
  shows "io_keeps same_rows (t_assess d b)"
  unfolding t_assess_def service_assess_def
  by (rule keeps_registered, rule pure_keeps)
    (intro sr.k_bind sigma_keeps_rows keeps_rows [OF sd.k_assess] calm_depsD(4) [OF assms] sr.k_return)

lemma risk_tool_keeps:
  assumes "calm_deps d"
  shows "io_keeps same_rows (t_risk_signal d b)"
  unfolding t_risk_signal_def risk_signal_def
  by (rule keeps_registered, rule pure_keeps)
    (intro sr.k_bind sigma_keeps_rows snapshot_keeps_rows assms sr.k_return sr.k_lift)

lemma list_tools_keep: "io_keeps same_rows (t_list_proposals b st n)" "io_keeps same_rows (t_audit_trail b n)"
  unfolding t_list_proposals_def t_audit_trail_def
  by (auto intro!: sr.k_bind sr.k_return read_keeps_rows simp: list_proposals_def list_audit_def split: sum.split)

lemma tools_keep_rows:
  assumes "calm_chat env" "sp \<in> set (read_only_specs env)"
  shows "io_keeps same_rows (ts_call sp args)"
proof -
  have d: "calm_deps (ae_deps (ch_agent env))" using assms(1) by (simp add: calm_chat_def)
  note tools = pure_tools_keep snapshot_tool_keeps [OF d] assess_tool_keeps [OF d] risk_tool_keeps [OF d] list_tools_keep
  show ?thesis using assms(2) unfolding read_only_specs_def Let_def by (auto intro!: shapes_keep tools)
qed

lemma dispatch_keeps_rows:
  assumes "calm_chat env"
  shows "io_keeps same_rows (dispatch env nm args)"
proof (cases "find (\<lambda>sp. ts_name sp = nm) (read_only_specs env)")
  case (Some sp)
  then have "sp \<in> set (read_only_specs env)" by (auto simp: find_Some_iff)
  from tools_keep_rows [OF assms this] show ?thesis
    unfolding io_keeps_def dispatch_def Some by (auto split: prod.splits sum.splits)
qed (simp add: io_keeps_def dispatch_def sr.R_refl)

lemma calls_keep_rows: "calm_chat env \<Longrightarrow> io_keeps same_rows (run_calls env cs t)"
  by (induction cs arbitrary: t) (auto intro!: sr.k_return sr.k_bind sr.k_lift dispatch_keeps_rows split: prod.split)

lemma invoke_keeps_rows: "io_keeps same_desk m \<Longrightarrow> io_keeps same_rows (ainvoke_guarded x m)"
  unfolding ainvoke_guarded_def by (intro sr.k_try) (auto intro: keeps_rows sr.k_raise split: exn.split)

lemma loop_keeps_rows:
  assumes "calm_chat env"
  shows "io_keeps same_rows (chat_loop env n t)"
proof (induction n arbitrary: t)
  case (Suc n)
  have ask: "io_keeps same_rows (ainvoke_guarded x (ch_model env c))" for x c
    using assms by (intro invoke_keeps_rows) (simp add: calm_chat_def)
  have rest: "io_keeps same_rows (io_bind (run_calls env cs u) (chat_loop env n))" for cs u
    by (intro sr.k_bind calls_keep_rows assms Suc.IH)
  show ?case unfolding io_keeps_def
  proof (intro allI impI)
    fix s r s'
    assume c: "chat_loop env (Suc n) t s = (r, s')"
    obtain q s1 where a: "ainvoke_guarded (ch_timeout env) (ch_model env (cu_conversation t)) s = (q, s1)" by fastforce
    have s1: "same_rows s s1" by (rule io_keepsD [OF ask a])
    show "same_rows s s'"
    proof (cases q)
      case (Inl e)
      then show ?thesis using c a s1 by (cases e) auto
    next
      case (Inr ai)
      have "s' = s1 \<or> same_rows s1 s'"
        using c a Inr io_keepsD [OF rest] by (auto simp: Let_def split: if_splits)
      then show ?thesis using s1 sr.R_trans by blast
    qed
  qed
qed (simp add: io_keeps_def sr.R_refl)

section \<open>A turn writes its own thread only\<close>

definition desk_rows_of :: "agent_db \<Rightarrow> ProposalRow list \<times> TuningRow list \<times> DecisionRow list \<times> AuditRow list \<times> int list" where
  "desk_rows_of db = (db_proposals db, db_tuning db, db_decisions db, db_audit db,
     [db_proposal_seq db, db_tuning_seq db, db_decision_seq db, db_audit_seq db])"

definition thread_only :: "string \<Rightarrow> agent_db \<Rightarrow> agent_db \<Rightarrow> bool" where
  "thread_only i db db' \<longleftrightarrow> desk_rows_of db' = desk_rows_of db \<and>
     filter (\<lambda>t. ct_thread_id t \<noteq> i) (db_threads db') = filter (\<lambda>t. ct_thread_id t \<noteq> i) (db_threads db) \<and>
     filter (\<lambda>m. cm_thread_id m \<noteq> i) (db_messages db') = filter (\<lambda>m. cm_thread_id m \<noteq> i) (db_messages db)"

definition only_thread :: "string \<Rightarrow> 'z ags \<Rightarrow> 'z ags \<Rightarrow> bool" where
  "only_thread i s s' \<longleftrightarrow> same_keeper s s' \<and> thread_only i (contents s) (contents s')"

interpretation ot: chain_frame "only_thread i" for i
  by unfold_locales (auto simp: only_thread_def thread_only_def same_keeper_def contents_def)

lemma rows_thread: "io_keeps same_rows m \<Longrightarrow> io_keeps (only_thread i) m"
  by (erule io_keeps_mono) (simp add: only_thread_def thread_only_def same_rows_def)

lemma chat_store_thread:
  assumes "\<And>now db. thread_only i db (snd (q now db))"
  shows "io_keeps (only_thread i) (chat_store env n q)"
  unfolding io_keeps_def chat_store_def
proof (intro allI impI, erule store_ioE)
  fix s r s' assume e: "q (ae_time (ch_agent env) n s) (contents s) = (r, contents s')" and k: "same_keeper s s'"
  show "only_thread i s s'" using assms [of "contents s" "ae_time (ch_agent env) n s"] k by (simp add: e only_thread_def)
qed (simp add: only_thread_def thread_only_def)

lemma touch_filter:
  "filter (\<lambda>t. ct_thread_id t \<noteq> i) (map (\<lambda>t. if ct_thread_id t = i then t\<lparr>ct_last_active := a, ct_borrower := b t\<rparr> else t) ts) =
   filter (\<lambda>t. ct_thread_id t \<noteq> i) ts"
  by (induction ts) auto

lemma ensure_thread_own: "io_keeps (only_thread i) (chat_store env n (ensure_thread i b))"
  by (rule chat_store_thread) (auto simp: thread_only_def desk_rows_of_def ensure_thread_def touch_filter)

lemma append_message_own: "io_keeps (only_thread i) (chat_store env n (append_message i role text calls facts flagged))"
  by (rule chat_store_thread) (auto simp: thread_only_def desk_rows_of_def append_message_def Let_def)

lemma history_reads: "io_keeps same_rows (store_io ints (thread_history i n))"
  by (rule read_keeps_rows) (simp add: thread_history_def)

lemma chat_own_thread:
  assumes "calm_chat env"
  shows "io_keeps (only_thread i) (run_chat env i message borrower)"
  unfolding run_chat_def Let_def
  by (intro ot.k_bind ensure_thread_own append_message_own rows_thread [OF history_reads])
    (auto split: prod.split intro!: ot.k_bind ot.k_lift ot.k_return append_message_own rows_thread [OF loop_keeps_rows] assms)

text \<open>
  C10: whatever the language model answers and whichever tools it calls, a turn of the chat, also one that fails, leaves
  the mandates, the locks, the breaker and the counters of the keeper, and of the database everything but the
  messages and the row of its own thread, as they were: no proposal, suggestion or audit row is written.
\<close>

theorem chat_is_read_only:
  assumes "calm_chat env" "run_chat env thread_id message borrower s = (r, s')"
  shows "same_keeper s s' \<and>
     db_proposals (contents s') = db_proposals (contents s) \<and> db_tuning (contents s') = db_tuning (contents s) \<and>
     db_decisions (contents s') = db_decisions (contents s) \<and> db_audit (contents s') = db_audit (contents s) \<and>
     filter (\<lambda>m. cm_thread_id m \<noteq> thread_id) (db_messages (contents s')) =
       filter (\<lambda>m. cm_thread_id m \<noteq> thread_id) (db_messages (contents s)) \<and>
     filter (\<lambda>t. ct_thread_id t \<noteq> thread_id) (db_threads (contents s')) =
       filter (\<lambda>t. ct_thread_id t \<noteq> thread_id) (db_threads (contents s))"
proof -
  have "io_keeps (only_thread thread_id) (run_chat env thread_id message borrower)" by (rule chat_own_thread [OF assms(1)])
  then have "only_thread thread_id s s'" using assms(2) by (rule io_keepsD)
  then show ?thesis unfolding only_thread_def thread_only_def desk_rows_of_def by simp
qed

end
