(* ===== verification/Chat_Reply.thy ===== *)
theory Chat_Reply
  imports Chat_Safety
begin

text \<open>
  What a reply of the chat agent rests on, where a turn fails, and an example with a scripted model.
\<close>

section \<open>What a reply rests on\<close>

text \<open>
  The calls of a turn, each as the name asked for, the result shown to the model and the row shown to the operator.
\<close>

type_synonym run = "string \<times> json \<times> ToolCallTrace"

text \<open>\<open>dispatched env cs s runs s'\<close>: the calls \<open>cs\<close>, made one after the other from \<open>s\<close>, return \<open>runs\<close> and leave \<open>s'\<close>.\<close>

inductive dispatched :: "'z ags chat_env \<Rightarrow> tool_call list \<Rightarrow> 'z ags \<Rightarrow> run list \<Rightarrow> 'z ags \<Rightarrow> bool" for env where
  No_call: "dispatched env [] s [] s"
| Next_call: "dispatch env (tl_name c) (tl_args c) s = (Inr (result, trace), s1) \<Longrightarrow> dispatched env cs s1 runs s' \<Longrightarrow>
     dispatched env (c # cs) s ((tl_name c, result, trace) # runs) s'"

definition outage_text :: "exn \<Rightarrow> string" where
  "outage_text exc = ''I could not reach the model to answer that ('' @ exn_str exc @ '').''"

definition results_of :: "tool_call list \<Rightarrow> run list \<Rightarrow> message list" where
  "results_of cs runs = map2 (\<lambda>c (nm, result, trace). ToolMessage (fence nm result) (tl_id c)) cs runs"

text \<open>
  \<open>exchange env n conversation s runs out s'\<close>: with at most \<open>n\<close> questions left the model is asked about the conversation in \<open>s\<close>. Each
  answer that calls tools has exactly its calls made, in its order, and the model is asked again with the answer and the fenced results
  appended; an answer without calls ends the exchange, and so do a model that is down and the last question.
\<close>

inductive exchange :: "'z ags chat_env \<Rightarrow> nat \<Rightarrow> message list \<Rightarrow> 'z ags \<Rightarrow> run list \<Rightarrow> outcome \<Rightarrow> 'z ags \<Rightarrow> bool" for env where
  Steps_used: "exchange env 0 conversation s [] Out_of_steps s"
| Model_down: "ainvoke_guarded (ch_timeout env) (ch_model env conversation) s = (Inl exc, s') \<Longrightarrow> (\<And>m. exc \<noteq> AgentTimeout m) \<Longrightarrow>
     exchange env (Suc n) conversation s [] (Outage (outage_text exc)) s'"
| Model_answers: "ainvoke_guarded (ch_timeout env) (ch_model env conversation) s = (Inr ai, s') \<Longrightarrow> am_tool_calls ai = [] \<Longrightarrow>
     exchange env (Suc n) conversation s [] (Answered (text_of (am_content ai))) s'"
| Model_calls: "ainvoke_guarded (ch_timeout env) (ch_model env conversation) s = (Inr ai, s1) \<Longrightarrow> am_tool_calls ai \<noteq> [] \<Longrightarrow>
     dispatched env (am_tool_calls ai) s1 runs s2 \<Longrightarrow>
     exchange env n (conversation @ AIMessage ai # results_of (am_tool_calls ai) runs) s2 further out s' \<Longrightarrow>
     exchange env (Suc n) conversation s (runs @ further) out s'"

text \<open>\<open>figures\<close>: the numbers of a result.\<close>

definition figures :: "json \<Rightarrow> pyfloat list" where
  "figures j = (case collect_numbers j of Inl _ \<Rightarrow> [] | Inr xs \<Rightarrow> xs)"

definition shown_figures :: "run list \<Rightarrow> pyfloat list" where
  "shown_figures runs = concat (map (\<lambda>(nm, result, trace). figures result) runs)"

definition observe_runs :: "run list \<Rightarrow> (string, json) pydict \<Rightarrow> (string, json) pydict" where
  "observe_runs runs d = fold (\<lambda>(nm, result, trace). dict_set nm result) runs d"

fun tool_text :: "message \<Rightarrow> string option" where
  "tool_text (ToolMessage text _) = Some text"
| "tool_text _ = None"

definition tool_texts :: "message list \<Rightarrow> string list" where
  "tool_texts = List.map_filter tool_text"

lemma tool_texts_simps [simp]: "tool_texts [] = []" "tool_texts (xs @ ys) = tool_texts xs @ tool_texts ys"
    "tool_texts (ToolMessage a b # xs) = a # tool_texts xs" "tool_texts (AIMessage m # xs) = tool_texts xs"
    "tool_texts (HumanMessage a # xs) = tool_texts xs" "tool_texts (SystemMessage a # xs) = tool_texts xs"
  by (simp_all add: tool_texts_def map_filter_def)

text \<open>\<open>extends\<close>: how the calls move a turn on. The guard is shown what the model is shown.\<close>

definition extends :: "chat_turn \<Rightarrow> run list \<Rightarrow> chat_turn \<Rightarrow> bool" where
  "extends t runs t' \<longleftrightarrow> cu_traces t' = cu_traces t @ map (snd \<circ> snd) runs \<and> cu_observed t' = observe_runs runs (cu_observed t) \<and>
     ng_allowed (cu_guard t') = ng_allowed (cu_guard t) @ shown_figures runs"

lemma extends_Nil: "extends t [] t" and extends_ai: "extends (t\<lparr>cu_conversation := c\<rparr>) runs u = extends t runs u"
    "extends t runs (u\<lparr>cu_conversation := c\<rparr>) = extends t runs u"
  by (simp_all add: extends_def shown_figures_def observe_runs_def)

lemma extends_append: "extends t xs u \<Longrightarrow> extends u ys v \<Longrightarrow> extends t (xs @ ys) v"
  by (auto simp: extends_def shown_figures_def observe_runs_def)

lemma observe_figures: "guard_observe j g = Inr g' \<Longrightarrow> ng_allowed g' = ng_allowed g @ figures j"
  by (auto simp: guard_observe_def res_bind_Inr_iff figures_def)

lemma calls_dispatched:
  "run_calls env cs t s = (Inr t', s') \<Longrightarrow> \<exists>runs. dispatched env cs s runs s' \<and> extends t runs t' \<and>
     cu_conversation t' = cu_conversation t @ results_of cs runs"
proof (induction cs arbitrary: t s)
  case Nil
  then show ?case by (intro exI [of _ "[]"]) (auto simp: io_return_def extends_Nil results_of_def intro: No_call)
next
  case (Cons c cs)
  obtain result trace s1 g where d: "dispatch env (tl_name c) (tl_args c) s = (Inr (result, trace), s1)"
    and g: "guard_observe result (cu_guard t) = Inr g"
    and r: "run_calls env cs \<lparr>cu_conversation = cu_conversation t @ [ToolMessage (fence (tl_name c) result) (tl_id c)], cu_guard = g,
       cu_traces = cu_traces t @ [trace], cu_observed = dict_set (tl_name c) result (cu_observed t)\<rparr> s1 = (Inr t', s')"
    using Cons.prems by (clarsimp simp: io_bind_Inr_iff) (rule that, auto)
  let ?t = "\<lparr>cu_conversation = cu_conversation t @ [ToolMessage (fence (tl_name c) result) (tl_id c)], cu_guard = g,
      cu_traces = cu_traces t @ [trace], cu_observed = dict_set (tl_name c) result (cu_observed t)\<rparr>"
  from Cons.IH [OF r] obtain runs where h: "dispatched env cs s1 runs s'" "extends ?t runs t'"
    "cu_conversation t' = cu_conversation ?t @ results_of cs runs" by blast
  have "extends t [(tl_name c, result, trace)] ?t"
    by (simp add: extends_def shown_figures_def observe_runs_def observe_figures [OF g])
  from extends_append [OF this h(2)] show ?case
    using h(3) Next_call [OF d h(1)] by (intro exI [of _ "(tl_name c, result, trace) # runs"]) (simp add: results_of_def)
qed

lemma loop_exchange:
  "chat_loop env n t s = (Inr (t', out), s') \<Longrightarrow> \<exists>runs. exchange env n (cu_conversation t) s runs out s' \<and> extends t runs t'"
proof (induction n arbitrary: t s)
  case 0
  then show ?case using Steps_used by (intro exI [of _ "[]"]) (auto simp: extends_Nil)
next
  case (Suc n)
  obtain q s1 where a: "ainvoke_guarded (ch_timeout env) (ch_model env (cu_conversation t)) s = (q, s1)" by fastforce
  show ?case
  proof (cases q)
    case (Inl e)
    then have "t' = t \<and> out = Outage (outage_text e) \<and> s' = s1 \<and> (\<forall>m. e \<noteq> AgentTimeout m)"
      using Suc.prems a by (cases e) (auto simp: outage_text_def)
    then show ?thesis using Model_down [OF a [unfolded Inl]] by (intro exI [of _ "[]"]) (auto simp: extends_Nil)
  next
    case (Inr ai)
    let ?t = "t\<lparr>cu_conversation := cu_conversation t @ [AIMessage ai]\<rparr>"
    show ?thesis
    proof (cases "am_tool_calls ai = []")
      case True
      then show ?thesis using Suc.prems a Inr Model_answers [OF a [unfolded Inr] True]
        by (intro exI [of _ "[]"]) (auto simp: Let_def extends_Nil extends_ai)
    next
      case False
      then obtain u s2 where c: "run_calls env (am_tool_calls ai) ?t s1 = (Inr u, s2)" and l: "chat_loop env n u s2 = (Inr (t', out), s')"
        using Suc.prems a Inr by (auto simp: Let_def io_bind_Inr_iff)
      obtain xs where x: "dispatched env (am_tool_calls ai) s1 xs s2" "extends t xs u"
          "cu_conversation u = cu_conversation t @ AIMessage ai # results_of (am_tool_calls ai) xs"
        using calls_dispatched [OF c] by (auto simp: extends_ai)
      obtain ys where y: "exchange env n (cu_conversation u) s2 ys out s'" "extends u ys t'"
        using Suc.IH [OF l] by blast
      show ?thesis
        using Model_calls [OF a [unfolded Inr] False x(1) y(1) [unfolded x(3)]] extends_append [OF x(2) y(2)] by blast
    qed
  qed
qed

lemma chat_store_ran:
  assumes "chat_store env n q s = (Inr x, s')"
  shows "q (ae_time (ch_agent env) n s) (contents s) = (Inr x, contents s')"
  using assms unfolding chat_store_def by (auto elim: store_ioE)

definition recorded :: "ChatReply \<Rightarrow> ChatMessageRow \<Rightarrow> bool" where
  "recorded rep m \<longleftrightarrow> cm_thread_id m = rl_thread_id rep \<and> cm_role m = ''assistant'' \<and> cm_content m = rl_reply rep \<and>
     cm_tool_calls m = Some (map trace_json (rl_tool_calls rep)) \<and> cm_facts m = Some (rl_facts rep) \<and>
     cm_guard_flagged m = rl_guard_flagged rep"

lemma append_recorded:
  assumes "append_message i ''assistant'' text calls facts flagged now db = (Inr x, db')"
  shows "\<exists>m. db_messages db' = db_messages db @ [m] \<and> cm_thread_id m = i \<and> cm_role m = ''assistant'' \<and> cm_content m = text \<and>
     cm_tool_calls m = calls \<and> cm_facts m = facts \<and> cm_guard_flagged m = flagged"
  using assms by (auto simp: append_message_def Let_def split: if_splits)

text \<open>\<open>annotated text vs rep\<close>: the reply is the text, checked by the guard against the figures \<open>vs\<close>.\<close>

definition annotated :: "string \<Rightarrow> pyfloat list \<Rightarrow> ChatReply \<Rightarrow> bool" where
  "annotated answer vs rep \<longleftrightarrow> (let unbacked = filter (\<lambda>x. \<not> backed vs x) (extract_numbers answer) in
     rl_guard_flagged rep = (unbacked \<noteq> []) \<and>
     rl_reply rep = (if unbacked = [] then answer else answer @ guard_banner unbacked))"

lemma annotated_reply:
  "guard_annotate answer g = Inr (rl_reply rep, rl_guard_flagged rep, un) \<Longrightarrow> annotated answer (ng_allowed g) rep"
  using annotate_annotated [of answer g] by (fastforce simp: annotated_def Let_def)

text \<open>
  C11: a reply of the chat is the end of one exchange with the model, which starts, after the question was stored, from the system prompt and the
  replayed conversation. It lists exactly the calls the model made in this exchange, in order, each dispatched once, and its facts are what these
  calls returned. An answer of the model, and the text that the steps are used up, are checked against precisely the figures of
  those results: the reply is flagged, and carries the banner, exactly when the text has a figure they do not back. Only the layer's own report that
  the model is down is passed on unchecked and unflagged. The last message of the conversation is the reply, with the same calls,
  facts and flag.
\<close>

theorem chat_reply_guarded:
  assumes "run_chat env thread_id message borrower s = (Inr rep, s')"
  shows "\<exists>s1 x s2 rows s3 runs out s4 m.
     chat_store env 6 (ensure_thread thread_id borrower) s = (Inr (), s1) \<and>
     chat_store env 7 (append_message thread_id ''user'' message None None False) s1 = (Inr x, s2) \<and>
     store_io [st_agent_chat_history_turns (ae_settings (ch_agent env))]
       (thread_history thread_id (st_agent_chat_history_turns (ae_settings (ch_agent env)))) s2 = (Inr rows, s3) \<and>
     exchange env (max_loops env) (SystemMessage (system_suffix borrower) # history_messages rows) s3 runs out s4 \<and>
     rl_tool_calls rep = map (snd \<circ> snd) runs \<and> rl_facts rep = observe_runs runs [] \<and> (rl_truncated rep \<longleftrightarrow> out = Out_of_steps) \<and>
     (case out of Answered answer \<Rightarrow> annotated answer (shown_figures runs) rep
      | Out_of_steps \<Rightarrow> annotated TRUNCATED (shown_figures runs) rep
      | Outage report \<Rightarrow> rl_reply rep = report \<and> \<not> rl_guard_flagged rep) \<and>
     db_messages (contents s') = db_messages (contents s4) @ [m] \<and> recorded rep m"
proof -
  let ?n = "st_agent_chat_history_turns (ae_settings (ch_agent env))"
  obtain s1 y s2 rows s3 t out s4 reply flagged x where
    b: "chat_store env 6 (ensure_thread thread_id borrower) s = (Inr (), s1)"
      "chat_store env 7 (append_message thread_id ''user'' message None None False) s1 = (Inr y, s2)"
      "store_io [?n] (thread_history thread_id ?n) s2 = (Inr rows, s3)" and
    l: "chat_loop env (max_loops env) \<lparr>cu_conversation = SystemMessage (system_suffix borrower) # history_messages rows,
        cu_guard = guard_init, cu_traces = [], cu_observed = []\<rparr> s3 = (Inr (t, out), s4)" and
    g: "Inr (reply, flagged) = guarded_reply (cu_guard t) out" and
    a: "chat_store env 8 (append_message thread_id ''assistant'' reply (Some (map trace_json (cu_traces t)))
       (Some (cu_observed t)) flagged) s4 = (Inr x, s')" and
    rep: "rep = \<lparr>rl_thread_id = thread_id, rl_reply = reply, rl_tool_calls = cu_traces t, rl_facts = cu_observed t,
       rl_sources = sort (remdups (map tt_name (filter tt_ok (cu_traces t)))), rl_guard_flagged = flagged,
       rl_truncated = (out = Out_of_steps)\<rparr>"
    using assms unfolding run_chat_def Let_def by (clarsimp simp: io_bind_Inr_iff)
  obtain runs where r: "exchange env (max_loops env) (SystemMessage (system_suffix borrower) # history_messages rows) s3 runs out s4"
      "cu_traces t = map (snd \<circ> snd) runs" "cu_observed t = observe_runs runs []" "ng_allowed (cu_guard t) = shown_figures runs"
    using loop_exchange [OF l] by (auto simp: extends_def guard_init_def)
  have checked: "annotated words (shown_figures runs) rep"
    if checked: "res_bind (guard_annotate words (cu_guard t)) (\<lambda>(reply, flagged, _). Inr (reply, flagged)) = Inr (reply, flagged)" for words
  proof -
    obtain un where "guard_annotate words (cu_guard t) = Inr (rl_reply rep, rl_guard_flagged rep, un)"
      using checked by (cases "guard_annotate words (cu_guard t)") (auto simp: rep split: prod.splits)
    from annotated_reply [OF this] show ?thesis by (simp add: r(4))
  qed
  have "case out of Answered answer \<Rightarrow> annotated answer (shown_figures runs) rep
      | Out_of_steps \<Rightarrow> annotated TRUNCATED (shown_figures runs) rep
      | Outage report \<Rightarrow> rl_reply rep = report \<and> \<not> rl_guard_flagged rep"
    using g checked by (cases out) (auto simp: guarded_reply_def rep)
  moreover obtain m where "db_messages (contents s') = db_messages (contents s4) @ [m]" "recorded rep m"
    using append_recorded [OF chat_store_ran [OF a]] by (auto simp: recorded_def rep)
  ultimately show ?thesis using b r(1-3)
    by (intro exI [of _ s1] exI [of _ y] exI [of _ s2] exI [of _ rows] exI [of _ s3] exI [of _ runs] exI [of _ out] exI [of _ s4] exI [of _ m])
      (simp add: rep)
qed

section \<open>What the model is asked, and where a turn fails\<close>

text \<open>
  The question is the last message replayed to the model, unless the number of messages to replay is set to zero, when the
  model is asked with the system prompt alone.
\<close>

lemma question_replayed:
  assumes "db_ok db" "append_message i ''user'' question None None False now db = (Inr x, db')" "n \<noteq> 0"
    "thread_history i n db' = (Inr rows, db'')"
  shows "\<exists>old. history_messages rows = old @ [HumanMessage question]"
proof -
  obtain m where m: "db_messages db' = db_messages db @ [m]" "cm_thread_id m = i" "cm_role m = ''user''" "cm_content m = question"
    using assms(2) by (auto simp: append_message_def Let_def split: if_splits)
  have "db_ok db'" using execute_ok [OF assms(1), of "Append_message i ''user'' question None None False now"] assms(2) by simp
  then have "rows_ok cm_id (db_message_seq db') (filter (\<lambda>m. cm_thread_id m = i) (db_messages db'))"
    by (intro rows_ok_filter) (simp add: db_ok_def)
  then have "rows = rev (sql_limit n (m # rev (filter (\<lambda>m. cm_thread_id m = i) (db_messages db))))"
    using assms(4) m by (simp add: thread_history_def newest_first_def sort_key_rows)
  moreover have "\<exists>ms. sql_limit n (m # ms') = m # ms" for ms' using assms(3) by (cases "nat n") (auto simp: sql_limit_def)
  ultimately obtain ms where "rows = rev ms @ [m]" by (metis rev.simps(2))
  then show ?thesis using m by (simp add: history_messages_def map_filter_def)
qed

lemma question_dropped: "thread_history i 0 db = (Inr rows, db') \<Longrightarrow> history_messages rows = []"
  by (simp add: thread_history_def sql_limit_def history_messages_def map_filter_def)

text \<open>An infinite or undefined figure in a result, such as the health factor of a position without debt, makes the turn raise.\<close>

lemma reply_raises:
  assumes "PInf \<in> set (ng_allowed g) \<or> NaN \<in> set (ng_allowed g)" "\<And>m. out \<noteq> Outage m"
  shows "\<exists>e. guarded_reply g out = Inl e"
proof -
  have "\<exists>e. guard_annotate answer g = Inl e" for answer using annotate_raises [OF assms(1)] by blast
  then show ?thesis using assms(2) by (cases out) (auto simp: guarded_reply_def res_bind_Inl_iff)
qed

section \<open>A model that does not answer\<close>

lemma chat_store_returns:
  assumes "q (ae_time (ch_agent env) n s) (contents s) = (Inr x, db)"
  shows "\<exists>s'. chat_store env n q s = (Inr x, s') \<and> contents s' = db"
  using assms by (auto simp: chat_store_def store_io_def store_call_def contents_def Let_def store_connect_def split: prod.splits)

lemma read_returns:
  assumes "\<forall>n\<in>set ints. sql_int_ok n" "q (contents s) = (Inr x, contents s)"
  shows "\<exists>s'. store_io ints q s = (Inr x, s') \<and> contents s' = contents s"
  using assms by (auto simp: store_io_def store_call_def contents_def Let_def store_connect_def split: prod.splits)

lemma ensure_result:
  "\<exists>db. ensure_thread i b now db0 = (Inr (), db) \<and> (\<exists>t\<in>set (db_threads db). ct_thread_id t = i) \<and> db_messages db = db_messages db0"
proof -
  have e: "(\<exists>t\<in>set ts. ct_thread_id t = i) \<longleftrightarrow> i \<in> set (map ct_thread_id ts)" for ts :: "ChatThread list" by auto
  show ?thesis unfolding e ensure_thread_def by (simp add: threads_kept del: map_map set_map)
qed

lemma append_result:
  "\<exists>t\<in>set (db_threads db0). ct_thread_id t = i \<Longrightarrow> \<exists>x db row. append_message i role text calls facts flagged now db0 = (Inr x, db) \<and>
     db_messages db = db_messages db0 @ [row] \<and> cm_role row = role \<and> cm_content row = text"
  by (simp add: append_message_def Let_def)

lemma loop_times_out:
  assumes "\<And>c s. \<exists>s'. ch_model env c s = (Inl (TimeoutError m), s')" "n \<noteq> 0" "calm_chat env"
  shows "\<exists>s'. chat_loop env n t s = (Inl (AgentTimeout (''the model did not answer within '' @ fmt_f0 (ch_timeout env) @ ''s'')), s') \<and>
     same_desk s s'"
proof -
  obtain s' where c: "ch_model env (cu_conversation t) s = (Inl (TimeoutError m), s')" using assms(1) by blast
  have "io_keeps same_desk (ch_model env (cu_conversation t))" using assms(3) by (simp add: calm_chat_def)
  then have "same_desk s s'" using c by (rule io_keepsD)
  then show ?thesis using assms(2) c
    by (cases n) (auto simp: ainvoke_guarded_def io_try_def io_raise_def)
qed

text \<open>
  C37: when the model does not answer in time the exception leaves the route, which has no handler for it, although every
  statement of the store succeeded: the operator's question stays in the conversation as its last message, without a reply.
\<close>

theorem chat_timeout_escapes:
  assumes "calm_chat env" "sql_int_ok (st_agent_chat_history_turns (ae_settings (ch_agent env)))"
    "\<And>c s. \<exists>s'. ch_model env c s = (Inl (TimeoutError m), s')"
  shows "\<exists>s' old row. route_chat env fresh_id body s =
       (Inl (AgentTimeout (''the model did not answer within '' @ fmt_f0 (ch_timeout env) @ ''s'')), s') \<and>
     db_messages (contents s') = db_messages (contents s) @ [row] \<and> cm_role row = ''user'' \<and> cm_content row = cq_message body"
proof -
  define i where "i = (case cq_thread_id body of None \<Rightarrow> fresh_id | Some i \<Rightarrow> if i = [] then fresh_id else i)"
  let ?n = "st_agent_chat_history_turns (ae_settings (ch_agent env))"
  obtain db1 where t: "ensure_thread i (cq_borrower body) (ae_time (ch_agent env) 6 s) (contents s) = (Inr (), db1)"
      "\<exists>t\<in>set (db_threads db1). ct_thread_id t = i" "db_messages db1 = db_messages (contents s)"
    using ensure_result by blast
  obtain s1 where 1: "chat_store env 6 (ensure_thread i (cq_borrower body)) s = (Inr (), s1)" "contents s1 = db1"
    using chat_store_returns [where q = "ensure_thread i (cq_borrower body)", OF t(1)] by blast
  let ?q = "append_message i ''user'' (cq_message body) None None False"
  obtain x db2 row where q: "?q (ae_time (ch_agent env) 7 s1) (contents s1) = (Inr x, db2)"
    and m: "db_messages db2 = db_messages (contents s) @ [row]" "cm_role row = ''user''" "cm_content row = cq_message body"
    using append_result [OF t(2)] unfolding 1(2) t(3) by metis
  obtain s2 where 2: "chat_store env 7 ?q s1 = (Inr x, s2)" "contents s2 = db2"
    using chat_store_returns [where q = ?q, OF q] by blast
  obtain rows s3 where 3: "store_io [?n] (thread_history i ?n) s2 = (Inr rows, s3)" "contents s3 = db2"
    using read_returns [where q = "thread_history i ?n" and ints = "[?n]" and s = s2] assms(2) 2(2) by (auto simp: thread_history_def)
  have n: "max_loops env \<noteq> 0" by (simp add: max_loops_def MAX_LOOPS_FLOOR_def)
  obtain s4 where 4: "chat_loop env (max_loops env) \<lparr>cu_conversation = SystemMessage (system_suffix (cq_borrower body)) # history_messages rows,
      cu_guard = guard_init, cu_traces = [], cu_observed = []\<rparr> s3 =
      (Inl (AgentTimeout (''the model did not answer within '' @ fmt_f0 (ch_timeout env) @ ''s'')), s4)" "same_desk s3 s4"
    using loop_times_out [OF assms(3) n assms(1)] by blast
  have "contents s4 = db2" using 3(2) desk_rows [OF 4(2)] by (simp add: same_rows_def)
  then show ?thesis using m
    by (auto simp: route_chat_def run_chat_def i_def [symmetric] io_bind_def 1(1) 2(1) 3(1) 4(1) Let_def)
qed

section \<open>An example\<close>

text \<open>A model that looks up the positions and then answers with a figure no tool gave it.\<close>

definition scripted :: "message list \<Rightarrow> ai_message" where
  "scripted conversation = (if tool_texts conversation = []
     then \<lparr>am_content = JStr [], am_tool_calls = [\<lparr>tl_name = ''t_list_positions'', tl_args = [], tl_id = ''1''\<rparr>]\<rparr>
     else \<lparr>am_content = JStr (show_int 7), am_tool_calls = []\<rparr>)"

definition demo_chat :: "'z ags chat_env" where
  "demo_chat = \<lparr>ch_agent = demo_env, ch_model = (\<lambda>conversation. io_return (scripted conversation)), ch_timeout = Fin 30,
     ch_latency = (\<lambda>_ _. 0), ch_type_error = (\<lambda>_. ''TypeError'')\<rparr>"

lemma demo_chat_calm: "calm_chat demo_chat"
  using demo_calm by (auto simp: calm_chat_def demo_chat_def demo_env_def io_keeps_def io_return_def same_defs)

definition demo_trace :: ToolCallTrace where
  "demo_trace = \<lparr>tt_name = ''t_list_positions'', tt_args = [], tt_ok = True, tt_latency_ms = 0, tt_error = None\<rparr>"

lemma demo_dispatch:
  "dispatch demo_chat ''t_list_positions'' [] s = (Inr (JList (map JStr (registered s)), demo_trace), s)"
  by (simp add: dispatch_def read_only_specs_def no_args_def t_list_positions_def demo_trace_def demo_chat_def Let_def)

lemma demo_figures: "guard_observe (JList (map JStr xs)) g = Inr g"
proof -
  have c: "collect_stack (map JStr ys) = Inr []" for ys by (induction ys) auto
  show ?thesis using c [of "rev xs"] by (simp add: guard_observe_def collect_numbers_def rev_map)
qed

lemma demo_loop:
  assumes "tool_texts conversation = []" "Suc (Suc n) = k"
  shows "\<exists>c. chat_loop demo_chat k \<lparr>cu_conversation = conversation, cu_guard = guard_init, cu_traces = [], cu_observed = []\<rparr> s =
     (Inr (\<lparr>cu_conversation = c, cu_guard = guard_init, cu_traces = [demo_trace],
        cu_observed = [(''t_list_positions'', JList (map JStr (registered s)))]\<rparr>, Answered (show_int 7)), s)"
proof -
  have ask: "ainvoke_guarded (ch_timeout demo_chat) (ch_model demo_chat c) s = (Inr (scripted c), s)" for c
    by (simp add: ainvoke_guarded_def demo_chat_def io_try_def io_return_def)
  show ?thesis unfolding assms(2) [symmetric]
    by (simp add: ask assms(1) scripted_def io_bind_def demo_dispatch demo_figures io_lift_def io_return_def Let_def)
qed

lemma demo_chat_store:
  assumes "demo_at db s" "q (Fin 500) db = (Inr x, db')"
  shows "\<exists>s'. chat_store demo_chat n q s = (Inr x, s') \<and> demo_at db' s'"
  using demo_store [where q = "q (Fin 500)" and ints = "[]", OF assms] by (auto simp: chat_store_def demo_chat_def demo_env_def)

lemma demo_runs:
  "\<exists>rep s'. run_chat demo_chat ''t'' ''hi'' None (demo_agent empty_db) = (Inr rep, s') \<and>
     rl_reply rep = show_int 7 @ guard_banner [Fin 7] \<and> rl_tool_calls rep = [demo_trace] \<and> rl_guard_flagged rep \<and> \<not> rl_truncated rep"
proof -
  let ?T = "\<lparr>ct_thread_id = ''t'', ct_created_at = Fin 500, ct_last_active = Fin 500, ct_borrower = None, ct_title = None\<rparr>"
  let ?M = "\<lparr>cm_id = 1, cm_thread_id = ''t'', cm_ts = Fin 500, cm_role = ''user'', cm_content = ''hi'', cm_tool_calls = None,
    cm_facts = None, cm_guard_flagged = False\<rparr>"
  let ?d1 = "empty_db\<lparr>db_threads := [?T]\<rparr>"
  let ?d2 = "?d1\<lparr>db_messages := [?M], db_message_seq := 1\<rparr>"
  obtain s1 where 1: "chat_store demo_chat 6 (ensure_thread ''t'' None) (demo_agent empty_db) = (Inr (), s1)" "demo_at ?d1 s1"
    using demo_chat_store [where q = "ensure_thread ''t'' None", OF demo_agent_at, of empty_db "()" ?d1 6]
    by (auto simp: ensure_thread_def empty_db_def)
  obtain s2 where 2: "chat_store demo_chat 7 (append_message ''t'' ''user'' ''hi'' None None False) s1 = (Inr 1, s2)" "demo_at ?d2 s2"
    using demo_chat_store [where q = "append_message ''t'' ''user'' ''hi'' None None False", OF 1(2), of 1 ?d2 7]
    by (auto simp: append_message_def empty_db_def)
  obtain s3 where 3: "store_io [20] (thread_history ''t'' 20) s2 = (Inr [?M], s3)" "demo_at ?d2 s3"
    using demo_store [where q = "thread_history ''t'' 20" and ints = "[20]", OF 2(2), of "Inr [?M]" ?d2]
    by (auto simp: thread_history_def newest_first_def sql_limit_def sql_int_ok_def empty_db_def)
  obtain c where 4: "chat_loop demo_chat 6 \<lparr>cu_conversation = [SystemMessage [], HumanMessage ''hi''], cu_guard = guard_init,
      cu_traces = [], cu_observed = []\<rparr> s3 = (Inr (\<lparr>cu_conversation = c, cu_guard = guard_init, cu_traces = [demo_trace],
        cu_observed = [(''t_list_positions'', JList (map JStr (registered s3)))]\<rparr>, Answered (show_int 7)), s3)"
    using demo_loop [of "[SystemMessage [], HumanMessage ''hi'']" 4 6 s3] by auto
  have 5: "guarded_reply guard_init (Answered (show_int 7)) = Inr (show_int 7 @ guard_banner [Fin 7], True)"
    using extract_integer [of 7] by (simp add: guarded_reply_def guard_annotate_def guard_verify_def guard_check_def guard_init_def
        ALLOWED_BARE_def feq_def Let_def)
  obtain s5 where 6: "chat_store demo_chat 8 (append_message ''t'' ''assistant'' (show_int 7 @ guard_banner [Fin 7])
      (Some [trace_json demo_trace]) (Some [(''t_list_positions'', JList (map JStr (registered s3)))]) True) s3 = (Inr 2, s5)"
    using demo_chat_store [where q = "append_message ''t'' ''assistant'' (show_int 7 @ guard_banner [Fin 7])
      (Some [trace_json demo_trace]) (Some [(''t_list_positions'', JList (map JStr (registered s3)))]) True", OF 3(2), of 2 _ 8]
    by (auto simp: append_message_def empty_db_def)
  have e: "max_loops demo_chat = 6" "st_agent_chat_history_turns (ae_settings (ch_agent demo_chat)) = 20"
    by (simp_all add: max_loops_def MAX_LOOPS_FLOOR_def demo_chat_def demo_env_def default_settings_def)
  show ?thesis
    by (simp add: run_chat_def io_bind_def 1(1) 2(1) 3(1) 4 5 6 e history_messages_def map_filter_def system_suffix_def Let_def
        io_lift_def io_return_def)
qed

theorem chat_is_read_only_witness:
  "\<exists>r s'. run_chat (demo_chat :: unit ags chat_env) ''t'' ''hi'' None (demo_agent empty_db) = (r, s') \<and>
     same_keeper (demo_agent empty_db) s' \<and> db_proposals (contents s') = []"
proof -
  obtain rep s' where r: "run_chat (demo_chat :: unit ags chat_env) ''t'' ''hi'' None (demo_agent empty_db) = (Inr rep, s')"
    using demo_runs by blast
  have "contents (demo_agent empty_db) = empty_db" by (simp add: contents_def demo_agent_def store_connect_def)
  then show ?thesis using chat_is_read_only [OF demo_chat_calm r] r by (auto simp: empty_db_def)
qed

theorem chat_reply_guarded_witness:
  "\<exists>rep s' runs out s3 s4 conversation. run_chat (demo_chat :: unit ags chat_env) ''t'' ''hi'' None (demo_agent empty_db) = (Inr rep, s') \<and>
     rl_tool_calls rep = [demo_trace] \<and> rl_guard_flagged rep \<and>
     exchange (demo_chat :: unit ags chat_env) (max_loops (demo_chat :: unit ags chat_env)) conversation s3 runs out s4 \<and>
     map (snd \<circ> snd) runs = [demo_trace] \<and> rl_facts rep = observe_runs runs [] \<and>
     (\<exists>answer. out = Answered answer \<and> annotated answer (shown_figures runs) rep) \<and>
     (\<exists>m. db_messages (contents s') = db_messages (contents s4) @ [m] \<and> recorded rep m)"
proof -
  obtain rep s' where r: "run_chat (demo_chat :: unit ags chat_env) ''t'' ''hi'' None (demo_agent empty_db) = (Inr rep, s')"
      "rl_tool_calls rep = [demo_trace]" "rl_guard_flagged rep" "\<not> rl_truncated rep"
    using demo_runs by blast
  from chat_reply_guarded [OF r(1)] obtain conversation s3 runs out s4 m where
    e: "exchange (demo_chat :: unit ags chat_env) (max_loops (demo_chat :: unit ags chat_env)) conversation s3 runs out s4"
      "rl_tool_calls rep = map (snd \<circ> snd) runs" "rl_facts rep = observe_runs runs []" "rl_truncated rep \<longleftrightarrow> out = Out_of_steps"
      "case out of Answered answer \<Rightarrow> annotated answer (shown_figures runs) rep
        | Out_of_steps \<Rightarrow> annotated TRUNCATED (shown_figures runs) rep
        | Outage report \<Rightarrow> rl_reply rep = report \<and> \<not> rl_guard_flagged rep"
      "db_messages (contents s') = db_messages (contents s4) @ [m]" "recorded rep m"
    by blast
  have "\<exists>answer. out = Answered answer \<and> annotated answer (shown_figures runs) rep"
    using e(4,5) r(3,4) by (cases out) simp_all
  then show ?thesis using r(1-3) e(1-3,6,7) by metis
qed

definition slow_chat :: "'z ags chat_env" where
  "slow_chat = demo_chat\<lparr>ch_model := (\<lambda>_. io_raise (TimeoutError []))\<rparr>"

theorem chat_timeout_escapes_witness:
  "\<exists>s' row. route_chat (slow_chat :: unit ags chat_env) ''t'' \<lparr>cq_message = ''hi'', cq_thread_id = None, cq_borrower = None\<rparr> (demo_agent empty_db) =
       (Inl (AgentTimeout (''the model did not answer within '' @ fmt_f0 (Fin 30) @ ''s'')), s') \<and>
     db_messages (contents s') = [row] \<and> cm_content row = ''hi''"
proof -
  have a: "calm_chat (slow_chat :: unit ags chat_env)"
    using demo_calm by (auto simp: calm_chat_def slow_chat_def demo_chat_def demo_env_def io_keeps_def io_raise_def same_defs)
  have b: "sql_int_ok (st_agent_chat_history_turns (ae_settings (ch_agent (slow_chat :: unit ags chat_env))))"
    by (simp add: slow_chat_def demo_chat_def demo_env_def default_settings_def sql_int_ok_def)
  have c: "\<exists>s'. ch_model (slow_chat :: unit ags chat_env) c s = (Inl (TimeoutError []), s')" for c s
    by (simp add: slow_chat_def io_raise_def)
  have d: "db_messages (contents (demo_agent empty_db)) = []" by (simp add: contents_def demo_agent_def store_connect_def empty_db_def)
  have e: "ch_timeout (slow_chat :: unit ags chat_env) = Fin 30" by (simp add: slow_chat_def demo_chat_def)
  show ?thesis
    using chat_timeout_escapes [OF a b c, of "''t''" "\<lparr>cq_message = ''hi'', cq_thread_id = None, cq_borrower = None\<rparr>" "demo_agent empty_db"]
    unfolding e d by fastforce
qed

end
