(* ===== verification/Crew_Outcome.thy ===== *)
theory Crew_Outcome
  imports Crew_Safety
begin

text \<open>
  What a run of the crew reports: the terminal state against what happened, the run without a working model, and the run for a
  position without debt.
\<close>

section \<open>The terminal state\<close>

lemma run_crew_returns:
  assumes "run_crew env b trigger s = (Inr res, s')" "cr_terminal res \<noteq> T_error"
  obtains fin t where "crew_graph env (crew_initial b trigger (ce_run_id env)) s = (Inr fin, t)"
    "cr_terminal res = default_to T_no_action (cw_terminal fin)" "cr_proposal_id res = cw_proposal_id fin"
    "cr_tuning_id res = cw_tuning_id fin" "cr_gate res = cw_gate fin" "cr_facts res = facts_dict fin"
    "cr_strategy res = strategy_value (default_to Stand_down (cw_strategy fin))" "cr_run_id res = ce_run_id env"
proof -
  obtain q t where g: "crew_graph env (crew_initial b trigger (ce_run_id env)) s = (q, t)" by fastforce
  show ?thesis
  proof (cases q)
    case (Inl e)
    then show ?thesis using assms g by (auto simp: run_crew_def split: if_splits)
  next
    case (Inr fin)
    then show ?thesis using assms g that by (auto simp: run_crew_def io_bind_Inr_iff)
  qed
qed

lemma graph_parts:
  assumes "crew_graph env (crew_initial b trigger (ce_run_id env)) s = (Inr fin, s')"
  obtains st t st' u where "front_end env b trigger s st" "crew_front env (crew_initial b trigger (ce_run_id env)) s = (Inr st, t)"
    "crew_middle env st t = (Inr st', u)" "node_auditor env st' u = (Inr fin, s')"
  using assms unfolding crew_graph_front io_bind_Inr_iff using front_writes that by blast

lemma middle_ends:
  assumes "crew_middle env st s = (Inr st', s')" "calm_crew env"
  shows "quiet_end st st' \<or> (\<exists>gate i. pd_allowed gate \<and> proposed_end st gate i st')"
  using middle_result [OF assms] by (auto simp: queued_def)

lemma strategy_value_inj: "strategy_value a = strategy_value b \<longleftrightarrow> a = b"
  by (cases a; cases b) simp_all

lemma ends_honest:
  assumes "cw_gate st = None" "cw_proposal_id st = None" "cw_tuning_id st = None" "cw_strategy st = Some y"
    "cw_registered st = Some reg" "cw_terminal st = (if reg then None else Some T_no_action)"
    "quiet_end st st' \<or> (\<exists>gate i. pd_allowed gate \<and> proposed_end st gate i st')"
  defines "T \<equiv> default_to (terminal_for st') (cw_terminal st')"
  shows "(T = T_proposed \<longleftrightarrow> cw_proposal_id st' \<noteq> None) \<and> (T = T_tuning_suggested \<longleftrightarrow> cw_tuning_id st' \<noteq> None) \<and>
    (T = T_gate_blocked \<longleftrightarrow> reg \<and> y = Protect_now \<and> cw_proposal_id st' = None) \<and>
    (\<forall>gate. cw_gate st' = Some gate \<longrightarrow> pd_allowed gate = (cw_proposal_id st' \<noteq> None)) \<and> cw_strategy st' = Some y"
proof -
  consider "\<not> reg \<or> y = Watch \<or> y = Stand_down" | "reg" "y = Protect_now" | "reg" "y = Retune" by (cases y) auto
  then show ?thesis
  proof cases
    case 1
    then have "route_strategy st = R_done" using assms(4,5) by (auto simp: route_strategy_def default_to_def)
    then have "st' = st" using assms(7) by (auto simp: quiet_end_def proposed_end_def)
    then show ?thesis using 1 assms(1-6) unfolding T_def by (auto simp: default_to_def terminal_for_def has_key_def)
  next
    case 2
    then have "route_strategy st = R_gate" using assms(4,5) by (auto simp: route_strategy_def default_to_def)
    then consider e where "st' = st\<lparr>cw_gate := None, cw_terminal := Some T_gate_blocked, cw_error := Some e\<rparr>"
      | d where "\<not> pd_allowed d" "st' = st\<lparr>cw_gate := Some d\<rparr>"
      | gate i x where "pd_allowed gate" "st' = st\<lparr>cw_gate := Some gate, cw_proposal_id := Some i,
          cw_guard_flagged := Some x, cw_terminal := Some T_proposed\<rparr>"
      using assms(7) unfolding quiet_end_def proposed_end_def by auto
    then show ?thesis by cases (use 2 assms(1-6) in \<open>auto simp: T_def default_to_def terminal_for_def has_key_def\<close>)
  next
    case 3
    then have "route_strategy st = R_tune" using assms(4,5) by (auto simp: route_strategy_def default_to_def)
    then consider i where "st' = st\<lparr>cw_tuning_id := Some i, cw_terminal := Some T_tuning_suggested\<rparr>"
      | e where "st' = st\<lparr>cw_terminal := Some T_no_action, cw_error := Some e\<rparr>"
      using assms(7) unfolding quiet_end_def proposed_end_def by auto
    then show ?thesis by cases (use 3 assms(1-6) in \<open>auto simp: T_def default_to_def terminal_for_def has_key_def\<close>)
  qed
qed

text \<open>
  C22: the terminal state of a run that did not fail says what happened: a proposal was queued exactly when it is
  \<^verbatim>\<open>proposed\<close>, a re-sign request raised exactly when it is \<^verbatim>\<open>tuning_suggested\<close>, and it is \<^verbatim>\<open>gate_blocked\<close> exactly when a
  registered borrower's strategy was to protect and nothing was queued; an approved gate is reported only with a proposal.
\<close>

theorem crew_terminal_honest:
  assumes "calm_crew env" "run_crew env b trigger s = (Inr res, s')" "cr_terminal res \<noteq> T_error"
  shows "(cr_terminal res = T_proposed \<longleftrightarrow> cr_proposal_id res \<noteq> None) \<and>
    (cr_terminal res = T_tuning_suggested \<longleftrightarrow> cr_tuning_id res \<noteq> None) \<and>
    (cr_terminal res = T_gate_blocked \<longleftrightarrow>
       params_of b s \<noteq> None \<and> cr_strategy res = ''protect_now'' \<and> cr_proposal_id res = None) \<and>
    (\<forall>gate. cr_gate res = Some gate \<longrightarrow> pd_allowed gate = (cr_proposal_id res \<noteq> None))"
proof -
  obtain fin t where g: "crew_graph env (crew_initial b trigger (ce_run_id env)) s = (Inr fin, t)"
    and r: "cr_terminal res = default_to T_no_action (cw_terminal fin)" "cr_proposal_id res = cw_proposal_id fin"
      "cr_tuning_id res = cw_tuning_id fin" "cr_gate res = cw_gate fin"
      "cr_strategy res = strategy_value (default_to Stand_down (cw_strategy fin))"
    by (rule run_crew_returns [OF assms(2,3)])
  obtain st u st' v where p: "front_end env b trigger s st" "crew_middle env st u = (Inr st', v)" "node_auditor env st' v = (Inr fin, t)"
    by (rule graph_parts [OF g])
  note fs = front_end_state [OF p(1)] and a = auditor_keeps_outcome [OF p(3)]
  obtain y where y: "cw_strategy st = Some y" using fs(6) by blast
  have pn: "strategy_value y = ''protect_now'' \<longleftrightarrow> y = Protect_now" using strategy_value_inj [of y Protect_now] by simp
  have ends: "cr_terminal res = default_to (terminal_for st') (cw_terminal st')" using r(1) a(6) by (simp add: default_to_def)
  have "cw_terminal st = (if params_of b s \<noteq> None then None else Some T_no_action)" using fs(8) by simp
  note h = ends_honest [OF fs(3-5) y fs(7) this middle_ends [OF p(2) assms(1)]]
  then have "cr_strategy res = strategy_value y" using r(5) a(4) by (simp add: default_to_def)
  then show ?thesis using h pn unfolding r(2-4) a(1-3) ends by simp
qed

section \<open>Without a model\<close>

text \<open>\<open>model_down\<close>: every call of the language model raises. The model is another process, and a failed call to it changes nothing here.\<close>

definition model_down :: "'z ags crew_env \<Rightarrow> bool" where
  "model_down env \<longleftrightarrow> (\<forall>p t s. \<exists>e. lm_prose (ce_model env) p t s = (Inl e, s)) \<and>
     (\<forall>t s. \<exists>e. lm_strategy (ce_model env) t s = (Inl e, s)) \<and> (\<forall>t s. \<exists>e. lm_tuning (ce_model env) t s = (Inl e, s))"

text \<open>
  The run that never asks: the prose is the text put together from the fact sheet, the strategy the one the sheet
  implies, and there is no tuner. What is read from the chain, judged by the gate, proposed, guarded and recorded is the same.
\<close>

definition analyst_alone :: "'z ags crew_env \<Rightarrow> CrewState \<Rightarrow> ('z ags, CrewState) io" where
  "analyst_alone env st =
     (let sheet = facts_dict st;
          narrative = ''Health factor '' @ dict_str sheet ''hf'' @ '' against a target of '' @ dict_str sheet ''hf_target'' @
            ''; state '' @ dict_str sheet ''state'' @ ''.'' in
      io_bind (record_node env st ''analyst'' [(''risk_narrative'', JStr narrative)] True None) (\<lambda>_.
      io_return (st\<lparr>cw_risk_narrative := Some narrative\<rparr>)))"

definition strategist_alone :: "'z ags crew_env \<Rightarrow> CrewState \<Rightarrow> ('z ags, CrewState) io" where
  "strategist_alone env st =
     (let choice = deterministic_strategy (cw_facts st); rationale = ''Chosen from the fact sheet without a model.'' in
      io_bind (record_node env st ''strategist'' [(''strategy'', JStr (strategy_value choice)),
        (''strategy_rationale'', JStr rationale)] True None) (\<lambda>_.
      io_return (st\<lparr>cw_strategy := Some choice, cw_strategy_rationale := Some rationale\<rparr>)))"

definition middle_alone :: "'z ags crew_env \<Rightarrow> CrewState \<Rightarrow> ('z ags, CrewState) io" where
  "middle_alone env st =
     (if cw_registered st = Some True \<and> cw_strategy st = Some Protect_now
      then io_bind (node_policy_gate env st) (\<lambda>st. if route_gate st then node_propose env st else io_return st)
      else io_return st)"

definition auditor_alone :: "'z ags crew_env \<Rightarrow> CrewState \<Rightarrow> ('z ags, CrewState) io" where
  "auditor_alone env st =
     (let terminal = default_to (terminal_for st) (cw_terminal st); a = ce_agent env in
      io_bind (guard_facts st (fallback_summary st terminal)) (\<lambda>(summary, flagged).
      io_bind (if terminal = T_gate_blocked
        then io_bind (write_audit a ''agent'' GATE_BLOCKED (Some (cw_borrower st)) None
          [(''blocking'', JList (map JStr (gate_blocking_names st))), (''run_id'', JStr (cw_run_id st))]) (\<lambda>_. io_return ())
        else io_return ()) (\<lambda>_.
      io_bind (write_audit a ''agent'' CREW_RUN (Some (cw_borrower st)) None
        [(''run_id'', JStr (cw_run_id st)), (''terminal'', JStr (terminal_value terminal)),
         (''strategy'', opt_str (map_option strategy_value (cw_strategy st)))]) (\<lambda>_.
      io_bind (record_node env st ''auditor'' [(''terminal'', JStr (terminal_value terminal))] True None) (\<lambda>_.
      io_return (st\<lparr>cw_summary := Some summary, cw_terminal := Some terminal,
        cw_guard_flagged := Some (default_to False (cw_guard_flagged st) \<or> flagged)\<rparr>))))))"

definition crew_alone :: "'z ags crew_env \<Rightarrow> CrewState \<Rightarrow> ('z ags, CrewState) io" where
  "crew_alone env st =
     io_bind (node_monitor env st) (\<lambda>st.
     io_bind (analyst_alone env st) (\<lambda>st.
     io_bind (strategist_alone env st) (\<lambda>st.
     io_bind (middle_alone env st) (auditor_alone env))))"

text \<open>\<open>crew_report\<close>: the result made of the last state of a run, or of what it raised.\<close>

definition crew_report :: "'z ags crew_env \<Rightarrow> string \<Rightarrow> CrewState res \<times> 'z ags \<Rightarrow> CrewRunResult res \<times> 'z ags" where
  "crew_report env borrower out = (case out of
       (Inl exc, s) \<Rightarrow>
          if is_agent_error exc then (Inl exc, s)
          else (Inr \<lparr>cr_run_id = ce_run_id env, cr_borrower = borrower, cr_terminal = T_error,
             cr_strategy = ''stand_down'', cr_summary = ''The crew run failed: '' @ exn_str exc, cr_facts = [],
             cr_gate = None, cr_proposal_id = None, cr_tuning_id = None, cr_guard_flagged = False, cr_trace = []\<rparr>, s)
     | (Inr final, s) \<Rightarrow>
          io_bind (store_io [] (list_decisions (ce_run_id env))) (\<lambda>trace. io_return
            \<lparr>cr_run_id = ce_run_id env, cr_borrower = borrower, cr_terminal = default_to T_no_action (cw_terminal final),
             cr_strategy = strategy_value (default_to Stand_down (cw_strategy final)),
             cr_summary = default_to [] (cw_summary final), cr_facts = facts_dict final, cr_gate = cw_gate final,
             cr_proposal_id = cw_proposal_id final, cr_tuning_id = cw_tuning_id final,
             cr_guard_flagged = default_to False (cw_guard_flagged final), cr_trace = trace\<rparr>) s)"

lemma report_run: "run_crew env b trigger s = crew_report env b (crew_graph env (crew_initial b trigger (ce_run_id env)) s)"
  by (simp add: run_crew_def crew_report_def split: prod.split sum.split)

lemma invoke_down: "(\<And>s. \<exists>e. m s = (Inl e, s)) \<Longrightarrow> \<exists>e. ainvoke_guarded t m s = (Inl e, s)"
proof -
  assume "\<And>s. \<exists>e. m s = (Inl e, s)"
  then obtain e where "m s = (Inl e, s)" by blast
  then show ?thesis by (cases e) (simp_all add: ainvoke_guarded_def io_try_def io_raise_def)
qed

lemma prose_down: "model_down env \<Longrightarrow> ask_prose env p d fallback = io_return fallback"
proof (rule ext)
  fix s
  assume "model_down env"
  then have "\<exists>e. ainvoke_guarded (ce_timeout env) (lm_prose (ce_model env) p (json_repr (JDict d))) s = (Inl e, s)"
    unfolding model_down_def by (intro invoke_down) blast
  then show "ask_prose env p d fallback s = io_return fallback s"
    by (auto simp: ask_prose_def io_try_def io_bind_def [of "ainvoke_guarded _ _"] io_return_def)
qed

lemma choose_down:
  "model_down env \<Longrightarrow>
     choose_strategy env st = io_return (deterministic_strategy (cw_facts st), ''Chosen from the fact sheet without a model.'')"
proof (rule ext)
  fix s
  assume "model_down env"
  then have "\<exists>e. ainvoke_guarded (ce_timeout env) (lm_strategy (ce_model env) t) s = (Inl e, s)" for t
    unfolding model_down_def by (intro invoke_down) blast
  then obtain e where "ainvoke_guarded (ce_timeout env) (lm_strategy (ce_model env) (json_repr (JDict
         [(''facts'', JDict (facts_dict st)), (''analysis'', JStr (default_to [] (cw_risk_narrative st)))]))) s = (Inl e, s)" by blast
  then show "choose_strategy env st s =
      io_return (deterministic_strategy (cw_facts st), ''Chosen from the fact sheet without a model.'') s"
    by (simp add: choose_strategy_def io_try_def io_bind_def [of "ainvoke_guarded _ _"] io_return_def)
qed

lemma deterministic_never_retunes: "deterministic_strategy f \<noteq> Retune"
  by (simp add: deterministic_strategy_def split: option.split)

lemma middle_without_tuner: "cw_strategy st \<noteq> Some Retune \<Longrightarrow> crew_middle env st = middle_alone env st"
  by (auto simp: crew_middle_def middle_alone_def route_strategy_def default_to_def split: option.splits)

lemma after_strategist:
  assumes "\<And>st1. cw_strategy st1 \<noteq> Some Retune \<Longrightarrow> f st1 = g st1"
  shows "io_bind (strategist_alone env st) f = io_bind (strategist_alone env st) g"
  by (rule ext) (use assms deterministic_never_retunes in
    \<open>auto simp: strategist_alone_def io_bind_def io_return_def Let_def split: prod.splits sum.splits\<close>)

text \<open>
  C23: an outage of the language model costs the run its words and nothing else: with every call of the model raising, the run is, in
  what it answers or raises and in the state it leaves, the run that never asks, which takes the fallback texts and the strategy
  implied by the fact sheet and raises no re-sign request. The outage itself makes no run fail.
\<close>

theorem crew_survives_outage:
  assumes "model_down env"
  shows "run_crew env b trigger s = crew_report env b (crew_alone env (crew_initial b trigger (ce_run_id env)) s)"
proof -
  have analyst: "node_analyst env st = analyst_alone env st" for st
    by (simp add: node_analyst_def analyst_alone_def prose_down [OF assms] Let_def)
  have strategist: "node_strategist env st = strategist_alone env st" for st
    by (simp add: node_strategist_def strategist_alone_def choose_down [OF assms] Let_def)
  have auditor: "node_auditor env = auditor_alone env"
    by (rule ext) (simp add: node_auditor_def auditor_alone_def prose_down [OF assms] Let_def)
  have "io_bind (strategist_alone env st) (\<lambda>st. io_bind (crew_middle env st) (auditor_alone env)) =
      io_bind (strategist_alone env st) (\<lambda>st. io_bind (middle_alone env st) (auditor_alone env))" for st
    by (rule after_strategist) (simp add: middle_without_tuner)
  then have "crew_graph env st = crew_alone env st" for st
    unfolding crew_graph_def crew_alone_def analyst strategist auditor by (simp only:)
  then show ?thesis by (simp add: report_run)
qed

section \<open>Without debt\<close>

definition debt_free :: "'z ags crew_env \<Rightarrow> string \<Rightarrow> bool" where
  "debt_free env b \<longleftrightarrow> (\<forall>s account s'.
     get_user_account_data (dp_node (ae_deps (ce_agent env))) b s = (Inr account, s') \<longrightarrow> ua_total_debt_base account = 0)"

lemma decline_hf: "decline hf risk n reason s = (Inr (a, p), s') \<Longrightarrow> ar_hf a = hf"
  by (auto simp: decline_def io_bind_Inr_iff)

lemma assess_without_debt:
  assumes "debt_free env (rp_borrower params)" "service_assess (ae_deps (ce_agent env)) params sg s = (Inr a, s')"
  shows "ar_hf a = PInf"
proof -
  let ?d = "ae_deps (ce_agent env)"
  obtain p t where e: "evaluate (dp_libm ?d) (dp_vault_address ?d) (dp_node ?d) params sg DEFAULT_GAS_COST_BASE s = (Inr (a, p), t)"
    using assms(2) unfolding service_assess_def assess_def by (auto simp: io_bind_Inr_iff split: prod.splits)
  from e [unfolded evaluate_def] show ?thesis
  proof (cases rule: io_bindE)
    case (ran snap s1)
    have "ua_total_debt_base (ps_account snap) = 0"
      using ran(1) assms(1) unfolding debt_free_def poll_once_def Let_def io_bind_Inr_iff by (auto; blast)
    then have "\<not> ua_has_debt (ps_account snap)" by (simp add: ua_has_debt_def)
    then show ?thesis using ran(2) by (auto simp: Let_def io_bind_Inr_iff decline_def)
  qed simp
qed

lemma infinite_sheet_raises:
  assumes "cw_facts st = Some sheet" "fs_hf sheet = PInf"
  shows "\<exists>e. guard_facts st reply s = (Inl e, s) \<and> \<not> is_agent_error e"
proof (cases "collect_numbers (JDict (sheet_dump sheet))")
  case (Inl e)
  have "\<not> is_agent_error e'" if "collect_stack js = Inl e'" for js e'
    using that by (induction js rule: collect_stack.induct)
      (auto simp: res_bind_Inl_iff float_of_int_def split: json.splits pyfloat.splits)
  then have "\<not> is_agent_error e" using Inl by (simp add: collect_numbers_def)
  then show ?thesis
    using assms(1) Inl by (simp add: guard_facts_def facts_dict_def guard_observe_def io_bind_def io_lift_def)
next
  case (Inr xs)
  then have "PInf \<in> set xs" using collect_float [of "rev (numeric_leaves sheet)" xs PInf] assms(2)
    by (simp add: collect_sheet numeric_leaves_def)
  then obtain e where "guard_annotate reply \<lparr>ng_allowed = xs\<rparr> = Inl e" "\<exists>m. e = OverflowError m \<or> e = ValueError m \<or> e = ZeroDivisionError m"
    using annotate_raises [of "\<lparr>ng_allowed = xs\<rparr>" reply] by auto
  then show ?thesis
    using assms(1) Inr by (auto simp: guard_facts_def facts_dict_def guard_observe_def guard_init_def io_bind_def io_lift_def)
qed

lemma sheet_without_debt:
  assumes "debt_free env (rp_borrower params)" "backed_sheet env b params sheet"
  shows "fs_hf sheet = PInf"
proof -
  obtain sg a snap risk stamp t t' where a: "service_assess (ae_deps (ce_agent env)) params (Some sg) t = (Inr a, t')"
    and f: "build_factsheet snap a (Some risk) (Some USDC) stamp = Inr sheet"
    using assms(2) unfolding backed_sheet_def by blast
  have "fs_hf sheet = ar_hf a" using f by (auto simp: build_factsheet_def Let_def res_bind_Inr_iff)
  then show ?thesis using assess_without_debt [OF assms(1) a] by simp
qed

text \<open>
  C38: a run for a registered borrower without debt always fails: its health factor is infinite, the guard cannot render the
  figure, and no node catches that. Whatever the model and the chain answer, the run is reported as an error, or an exception of
  the agent's own kind gets through.
\<close>

theorem crew_fails_without_debt:
  assumes "calm_crew env" "params_of b s = Some (params, sig)" "debt_free env (rp_borrower params)"
    "run_crew env b trigger s = (r, s')"
  shows "(\<exists>e. r = Inl e \<and> is_agent_error e) \<or> (\<exists>res. r = Inr res \<and> cr_terminal res = T_error \<and> cr_proposal_id res = None)"
proof -
  obtain q t where g: "crew_graph env (crew_initial b trigger (ce_run_id env)) s = (q, t)" by fastforce
  have "q \<noteq> Inr fin" for fin
  proof
    assume "q = Inr fin"
    with g have g: "crew_graph env (crew_initial b trigger (ce_run_id env)) s = (Inr fin, t)" by simp
    obtain st u st' v where p: "front_end env b trigger s st" "crew_middle env st u = (Inr st', v)" "node_auditor env st' v = (Inr fin, t)"
      by (rule graph_parts [OF g])
    obtain sheet where sheet: "cw_facts st = Some sheet" "backed_sheet env b params sheet" using front_end_sheet [OF p(1) assms(2)] by blast
    have "cw_facts st' = Some sheet" using middle_ends [OF p(2) assms(1)] sheet(1) by (auto simp: quiet_end_def proposed_end_def)
    note raises = infinite_sheet_raises [OF this sheet_without_debt [OF assms(3) sheet(2)]]
    from p(3) [unfolded node_auditor_def Let_def] show False
    proof (cases rule: io_bindE)
      case (ran x w)
      from ran(2) show ?thesis by (cases rule: io_bindE) (use raises [of x w] in auto)
    qed simp
  qed
  then obtain e where "q = Inl e" by (cases q) auto
  then show ?thesis using assms(4) g by (auto simp: run_crew_def split: if_splits)
qed

end
