(* ===== verification/Crew_Example.thy ===== *)
theory Crew_Example
  imports Crew_Outcome
begin

text \<open>
  A run of the crew on the example of the approval flow, with the language model down: it goes through every node and ends
  with a queued proposal. The steps are put together by total-correctness triples over the awaited calls.
\<close>

section \<open>Triples\<close>

definition io_runs :: "('s \<Rightarrow> bool) \<Rightarrow> ('s, 'a) io \<Rightarrow> ('a \<Rightarrow> bool) \<Rightarrow> ('s \<Rightarrow> bool) \<Rightarrow> bool" where
  "io_runs P m V Q \<longleftrightarrow> (\<forall>s. P s \<longrightarrow> (\<exists>a s'. m s = (Inr a, s') \<and> V a \<and> Q s'))"

lemma runs_bind: "io_runs P m V Q \<Longrightarrow> (\<And>a. V a \<Longrightarrow> io_runs Q (f a) W R) \<Longrightarrow> io_runs P (io_bind m f) W R"
  unfolding io_runs_def io_bind_def by fastforce

lemma runs_eq: "io_runs P m (\<lambda>x. x = v) Q \<Longrightarrow> io_runs Q (f v) W R \<Longrightarrow> io_runs P (io_bind m f) W R"
  unfolding io_runs_def io_bind_def by fastforce

lemma runs_return: "V a \<Longrightarrow> io_runs P (io_return a) V P"
  by (simp add: io_runs_def io_return_def)

lemma runs_lift: "r = Inr a \<Longrightarrow> V a \<Longrightarrow> io_runs P (io_lift r) V P"
  by (simp add: io_runs_def io_lift_def)

lemma runs_at: "(\<And>x. io_runs P (m x) V Q) \<Longrightarrow> io_runs P (\<lambda>s. m s s) V Q"
  unfolding io_runs_def by blast

lemma runs_weaken: "io_runs P m V Q \<Longrightarrow> (\<And>a. V a \<Longrightarrow> W a) \<Longrightarrow> io_runs P m W Q"
  unfolding io_runs_def by blast

lemma runs_try: "io_runs P m V Q \<Longrightarrow> io_runs P (io_try m h) V Q"
  unfolding io_runs_def io_try_def by fastforce

section \<open>The example's world\<close>

definition holds_rows :: "ProposalRow list \<Rightarrow> agent_db \<Rightarrow> bool" where
  "holds_rows rows db \<longleftrightarrow> db_proposals db = rows \<and> db_proposal_seq db = int (length rows)"

definition idle_at :: "ProposalRow list \<Rightarrow> 'z ags \<Rightarrow> bool" where
  "idle_at rows s \<longleftrightarrow> (\<exists>db. demo_at db s \<and> holds_rows rows db)"

definition outage :: "'s crew_model" where
  "outage = \<lparr>lm_prose = (\<lambda>_ _. io_raise (OSError ''down'')), lm_strategy = (\<lambda>_. io_raise (OSError ''down'')),
     lm_tuning = (\<lambda>_. io_raise (OSError ''down''))\<rparr>"

definition demo_crew :: "'z ags crew_env" where
  "demo_crew = \<lparr>ce_agent = demo_env, ce_model = outage, ce_timeout = Fin 30, ce_run_id = ''run'', ce_stamp = (\<lambda>_. ''now''),
     ce_latency = (\<lambda>_ _. 0), ce_as_int = (\<lambda>_. None)\<rparr>"

lemma demo_crew_sel [simp]: "ce_agent demo_crew = demo_env" "ce_model demo_crew = outage" "ce_run_id demo_crew = ''run''"
    "ce_stamp demo_crew s = ''now''" "ce_latency demo_crew n s = 0"
  by (simp_all add: demo_crew_def)

lemma demo_crew_down: "model_down demo_crew"
  by (simp add: model_down_def outage_def io_raise_def)

lemma demo_crew_calm: "calm_crew demo_crew"
  using demo_calm by (auto simp: calm_crew_def outage_def io_keeps_def same_defs)

lemma runs_store:
  assumes "\<And>db. holds_rows rows db \<Longrightarrow> \<exists>a db'. q db = (Inr a, db') \<and> V a \<and> holds_rows rows' db'"
    "\<forall>n\<in>set ints. sql_int_ok n"
  shows "io_runs (idle_at rows) (store_io ints q) V (idle_at rows')"
  unfolding io_runs_def idle_at_def
proof (intro allI impI, elim exE conjE)
  fix s db assume db: "demo_at db s" "holds_rows rows db"
  obtain a db' where q: "q db = (Inr a, db')" "V a" "holds_rows rows' db'" using assms(1) [OF db(2)] by blast
  then show "\<exists>a s'. store_io ints q s = (Inr a, s') \<and> V a \<and> (\<exists>db. demo_at db s' \<and> holds_rows rows' db)"
    using demo_store [where q = q and ints = ints, OF db(1) q(1) assms(2)] by blast
qed

lemma sql_small: "sql_int_ok 0" "sql_int_ok 1"
  by (simp_all add: sql_int_ok_def)

lemma runs_record: "io_runs (idle_at rows) (record_node demo_crew st node out llm err) (\<lambda>_. True) (idle_at rows)"
  unfolding record_node_def Let_def demo_crew_sel
  by (intro runs_try, rule runs_at [where m = "\<lambda>s. io_bind (store_io [0] (insert_decision (cw_run_id st) (cw_borrower st) node out (Some 0) llm err
      (ae_time demo_env 5 s))) (\<lambda>_. io_return ())"], rule runs_bind [OF runs_store [where V = "\<lambda>_. True"] runs_return])
    (auto simp: insert_decision_def Let_def sql_small holds_rows_def)

lemma runs_audit: "sql_int_ok (case i of None \<Rightarrow> 0 | Some n \<Rightarrow> n) \<Longrightarrow>
    io_runs (idle_at rows) (write_audit demo_env who act b i det) (\<lambda>_. True) (idle_at rows)"
  unfolding write_audit_def
  by (rule runs_at [where m = "\<lambda>s. store_io (case i of None \<Rightarrow> [] | Some n \<Rightarrow> [n]) (audit_write who act b i det (ae_time demo_env 3 s))"],
      rule runs_store) (auto simp: audit_write_def Let_def holds_rows_def split: option.splits)

lemma runs_prose: "io_runs P (ask_prose demo_crew p d f) (\<lambda>t. t = f) P"
  by (simp add: io_runs_def ask_prose_def ainvoke_guarded_def outage_def io_try_def io_bind_def io_raise_def io_return_def)

lemma runs_count: "io_runs (idle_at []) (store_io [] (count_recent_proposals t q)) (\<lambda>n. n = 0) (idle_at [])"
  by (rule runs_store) (auto simp: count_recent_proposals_def holds_rows_def)

section \<open>Reading the position\<close>

lemma runs_sigma: "io_runs (idle_at rows) (tools_sigma_for demo_params) (\<lambda>x. x = Fin 0) (idle_at rows)"
  unfolding io_runs_def idle_at_def
proof (intro allI impI, elim exE conjE)
  fix s :: "'a ags" and db assume s: "demo_at db s" "holds_rows rows db"
  let ?v = "s\<lparr>sv_vols := [(''WETH'', \<lparr>rv_window = 30, rv_prices = []\<rparr>)]\<rparr>"
  have "demo_at db ?v" using s by (simp add: demo_at_def at_rest_def ready_def)
  moreover have "tools_sigma_for demo_params s = (Inr (Fin 0), ?v)"
    using rest_sigma [of s] s by (simp add: tools_sigma_for_def demo_params_def demo_at_def)
  ultimately show "\<exists>a s'. tools_sigma_for demo_params s = (Inr a, s') \<and> a = Fin 0 \<and> (\<exists>db. demo_at db s' \<and> holds_rows rows db)"
    using s(2) by blast
qed

lemma runs_assess: "io_runs (idle_at rows) (service_assess demo_deps demo_params (Some (Fin 0))) (\<lambda>a. a = demo_response) (idle_at rows)"
  unfolding io_runs_def
proof (intro allI impI)
  fix s :: "'a ags" assume "idle_at rows s"
  then have rd: "ready s" by (auto simp: idle_at_def demo_at_def at_rest_def)
  have "service_assess demo_deps demo_params (Some (Fin 0)) s = (Inr demo_response, s)"
    unfolding service_assess_def assess_def demo_deps_sel DEFAULT_GAS_COST_BASE_def
    by (simp add: io_bind_def io_return_def demo_evaluate [OF rd order_refl])
  then show "\<exists>a s'. service_assess demo_deps demo_params (Some (Fin 0)) s = (Inr a, s') \<and> a = demo_response \<and> idle_at rows s'"
    using \<open>idle_at rows s\<close> by blast
qed

lemma runs_snapshot: "io_runs (idle_at rows) (snapshot demo_deps ''alice'' 10500) (\<lambda>x. x = demo_snapshot) (idle_at rows)"
  unfolding io_runs_def idle_at_def
proof (intro allI impI, elim exE conjE)
  fix s :: "'a ags" and db assume s: "demo_at db s" "holds_rows rows db"
  then have rd: "ready s" by (simp add: demo_at_def at_rest_def)
  let ?t = "set_state ''alice'' ASSESSING s"
  have "snapshot demo_deps ''alice'' 10500 s = (Inr demo_snapshot, ?t)"
    using s(1) unfolding snapshot_def demo_deps_sel
    by (simp add: io_bind_def demo_poll [OF rd] snapshot_done_def is_locked_def demo_at_def at_rest_def) (simp add: demo_snapshot_def)
  moreover have "demo_at db ?t" using s(1) by (simp add: demo_at_def at_rest_def ready_def set_state_def)
  ultimately show "\<exists>a s'. snapshot demo_deps ''alice'' 10500 s = (Inr a, s') \<and> a = demo_snapshot \<and> (\<exists>db. demo_at db s' \<and> holds_rows rows db)"
    using s(2) by blast
qed

lemma runs_price: "io_runs (idle_at rows) (crew_debt_price demo_crew a) (\<lambda>p. p = 100000000) (idle_at rows)"
  unfolding io_runs_def idle_at_def
proof (intro allI impI, elim exE conjE)
  fix s :: "'a ags" and db assume s: "demo_at db s" "holds_rows rows db"
  have "crew_debt_price demo_crew a s = debt_price_base demo_env a s" by (simp add: crew_debt_price_def debt_price_base_def)
  then show "\<exists>p s'. crew_debt_price demo_crew a s = (Inr p, s') \<and> p = 100000000 \<and> (\<exists>db. demo_at db s' \<and> holds_rows rows db)"
    using demo_price [OF s(1), of a] s(2) by auto
qed

definition demo_risk_signal :: RiskSignal where
  "demo_risk_signal = \<lparr>rs_sigma = Fin 0, rs_breach_probability = Fin 1, rs_hf_target_bps = 12500\<rparr>"

lemma runs_risk: "io_runs (idle_at rows) (risk_signal demo_deps demo_params (ps_hf demo_snapshot)) (\<lambda>x. x = demo_risk_signal) (idle_at rows)"
proof -
  have "breach_probability lm (Fin 1) (Fin 0) 1 = Inr (Fin 1)" for lm by (simp add: breach_probability_def feq_def)
  then have "assess_risk lm (ps_hf demo_snapshot) (Fin 0) (rp_hf_target_base_bps demo_params) (rp_hf_target_max_bps demo_params)
      (rp_vol_coeff_k demo_params) 1 = Inr demo_risk_signal" for lm
    by (simp add: demo_snapshot_def demo_params_def demo_risk demo_risk_signal_def)
  then show ?thesis unfolding risk_signal_def by (intro runs_bind [OF runs_sigma] runs_lift) auto
qed

section \<open>The fact sheet\<close>

definition good_sheet :: "FactSheet \<Rightarrow> bool" where
  "good_sheet f \<longleftrightarrow> fs_viable f \<and> fs_hf_bps f = 10000 \<and> fs_hf_trigger_bps f = 10500 \<and>
     (\<exists>xs. collect_numbers (JDict (sheet_dump f)) = Inr xs \<and> (\<forall>x\<in>set xs. sane_figure x))"

lemma float_of_small: "\<bar>n\<bar> \<le> 2 ^ 53 \<Longrightarrow> float_of_int n = Inr (Fin (of_int n))"
  using to_float_dyadic [of "of_int n" n 0] by (simp add: float_of_int_def)

lemma demo_human: "\<exists>h. human_amount 2159568087 USDC = Inr h"
proof -
  have "\<bar>2159568087 / 1000000 :: rat\<bar> \<le> 2 ^ 1023"
  proof -
    have "(2159568087 / 1000000 :: rat) \<le> 2 ^ 12" by simp
    also have "(2::rat) ^ 12 \<le> 2 ^ 1023" by (rule power_increasing) auto
    finally show ?thesis by simp
  qed
  then have "to_float (2159568087 / 1000000) = Fin (rnd (2159568087 / 1000000))" by (rule to_float_finite)
  then show ?thesis by (simp add: human_amount_def TOKEN_DECIMALS_def WETH_def USDC_def USDC_e_def wstETH_def int_truediv_def)
qed

lemma demo_usd: "to_float 8000 = Fin 8000" "to_float 6000 = Fin 6000"
  using to_float_dyadic [of 8000 8000 0] to_float_dyadic [of 6000 6000 0] by simp_all

lemma demo_sheet:
  "\<exists>f. build_factsheet demo_snapshot demo_response (Some demo_risk_signal) (Some USDC) ''now'' = Inr f \<and> good_sheet f"
proof -
  obtain h where h: "human_amount 2159568087 USDC = Inr h" using demo_human by blast
  have sane: "sane_figure (Fin (of_int n))" if "\<bar>n\<bar> \<le> 2 ^ 53" for n
  proof -
    have "\<bar>of_int n :: rat\<bar> \<le> 2 ^ 53" using that by (metis of_int_abs of_int_le_numeral_power_cancel_iff)
    also have "(2::rat) ^ 53 \<le> 2 ^ 512" by (rule power_increasing) auto
    finally show ?thesis by (simp add: sane_figure_def)
  qed
  have five: "sane_figure (Fin (5 / 4))"
  proof -
    have "(5 / 4 :: rat) \<le> 2 ^ 1" by simp
    also have "(2::rat) ^ 1 \<le> 2 ^ 512" by (rule power_increasing) auto
    finally show ?thesis unfolding sane_figure_def by (intro exI [of _ "5 / 4"]) simp
  qed
  let ?f = "\<lparr>fs_borrower = ''alice'', fs_as_of = ''now'', fs_hf = Fin 1, fs_hf_bps = 10000, fs_hf_target = Fin (5 / 4),
     fs_hf_target_bps = 12500, fs_hf_trigger_bps = 10500, fs_state = ''ASSESSING'', fs_collateral_usd = Fin 8000,
     fs_debt_usd = Fin 6000, fs_liquidation_threshold_bps = 8250, fs_repay_amount = 2159568087, fs_repay_amount_human = h,
     fs_collateral_asset = ''WETH'', fs_collateral_symbol = symbol_for ''WETH'', fs_est_cost_bps = 27, fs_viable = True,
     fs_reason = None, fs_sigma = Fin 0, fs_breach_probability = Fin 1, fs_sources = SOURCES\<rparr>"
  have b: "build_factsheet demo_snapshot demo_response (Some demo_risk_signal) (Some USDC) ''now'' = Inr ?f"
    by (simp add: build_factsheet_def Let_def demo_snapshot_def demo_response_def demo_risk_signal_def h int_truediv_def
        AAVE_BASE_CURRENCY_DECIMALS_def demo_usd)
  let ?xs = "[Fin 1, Fin 0, Fin 27, Fin 2159568087, Fin 8250, Fin 6000, Fin 8000, Fin 10500, Fin 12500, Fin (5 / 4), Fin 10000, Fin 1]"
  have "collect_numbers (JDict (sheet_dump ?f)) = Inr ?xs"
    by (simp add: collect_sheet numeric_leaves_def float_of_small)
  moreover have "\<forall>x\<in>set ?xs. sane_figure x"
    using sane [of 1] sane [of 0] sane [of 27] sane [of 2159568087] sane [of 8250] sane [of 6000] sane [of 8000]
      sane [of 10500] sane [of 12500] sane [of 10000] five by simp
  ultimately have "\<exists>xs. collect_numbers (JDict (sheet_dump ?f)) = Inr xs \<and> (\<forall>x\<in>set xs. sane_figure x)" by blast
  then have "good_sheet ?f" unfolding good_sheet_def by (intro conjI; (assumption | simp))
  then show ?thesis using b by blast
qed

lemma guard_good:
  assumes "cw_facts st = Some f" "good_sheet f"
  shows "io_runs P (guard_facts st t) (\<lambda>_. True) P"
proof -
  obtain xs where xs: "collect_numbers (JDict (sheet_dump f)) = Inr xs" "\<forall>x\<in>set xs. sane_figure x"
    using assms(2) by (auto simp: good_sheet_def)
  obtain rs where "all_renderings xs = Inr rs" using all_renderings_answer [OF xs(2)] by blast
  then obtain ok un where c: "guard_check t xs = Inr (ok, un)" by (auto simp: guard_check_def Let_def)
  have "guard_annotate t \<lparr>ng_allowed = xs\<rparr> = Inr (if ok then (t, False, []) else (t @ guard_banner un, True, un))"
    by (simp add: guard_annotate_def guard_verify_def c)
  then show ?thesis
    unfolding io_runs_def guard_facts_def facts_dict_def assms(1)
    by (auto simp: guard_observe_def guard_init_def xs(1) io_bind_def io_lift_def io_return_def split: prod.split)
qed

section \<open>Node by node\<close>

definition good_start :: "CrewState \<Rightarrow> bool" where
  "good_start st \<longleftrightarrow> cw_borrower st = ''alice'' \<and> cw_run_id st = ''run'' \<and> cw_registered st = Some True \<and> cw_terminal st = None \<and>
     cw_debt_price_base st = Some 100000000 \<and> cw_debt_decimals st = Some 6 \<and> (\<exists>f. cw_facts st = Some f \<and> good_sheet f)"

lemma runs_registered:
  assumes "io_runs (idle_at rows) (f demo_params ''0x00'') V Q"
  shows "io_runs (idle_at rows) (\<lambda>s. case params_of ''alice'' s of None \<Rightarrow> m s | Some x \<Rightarrow> (case x of (p, q) \<Rightarrow> f p q s)) V Q"
  unfolding io_runs_def
proof (intro allI impI)
  fix s :: "'a ags" assume s: "idle_at rows s"
  then have "params_of ''alice'' s = Some (demo_params, ''0x00'')" by (auto simp: idle_at_def demo_at_def params_of_def)
  then show "\<exists>a s'. (case params_of ''alice'' s of None \<Rightarrow> m s | Some x \<Rightarrow> (case x of (p, q) \<Rightarrow> f p q s)) = (Inr a, s') \<and> V a \<and> Q s'"
    using assms s unfolding io_runs_def by simp
qed

lemma demo_trigger: "rp_hf_trigger_bps demo_params = 10500"
  by (simp add: demo_params_def)

lemma runs_monitor:
  "io_runs (idle_at []) (node_monitor demo_crew (crew_initial ''alice'' trigger ''run'')) good_start (idle_at [])"
proof -
  obtain f where f: "build_factsheet demo_snapshot demo_response (Some demo_risk_signal) (Some USDC) ''now'' = Inr f" "good_sheet f"
    using demo_sheet by blast
  have sheet: "io_runs P (\<lambda>s. (build_factsheet demo_snapshot demo_response (Some demo_risk_signal) (Some USDC) ''now'', s)) (\<lambda>x. x = f) P"
    for P :: "'a ags \<Rightarrow> bool"
    by (simp add: io_runs_def f(1))
  have dat: "io_runs P (io_lift (Inr (USDC, 6))) (\<lambda>x. x = (USDC, 6)) P" for P :: "'a ags \<Rightarrow> bool"
    by (rule runs_lift) auto
  have b: "cw_borrower (crew_initial ''alice'' trigger ''run'') = ''alice''" by (simp add: crew_initial_def)
  show ?thesis unfolding node_monitor_def Let_def demo_crew_sel demo_env_sel b
    by (rule runs_registered, unfold demo_trigger demo_facts,
        rule runs_eq [OF runs_sigma], rule runs_eq [OF runs_assess], rule runs_eq [OF runs_snapshot], rule runs_eq [OF runs_risk],
        rule runs_eq [OF dat], unfold prod.case, rule runs_eq [OF sheet], rule runs_eq [OF runs_price], rule runs_bind [OF runs_record],
        rule runs_return) (simp add: good_start_def crew_initial_def f(2))
qed

lemma runs_analyst:
  "good_start st \<Longrightarrow> io_runs (idle_at []) (node_analyst demo_crew st) good_start (idle_at [])"
  unfolding node_analyst_def Let_def
  by (rule runs_bind [OF runs_prose], rule runs_bind [OF runs_record], rule runs_return) (simp add: good_start_def)

lemma runs_strategist:
  assumes "good_start st"
  shows "io_runs (idle_at []) (node_strategist demo_crew st) (\<lambda>st. good_start st \<and> cw_strategy st = Some Protect_now) (idle_at [])"
proof -
  have "deterministic_strategy (cw_facts st) = Protect_now"
    using assms by (auto simp: good_start_def good_sheet_def deterministic_strategy_def)
  then have "io_runs P (choose_strategy demo_crew st) (\<lambda>x. fst x = Protect_now) P" for P :: "'a ags \<Rightarrow> bool"
    by (simp add: io_runs_def choose_strategy_def ainvoke_guarded_def outage_def io_try_def io_bind_def io_raise_def io_return_def)
  then show ?thesis unfolding node_strategist_def
    by (rule runs_bind) (use assms in \<open>auto simp: good_start_def intro!: runs_bind [OF runs_record] runs_return\<close>)
qed

lemma runs_gate:
  assumes "good_start st"
  shows "io_runs (idle_at []) (node_policy_gate demo_crew st)
    (\<lambda>st'. \<exists>d. st' = st\<lparr>cw_gate := Some d\<rparr> \<and> pd_allowed d) (idle_at [])"
proof -
  have st: "cw_borrower st = ''alice''" "default_to 0 (cw_debt_price_base st) = 100000000" "default_to 6 (cw_debt_decimals st) = 6"
    using assms by (simp_all add: good_start_def default_to_def)
  let ?g = "\<lambda>m. \<lparr>gi_params = Some demo_params, gi_assessment = demo_response, gi_snapshot = demo_snapshot,
              gi_metrics = m, gi_limits = default_limits, gi_now = Fin 500, gi_debt_price_base = 100000000,
              gi_debt_decimals = 6, gi_recent_borrower = 0, gi_recent_global = 0\<rparr>"
  have gate: "io_runs (idle_at []) (\<lambda>s. io_bind (io_lift (Inr default_limits)) (\<lambda>limits. io_bind (store_io [] (count_recent_proposals since (Some ''alice''))) (\<lambda>x.
      io_bind (store_io [] (count_recent_proposals since None)) (\<lambda>y. io_lift (gate_evaluate
        \<lparr>gi_params = Some demo_params, gi_assessment = demo_response, gi_snapshot = demo_snapshot,
              gi_metrics = metrics s, gi_limits = limits, gi_now = Fin 500, gi_debt_price_base = 100000000,
              gi_debt_decimals = 6, gi_recent_borrower = x, gi_recent_global = y\<rparr>)))) s) pd_allowed (idle_at [])" for since
    unfolding io_runs_def
  proof (intro allI impI)
    fix s assume s: "idle_at [] s"
    have free: "\<not> ms_breaker_paused (metrics s)" "''alice'' \<notin> set (ms_in_flight_borrowers (metrics s))"
      using s by (auto simp: idle_at_def metrics_def demo_at_def at_rest_def allow_def locked_borrowers_def)
    obtain d where d: "gate_evaluate (?g (metrics s)) = Inr d" "pd_allowed d"
      using demo_gate_opens [OF free, of 0 "Fin 500" 0] by auto
    obtain s1 where s1: "store_io [] (count_recent_proposals since (Some ''alice'')) s = (Inr 0, s1)" "idle_at [] s1"
      using runs_count [of since "Some ''alice''"] s unfolding io_runs_def by blast
    obtain s2 where s2: "store_io [] (count_recent_proposals since None) s1 = (Inr 0, s2)" "idle_at [] s2"
      using runs_count [of since None] s1(2) unfolding io_runs_def by blast
    show "\<exists>a s'. io_bind (io_lift (Inr default_limits)) (\<lambda>limits. io_bind (store_io [] (count_recent_proposals since (Some ''alice''))) (\<lambda>x.
      io_bind (store_io [] (count_recent_proposals since None)) (\<lambda>y. io_lift (gate_evaluate
        \<lparr>gi_params = Some demo_params, gi_assessment = demo_response, gi_snapshot = demo_snapshot,
              gi_metrics = metrics s, gi_limits = limits, gi_now = Fin 500, gi_debt_price_base = 100000000,
              gi_debt_decimals = 6, gi_recent_borrower = x, gi_recent_global = y\<rparr>)))) s = (Inr a, s') \<and> pd_allowed a \<and> idle_at [] s'"
      using d s2(2) by (simp add: io_bind_def s1(1) s2(1) io_lift_def)
  qed
  show ?thesis unfolding node_policy_gate_def Let_def demo_crew_sel demo_env_sel st demo_limits
    by (rule runs_registered, unfold demo_trigger demo_times,
        rule runs_eq [OF runs_sigma], rule runs_eq [OF runs_assess], rule runs_eq [OF runs_snapshot], rule runs_bind [OF gate],
        rule runs_bind [OF runs_record], rule runs_return) blast
qed

lemma runs_insert:
  "io_runs (idle_at []) (store_io [] (insert_proposal a b ''protect_now'' c gate rat 900 flag now))
    (\<lambda>i. i = 1) (\<lambda>s. \<exists>row. idle_at [row] s)"
  unfolding io_runs_def idle_at_def
proof (intro allI impI, elim exE conjE)
  fix s db assume s: "demo_at db s" "holds_rows [] db"
  let ?row = "\<lparr>pw_id = 1, pw_run_id = a, pw_borrower = b, pw_created_at = now,
                pw_expires_at = fadd now (Fin 900), pw_status = PENDING, pw_strategy = ''protect_now'', pw_facts = c,
                pw_gate = gate, pw_rationale = rat, pw_guard_flagged = flag, pw_decided_at = None, pw_decided_by = None,
                pw_decision_note = None, pw_tx_hash = None, pw_result = None\<rparr>"
  have "insert_proposal a b ''protect_now'' c gate rat 900 flag now db = (Inr 1, db\<lparr>db_proposals := [?row], db_proposal_seq := 1\<rparr>)"
    using s(2) float_of_small [of 900] by (simp add: insert_proposal_def holds_rows_def)
  from demo_store [where ints = "[]" and q = "insert_proposal a b ''protect_now'' c gate rat 900 flag now", OF s(1) this]
  show "\<exists>i s'. store_io [] (insert_proposal a b ''protect_now'' c gate rat 900 flag now) s = (Inr i, s') \<and> i = 1 \<and>
      (\<exists>row. \<exists>db. demo_at db s' \<and> holds_rows [row] db)"
    by (fastforce simp: holds_rows_def)
qed

lemma runs_some: "(\<And>row. io_runs (idle_at [row]) m V (idle_at [row])) \<Longrightarrow> io_runs (\<lambda>s. \<exists>row. idle_at [row] s) m V (\<lambda>s. \<exists>row. idle_at [row] s)"
  unfolding io_runs_def by blast

lemma runs_propose:
  assumes "good_start st" "cw_gate st = Some d" "pd_allowed d" "cw_strategy st = Some Protect_now"
  shows "io_runs (idle_at []) (node_propose demo_crew st)
    (\<lambda>st'. \<exists>f. cw_facts st' = Some f \<and> good_sheet f \<and> cw_terminal st' = Some T_proposed \<and> cw_strategy st' = Some Protect_now) (\<lambda>s. \<exists>row. idle_at [row] s)"
proof -
  obtain f where f: "cw_facts st = Some f" "good_sheet f" using assms(1) by (auto simp: good_start_def)
  have lim: "io_runs P (io_lift (Inr default_limits)) (\<lambda>x. x = default_limits) P" for P :: "'a ags \<Rightarrow> bool"
    by (rule runs_lift) auto
  have ins: "io_runs (idle_at []) (\<lambda>s. t_propose_protection (cw_run_id st) (cw_borrower st) (facts_dict st) rat d
            (pm_proposal_ttl_seconds default_limits) flag (Fin 500) s) (\<lambda>i. i = 1) (\<lambda>s. \<exists>row. idle_at [row] s)" for rat flag
    using assms(3) by (simp add: t_propose_protection_def runs_insert default_limits_def)
  show ?thesis unfolding node_propose_def assms(2) option.case demo_crew_sel demo_env_sel demo_limits
    by (rule runs_bind [OF guard_good [OF f]], simp only: split_paired_all prod.case,
        rule runs_eq [OF lim], rule runs_eq [OF ins], rule runs_bind [OF runs_some [OF runs_audit]], simp add: sql_small,
        rule runs_bind [OF runs_some [OF runs_record]], rule runs_return) (simp add: f assms(4))
qed

lemma runs_auditor:
  assumes "cw_facts st = Some f" "good_sheet f" "cw_terminal st = Some T_proposed" "cw_strategy st = Some Protect_now"
  shows "io_runs (\<lambda>s. \<exists>row. idle_at [row] s) (node_auditor demo_crew st)
    (\<lambda>st'. cw_terminal st' = Some T_proposed \<and> cw_strategy st' = Some Protect_now)
    (\<lambda>s. \<exists>row. idle_at [row] s)"
proof -
  have t: "default_to (terminal_for st) (cw_terminal st) = T_proposed" by (simp add: default_to_def assms(3))
  have q: "io_runs P (if T_proposed = T_gate_blocked then m else io_return ()) (\<lambda>_. True) P" for P :: "'a ags \<Rightarrow> bool" and m
    by (simp add: runs_return)
  show ?thesis unfolding node_auditor_def Let_def t demo_crew_sel
    by (rule runs_bind [OF runs_prose], rule runs_bind [OF guard_good [OF assms(1,2)]], simp only: split_paired_all prod.case,
        rule runs_bind [OF q], rule runs_bind [OF runs_some [OF runs_audit]], simp add: sql_small,
        rule runs_bind [OF runs_some [OF runs_record]], rule runs_return) (simp add: assms(4))
qed

lemma runs_middle:
  assumes "good_start st" "cw_strategy st = Some Protect_now"
  shows "io_runs (idle_at []) (crew_middle demo_crew st)
    (\<lambda>st'. \<exists>f. cw_facts st' = Some f \<and> good_sheet f \<and> cw_terminal st' = Some T_proposed \<and> cw_strategy st' = Some Protect_now) (\<lambda>s. \<exists>row. idle_at [row] s)"
proof -
  have r: "route_strategy st = R_gate" using assms by (simp add: route_strategy_def good_start_def default_to_def)
  show ?thesis unfolding crew_middle_def r crew_route.case
    by (rule runs_bind [OF runs_gate [OF assms(1)]], elim exE conjE, simp only:)
      (use assms in \<open>auto simp: route_gate_def good_start_def intro!: runs_propose\<close>)
qed

lemma runs_crew:
  assumes "idle_at [] s"
  shows "\<exists>res s'. run_crew demo_crew ''alice'' trigger s = (Inr res, s') \<and> cr_terminal res = T_proposed \<and>
    cr_strategy res = ''protect_now'' \<and> (\<exists>row. idle_at [row] s')"
proof -
  have "io_runs (idle_at []) (crew_graph demo_crew (crew_initial ''alice'' trigger ''run''))
     (\<lambda>st'. cw_terminal st' = Some T_proposed \<and> cw_strategy st' = Some Protect_now) (\<lambda>s. \<exists>row. idle_at [row] s)"
    unfolding crew_graph_def
    by (rule runs_bind [OF runs_monitor], rule runs_bind [OF runs_analyst], assumption, rule runs_bind [OF runs_strategist], assumption,
        rule runs_bind [OF runs_middle]) (auto intro: runs_auditor)
  then obtain fin t where g: "crew_graph demo_crew (crew_initial ''alice'' trigger ''run'') s = (Inr fin, t)"
    "cw_terminal fin = Some T_proposed \<and> cw_strategy fin = Some Protect_now" "\<exists>row. idle_at [row] t" using assms unfolding io_runs_def by blast
  obtain row where row: "idle_at [row] t" using g(3) by blast
  have "io_runs (idle_at [row]) (store_io [] (list_decisions ''run'')) (\<lambda>_. True) (idle_at [row])"
    by (rule runs_store) (auto simp: list_decisions_def)
  then obtain tr u where "store_io [] (list_decisions ''run'') t = (Inr tr, u)" "idle_at [row] u" using row unfolding io_runs_def by blast
  then show ?thesis using g by (auto simp: run_crew_def io_bind_def io_return_def default_to_def)
qed

section \<open>The properties on the example\<close>

definition demo_idle :: "unit agent_state_scheme" where
  "demo_idle = demo_agent empty_db"

lemma demo_idle_at: "idle_at [] demo_idle"
  using demo_agent_at [of empty_db] by (auto simp: demo_idle_def idle_at_def holds_rows_def empty_db_def)

lemma idle_contents: "idle_at rows s \<Longrightarrow> db_proposals (contents s) = rows"
  by (auto simp: idle_at_def holds_rows_def dest: demo_rows)

theorem crew_proposes_only_allowed_witness:
  "\<exists>res s' row. run_crew demo_crew ''alice'' ''manual'' demo_idle = (Inr res, s') \<and> db_proposals (contents s') = [row] \<and>
     same_keeper demo_idle s' \<and> pw_status row = PENDING \<and> pw_borrower row = ''alice'' \<and> pd_allowed (pw_gate row) \<and>
     backed_gate (demo_crew :: unit ags crew_env) ''alice'' demo_params (pw_gate row)"
proof -
  obtain res s' row where r: "run_crew demo_crew ''alice'' ''manual'' demo_idle = (Inr res, s')" "idle_at [row] s'"
    using runs_crew [OF demo_idle_at] by blast
  have p: "params_of ''alice'' demo_idle = Some (demo_params, ''0x00'')"
    by (simp add: params_of_def demo_idle_def demo_agent_def)
  show ?thesis
    using crew_proposes_only_allowed [OF demo_crew_calm r(1)] r(1) p
    by (auto simp: idle_contents [OF r(2)] idle_contents [OF demo_idle_at])
qed

theorem crew_terminal_honest_witness:
  "\<exists>res s'. run_crew demo_crew ''alice'' ''manual'' demo_idle = (Inr res, s') \<and> cr_terminal res = T_proposed \<and>
     cr_proposal_id res \<noteq> None \<and> cr_tuning_id res = None"
proof -
  obtain res s' where r: "run_crew demo_crew ''alice'' ''manual'' demo_idle = (Inr res, s')" "cr_terminal res = T_proposed"
    using runs_crew [OF demo_idle_at] by blast
  then have "cr_terminal res \<noteq> T_error" by simp
  from crew_terminal_honest [OF demo_crew_calm r(1) this] show ?thesis using r by auto
qed

theorem crew_survives_outage_witness:
  "\<exists>res s' row. run_crew demo_crew ''alice'' ''manual'' demo_idle = (Inr res, s') \<and>
     crew_report (demo_crew :: unit ags crew_env) ''alice'' (crew_alone demo_crew (crew_initial ''alice'' ''manual'' ''run'') demo_idle) = (Inr res, s') \<and>
     cr_terminal res = T_proposed \<and> cr_strategy res = ''protect_now'' \<and> db_proposals (contents s') = [row]"
proof -
  obtain res s' row where r: "run_crew demo_crew ''alice'' ''manual'' demo_idle = (Inr res, s')" "cr_terminal res = T_proposed"
      "cr_strategy res = ''protect_now''" "idle_at [row] s'"
    using runs_crew [OF demo_idle_at] by blast
  have "run_crew demo_crew ''alice'' ''manual'' demo_idle =
      crew_report (demo_crew :: unit ags crew_env) ''alice'' (crew_alone demo_crew (crew_initial ''alice'' ''manual'' ''run'') demo_idle)"
    using crew_survives_outage [OF demo_crew_down, of "''alice''" "''manual''" demo_idle] by simp
  then show ?thesis using r idle_contents [OF r(4)] by metis
qed

definition solvent_crew :: "'z ags crew_env" where
  "solvent_crew = demo_crew\<lparr>ce_agent := demo_env\<lparr>ae_deps := demo_deps\<lparr>dp_node :=
     const_node (800000000000, 0, 0, 8250, 8000, 2 ^ 256 - 1) 0 100000000 2165000000 0\<rparr>\<rparr>\<rparr>"

lemma solvent_calm: "calm_crew solvent_crew"
  by (auto simp: calm_crew_def solvent_crew_def demo_crew_def outage_def calm_deps_def node_keeps_def vault_keeps_def demo_deps_def
      const_node_def quiet_vault_def io_return_def [abs_def] io_raise_def [abs_def] keeps_agent split: option.split)
    (auto simp: io_keeps_def same_defs)

lemma solvent_debt_free: "debt_free solvent_crew b"
  unfolding debt_free_def get_user_account_data_def io_bind_Inr_iff
  by (auto simp: solvent_crew_def const_node_def io_return_def io_bind_Inr_iff dest!: client_call_Inr split: prod.splits)

theorem crew_fails_without_debt_witness:
  "(\<exists>e s'. run_crew solvent_crew ''alice'' ''manual'' demo_idle = (Inl e, s') \<and> is_agent_error e) \<or>
   (\<exists>res s'. run_crew solvent_crew ''alice'' ''manual'' demo_idle = (Inr res, s') \<and> cr_terminal res = T_error)"
proof -
  obtain r s' where r: "run_crew solvent_crew ''alice'' ''manual'' demo_idle = (r, s')" by fastforce
  have "params_of ''alice'' demo_idle = Some (demo_params, ''0x00'')"
    by (simp add: params_of_def demo_idle_def demo_agent_def)
  from crew_fails_without_debt [OF solvent_calm this solvent_debt_free r] show ?thesis using r by blast
qed

end
