(* ===== verification/Agent_Session.thy ===== *)
theory Agent_Session
  imports Chat_Reply Crew_Example
begin

text \<open>
  The agent layer as a whole: what a sequence of requests to \<^verbatim>\<open>/agent\<close>, served one after the other, can do to the keeper. The
  conversation, the crew, the desk of proposals and the kill switch share one state here; the frames of the single
  components are put together.
\<close>

section \<open>Requests\<close>

text \<open>
  One constructor per route of \<^verbatim>\<open>app/api/routes_agent.py\<close> that runs on the store; the first argument of \<open>Chat\<close> and of \<open>Run_crew\<close> is
  the random identifier drawn for it. A request body that does not validate reaches no route.
\<close>

datatype agent_request =
    Chat string ChatRequest | Chat_history string int | Forget_chat string
  | Run_crew string CrewRunRequest
  | List_proposals "string option" "string option" int | Get_proposal int
  | Reject int RejectRequest | Approve int ApprovalRequest
  | List_tuning "string option" bool int | Dismiss int
  | Audit_trail "string option" int | Panic "string option"

record 's agent_server =
  sr_agent :: "'s agent_env"
  sr_chat :: "'s chat_env"
  sr_crew :: "'s crew_env"

definition serve :: "'z ags agent_server \<Rightarrow> agent_request \<Rightarrow> 'z ags \<Rightarrow> 'z ags" where
  "serve srv rq s = (case rq of
       Chat new_id q \<Rightarrow> (case validate_chat_request q of Inl _ \<Rightarrow> s | Inr b \<Rightarrow> snd (route_chat (sr_chat srv) new_id b s))
     | Chat_history i n \<Rightarrow> snd (route_chat_history i n s)
     | Forget_chat i \<Rightarrow> snd (route_delete_chat i s)
     | Run_crew run q \<Rightarrow> (case validate_crew_run_request q of Inl _ \<Rightarrow> s
         | Inr b \<Rightarrow> snd (route_crew_run ((sr_crew srv)\<lparr>ce_run_id := run\<rparr>) b s))
     | List_proposals st b n \<Rightarrow> snd (route_list_proposals st b n s)
     | Get_proposal i \<Rightarrow> snd (route_get_proposal i s)
     | Reject i body \<Rightarrow> snd (reject_proposal (sr_agent srv) i body s)
     | Approve i body \<Rightarrow> snd (approve_proposal (sr_agent srv) i body s)
     | List_tuning b c n \<Rightarrow> snd (route_list_tuning b c n s)
     | Dismiss i \<Rightarrow> snd (dismiss_tuning (sr_agent srv) i s)
     | Audit_trail b n \<Rightarrow> snd (route_audit_trail b n s)
     | Panic reason \<Rightarrow> snd (panic (sr_agent srv) reason s))"

fun serve_all :: "'z ags agent_server \<Rightarrow> agent_request list \<Rightarrow> 'z ags \<Rightarrow> 'z ags" where
  "serve_all srv [] s = s"
| "serve_all srv (rq # rqs) s = serve_all srv rqs (serve srv rq s)"

definition calm_server :: "'z ags agent_server \<Rightarrow> bool" where
  "calm_server srv \<longleftrightarrow> calm_deps (ae_deps (sr_agent srv)) \<and> calm_chat (sr_chat srv) \<and> calm_crew (sr_crew srv)"

section \<open>The desk only grows\<close>

definition verdicts :: "'z ags \<Rightarrow> (int \<times> string \<times> PolicyDecision) list" where
  "verdicts s = map (\<lambda>r. (pw_id r, pw_borrower r, pw_gate r)) (db_proposals (contents s))"

definition desk_grows :: "'z ags \<Rightarrow> 'z ags \<Rightarrow> bool" where
  "desk_grows s s' \<longleftrightarrow> (cb_paused (sv_breaker s) \<longrightarrow> cb_paused (sv_breaker s')) \<and>
     (\<exists>new. verdicts s' = verdicts s @ new \<and> (\<forall>v\<in>set new. pd_allowed (snd (snd v))))"

lemma desk_grows_trans: "desk_grows s t \<Longrightarrow> desk_grows t u \<Longrightarrow> desk_grows s u"
  unfolding desk_grows_def
proof (elim conjE exE)
  fix xs ys
  assume "verdicts t = verdicts s @ xs" "verdicts u = verdicts t @ ys" "\<forall>v\<in>set xs. pd_allowed (snd (snd v))"
    "\<forall>v\<in>set ys. pd_allowed (snd (snd v))" and p: "cb_paused (sv_breaker s) \<longrightarrow> cb_paused (sv_breaker t)"
    "cb_paused (sv_breaker t) \<longrightarrow> cb_paused (sv_breaker u)"
  then have "verdicts u = verdicts s @ (xs @ ys) \<and> (\<forall>v\<in>set (xs @ ys). pd_allowed (snd (snd v)))" by auto
  then show "(cb_paused (sv_breaker s) \<longrightarrow> cb_paused (sv_breaker u)) \<and>
      (\<exists>new. verdicts u = verdicts s @ new \<and> (\<forall>v\<in>set new. pd_allowed (snd (snd v))))" using p by blast
qed

lemma grows_same: "sv_breaker s' = sv_breaker s \<Longrightarrow> verdicts s' = verdicts s \<Longrightarrow> desk_grows s s'"
  by (simp add: desk_grows_def)

lemma verdicts_store: "ag_store s' = ag_store s \<Longrightarrow> verdicts s' = verdicts s"
  by (simp add: verdicts_def contents_def)

definition stays_paused :: "'z svs \<Rightarrow> 'z svs \<Rightarrow> bool" where
  "stays_paused s s' \<longleftrightarrow> (cb_paused (sv_breaker s) \<longrightarrow> cb_paused (sv_breaker s'))"

lemma outcomes_stay_paused: "cb_paused (record_success b) = cb_paused b" "cb_paused b \<Longrightarrow> cb_paused (record_failure b)"
  by (simp_all add: breaker_op_defs)

lemma count_trip_breaker: "sv_breaker (count_trip s) = sv_breaker s"
  by (simp add: count_trip_def inc_def)

lemma segments_stay_paused:
  "protect_start d params sig s = (r1, s') \<Longrightarrow> stays_paused s s'"
  "protect_assessed d params a plan s = (r2, s') \<Longrightarrow> stays_paused s s'"
  "protect_simulated d params a sim s = (r3, s') \<Longrightarrow> stays_paused s s'"
  "protect_submitted d params a result s = (r4, s') \<Longrightarrow> stays_paused s s'"
  subgoal by (auto simp: segment_defs stays_paused_def split: if_splits list.splits prod.splits sum.splits option.splits)
  subgoal by (auto simp: segment_defs stays_paused_def split: if_splits option.splits)
  subgoal by (auto simp: segment_defs stays_paused_def split: if_splits option.splits prod.splits bool.splits)
  subgoal by (auto simp: protect_submitted_def do_release_def Let_def set_state_def inc_def stays_paused_def count_trip_breaker
    outcomes_stay_paused split: if_splits sum.splits)
  done

lemma store_and_pause: "same_store s s' \<Longrightarrow> stays_paused s s' \<Longrightarrow> desk_grows s s'"
  using verdicts_store [of s' s] by (simp add: desk_grows_def stays_paused_def same_store_def)

lemma grows_at: "stays_paused s s' \<Longrightarrow> ag_store s' = ag_store s \<Longrightarrow> desk_grows s s'"
  by (rule store_and_pause) (simp_all add: same_store_def)

interpretation gr: service_frame desk_grows
  apply unfold_locales
           apply (rule grows_same; simp)
          apply (erule (1) desk_grows_trans)
         apply (rule grows_at; simp add: stays_paused_def)+
     apply (rule store_and_pause; erule segments_stay_paused ss.start_keeps ss.assessed_keeps ss.simulated_keeps ss.submitted_keeps)+
  done

interpretation sk: chain_frame same_keeper
  by unfold_locales (auto simp: same_keeper_def)

lemma rows_grow: "same_rows s s' \<Longrightarrow> desk_grows s s'"
  by (rule grows_same) (simp_all add: same_rows_def same_keeper_def verdicts_def)

lemma keeps_rows_grow: "io_keeps same_rows m \<Longrightarrow> io_keeps desk_grows m"
  by (rule io_keeps_mono [OF _ rows_grow])

lemma keeper_rows: "io_keeps same_rows m \<Longrightarrow> io_keeps same_keeper m"
  by (erule io_keeps_mono) (simp add: same_rows_def)

text \<open>A statement of the store that rewrites neither key, borrower nor verdict.\<close>

definition keeps_verdicts :: "(agent_db \<Rightarrow> 'a res \<times> agent_db) \<Rightarrow> bool" where
  "keeps_verdicts q \<longleftrightarrow> (\<forall>db. map (\<lambda>r. (pw_id r, pw_borrower r, pw_gate r)) (db_proposals (snd (q db))) =
     map (\<lambda>r. (pw_id r, pw_borrower r, pw_gate r)) (db_proposals db))"

lemma store_keeper: "io_keeps same_keeper (store_io ints q)"
  by (auto simp: io_keeps_def elim: store_ioE)

lemma store_grows:
  assumes "keeps_verdicts q"
  shows "io_keeps desk_grows (store_io ints q)"
  unfolding io_keeps_def
proof (intro allI impI, erule store_ioE)
  fix s r s' assume "q (contents s) = (r, contents s')" and k: "same_keeper s s'"
  then have "db_proposals (contents s') = db_proposals (snd (q (contents s)))" by simp
  then have "verdicts s' = verdicts s" using assms by (simp add: verdicts_def keeps_verdicts_def)
  then show "desk_grows s s'" using k by (intro grows_same) (simp_all add: same_keeper_def)
next
  fix s r s' e assume "contents s' = contents s" "same_keeper s s'"
  then show "desk_grows s s'" by (intro grows_same) (simp_all add: same_keeper_def verdicts_def)
qed


lemma statements_keep_verdicts:
  "keeps_verdicts (get_proposal i)" "keeps_verdicts (list_proposals st b n)" "keeps_verdicts (claim_proposal i st')"
  "keeps_verdicts (finish_proposal i st' who note tx res now)" "keeps_verdicts (audit_write actor act b k det now)"
  "keeps_verdicts (list_audit b n)" "keeps_verdicts (list_tuning b ts n)" "keeps_verdicts (get_tuning i)"
  "keeps_verdicts (set_tuning_status i ts' now)" "keeps_verdicts (thread_history t n)" "keeps_verdicts (delete_thread t)"
  by (auto simp: keeps_verdicts_def get_proposal_def list_proposals_def claim_proposal_def finish_proposal_def sql_update_def
      audit_write_def list_audit_def list_tuning_def get_tuning_def set_tuning_status_def thread_history_def delete_thread_def
      Let_def case_prod_beta)

lemmas statements_grow = statements_keep_verdicts [THEN store_grows]

lemma finish_frames: "io_keeps same_keeper (finish env i st who note tx res)" "io_keeps desk_grows (finish env i st who note tx res)"
  unfolding finish_def by (rule io_keeps_at, rule store_keeper statements_grow)+

lemma audit_frames: "io_keeps same_keeper (write_audit env actor act b i det)" "io_keeps desk_grows (write_audit env actor act b i det)"
  unfolding write_audit_def by (rule io_keeps_at, rule store_keeper statements_grow)+

lemma refreshed_frames: "io_keeps same_keeper (refreshed i)" "io_keeps desk_grows (refreshed i)"
  unfolding refreshed_def
  by (auto intro!: sk.k_bind sk.k_raise sk.k_return store_keeper gr.k_bind gr.k_raise gr.k_return statements_grow split: option.split)

text \<open>The routes that read, close a suggestion or reject.\<close>

lemma reject_frames: "io_keeps same_keeper (reject_proposal env i body)" "io_keeps desk_grows (reject_proposal env i body)"
  unfolding reject_proposal_def
  by (auto intro!: sk.k_bind sk.k_return store_keeper finish_frames audit_frames refreshed_frames gr.k_bind gr.k_return statements_grow
      split: option.split)

lemma dismiss_frames: "io_keeps same_keeper (dismiss_tuning env i)" "io_keeps desk_grows (dismiss_tuning env i)"
proof -
  have close: "io_keeps same_keeper (\<lambda>s. store_io [i] (set_tuning_status i DISMISSED (ae_time env 2 s)) s)"
    "io_keeps desk_grows (\<lambda>s. store_io [i] (set_tuning_status i DISMISSED (ae_time env 2 s)) s)"
    by (rule io_keeps_at, rule store_keeper statements_grow)+
  show "io_keeps same_keeper (dismiss_tuning env i)" "io_keeps desk_grows (dismiss_tuning env i)"
    unfolding dismiss_tuning_def
    by (auto intro!: sk.k_bind sk.k_return sk.k_raise store_keeper audit_frames close gr.k_bind gr.k_return gr.k_raise statements_grow
        split: option.split)
qed

lemma read_frames:
  "io_keeps same_keeper (route_list_proposals st b n)" "io_keeps desk_grows (route_list_proposals st b n)"
  "io_keeps same_keeper (route_get_proposal i)" "io_keeps desk_grows (route_get_proposal i)"
  "io_keeps same_keeper (route_list_tuning b c n)" "io_keeps desk_grows (route_list_tuning b c n)"
  "io_keeps same_keeper (route_audit_trail b n)" "io_keeps desk_grows (route_audit_trail b n)"
  "io_keeps same_keeper (route_chat_history t n)" "io_keeps desk_grows (route_chat_history t n)"
  "io_keeps same_keeper (route_delete_chat t)" "io_keeps desk_grows (route_delete_chat t)"
  unfolding route_list_proposals_def route_get_proposal_def route_list_tuning_def route_audit_trail_def route_chat_history_def
    route_delete_chat_def
  by (auto intro!: sk.k_bind sk.k_return store_keeper gr.k_bind gr.k_return statements_grow split: sum.split)


section \<open>The conversation and the crew\<close>

lemma chat_frames:
  assumes "calm_chat env" "run_chat env i message b s = (r, s')"
  shows "same_keeper s s' \<and> desk_grows s s'"
proof -
  have "io_keeps (only_thread i) (run_chat env i message b)" by (rule chat_own_thread [OF assms(1)])
  then have k: "only_thread i s s'" using assms(2) by (rule io_keepsD)
  then have "verdicts s' = verdicts s" by (simp add: only_thread_def thread_only_def desk_rows_of_def verdicts_def)
  then show ?thesis using k by (auto simp: only_thread_def same_keeper_def intro: grows_same)
qed

lemma quiet_grows: "no_proposal s s' \<Longrightarrow> desk_grows s s'"
  by (rule grows_same) (simp_all add: no_proposal_def same_keeper_def verdicts_def)

lemma queued_grows: "one_proposal row s s' \<Longrightarrow> pd_allowed (pw_gate row) \<Longrightarrow> desk_grows s s'"
  by (auto simp: one_proposal_def same_keeper_def desk_grows_def verdicts_def)

lemma crew_frames:
  assumes calm: "calm_crew env" and run: "run_crew env b trigger s = (r, s')"
  shows "same_keeper s s' \<and> desk_grows s s'"
proof -
  obtain q t where g: "crew_graph env (crew_initial b trigger (ce_run_id env)) s = (q, t)" by fastforce
  have list: "io_keeps same_rows (store_io [] (list_decisions (ce_run_id env)))"
    by (rule read_keeps_rows) (simp add: list_decisions_def)
  have "same_rows t s'"
  proof (cases q)
    case (Inl e)
    then show ?thesis using run g by (auto simp: run_crew_def sr.R_refl split: if_splits)
  next
    case (Inr fin)
    have "io_keeps same_rows (io_bind (store_io [] (list_decisions (ce_run_id env))) (\<lambda>x. io_return (h x)))"
      for h :: "DecisionRow list \<Rightarrow> CrewRunResult" by (intro sr.k_bind list sr.k_return)
    moreover obtain h :: "DecisionRow list \<Rightarrow> CrewRunResult"
      where "io_bind (store_io [] (list_decisions (ce_run_id env))) (\<lambda>x. io_return (h x)) t = (r, s')"
      using run g Inr by (simp add: run_crew_def)
    ultimately show ?thesis by (blast dest: io_keepsD)
  qed
  then have tail: "same_keeper t s'" "desk_grows t s'" by (auto simp: rows_grow same_rowsD)
  from graph_result [OF g calm] have "same_keeper s t \<and> desk_grows s t"
  proof (elim disjE exE conjE)
    assume "no_proposal s t"
    then show ?thesis using quiet_grows by (auto simp: no_proposal_def)
  next
    fix row st assume "one_proposal row s t" "queued st (pw_gate row) s row"
    then show ?thesis using queued_grows by (auto simp: queued_def one_proposal_def)
  qed
  then show ?thesis using tail same_keeper_trans desk_grows_trans by blast
qed

text \<open>The kill switch leaves the breaker open; nothing else of the keeper changes.\<close>

lemma panic_frames:
  assumes "panic env reason s = (r, s')"
  shows "sv_registry s' = sv_registry s \<and> sv_inflight s' = sv_inflight s \<and> sv_counters s' = sv_counters s \<and>
    cb_paused (sv_breaker s') \<and> desk_grows s s'"
proof -
  let ?t = "s\<lparr>sv_breaker := trip MANUAL (sv_breaker s)\<rparr>"
  obtain q where q: "write_audit env ''human'' PANIC None None [(''reason'', JStr (opt_or reason ''operator panic''))] ?t = (q, s')"
    using assms unfolding panic_def Let_def by (cases rule: io_bindE) auto
  have k: "same_keeper ?t s'" and v: "desk_grows ?t s'"
    by (rule io_keepsD [OF audit_frames(1) q], rule io_keepsD [OF audit_frames(2) q])
  have "desk_grows s ?t" by (simp add: desk_grows_def trip_def verdicts_def contents_def)
  then show ?thesis using k desk_grows_trans [OF _ v] by (auto simp: same_keeper_def trip_def)
qed

section \<open>An approval acts only after the gate opened\<close>

lemma snapshot_borrower: "io_post (snapshot d b t) (\<lambda>x. ps_borrower x = b)"
  unfolding snapshot_def snapshot_done_def poll_once_def
  by (auto simp: io_post_def io_bind_Inr_iff Let_def)

text \<open>What an allowed revalidation says of the keeper at that moment: the breaker is closed and no rescue of the borrower is in flight.\<close>

lemma revalidate_opened:
  assumes "revalidate env b params s = (Inr gate, s')" "calm_deps (ae_deps env)" "pd_allowed gate"
  shows "\<not> cb_paused (sv_breaker s) \<and> b \<notin> set (locked_borrowers (sv_inflight s)) \<and>
    (\<exists>g. gate_reads env b params s g s' \<and> gate_evaluate g = Inr gate)"
proof -
  obtain g where g: "gate_reads env b params s g s'" "gate_evaluate g = Inr gate" using revalidate_reads [OF assms(1,2)] by blast
  then obtain t t' w where sn: "snapshot (ae_deps env) b (rp_hf_trigger_bps params) t = (Inr (gi_snapshot g), t')"
    and m: "gi_metrics g = metrics w" and w: "same_rows s w"
    unfolding gate_reads_def by blast
  have k: "sv_breaker w = sv_breaker s" "sv_inflight w = sv_inflight s" using w by (simp_all add: same_rows_def same_keeper_def)
  have "keeper_free g" using gate_allowed_iff [OF g(2)] assms(3) by blast
  then have "\<not> cb_paused (sv_breaker s)" "ps_borrower (gi_snapshot g) \<notin> set (locked_borrowers (sv_inflight s))"
    using k m by (simp_all add: keeper_free_def metrics_def)
  moreover have "ps_borrower (gi_snapshot g) = b" by (rule io_postD [OF snapshot_borrower sn])
  ultimately show ?thesis using g by auto
qed

text \<open>
  \<open>authorised\<close>: the proposal is pending, the breaker closed, no rescue of the borrower in flight and its mandate signed now, and
  the gate opens on the figures read from here on.
\<close>

definition authorised :: "'z ags agent_env \<Rightarrow> 'z ags \<Rightarrow> ProposalRow \<Rightarrow> bool" where
  "authorised env s row \<longleftrightarrow> pw_status row = PENDING \<and> \<not> cb_paused (sv_breaker s) \<and>
     pw_borrower row \<notin> set (locked_borrowers (sv_inflight s)) \<and>
     (\<exists>params sig s1 g s2 gate. params_of (pw_borrower row) s = Some (params, sig) \<and> same_rows s s1 \<and>
        gate_reads env (pw_borrower row) params s1 g s2 \<and> gate_evaluate g = Inr gate \<and> pd_allowed gate)"

lemma gated_frames:
  assumes "\<not> pd_allowed gate"
  shows "io_keeps same_keeper (approve_gated env i body row params sig gate)"
proof -
  have "approve_gated env i body row params sig gate =
      io_bind (finish env i STALE (Some (aq_approved_by body)) (aq_note body) None None) (\<lambda>_.
        io_bind (write_audit env ''system'' STALE_ON_APPROVE (Some (pw_borrower row)) (Some i)
          [(''blocking'', JList (map JStr (pd_blocking gate)))]) (\<lambda>_.
        io_return (Refuse 409 (JDict [(''error'', JStr ''the position no longer satisfies the policy gate''),
          (''blocking'', JList (map JStr (pd_blocking gate))),
          (''checks'', JList (map check_json (filter (\<lambda>c. \<not> gc_passed c) (pd_checks gate))))]))))"
    using assms by (simp add: approve_gated_def fun_eq_iff)
  then show ?thesis by (simp only:) (intro sk.k_bind finish_frames audit_frames sk.k_return)
qed

lemma approve_acts:
  assumes "approve_proposal env i body s = (r, s')" and calm: "calm_deps (ae_deps env)"
  shows "same_keeper s s' \<or> (\<exists>row. row_of s i = Some row \<and> authorised env s row)"
  using assms(1) unfolding approve_proposal_def
proof (cases rule: io_bindE)
  case (raised e)
  then show ?thesis using io_keepsD [OF store_keeper] by blast
next
  case (ran x s1)
  note get = get_done [OF ran(1)]
  have k1: "same_keeper s s1" by (rule same_rowsD(2) [OF get(1)])
  show ?thesis
  proof (cases "\<exists>row params sig. x = Some row \<and> pw_status row = PENDING \<and> params_of (pw_borrower row) s1 = Some (params, sig)")
    case False
    have "same_keeper s1 s'"
      using ran(2) False io_keepsD [OF sk.k_bind [OF finish_frames(1) sk.k_return]]
      by (auto simp: not_found_def not_pending_def sk.R_refl split: option.splits if_splits)
    then show ?thesis using same_keeper_trans [OF k1] by blast
  next
    case True
    then obtain row params sig where row: "x = Some row" "pw_status row = PENDING" "params_of (pw_borrower row) s1 = Some (params, sig)" by blast
    have p: "params_of (pw_borrower row) s = Some (params, sig)" using row(3) k1 by (simp add: same_keeper_def params_of_def)
    have "io_bind (revalidate env (pw_borrower row) params) (approve_gated env i body row params sig) s1 = (r, s')"
      using ran(2) row by simp
    then show ?thesis
    proof (cases rule: io_bindE)
      case (raised e)
      then show ?thesis using same_keeper_trans [OF k1] same_rowsD(2) [OF io_keepsD [OF revalidate_keeps_rows [OF calm]]] by blast
    next
      case gate: (ran gate s2)
      have k2: "same_keeper s s2"
        by (rule same_keeper_trans [OF k1 same_rowsD(2) [OF io_keepsD [OF revalidate_keeps_rows [OF calm] gate(1)]]])
      show ?thesis
      proof (cases "pd_allowed gate")
        case False
        then show ?thesis using same_keeper_trans [OF k2] io_keepsD [OF gated_frames gate(2)] by blast
      next
        case opened: True
        have "authorised env s row"
          using revalidate_opened [OF gate(1) calm opened] row(2) k1 p get(1) opened
          unfolding authorised_def same_keeper_def by metis
        then show ?thesis using row(1) get(2) by auto
      qed
    qed
  qed
qed

section \<open>Every request lets the desk grow\<close>

lemma agent_grows: "same_agent s s' \<Longrightarrow> desk_grows s s'"
  by (rule grows_same) (simp_all add: same_agent_def same_service_def verdicts_def contents_def)

lemma protect_grows:
  assumes "calm_deps d"
  shows "io_keeps desk_grows (protect d params sig)"
proof -
  have a: "node_keeps same_agent (dp_node d)" "vault_keeps same_agent (dp_vault d)"
    "io_keeps same_agent (dp_hash_params d t i)" for t i
    using assms by (simp_all add: calm_deps_def del: split_paired_All)
  show ?thesis
    by (intro gr.k_protect node_keeps_mono [OF a(1)] vault_keeps_mono [OF a(2)] io_keeps_mono [OF a(3)]) (erule agent_grows)+
qed

lemma execute_grows:
  assumes "calm_deps (ae_deps env)"
  shows "io_keeps desk_grows (approve_execute env i body row params sig gate)"
  unfolding approve_execute_def
proof (intro gr.k_bind finish_frames audit_frames, unfold io_keeps_def, intro allI impI, goal_cases)
  case (1 u n s r s')
  obtain q s1 where p: "protect (ae_deps env) params sig s = (q, s1)" by fastforce
  have 2: "desk_grows s s1" by (rule io_keepsD [OF protect_grows [OF assms] p])
  have fails: "io_keeps desk_grows (io_bind (finish env i FAILED None m None None) (\<lambda>_.
      io_bind (write_audit env a act b k det) (\<lambda>_. io_return x)))" for m a act b k det and x :: "ApprovalResult http"
    by (intro gr.k_bind finish_frames audit_frames gr.k_return)
  have succeeds: "io_keeps desk_grows (io_bind (finish env i st None None tx res) (\<lambda>_.
      io_bind (write_audit env a act b k det) (\<lambda>_. io_bind (refreshed i) (\<lambda>r. io_return (h r)))))"
    for st tx res a act b k det and h :: "ProposalRow \<Rightarrow> ApprovalResult http"
    by (intro gr.k_bind finish_frames audit_frames refreshed_frames gr.k_return)
  have "desk_grows s1 s'"
    using 1 p io_keepsD [OF fails] io_keepsD [OF succeeds] by (cases q) auto
  then show ?case by (rule desk_grows_trans [OF 2])
qed

lemma gated_grows:
  assumes "calm_deps (ae_deps env)"
  shows "io_keeps desk_grows (approve_gated env i body row params sig gate)"
proof -
  have close: "io_keeps desk_grows (io_bind (finish env i st who nt None None) (\<lambda>_.
      io_bind (write_audit env a act b k det) (\<lambda>_. io_return x)))" for st who nt a act b k det and x :: "ApprovalResult http"
    by (intro gr.k_bind finish_frames audit_frames gr.k_return)
  have win: "io_keeps desk_grows (io_bind (store_io [i] (claim_proposal i APPROVED)) (\<lambda>won.
        if \<not> won then io_return x else approve_execute env i body row params sig gate))" for x
    using execute_grows [OF assms] by (auto intro!: gr.k_bind statements_grow gr.k_return)
  show ?thesis
    unfolding approve_gated_def io_keeps_def by (auto dest: io_keepsD [OF close] io_keepsD [OF win] split: if_splits)
qed

lemma approve_grows:
  assumes "calm_deps (ae_deps env)"
  shows "io_keeps desk_grows (approve_proposal env i body)"
proof -
  have undecided: "io_keeps desk_grows (\<lambda>s. case params_of b s of
      None \<Rightarrow> io_bind (finish env i STALE who None None None) (\<lambda>_. io_return x) s
    | Some (params, sig) \<Rightarrow> io_bind (revalidate env b params) (approve_gated env i body row params sig) s)"
    for b who x row
  proof -
    have "io_keeps desk_grows (io_bind (finish env i STALE who None None None) (\<lambda>_. io_return x))"
      by (intro gr.k_bind finish_frames gr.k_return)
    moreover have "io_keeps desk_grows (io_bind (revalidate env b params) (approve_gated env i body row params sig))" for params sig
      by (intro gr.k_bind keeps_rows_grow revalidate_keeps_rows gated_grows assms)
    ultimately show ?thesis unfolding io_keeps_def by (auto split: option.splits)
  qed
  show ?thesis
    unfolding approve_proposal_def not_found_def not_pending_def
    by (intro gr.k_bind statements_grow) (use undecided in \<open>auto intro: gr.k_return split: option.split\<close>)
qed

section \<open>Sessions\<close>

lemma crew_run_calm [simp]: "calm_crew (env\<lparr>ce_run_id := i\<rparr>) = calm_crew env"
  by (simp add: calm_crew_def)

definition keeper_idle :: "'z svs \<Rightarrow> 'z svs \<Rightarrow> bool" where
  "keeper_idle s s' \<longleftrightarrow> sv_registry s' = sv_registry s \<and> sv_inflight s' = sv_inflight s \<and> sv_counters s' = sv_counters s"

lemma idle_same: "same_keeper s s' \<Longrightarrow> keeper_idle s s'"
  by (simp add: same_keeper_def keeper_idle_def)

lemma serve_grows:
  assumes "calm_server srv"
  shows "desk_grows s (serve srv rq s)"
proof -
  note c = assms [unfolded calm_server_def]
  have k: "desk_grows s (snd (m s))" if "io_keeps desk_grows m" for m :: "('a ags, 'b) io"
    using io_keepsD [OF that, of s "fst (m s)" "snd (m s)"] by simp
  show ?thesis
  proof (cases rq)
    case (Chat i q)
    then show ?thesis using chat_frames [of "sr_chat srv"] c gr.R_refl
      by (auto simp: serve_def route_chat_def Let_def prod_eq_iff split: sum.split)
  next
    case (Run_crew i q)
    then show ?thesis using crew_frames [of "(sr_crew srv)\<lparr>ce_run_id := i\<rparr>"] c gr.R_refl
      by (auto simp: serve_def route_crew_run_def prod_eq_iff split: sum.split)
  next
    case (Panic reason)
    then show ?thesis using panic_frames [of "sr_agent srv" reason s] by (auto simp: serve_def prod_eq_iff)
  qed (use c in \<open>auto simp: serve_def intro!: k read_frames reject_frames dismiss_frames approve_grows\<close>)
qed

lemma serve_idle:
  assumes "calm_server srv"
  shows "keeper_idle s (serve srv rq s) \<or>
    (\<exists>i body row. rq = Approve i body \<and> row_of s i = Some row \<and> authorised (sr_agent srv) s row)"
proof -
  note c = assms [unfolded calm_server_def]
  have k: "keeper_idle s (snd (m s))" if "io_keeps same_keeper m" for m :: "('a ags, 'b) io"
    using io_keepsD [OF that, of s "fst (m s)" "snd (m s)"] by (simp add: idle_same)
  show ?thesis
  proof (cases rq)
    case (Chat i q)
    then show ?thesis using chat_frames [of "sr_chat srv"] c sk.R_refl
      by (auto simp: serve_def route_chat_def Let_def prod_eq_iff intro!: idle_same split: sum.split)
  next
    case (Run_crew i q)
    then show ?thesis using crew_frames [of "(sr_crew srv)\<lparr>ce_run_id := i\<rparr>"] c sk.R_refl
      by (auto simp: serve_def route_crew_run_def prod_eq_iff intro!: idle_same split: sum.split)
  next
    case (Panic reason)
    then show ?thesis using panic_frames [of "sr_agent srv" reason s] by (auto simp: serve_def prod_eq_iff keeper_idle_def)
  next
    case (Approve i body)
    then show ?thesis using approve_acts [of "sr_agent srv" i body s] c idle_same by (fastforce simp: serve_def prod_eq_iff)
  qed (use c in \<open>auto simp: serve_def intro!: k read_frames reject_frames dismiss_frames\<close>)
qed

lemma serve_all_append: "serve_all srv (xs @ ys) s = serve_all srv ys (serve_all srv xs s)"
  by (induction xs arbitrary: s) simp_all

lemma serve_all_grows: "calm_server srv \<Longrightarrow> desk_grows s (serve_all srv rqs s)"
  by (induction rqs arbitrary: s) (auto simp: gr.R_refl intro: desk_grows_trans serve_grows)

lemma panic_pauses:
  assumes "calm_server srv" "Panic reason \<in> set rqs"
  shows "cb_paused (sv_breaker (serve_all srv rqs s))"
proof -
  obtain pre post where rqs: "rqs = pre @ Panic reason # post" using split_list [OF assms(2)] by blast
  let ?t = "serve srv (Panic reason) (serve_all srv pre s)"
  have "cb_paused (sv_breaker ?t)"
    using panic_frames [of "sr_agent srv" reason "serve_all srv pre s"] by (auto simp: serve_def prod_eq_iff)
  moreover have "desk_grows ?t (serve_all srv post ?t)" by (rule serve_all_grows [OF assms(1)])
  ultimately show ?thesis by (simp add: rqs serve_all_append desk_grows_def)
qed


section \<open>An example\<close>

text \<open>An action that returns is counted, so the approval of the example is a request that touches the keeper.\<close>

definition counts_up :: "'z svs \<Rightarrow> 'z svs \<Rightarrow> bool" where
  "counts_up s s' \<longleftrightarrow> (\<forall>k. counter_value (sv_counters s) k \<le> counter_value (sv_counters s') k)"

lemma counts_trans: "counts_up s t \<Longrightarrow> counts_up t u \<Longrightarrow> counts_up s u"
  unfolding counts_up_def using order_trans by blast

lemma segments_count:
  "protect_start d params sig s = (r1, s') \<Longrightarrow> counts_up s s'"
  "protect_assessed d params a plan s = (r2, s') \<Longrightarrow> counts_up s s'"
  "protect_simulated d params a sim s = (r3, s') \<Longrightarrow> counts_up s s'"
  "protect_submitted d params a result s = (r4, s') \<Longrightarrow> counts_up s s'"
  subgoal by (auto simp: segment_defs counts_up_def split: if_splits list.splits prod.splits sum.splits option.splits)
  subgoal by (auto simp: segment_defs counts_up_def split: if_splits option.splits)
  subgoal by (auto simp: segment_defs counts_up_def split: if_splits option.splits prod.splits bool.splits)
  subgoal by (auto simp: protect_submitted_def do_release_def Let_def set_state_def inc_def counts_up_def count_trip_def
    split: if_splits sum.splits)
  done

interpretation cu: service_frame counts_up
  apply unfold_locales
           apply (simp add: counts_up_def)
          apply (erule (1) counts_trans)
         apply (simp add: counts_up_def; fail)+
     apply (erule segments_count)+
  done


lemma protect_counted:
  assumes "protect d params sig s = (Inr p, s')" "calm_deps d"
  shows "sv_counters s' \<noteq> sv_counters s"
proof -
  have c: "counts_up t t'" if "same_agent t t'" for t t' :: "'a ags"
    using that by (simp add: same_agent_def same_service_def counts_up_def)
  have a: "node_keeps same_agent (dp_node d)" "vault_keeps same_agent (dp_vault d)"
    "io_keeps same_agent (dp_hash_params d t i)" for t i
    using assms(2) by (simp_all add: calm_deps_def del: split_paired_All)
  note n = node_keeps_mono [OF a(1), of counts_up, OF c] and v = vault_keeps_mono [OF a(2), of counts_up, OF c]
    and h = io_keeps_mono [OF a(3), of counts_up, OF c]
  have up: "\<exists>k. counter_value (sv_counters s) k < counter_value (sv_counters s') k"
    using assms(1) unfolding protect_def
  proof (cases rule: io_bindE)
    case start: (ran x s1)
    show ?thesis
    proof (cases x)
      case (Inl resp)
      then show ?thesis using start by (auto simp: segment_defs split: if_splits list.splits prod.splits sum.splits option.splits)
    next
      case (Inr sigma)
      then have "io_bind (evaluate (dp_libm d) (dp_vault_address d) (dp_node d) params (Some sigma) DEFAULT_GAS_COST_BASE)
          (\<lambda>(a, plan). protect_after_evaluation d params sig a plan) s1 = (Inr p, s')"
        using start(2) by simp
      then show ?thesis
      proof (cases rule: io_bindE)
        case (ran y s2)
        obtain a plan where y: "y = (a, plan)" by (cases y)
        obtain w s3 where w: "protect_assessed d params a plan s2 = (w, s3)" by fastforce
        have "counts_up s s1" by (rule cu.start_keeps [OF start(1)])
        moreover have "counts_up s1 s2" by (rule io_keepsD [OF cu.k_evaluate [OF n] ran(1)])
        moreover have "counter_value (sv_counters s2) ASSESSED < counter_value (sv_counters s3) ASSESSED"
          using w by (auto simp: segment_defs counter_names split: if_splits option.splits)
        moreover have "counts_up s3 s'"
          using ran(2) w y io_keepsD [OF cu.k_submission [OF n v h]]
          by (auto simp: protect_after_evaluation_def cu.R_refl split: sum.splits)
        ultimately show ?thesis unfolding counts_up_def by (metis order_le_less_trans order_less_le_trans)
      qed simp
    qed
  qed simp
  then show ?thesis by auto
qed


lemma execute_counted:
  assumes "approve_execute env i body row params sig gate s = (Inr (Reply r), s')" "calm_deps (ae_deps env)"
  shows "sv_counters s' \<noteq> sv_counters s"
proof -
  obtain u s1 n s2 where f: "finish env i APPROVED (Some (aq_approved_by body)) (aq_note body) None None s = (Inr u, s1)"
    and w: "write_audit env ''human'' AA_APPROVED (Some (pw_borrower row)) (Some i) [(''by'', JStr (aq_approved_by body))] s1 = (Inr n, s2)"
    and p: "(case protect (ae_deps env) params sig s2 of
       (Inl exc, s') \<Rightarrow>
         io_bind (finish env i FAILED None (Some (''execution error: '' @ exn_str exc)) None None) (\<lambda>_.
         io_bind (write_audit env ''system'' AA_FAILED (Some (pw_borrower row)) (Some i)
           [(''error'', JStr (exn_str exc))]) (\<lambda>_.
         io_return (Refuse 502 (JStr (''execution failed: '' @ exn_str exc))))) s'
     | (Inr result, s') \<Rightarrow>
         io_bind (finish env i (if pr_submitted result then EXECUTED else FAILED) None None
           (pr_tx_hash result) (Some (protect_json result))) (\<lambda>_.
         io_bind (write_audit env ''system'' (if pr_submitted result then AA_EXECUTED else AA_FAILED)
           (Some (pw_borrower row)) (Some i)
           [(''tx_hash'', opt_str (pr_tx_hash result)), (''state'', JStr (state_value (pr_state result))),
            (''reason'', opt_str (pr_reason result))]) (\<lambda>_.
         io_bind (refreshed i) (\<lambda>r. io_return (Reply \<lparr>al_proposal = r, al_revalidated_gate = gate,
           al_protect = Some result, al_reason = pr_reason result\<rparr>)))) s') = (Inr (Reply r), s')"
    using assms(1) unfolding approve_execute_def io_bind_Inr_iff by blast
  obtain q s3 where q: "protect (ae_deps env) params sig s2 = (q, s3)" by fastforce
  obtain res where res: "q = Inr res" using p q by (cases q) (auto simp: io_bind_Inr_iff)
  have k: "same_keeper s s2" by (rule same_keeper_trans [OF finish_done(1) [OF f] audit_done(1) [OF w]])
  have closes: "io_keeps same_keeper (io_bind (finish env i st None None tx rj) (\<lambda>_.
      io_bind (write_audit env a act b k det) (\<lambda>_. io_bind (refreshed i) (\<lambda>r. io_return (h r)))))"
    for st tx rj a act b k det and h :: "ProposalRow \<Rightarrow> ApprovalResult http"
    by (intro sk.k_bind finish_frames audit_frames refreshed_frames sk.k_return)
  have "same_keeper s3 s'" using p q res io_keepsD [OF closes] by simp
  moreover have "sv_counters s3 \<noteq> sv_counters s2" by (rule protect_counted [OF q [unfolded res] assms(2)])
  ultimately show ?thesis using k by (simp add: same_keeper_def)
qed

lemma gated_reply_executes:
  assumes "approve_gated env i body row params sig gate s = (Inr (Reply r), s')"
  shows "\<exists>s1. same_keeper s s1 \<and> approve_execute env i body row params sig gate s1 = (Inr (Reply r), s')"
  using assms unfolding approve_gated_def by (auto simp: io_bind_Inr_iff dest!: io_keepsD [OF store_keeper] split: if_splits)

lemma approve_counted:
  assumes "approve_proposal env i body s = (Inr (Reply r), s')" and calm: "calm_deps (ae_deps env)"
  shows "sv_counters s' \<noteq> sv_counters s"
  using assms(1) unfolding approve_proposal_def
proof (cases rule: io_bindE)
  case (ran x s1)
  have k1: "same_keeper s s1" by (rule io_keepsD [OF store_keeper ran(1)])
  obtain row params sig where "io_bind (revalidate env (pw_borrower row) params) (approve_gated env i body row params sig) s1 = (Inr (Reply r), s')"
    using ran(2) by (auto simp: not_found_def not_pending_def io_bind_Inr_iff split: option.splits if_splits)
  then obtain gate s2 where g: "revalidate env (pw_borrower row) params s1 = (Inr gate, s2)"
    "approve_gated env i body row params sig gate s2 = (Inr (Reply r), s')" unfolding io_bind_Inr_iff by blast
  obtain s3 where x: "same_keeper s2 s3" "approve_execute env i body row params sig gate s3 = (Inr (Reply r), s')"
    using gated_reply_executes [OF g(2)] by blast
  have "same_keeper s s3"
    using k1 same_rowsD(2) [OF io_keepsD [OF revalidate_keeps_rows [OF calm] g(1)]] x(1) same_keeper_trans by blast
  then show ?thesis using execute_counted [OF x(2) calm] by (simp add: same_keeper_def)
qed simp

definition demo_server :: "'z ags agent_server" where
  "demo_server = \<lparr>sr_agent = demo_env, sr_chat = demo_chat, sr_crew = demo_crew\<rparr>"

lemma demo_server_calm: "calm_server demo_server"
  using demo_calm by (simp add: calm_server_def demo_server_def demo_chat_calm demo_crew_calm demo_env_def)


end
