(* ===== verification/App_Routes.thy ===== *)
theory App_Routes
  imports Agent_Routes
begin

text \<open>
  The rest of the process: the routes of \<^verbatim>\<open>app/api/routes_positions.py\<close>, \<^verbatim>\<open>routes_config.py\<close>,
  \<^verbatim>\<open>routes_metrics.py\<close> and \<^verbatim>\<open>routes_health.py\<close>, the composition root of \<^verbatim>\<open>app/deps.py\<close>, the worker of
  \<^verbatim>\<open>app/scheduler.py\<close> and the runtime of the agent layer in \<^verbatim>\<open>app/agent/runtime.py\<close>.
\<close>

section \<open>Position routes\<close>

definition require_match :: "string \<Rightarrow> ProtectRequest \<Rightarrow> 'a http option" where
  "require_match borrower body =
     (if str_lower (rp_borrower (pq_params body)) \<noteq> str_lower borrower
      then Some (Refuse 400 (JStr ''path borrower != signed params.borrower'')) else None)"

definition route_get_position :: "'z svs deps \<Rightarrow> string \<Rightarrow> ('z svs, json http) io" where
  "route_get_position d borrower s0 =
     (let reg = params_of borrower s0;
          trigger = (case reg of None \<Rightarrow> 11500 | Some (p, _) \<Rightarrow> rp_hf_trigger_bps p) in
      io_try
        (io_bind (snapshot d borrower trigger) (\<lambda>snap.
         io_bind (io_lift (ua_collateral_usd (ps_account snap))) (\<lambda>coll.
         io_bind (io_lift (ua_debt_usd (ps_account snap))) (\<lambda>debt.
         io_return (Reply (JDict [(''borrower'', JStr borrower), (''state'', JStr (state_value (ps_state snap))),
           (''hf'', JFloat (ps_hf snap)), (''collateral_usd'', JFloat coll), (''debt_usd'', JFloat debt),
           (''has_debt'', JBool (ua_has_debt (ps_account snap))), (''registered'', JBool (reg \<noteq> None))]))))))
        (\<lambda>exc. io_return (Refuse 503 (JStr (''Chain RPC error querying borrower state: '' @ exn_str exc)))) s0)"

text \<open>\<open>chain_error\<close>: the request is blamed for a \<^verbatim>\<open>ValueError\<close>, the chain for everything else.\<close>

definition chain_error :: "exn \<Rightarrow> 'a http" where
  "chain_error exc = (case exc of
       ValueError m \<Rightarrow> Refuse 400 (JStr (''Invalid request: '' @ m))
     | _ \<Rightarrow> Refuse 503 (JStr (''Chain RPC error: '' @ exn_str exc)))"

definition or_chain_error :: "('s, 'a) io \<Rightarrow> ('s, 'a http) io" where
  "or_chain_error m = io_try (io_bind m (\<lambda>a. io_return (Reply a))) (\<lambda>exc. io_return (chain_error exc))"

definition route_get_assessment :: "'z svs deps \<Rightarrow> string \<Rightarrow> ('z svs, AssessmentResponse http) io" where
  "route_get_assessment d borrower s =
     (case params_of borrower s of
        None \<Rightarrow> (Inr (Refuse 404 (JStr ''borrower not registered; POST params first'')), s)
      | Some (params, _) \<Rightarrow>
          or_chain_error (assess (dp_libm d) (dp_vault_address d) (dp_node d) params None DEFAULT_GAS_COST_BASE) s)"

definition route_post_assessment :: "'z svs deps \<Rightarrow> string \<Rightarrow> ProtectRequest \<Rightarrow> ('z svs, AssessmentResponse http) io" where
  "route_post_assessment d borrower body s =
     (case require_match borrower body of
        Some refusal \<Rightarrow> (Inr refusal, s)
      | None \<Rightarrow> or_chain_error (assess (dp_libm d) (dp_vault_address d) (dp_node d) (pq_params body) None DEFAULT_GAS_COST_BASE)
          (register (pq_params body) (pq_signature body) s))"

definition route_protect :: "'z svs deps \<Rightarrow> string \<Rightarrow> ProtectRequest \<Rightarrow> ('z svs, ProtectResponse http) io" where
  "route_protect d borrower body s =
     (case require_match borrower body of
        Some refusal \<Rightarrow> (Inr refusal, s)
      | None \<Rightarrow> or_chain_error (protect d (pq_params body) (pq_signature body)) s)"

section \<open>Metrics and health\<close>

definition route_metrics :: "('z svs, MetricsSnapshot) io" where
  "route_metrics s = (Inr (metrics s), s)"

definition route_reset_breaker :: "('z svs, MetricsSnapshot) io" where
  "route_reset_breaker s0 = (let s = service_reset_breaker s0 in (Inr (metrics s), s))"

text \<open>\<open>block_number\<close>: what the node answers for the number of its latest block.\<close>

definition route_health :: "Settings \<Rightarrow> 'z ags node \<Rightarrow> (nat \<Rightarrow> ('z ags, int) io) \<Rightarrow> ('z ags, json) io" where
  "route_health st nd block_number =
     io_bind
       (if st_arbitrum_rpc_url st = [] then io_return None
        else io_try (io_bind (with_global_client st (via nd block_number)) (\<lambda>b. io_return (Some b))) (\<lambda>_. io_return None))
       (\<lambda>block. io_return (JDict [(''status'', JStr ''ok''), (''chain'', JStr ''arbitrum-one''), (''chain_id'', JInt (st_chain_id st)),
          (''rpc_configured'', JBool (st_arbitrum_rpc_url st \<noteq> [])), (''rpc_connected'', JBool (block \<noteq> None)),
          (''block_number'', (case block of None \<Rightarrow> JNone | Some n \<Rightarrow> JInt n)),
          (''vault_configured'', JBool (st_vault_address st \<noteq> []))]))"

section \<open>Composition root\<close>

text \<open>
  A container is built from the settings: the state of a fresh service, whether the simulator and the
  submitter are wired, and the configuration it reports. \<open>keeper\<close> is the address of the keeper's key and
  \<open>checksum\<close> the library's reading of an address; either may raise.
\<close>

record ServiceContainer =
  sc_service :: service_state
  sc_wired :: bool
  sc_interval :: int
  sc_config :: KeeperConfig

definition build_container :: "Settings \<Rightarrow> (string \<Rightarrow> string res) \<Rightarrow> (string \<Rightarrow> string res) \<Rightarrow> ServiceContainer res" where
  "build_container st checksum keeper =
     res_bind (chain_client_init None None (st_arbitrum_rpc_url st) (st_arbitrum_rpc_url_fallback st) None (st_rpc_max_retries st)) (\<lambda>client.
     let inflight = inflight_init (Fin (of_int (st_inflight_cooldown_seconds st))) in
     res_bind (breaker_init (st_breaker_max_consecutive_failures st)) (\<lambda>breaker.
     let wired = st_vault_address st \<noteq> [] \<and> st_keeper_private_key st \<noteq> [] in
     res_bind (if wired then res_bind (checksum (st_vault_address st)) (\<lambda>_.
         res_bind (keeper (st_keeper_private_key st)) checksum) else Inr []) (\<lambda>_.
     res_bind (validate_keeper_config \<lparr>kc_poll_interval_seconds = st_poll_interval_seconds st,
       kc_breaker_max_consecutive_failures = st_breaker_max_consecutive_failures st,
       kc_inflight_cooldown_seconds = st_inflight_cooldown_seconds st, kc_max_simulation_bumps = st_max_simulation_bumps st,
       kc_autonomous_enabled = st_autonomous_enabled st\<rparr>) (\<lambda>config. Inr
     \<lparr>sc_service = \<lparr>ch_client = client, ch_pool_address = None, ch_oracle_address = None, ch_decimals = TOKEN_DECIMALS, pp_vols = [],
        sv_vols = [], sv_registry = [], sv_states = [], sv_inflight = inflight, sv_breaker = breaker, sv_counters = [],
        sv_autonomous = st_autonomous_enabled st, sv_max_bumps = st_max_simulation_bumps st\<rparr>,
      sc_wired = wired, sc_interval = st_poll_interval_seconds st, sc_config = config\<rparr>))))"

section \<open>Configuration routes\<close>

text \<open>The container of the process holds the configuration the routes show.\<close>

definition route_get_config :: "KeeperConfig \<Rightarrow> KeeperConfig" where
  "route_get_config config = config"

definition route_put_config :: "'z svs deps \<Rightarrow> KeeperConfig \<Rightarrow> 'z svs \<times> KeeperConfig \<Rightarrow> KeeperConfig res \<times> 'z svs \<times> KeeperConfig" where
  "route_put_config d new cont =
     (case apply_config d new (fst cont) of
        (Inl e, s) \<Rightarrow> (Inl e, s, snd cont)
      | (Inr c, s) \<Rightarrow> (Inr c, s, c))"

section \<open>Worker\<close>

text \<open>
  The loop of the worker: each pass of the service, whatever it raises, and then the wait for the next. The loop ends with the
  wait in which the stop event is set, after \<open>n\<close> passes.
\<close>

fun worker_run :: "'z svs deps \<Rightarrow> nat \<Rightarrow> ('z svs, unit) io" where
  "worker_run d 0 = io_return ()"
| "worker_run d (Suc n) = io_bind (io_try (tick d) (\<lambda>_. io_return ())) (\<lambda>_. worker_run d n)"

record Worker =
  wk_task :: bool
  wk_stop :: bool

definition worker_start :: "Worker \<Rightarrow> Worker" where
  "worker_start w = (if wk_task w then w else w\<lparr>wk_stop := False, wk_task := True\<rparr>)"

definition worker_stop :: "Worker \<Rightarrow> Worker" where
  "worker_stop w = w\<lparr>wk_stop := True, wk_task := False\<rparr>"

section \<open>Runtime of the agent layer\<close>

record AgentStatus =
  at_enabled :: bool
  at_reason :: "string option"
  at_model :: "string option"
  at_stack_available :: bool
  at_store_ready :: bool

text \<open>The runtime that was built, with its model, and whether the process has looked; its store is that of the state.\<close>

record AgentRuntime =
  an_model :: string
  an_api_key :: string
  an_timeout :: pyfloat

record app_state = agent_state +
  ap_runtime :: "AgentRuntime option"
  ap_probed :: bool

type_synonym 'z aps = "'z app_state_scheme"

definition agent_status :: "Settings \<Rightarrow> bool \<Rightarrow> 'z aps \<Rightarrow> AgentStatus" where
  "agent_status st stack_available s =
     (let off = (\<lambda>reason. \<lparr>at_enabled = False, at_reason = Some reason, at_model = None, at_stack_available = False,
            at_store_ready = ap_runtime s \<noteq> None \<and> as_open (ag_store s)\<rparr>) in
      if \<not> st_agent_enabled st then off ''AGENT_ENABLED is false''
      else if st_gemini_api_key st = [] then off ''GEMINI_API_KEY is not configured''
      else if \<not> stack_available then off ''the optional agent extra is not installed (pip install -e \".[agent]\")''
      else \<lparr>at_enabled = True, at_reason = None, at_model = Some (st_agent_model st), at_stack_available = True,
        at_store_ready = ap_runtime s \<noteq> None \<and> as_open (ag_store s)\<rparr>)"

text \<open>A store starts closed, over what its file holds.\<close>

definition get_runtime :: "Settings \<Rightarrow> bool \<Rightarrow> 'z aps \<Rightarrow> AgentRuntime option \<times> 'z aps" where
  "get_runtime st stack_available s =
     (if ap_runtime s = None \<and> \<not> ap_probed s then
        let s1 = s\<lparr>ap_probed := True\<rparr> in
        if at_enabled (agent_status st stack_available s1) then
          let rt = \<lparr>an_model = st_agent_model st, an_api_key = st_gemini_api_key st, an_timeout = st_agent_timeout_seconds st\<rparr> in
          (Some rt, s1\<lparr>ap_runtime := Some rt, ag_store := store_init (st_agent_db_path st) (as_db (ag_store s1))\<rparr>)
        else (None, s1)
      else (ap_runtime s, s))"

definition reset_runtime_for_tests :: "AgentRuntime option \<Rightarrow> 'z aps \<Rightarrow> 'z aps" where
  "reset_runtime_for_tests rt s = s\<lparr>ap_runtime := rt, ap_probed := True\<rparr>"

definition close_runtime :: "'z aps \<Rightarrow> 'z aps" where
  "close_runtime s = (if ap_runtime s = None then s else s\<lparr>ag_store := store_close (ag_store s)\<rparr>)
     \<lparr>ap_runtime := None, ap_probed := False\<rparr>"

definition require_runtime :: "Settings \<Rightarrow> bool \<Rightarrow> 'z aps \<Rightarrow> AgentRuntime http \<times> 'z aps" where
  "require_runtime st stack_available s0 =
     (case get_runtime st stack_available s0 of
        (Some rt, s) \<Rightarrow> (Reply rt, s)
      | (None, s) \<Rightarrow> (Refuse 503 (JStr (opt_or (at_reason (agent_status st stack_available s)) ''agent layer disabled'')), s))"

record AgentStatusResponse =
  ax_status :: AgentStatus
  ax_pending_proposals :: nat

definition route_status :: "Settings \<Rightarrow> bool \<Rightarrow> ('z aps, AgentStatusResponse) io" where
  "route_status st stack_available s0 =
     (let a = agent_status st stack_available s0 in
      case get_runtime st stack_available s0 of
        (None, s) \<Rightarrow> (Inr \<lparr>ax_status = a, ax_pending_proposals = 0\<rparr>, s)
      | (Some _, s) \<Rightarrow> io_bind (store_io [1000] (list_proposals (Some PENDING) None 1000)) (\<lambda>rows.
          io_return \<lparr>ax_status = a, ax_pending_proposals = length rows\<rparr>) s)"

section \<open>Start and end of the process\<close>

text \<open>
  What \<^verbatim>\<open>app/main.py\<close> does around the requests it serves: the worker of the container is started when it is enabled and an
  RPC endpoint is configured, and the store of the agent layer is opened; at the end both are closed.
\<close>

definition start_worker :: "Settings \<Rightarrow> ServiceContainer res \<Rightarrow> Worker option res" where
  "start_worker st container =
     (if st_worker_enabled st \<and> st_arbitrum_rpc_url st \<noteq> []
      then res_bind container (\<lambda>_. Inr (Some (worker_start \<lparr>wk_task = False, wk_stop = False\<rparr>))) else Inr None)"

definition open_store :: "Settings \<Rightarrow> bool \<Rightarrow> 'z aps \<Rightarrow> 'z aps" where
  "open_store st stack_available s0 =
     (if \<not> st_agent_enabled st then s0
      else case get_runtime st stack_available s0 of
        (rt, s) \<Rightarrow> if rt = None then s else s\<lparr>ag_store := store_connect (ag_store s)\<rparr>)"

definition lifespan_start :: "Settings \<Rightarrow> bool \<Rightarrow> ServiceContainer res \<Rightarrow> ('z aps, Worker option) io" where
  "lifespan_start st stack_available container s =
     (case start_worker st container of
        Inl e \<Rightarrow> (Inl e, s)
      | Inr worker \<Rightarrow> (Inr worker, open_store st stack_available s))"

definition lifespan_end :: "Worker option \<Rightarrow> 'z aps \<Rightarrow> Worker option \<times> 'z aps" where
  "lifespan_end worker s = (map_option worker_stop worker, (close_runtime s)\<lparr>ag_global_client := None\<rparr>)"

end
