(* ===== verification/App_Safety.thy ===== *)
theory App_Safety
  imports App_Routes Approval_Flow Service_Refinement
begin

text \<open>
  What the wiring of the process guarantees: which container comes out of the settings, what an update of the
  configuration changes, that the worker survives its passes and leaves nothing in flight, when the agent layer
  answers, and how the position routes find a borrower.
\<close>

section \<open>A fresh container\<close>

lemma container_fresh:
  assumes "build_container st checksum keeper = Inr c"
  shows "fresh (sc_service c)" "allow (sv_breaker (sc_service c))" "sv_registry (sc_service c) = []"
    "sc_wired c \<longleftrightarrow> st_vault_address st \<noteq> [] \<and> st_keeper_private_key st \<noteq> []"
    "validate_keeper_config (sc_config c) = Inr (sc_config c)"
    "kc_breaker_max_consecutive_failures (sc_config c) = cb_max (sv_breaker (sc_service c))"
  using assms by (auto simp: build_container_def res_bind_Inr_iff Let_def fresh_def inflight_init_def breaker_init_def allow_def
      validate_keeper_config_Inr split: if_splits)

text \<open>Without a vault or a key the service only assesses: no call of \<open>protect\<close> submits or runs the vault.\<close>

lemma unwired_assessed:
  "\<not> dp_simulator d \<Longrightarrow> protect_after_evaluation d params sig a plan s = (Inr r, s') \<Longrightarrow> \<not> pr_submitted r \<and> pr_tx_hash r = None"
  by (auto simp: protect_after_evaluation_def protect_assessed_def response_def Let_def split: if_splits option.splits)

lemma start_declines: "protect_start d params sig s = (Inr (Inl r), s') \<Longrightarrow> \<not> pr_submitted r \<and> pr_tx_hash r = None"
  by (auto simp: protect_start_def response_def Let_def split: if_splits list.splits prod.splits sum.splits)

lemma unwired_never_submits:
  assumes "\<not> dp_simulator d" "protect d params signature s = (Inr r, s')"
  shows "\<not> pr_submitted r \<and> pr_tx_hash r = None"
proof -
  obtain x s1 where st: "protect_start d params signature s = (Inr x, s1)"
    and rest: "(case x of Inl r \<Rightarrow> io_return r | Inr sigma \<Rightarrow>
      io_bind (evaluate (dp_libm d) (dp_vault_address d) (dp_node d) params (Some sigma) DEFAULT_GAS_COST_BASE)
        (\<lambda>(assessment, plan). protect_after_evaluation d params signature assessment plan)) s1 = (Inr r, s')"
    using assms(2) unfolding protect_def io_bind_Inr_iff by blast
  show ?thesis
  proof (cases x)
    case (Inl r')
    then show ?thesis using start_declines [OF st [unfolded Inl]] rest by (simp add: io_return_def)
  next
    case (Inr sigma)
    then obtain a plan s2 where "protect_after_evaluation d params signature a plan s2 = (Inr r, s')"
      using rest by (auto simp: io_bind_Inr_iff)
    then show ?thesis by (rule unwired_assessed [OF assms(1)])
  qed
qed

section \<open>Configuration\<close>

lemma put_config_effective:
  assumes "validate_keeper_config new = Inr new"
  obtains s' where "route_put_config d new (s, old) = (Inr new, s', new)" "sv_autonomous s' = kc_autonomous_enabled new"
    "cb_max (sv_breaker s') = kc_breaker_max_consecutive_failures new"
    "fl_cooldown (sv_inflight s') = Fin (of_int (kc_inflight_cooldown_seconds new))"
    "dp_simulator d \<Longrightarrow> sv_max_bumps s' = kc_max_simulation_bumps new"
    "cb_paused (sv_breaker s') = cb_paused (sv_breaker s)" "fl_locked (sv_inflight s') = fl_locked (sv_inflight s)"
    "sv_registry s' = sv_registry s"
  using assms that
  by (auto simp: route_put_config_def apply_config_def validate_keeper_config_Inr set_max_consecutive_failures_def
      set_cooldown_seconds_def Let_def split: if_splits)

section \<open>The worker\<close>

lemma served_trans: "served d t u \<Longrightarrow> served d s t \<Longrightarrow> served d s u"
  by (induction rule: served.induct) (auto intro: served_pass served_call served_operation served_elsewhere)

lemma worker_ends: "\<exists>s'. worker_run d n s = (Inr (), s') \<and> served d s s'"
proof (induction n arbitrary: s)
  case 0
  then show ?case by (simp add: io_return_def served_none)
next
  case (Suc n)
  obtain r s1 where t: "tick d s = (r, s1)" by fastforce
  then have "io_try (tick d) (\<lambda>_. io_return ()) s = (Inr (), s1)" by (cases r) (simp_all add: io_try_def io_return_def)
  moreover obtain s' where "worker_run d n s1 = (Inr (), s')" "served d s1 s'" using Suc by blast
  moreover have "served d s s1" by (rule served_pass [OF served_none t])
  ultimately show ?case by (auto simp: io_bind_def intro: served_trans)
qed

lemma worker_idempotent: "worker_start (worker_start w) = worker_start w" "wk_task (worker_start w)"
    "\<not> wk_task (worker_stop w)" "\<not> wk_task w \<Longrightarrow> \<not> wk_stop (worker_start w)"
  by (simp_all add: worker_start_def worker_stop_def)

section \<open>The agent layer\<close>

lemma status_enabled: "at_enabled (agent_status st stack u) \<longleftrightarrow> st_agent_enabled st \<and> st_gemini_api_key st \<noteq> [] \<and> stack"
  by (simp add: agent_status_def Let_def)

lemma status_reason:
  "\<not> (st_agent_enabled st \<and> st_gemini_api_key st \<noteq> [] \<and> stack) \<Longrightarrow> \<exists>reason. at_reason (agent_status st stack u) = Some reason \<and> reason \<noteq> []"
  by (auto simp: agent_status_def Let_def)

text \<open>
  From a process that has not looked, the layer answers exactly when it is enabled, has a key and finds its packages; a
  refusal names the precondition that fails, and the answer is the same when asked again.
\<close>

lemma runtime_gate_exact:
  assumes "ap_runtime s = None" "\<not> ap_probed s" "require_runtime st stack s = (r, s')"
  shows "(\<exists>rt. r = Reply rt) \<longleftrightarrow> st_agent_enabled st \<and> st_gemini_api_key st \<noteq> [] \<and> stack"
    "require_runtime st stack s' = (r, s')"
    "r = Refuse code detail \<Longrightarrow> code = 503 \<and> (\<exists>reason. detail = JStr reason \<and> at_reason (agent_status st stack s') = Some reason)"
proof -
  let ?on = "st_agent_enabled st \<and> st_gemini_api_key st \<noteq> [] \<and> stack"
  note on = status_enabled and off = status_reason
  let ?rt = "\<lparr>an_model = st_agent_model st, an_api_key = st_gemini_api_key st, an_timeout = st_agent_timeout_seconds st\<rparr>"
  have yes: "r = Reply ?rt \<and> ap_runtime s' = Some ?rt" if "?on"
    using assms that by (auto simp: require_runtime_def get_runtime_def on Let_def)
  have no: "s' = s\<lparr>ap_probed := True\<rparr> \<and> (\<exists>reason. r = Refuse 503 (JStr reason) \<and> at_reason (agent_status st stack s') = Some reason \<and> reason \<noteq> [])" if "\<not> ?on"
    using assms off [OF that, of s'] that by (auto simp: require_runtime_def get_runtime_def on Let_def opt_or_def)
  show "(\<exists>rt. r = Reply rt) \<longleftrightarrow> ?on" using yes no by auto
  show "require_runtime st stack s' = (r, s')"
    using yes no assms(1) by (cases ?on) (auto simp: require_runtime_def get_runtime_def opt_or_def Let_def)
  show "r = Refuse code detail \<Longrightarrow> code = 503 \<and> (\<exists>reason. detail = JStr reason \<and> at_reason (agent_status st stack s') = Some reason)"
    using yes no by (cases ?on) auto
qed

lemma reset_pins_off: "fst (get_runtime st stack (reset_runtime_for_tests None s)) = None"
  by (simp add: get_runtime_def reset_runtime_for_tests_def)

section \<open>Start and end\<close>

text \<open>The process starts a worker only when it may, serves the agent from an open store, and ends with both closed.\<close>

lemma runtime_kept: "get_runtime st stack s = (rt, s') \<Longrightarrow> ap_runtime s' = rt"
  by (auto simp: get_runtime_def Let_def split: if_splits)

lemma lifespan_starts:
  assumes "lifespan_start st stack container s = (Inr worker, s')"
  shows "(\<exists>w. worker = Some w \<and> wk_task w) \<longleftrightarrow> st_worker_enabled st \<and> st_arbitrum_rpc_url st \<noteq> []"
    "st_agent_enabled st \<Longrightarrow> ap_runtime s' \<noteq> None \<Longrightarrow> as_open (ag_store s')"
proof -
  have w: "start_worker st container = Inr worker" and s': "s' = open_store st stack s"
    using assms unfolding lifespan_start_def by (cases "start_worker st container"; simp)+
  show "(\<exists>w. worker = Some w \<and> wk_task w) \<longleftrightarrow> st_worker_enabled st \<and> st_arbitrum_rpc_url st \<noteq> []"
  proof (cases "st_worker_enabled st \<and> st_arbitrum_rpc_url st \<noteq> []")
    case True
    then have "worker = Some (worker_start \<lparr>wk_task = False, wk_stop = False\<rparr>)"
      using w by (cases container) (simp_all add: start_worker_def)
    then show ?thesis using True by (simp add: worker_start_def)
  next
    case False
    then have "start_worker st container = Inr None" unfolding start_worker_def by (rule if_not_P)
    then show ?thesis using w False by auto
  qed
  show "st_agent_enabled st \<Longrightarrow> ap_runtime s' \<noteq> None \<Longrightarrow> as_open (ag_store s')"
  proof -
    obtain rt s1 where g: "get_runtime st stack s = (rt, s1)" by fastforce
    assume "st_agent_enabled st" "ap_runtime s' \<noteq> None"
    then show "as_open (ag_store s')" using runtime_kept [OF g] by (cases rt) (simp_all add: s' open_store_def g store_connect_def)
  qed
qed

lemma lifespan_ends:
  assumes "lifespan_end worker s = (worker', s')"
  shows "ap_runtime s' = None" "ap_runtime s \<noteq> None \<Longrightarrow> \<not> as_open (ag_store s')" "\<forall>w\<in>set_option worker'. \<not> wk_task w"
  using assms by (auto simp: lifespan_end_def close_runtime_def store_close_def worker_stop_def)

section \<open>How the position routes find a borrower\<close>

lemma match_ignores_case: "require_match b body = None \<longleftrightarrow> str_lower (rp_borrower (pq_params body)) = str_lower b"
  by (simp add: require_match_def)

lemma assess_keeps_registry:
  assumes "node_keeps same_service nd" "assess l v nd params sg g s = (r, s')"
  shows "sv_registry s' = sv_registry s"
proof -
  have "io_keeps same_service (assess l v nd params sg g)" by (rule sv.k_assess) (rule assms(1))
  then show ?thesis using io_keepsD assms(2) by (fastforce simp: same_service_def)
qed

text \<open>
  C36: the path of a request is compared with its mandate without regard to case, but the registry is looked up by the
  exact, checksummed spelling: after a mandate was posted for assessment under another spelling of its borrower's
  address, it is registered, and reading the assessment back under the path it was posted to is refused as not registered.
\<close>

theorem posted_assessment_not_found:
  assumes "node_keeps same_service (dp_node d)" "str_lower b = str_lower (rp_borrower (pq_params body))"
    "b \<noteq> rp_borrower (pq_params body)" "params_of b s = None" "route_post_assessment d b body s = (r, s')"
  shows "params_of (rp_borrower (pq_params body)) s' = Some (pq_params body, pq_signature body) \<and>
    route_get_assessment d b s' = (Inr (Refuse 404 (JStr ''borrower not registered; POST params first'')), s')"
proof -
  have m: "require_match b body = None" using assms(2) by (simp add: match_ignores_case)
  have "sv_registry s' = sv_registry (register (pq_params body) (pq_signature body) s)"
    using assms(5) assess_keeps_registry [OF assms(1)]
    by (auto simp: route_post_assessment_def m or_chain_error_def io_try_def io_bind_def io_return_def chain_error_def
        split: option.splits prod.splits sum.splits exn.splits)
  then have "params_of x s' = params_of x (register (pq_params body) (pq_signature body) s)" for x by (simp add: params_of_def)
  then show ?thesis using assms(3,4) by (simp add: params_of_def register_def dict_simps route_get_assessment_def)
qed

theorem posted_assessment_not_found_witness:
  "\<exists>r s'. route_post_assessment demo_deps ''ALICE'' \<lparr>pq_params = demo_params, pq_signature = ''0x00''\<rparr> demo_service = (r, s') \<and>
     params_of ''alice'' s' = Some (demo_params, ''0x00'') \<and>
     route_get_assessment demo_deps ''ALICE'' s' = (Inr (Refuse 404 (JStr ''borrower not registered; POST params first'')), s')"
proof -
  obtain r s' where r: "route_post_assessment demo_deps ''ALICE'' \<lparr>pq_params = demo_params, pq_signature = ''0x00''\<rparr> demo_service = (r, s')"
    by fastforce
  have q: "node_keeps same_service (dp_node demo_deps)" by (rule demo_quiet [unfolded quiet_deps_def, THEN conjunct1])
  have "str_lower ''ALICE'' = str_lower ''alice''" by code_simp
  moreover have "params_of ''ALICE'' demo_service = None" by (simp add: params_of_def demo_service_def)
  moreover have "rp_borrower demo_params = ''alice''" by (simp add: demo_params_def)
  ultimately show ?thesis using posted_assessment_not_found [OF q _ _ _ r] r by simp
qed

end
