(* ===== verification/Contract_ABI.thy ===== *)
theory Contract_ABI
  imports Chain_Reads
begin

text \<open>
  The contract interfaces of \<^verbatim>\<open>app/config/arbitrum.py\<close>, as the code declares them, and what the readers and encoders of
  \<^verbatim>\<open>app/chain\<close> make of them: they take results apart by position and pass arguments by position, while the
  interface names its fields.
\<close>

section \<open>Types and functions\<close>

text \<open>
  One entry of an ABI list: the dictionaries have the keys \<^verbatim>\<open>name\<close>, \<^verbatim>\<open>stateMutability\<close>, \<^verbatim>\<open>inputs\<close> and \<^verbatim>\<open>outputs\<close>; a parameter is a name with a
  type, a tuple carries its \<^verbatim>\<open>components\<close>.
\<close>

datatype abi_type = A_uint nat | A_int nat | A_address | A_bool | A_string | A_tuple "(string \<times> abi_type) list"

type_synonym abi_params = "(string \<times> abi_type) list"

record abi_function =
  af_name :: string
  af_mutability :: string
  af_inputs :: abi_params
  af_outputs :: abi_params

definition AAVE_POOL_ABI :: "abi_function list" where
  "AAVE_POOL_ABI =
    [\<lparr>af_name = ''getUserAccountData'', af_mutability = ''view'', af_inputs = [(''user'', A_address)],
      af_outputs = [(''totalCollateralBase'', A_uint 256), (''totalDebtBase'', A_uint 256),
        (''availableBorrowsBase'', A_uint 256), (''currentLiquidationThreshold'', A_uint 256),
        (''ltv'', A_uint 256), (''healthFactor'', A_uint 256)]\<rparr>,
     \<lparr>af_name = ''getReserveData'', af_mutability = ''view'', af_inputs = [(''asset'', A_address)],
      af_outputs = [('''', A_tuple [(''configuration'', A_tuple [(''data'', A_uint 256)]),
        (''liquidityIndex'', A_uint 128), (''currentLiquidityRate'', A_uint 128), (''variableBorrowIndex'', A_uint 128),
        (''currentVariableBorrowRate'', A_uint 128), (''currentStableBorrowRate'', A_uint 128),
        (''lastUpdateTimestamp'', A_uint 40), (''id'', A_uint 16), (''aTokenAddress'', A_address),
        (''stableDebtTokenAddress'', A_address), (''variableDebtTokenAddress'', A_address),
        (''interestRateStrategyAddress'', A_address), (''accruedToTreasury'', A_uint 128),
        (''unbacked'', A_uint 128), (''isolationModeTotalDebt'', A_uint 128)])]\<rparr>,
     \<lparr>af_name = ''repay'', af_mutability = ''nonpayable'',
      af_inputs = [(''asset'', A_address), (''amount'', A_uint 256), (''interestRateMode'', A_uint 256), (''onBehalfOf'', A_address)],
      af_outputs = [('''', A_uint 256)]\<rparr>,
     \<lparr>af_name = ''withdraw'', af_mutability = ''nonpayable'',
      af_inputs = [(''asset'', A_address), (''amount'', A_uint 256), (''to'', A_address)],
      af_outputs = [('''', A_uint 256)]\<rparr>]"

definition POOL_ADDRESSES_PROVIDER_ABI :: "abi_function list" where
  "POOL_ADDRESSES_PROVIDER_ABI =
    [\<lparr>af_name = ''getPool'', af_mutability = ''view'', af_inputs = [], af_outputs = [('''', A_address)]\<rparr>,
     \<lparr>af_name = ''getPriceOracle'', af_mutability = ''view'', af_inputs = [], af_outputs = [('''', A_address)]\<rparr>]"

definition AAVE_ORACLE_ABI :: "abi_function list" where
  "AAVE_ORACLE_ABI =
    [\<lparr>af_name = ''getAssetPrice'', af_mutability = ''view'', af_inputs = [(''asset'', A_address)], af_outputs = [('''', A_uint 256)]\<rparr>,
     \<lparr>af_name = ''BASE_CURRENCY_UNIT'', af_mutability = ''view'', af_inputs = [], af_outputs = [('''', A_uint 256)]\<rparr>]"

definition QUOTER_V2_ABI :: "abi_function list" where
  "QUOTER_V2_ABI =
    [\<lparr>af_name = ''quoteExactOutputSingle'', af_mutability = ''nonpayable'',
      af_inputs = [(''params'', A_tuple [(''tokenIn'', A_address), (''tokenOut'', A_address), (''amount'', A_uint 256),
        (''fee'', A_uint 24), (''sqrtPriceLimitX96'', A_uint 160)])],
      af_outputs = [(''amountIn'', A_uint 256), (''sqrtPriceX96After'', A_uint 160),
        (''initializedTicksCrossed'', A_uint 32), (''gasEstimate'', A_uint 256)]\<rparr>]"

definition SWAP_ROUTER_ABI :: "abi_function list" where
  "SWAP_ROUTER_ABI =
    [\<lparr>af_name = ''exactOutputSingle'', af_mutability = ''payable'',
      af_inputs = [(''params'', A_tuple [(''tokenIn'', A_address), (''tokenOut'', A_address), (''fee'', A_uint 24),
        (''recipient'', A_address), (''amountOut'', A_uint 256), (''amountInMaximum'', A_uint 256),
        (''sqrtPriceLimitX96'', A_uint 160)])],
      af_outputs = [(''amountIn'', A_uint 256)]\<rparr>]"

definition CHAINLINK_AGGREGATOR_ABI :: "abi_function list" where
  "CHAINLINK_AGGREGATOR_ABI =
    [\<lparr>af_name = ''latestRoundData'', af_mutability = ''view'', af_inputs = [],
      af_outputs = [(''roundId'', A_uint 80), (''answer'', A_int 256), (''startedAt'', A_uint 256), (''updatedAt'', A_uint 256),
        (''answeredInRound'', A_uint 80)]\<rparr>,
     \<lparr>af_name = ''decimals'', af_mutability = ''view'', af_inputs = [], af_outputs = [('''', A_uint 8)]\<rparr>]"

definition ERC20_ABI :: "abi_function list" where
  "ERC20_ABI =
    [\<lparr>af_name = ''decimals'', af_mutability = ''view'', af_inputs = [], af_outputs = [('''', A_uint 8)]\<rparr>,
     \<lparr>af_name = ''symbol'', af_mutability = ''view'', af_inputs = [], af_outputs = [('''', A_string)]\<rparr>,
     \<lparr>af_name = ''balanceOf'', af_mutability = ''view'', af_inputs = [(''account'', A_address)], af_outputs = [('''', A_uint 256)]\<rparr>,
     \<lparr>af_name = ''allowance'', af_mutability = ''view'', af_inputs = [(''owner'', A_address), (''spender'', A_address)],
      af_outputs = [('''', A_uint 256)]\<rparr>]"

lemmas abi_defs = AAVE_POOL_ABI_def POOL_ADDRESSES_PROVIDER_ABI_def AAVE_ORACLE_ABI_def QUOTER_V2_ABI_def SWAP_ROUTER_ABI_def
  CHAINLINK_AGGREGATOR_ABI_def ERC20_ABI_def

definition abi_lookup :: "abi_function list \<Rightarrow> string \<Rightarrow> abi_function option" where
  "abi_lookup abi nm = find (\<lambda>f. af_name f = nm) abi"

section \<open>Values of a type\<close>

text \<open>Which Python values a type takes: what web3 checks before it encodes, and what it hands out after decoding.\<close>

definition address_shape :: "string \<Rightarrow> bool" where
  "address_shape a \<longleftrightarrow> length a = 42 \<and> take 2 a = ''0x'' \<and> list_all (\<lambda>c. hex_digit c \<noteq> None) (drop 2 a)"

fun fits :: "abi_type \<Rightarrow> json \<Rightarrow> bool" and fits_all :: "abi_params \<Rightarrow> json list \<Rightarrow> bool" where
  "fits (A_uint n) v = (case v of JInt i \<Rightarrow> 0 \<le> i \<and> i < 2 ^ n | _ \<Rightarrow> False)"
| "fits (A_int n) v = (case v of JInt i \<Rightarrow> - (2 ^ (n - 1)) \<le> i \<and> i < 2 ^ (n - 1) | _ \<Rightarrow> False)"
| "fits A_address v = (case v of JStr a \<Rightarrow> address_shape a | _ \<Rightarrow> False)"
| "fits A_bool v = (case v of JBool _ \<Rightarrow> True | _ \<Rightarrow> False)"
| "fits A_string v = (case v of JStr _ \<Rightarrow> True | _ \<Rightarrow> False)"
| "fits (A_tuple ps) v = (case v of JList vs \<Rightarrow> fits_all ps vs | _ \<Rightarrow> False)"
| "fits_all [] vs = (vs = [])"
| "fits_all (p # ps) vs = (case vs of [] \<Rightarrow> False | v # vs' \<Rightarrow> fits (snd p) v \<and> fits_all ps vs')"

text \<open>The value of a named field of a decoded tuple.\<close>

definition abi_field :: "abi_params \<Rightarrow> json list \<Rightarrow> string \<Rightarrow> json option" where
  "abi_field ps vs nm = map_of (zip (map fst ps) vs) nm"


section \<open>The reads as web3 makes them\<close>

text \<open>
  \<open>call a abi fn args i\<close> is \<^verbatim>\<open>contract(a, abi).functions.fn(*args).call()\<close> at the endpoint \<open>i\<close>: the decoded value, a list when the
  function has several outputs. It is web3 and the contract behind it, a parameter; \<open>decodes\<close> states that what it returns has the declared output types.
\<close>

type_synonym 's contract_call = "string \<Rightarrow> abi_function list \<Rightarrow> string \<Rightarrow> json list \<Rightarrow> nat \<Rightarrow> ('s, json) io"

definition answers :: "abi_function \<Rightarrow> json \<Rightarrow> bool" where
  "answers f v = (case af_outputs f of [p] \<Rightarrow> fits (snd p) v | ps \<Rightarrow> fits (A_tuple ps) v)"

definition decodes :: "'s contract_call \<Rightarrow> bool" where
  "decodes call \<longleftrightarrow> (\<forall>a abi fn args i f. abi_lookup abi fn = Some f \<longrightarrow> io_post (call a abi fn args i) (answers f))"

text \<open>Taking an answer apart by position, as the readers do. On an answer of the declared types the branches that raise are not reached.\<close>

definition as_int :: "json \<Rightarrow> int res" where
  "as_int v = (case v of JInt i \<Rightarrow> Inr i | _ \<Rightarrow> Inl (OtherError ''TypeError''))"

definition as_str :: "json \<Rightarrow> string res" where
  "as_str v = (case v of JStr a \<Rightarrow> Inr a | _ \<Rightarrow> Inl (OtherError ''TypeError''))"

definition item :: "json \<Rightarrow> nat \<Rightarrow> json res" where
  "item v n = (case v of JList vs \<Rightarrow> if n < length vs then Inr (vs ! n) else Inl (OtherError ''tuple index out of range'')
     | _ \<Rightarrow> Inl (OtherError ''TypeError''))"

definition int_at :: "json \<Rightarrow> nat \<Rightarrow> int res" where
  "int_at v n = res_bind (item v n) as_int"

definition account_of :: "json \<Rightarrow> account_tuple res" where
  "account_of v = res_bind (int_at v 0) (\<lambda>coll. res_bind (int_at v 1) (\<lambda>debt. res_bind (int_at v 2) (\<lambda>avail.
     res_bind (int_at v 3) (\<lambda>lt. res_bind (int_at v 4) (\<lambda>ltv. res_bind (int_at v 5) (\<lambda>hf. Inr (coll, debt, avail, lt, ltv, hf)))))))"

definition reserve_of :: "json \<Rightarrow> (int \<times> string \<times> string) res" where
  "reserve_of data = res_bind (item data 0) (\<lambda>configuration. res_bind (int_at configuration 0) (\<lambda>config_data.
     res_bind (res_bind (item data 8) as_str) (\<lambda>aToken. res_bind (res_bind (item data 10) as_str) (\<lambda>variableDebt.
       Inr (config_data, aToken, variableDebt)))))"

definition round_of :: "json \<Rightarrow> (int \<times> int \<times> int \<times> int \<times> int) res" where
  "round_of v = res_bind (int_at v 0) (\<lambda>r. res_bind (int_at v 1) (\<lambda>answer. res_bind (int_at v 2) (\<lambda>started.
     res_bind (int_at v 3) (\<lambda>updated. res_bind (int_at v 4) (\<lambda>answered. Inr (r, answer, started, updated, answered))))))"

definition quote_of :: "json \<Rightarrow> (int \<times> int \<times> int \<times> int) res" where
  "quote_of v = res_bind (int_at v 0) (\<lambda>amount_in. res_bind (int_at v 1) (\<lambda>sqrt_after. res_bind (int_at v 2) (\<lambda>ticks.
     res_bind (int_at v 3) (\<lambda>gas. Inr (amount_in, sqrt_after, ticks, gas)))))"

definition reading :: "('s, json) io \<Rightarrow> (json \<Rightarrow> 'a res) \<Rightarrow> ('s, 'a) io" where
  "reading m part = io_bind m (\<lambda>v. io_lift (part v))"

definition nat_of :: "json \<Rightarrow> nat res" where
  "nat_of v = res_bind (as_int v) (\<lambda>i. Inr (nat i))"

text \<open>The contract reads of a node, through the interfaces.\<close>

definition web3_node :: "string \<Rightarrow> string \<Rightarrow> 's contract_call \<Rightarrow> 's node \<Rightarrow> 's node" where
  "web3_node provider quoter call nd = nd\<lparr>
     nd_getPool := (\<lambda>i. reading (call provider POOL_ADDRESSES_PROVIDER_ABI ''getPool'' [] i) as_str),
     nd_getPriceOracle := (\<lambda>i. reading (call provider POOL_ADDRESSES_PROVIDER_ABI ''getPriceOracle'' [] i) as_str),
     nd_getUserAccountData := (\<lambda>pool user i. reading (call pool AAVE_POOL_ABI ''getUserAccountData'' [JStr user] i) account_of),
     nd_getReserveData := (\<lambda>pool token i. reading (call pool AAVE_POOL_ABI ''getReserveData'' [JStr token] i) reserve_of),
     nd_getAssetPrice := (\<lambda>oracle token i. reading (call oracle AAVE_ORACLE_ABI ''getAssetPrice'' [JStr token] i) as_int),
     nd_latestRoundData := (\<lambda>feed i. reading (call feed CHAINLINK_AGGREGATOR_ABI ''latestRoundData'' [] i) round_of),
     nd_feedDecimals := (\<lambda>feed i. reading (call feed CHAINLINK_AGGREGATOR_ABI ''decimals'' [] i) nat_of),
     nd_decimals := (\<lambda>token i. reading (call token ERC20_ABI ''decimals'' [] i) nat_of),
     nd_balanceOf := (\<lambda>token account i. reading (call token ERC20_ABI ''balanceOf'' [JStr account] i) as_int),
     nd_allowance := (\<lambda>token owner spender i. reading (call token ERC20_ABI ''allowance'' [JStr owner, JStr spender] i) as_int),
     nd_quoteExactOutputSingle := (\<lambda>(t_in, t_out, amount, fee, limit) i.
       reading (call quoter QUOTER_V2_ABI ''quoteExactOutputSingle'' [JList [JStr t_in, JStr t_out, JInt amount, JInt fee, JInt limit]] i) quote_of)\<rparr>"

lemma web3_node_sel [simp]:
  "nd_checksum (web3_node p q call nd) = nd_checksum nd" "nd_sleep (web3_node p q call nd) = nd_sleep nd"
  "nd_encode_abi (web3_node p q call nd) = nd_encode_abi nd"
  by (simp_all add: web3_node_def)

section \<open>What is read by position is what the interface names\<close>

lemma try_endpoint_post:
  "io_post (fn idx) P \<Longrightarrow> try_endpoint fn sleep idx n k e s = (Finished (Inr a), s') \<Longrightarrow> P a"
  by (induction fn sleep idx n k e s rule: try_endpoint.induct)
    (auto simp: io_post_def split: prod.splits sum.splits if_splits)

lemma call_post:
  assumes "\<And>i. io_post (fn i) P"
  shows "io_post (client_call sleep fn) P"
proof -
  have "try_endpoints fn sleep n k e s = (Inr a, s') \<Longrightarrow> P a" for n k e s a s'
    by (induction k arbitrary: e s)
      (auto simp: Let_def split: prod.splits attempt_outcome.splits dest: try_endpoint_post [where P = P, OF assms])
  then show ?thesis by (auto simp: io_post_def client_call_def Let_def)
qed

lemma reading_post:
  assumes "decodes call" "abi_lookup abi fn = Some f"
    "\<And>v a t t'. answers f v \<Longrightarrow> call addr abi fn args i t = (Inr v, t') \<Longrightarrow> part v = Inr a \<Longrightarrow> P a"
  shows "io_post (reading (call addr abi fn args i) part) P"
proof -
  have "io_post (call addr abi fn args i) (answers f)" using assms(1,2) unfolding decodes_def by blast
  then show ?thesis unfolding reading_def io_post_def io_bind_Inr_iff using assms(3) by fastforce
qed

text \<open>The named outputs of a function: the components of its tuple, where it returns one.\<close>

definition outputs_of :: "abi_function \<Rightarrow> abi_params" where
  "outputs_of f = (case af_outputs f of [p] \<Rightarrow> (case snd p of A_tuple ps \<Rightarrow> ps | _ \<Rightarrow> [p]) | ps \<Rightarrow> ps)"

definition named :: "abi_function list \<Rightarrow> string \<Rightarrow> json list \<Rightarrow> (string \<times> json) list \<Rightarrow> bool" where
  "named abi fn vs parts \<longleftrightarrow> (case abi_lookup abi fn of None \<Rightarrow> False
     | Some f \<Rightarrow> fits_all (outputs_of f) vs \<and> (\<forall>(nm, v)\<in>set parts. abi_field (outputs_of f) vs nm = Some v))"

text \<open>
  \<open>answered call a abi fn args parts\<close>: the contract at \<open>a\<close>, asked \<open>fn\<close> with these arguments, gave an answer of the declared types that has the
  \<open>parts\<close> under their names.
\<close>

definition answered :: "'s contract_call \<Rightarrow> string \<Rightarrow> abi_function list \<Rightarrow> string \<Rightarrow> json list \<Rightarrow> (string \<times> json) list \<Rightarrow> bool" where
  "answered call a abi fn args parts \<longleftrightarrow>
     (\<exists>i t t' vs. call a abi fn args i t = (Inr (JList vs), t') \<and> named abi fn vs parts)"

lemma answeredI: "call a abi fn args i t = (Inr v, t') \<Longrightarrow> \<exists>vs. v = JList vs \<and> named abi fn vs parts \<Longrightarrow> answered call a abi fn args parts"
  unfolding answered_def by blast

lemma fits_all_Cons: "fits_all (p # ps) vs \<longleftrightarrow> (\<exists>v vs'. vs = v # vs' \<and> fits (snd p) v \<and> fits_all ps vs')"
  by (cases vs) auto

lemma fits_A_uint: "fits (A_uint n) v \<longleftrightarrow> (\<exists>i. v = JInt i \<and> 0 \<le> i \<and> i < 2 ^ n)"
  and fits_A_int: "fits (A_int n) v \<longleftrightarrow> (\<exists>i. v = JInt i \<and> - (2 ^ (n - 1)) \<le> i \<and> i < 2 ^ (n - 1))"
  and fits_A_address: "fits A_address v \<longleftrightarrow> (\<exists>a. v = JStr a \<and> address_shape a)"
  and fits_A_tuple: "fits (A_tuple ps) v \<longleftrightarrow> (\<exists>vs. v = JList vs \<and> fits_all ps vs)"
  by (cases v; auto)+

lemmas fits_iff = fits_A_uint fits_A_int fits_A_address fits_A_tuple fits_all_Cons

declare fits.simps [simp del] fits_all.simps(2) [simp del]

lemma as_int_Inr: "as_int v = Inr i \<longleftrightarrow> v = JInt i" and as_str_Inr: "as_str v = Inr a \<longleftrightarrow> v = JStr a"
  by (cases v; auto simp: as_int_def as_str_def)+

lemma item_Inr: "item v n = Inr x \<longleftrightarrow> (\<exists>vs. v = JList vs \<and> n < length vs \<and> x = vs ! n)"
  by (cases v) (auto simp: item_def)

lemmas part_defs = account_of_def reserve_of_def round_of_def quote_of_def int_at_def nat_of_def res_bind_Inr_iff
  as_int_Inr as_str_Inr item_Inr

lemma lookups:
  "abi_lookup AAVE_POOL_ABI ''getUserAccountData'' = Some (AAVE_POOL_ABI ! 0)"
  "abi_lookup AAVE_POOL_ABI ''getReserveData'' = Some (AAVE_POOL_ABI ! 1)"
  "abi_lookup AAVE_POOL_ABI ''repay'' = Some (AAVE_POOL_ABI ! 2)"
  "abi_lookup AAVE_POOL_ABI ''withdraw'' = Some (AAVE_POOL_ABI ! 3)"
  "abi_lookup QUOTER_V2_ABI ''quoteExactOutputSingle'' = Some (QUOTER_V2_ABI ! 0)"
  "abi_lookup SWAP_ROUTER_ABI ''exactOutputSingle'' = Some (SWAP_ROUTER_ABI ! 0)"
  "abi_lookup CHAINLINK_AGGREGATOR_ABI ''latestRoundData'' = Some (CHAINLINK_AGGREGATOR_ABI ! 0)"
  by (simp_all add: abi_lookup_def abi_defs)

lemma account_named:
  assumes "answers (AAVE_POOL_ABI ! 0) v" "account_of v = Inr (c, d, av, lt, ltv, hf)"
  shows "\<exists>vs. v = JList vs \<and> named AAVE_POOL_ABI ''getUserAccountData'' vs [(''totalCollateralBase'', JInt c), (''totalDebtBase'', JInt d),
     (''availableBorrowsBase'', JInt av), (''currentLiquidationThreshold'', JInt lt), (''ltv'', JInt ltv), (''healthFactor'', JInt hf)]"
    "list_all (\<lambda>x. 0 \<le> x \<and> x < 2 ^ 256) [c, d, av, lt, ltv, hf]"
proof -
  obtain vs where v: "v = JList vs" "fits_all (af_outputs (AAVE_POOL_ABI ! 0)) vs"
    using assms(1) by (auto simp: answers_def AAVE_POOL_ABI_def fits_A_tuple)
  then have "vs = [JInt c, JInt d, JInt av, JInt lt, JInt ltv, JInt hf]"
    using assms(2) by (auto simp: AAVE_POOL_ABI_def fits_iff part_defs)
  then show "\<exists>vs. v = JList vs \<and> named AAVE_POOL_ABI ''getUserAccountData'' vs [(''totalCollateralBase'', JInt c), (''totalDebtBase'', JInt d),
     (''availableBorrowsBase'', JInt av), (''currentLiquidationThreshold'', JInt lt), (''ltv'', JInt ltv), (''healthFactor'', JInt hf)]"
    "list_all (\<lambda>x. 0 \<le> x \<and> x < 2 ^ 256) [c, d, av, lt, ltv, hf]"
    using v by (auto simp: named_def abi_lookup_def fits_iff outputs_of_def AAVE_POOL_ABI_def abi_field_def)
qed

lemma reserve_named:
  assumes "answers (AAVE_POOL_ABI ! 1) v" "reserve_of v = Inr (c, a, d)"
  shows "\<exists>vs. v = JList vs \<and> named AAVE_POOL_ABI ''getReserveData'' vs [(''configuration'', JList [JInt c]), (''aTokenAddress'', JStr a),
     (''variableDebtTokenAddress'', JStr d)]"
proof -
  obtain vs where v: "v = JList vs" "fits_all (outputs_of (AAVE_POOL_ABI ! 1)) vs"
    using assms(1) by (auto simp: answers_def AAVE_POOL_ABI_def fits_A_tuple outputs_of_def)
  have "vs ! 0 = JList [JInt c] \<and> vs ! 8 = JStr a \<and> vs ! 10 = JStr d \<and> length vs = 15"
    using v assms(2) by (auto simp: AAVE_POOL_ABI_def outputs_of_def fits_iff part_defs)
  then show ?thesis using v
    by (intro exI [of _ vs]) (auto simp: named_def abi_lookup_def outputs_of_def AAVE_POOL_ABI_def abi_field_def fits_iff)
qed

lemma round_named:
  assumes "answers (CHAINLINK_AGGREGATOR_ABI ! 0) v" "round_of v = Inr (r, a, st, u, z)"
  shows "\<exists>vs. v = JList vs \<and> named CHAINLINK_AGGREGATOR_ABI ''latestRoundData'' vs [(''answer'', JInt a), (''updatedAt'', JInt u)]"
proof -
  obtain vs where v: "v = JList vs" "fits_all (af_outputs (CHAINLINK_AGGREGATOR_ABI ! 0)) vs"
    using assms(1) by (auto simp: answers_def CHAINLINK_AGGREGATOR_ABI_def fits_A_tuple)
  then have "vs = [JInt r, JInt a, JInt st, JInt u, JInt z]"
    using assms(2) by (auto simp: CHAINLINK_AGGREGATOR_ABI_def fits_iff part_defs)
  then show ?thesis using v
    by (intro exI [of _ vs]) (auto simp: named_def abi_lookup_def fits_iff outputs_of_def CHAINLINK_AGGREGATOR_ABI_def abi_field_def)
qed

lemma quote_named:
  assumes "answers (QUOTER_V2_ABI ! 0) v" "quote_of v = Inr (a, p, t, g)"
  shows "\<exists>vs. v = JList vs \<and> named QUOTER_V2_ABI ''quoteExactOutputSingle'' vs [(''amountIn'', JInt a), (''sqrtPriceX96After'', JInt p),
     (''initializedTicksCrossed'', JInt t), (''gasEstimate'', JInt g)]" "0 \<le> a"
proof -
  obtain vs where v: "v = JList vs" "fits_all (af_outputs (QUOTER_V2_ABI ! 0)) vs"
    using assms(1) by (auto simp: answers_def QUOTER_V2_ABI_def fits_A_tuple)
  then have "vs = [JInt a, JInt p, JInt t, JInt g]"
    using assms(2) by (auto simp: QUOTER_V2_ABI_def fits_iff part_defs)
  then show "\<exists>vs. v = JList vs \<and> named QUOTER_V2_ABI ''quoteExactOutputSingle'' vs [(''amountIn'', JInt a), (''sqrtPriceX96After'', JInt p),
     (''initializedTicksCrossed'', JInt t), (''gasEstimate'', JInt g)]" "0 \<le> a"
    using v by (auto simp: named_def abi_lookup_def fits_iff outputs_of_def QUOTER_V2_ABI_def abi_field_def)
qed

lemma lift_known: "io_bind (io_lift (Inr a)) f = f a"
  by (rule ext) (simp add: io_bind_def io_lift_def)

lemma web3_account:
  "nd_getUserAccountData (web3_node provider quoter call nd) pool user i =
     reading (call pool AAVE_POOL_ABI ''getUserAccountData'' [JStr user] i) account_of"
  by (simp add: web3_node_def)

lemma account_reads:
  assumes "decodes call"
  shows "io_post (get_user_account_data (web3_node provider quoter call nd) b) (\<lambda>u.
      (\<exists>pool user. nd_checksum nd b = Inr user \<and> answered call pool AAVE_POOL_ABI ''getUserAccountData'' [JStr user]
        [(''totalCollateralBase'', JInt (ua_total_collateral_base u)),
         (''totalDebtBase'', JInt (ua_total_debt_base u)), (''availableBorrowsBase'', JInt (ua_available_borrows_base u)),
         (''currentLiquidationThreshold'', JInt (ua_liquidation_threshold_bps u)), (''ltv'', JInt (ua_ltv_bps u)),
         (''healthFactor'', JInt (ua_health_factor u))]) \<and>
      list_all (\<lambda>x. 0 \<le> x \<and> x < 2 ^ 256) [ua_total_collateral_base u, ua_total_debt_base u, ua_available_borrows_base u,
         ua_liquidation_threshold_bps u, ua_ltv_bps u, ua_health_factor u])"
proof -
  let ?nd = "web3_node provider quoter call nd"
  let ?P = "\<lambda>user (c, d, av, lt, ltv, hf). (\<exists>pool. answered call pool AAVE_POOL_ABI ''getUserAccountData'' [JStr user]
      [(''totalCollateralBase'', JInt c), (''totalDebtBase'', JInt d),
        (''availableBorrowsBase'', JInt av), (''currentLiquidationThreshold'', JInt lt), (''ltv'', JInt ltv), (''healthFactor'', JInt hf)]) \<and>
      list_all (\<lambda>x. 0 \<le> x \<and> x < 2 ^ 256) [c, d, av, lt, ltv, hf]"
  have account: "io_post (nd_getUserAccountData ?nd pool user i) (?P user)" for pool user i
    unfolding web3_account
    by (rule reading_post [OF assms lookups(1)]) (simp only: split_paired_all prod.case,
        intro conjI exI, rule answeredI, assumption, rule account_named(1), assumption, assumption, rule account_named(2), assumption, assumption)
  show ?thesis
  proof (cases "nd_checksum nd b")
    case (Inr user)
    have got: "io_post (via ?nd (\<lambda>i. io_bind (pool_address ?nd) (\<lambda>pool. nd_getUserAccountData ?nd pool user i))) (?P user)"
      by (rule call_post, rule io_post_bind_any, rule account)
    have eq: "get_user_account_data ?nd b = io_bind (via ?nd (\<lambda>i. io_bind (pool_address ?nd) (\<lambda>pool. nd_getUserAccountData ?nd pool user i)))
       (\<lambda>(coll, debt, avail, lt, ltv, hf). io_return
         \<lparr>ua_total_collateral_base = coll, ua_total_debt_base = debt, ua_available_borrows_base = avail,
          ua_liquidation_threshold_bps = lt, ua_ltv_bps = ltv, ua_health_factor = hf\<rparr>)"
      using Inr by (simp add: get_user_account_data_def lift_known)
    have "io_post (get_user_account_data ?nd b) (\<lambda>u.
      (\<exists>pool. answered call pool AAVE_POOL_ABI ''getUserAccountData'' [JStr user]
        [(''totalCollateralBase'', JInt (ua_total_collateral_base u)),
         (''totalDebtBase'', JInt (ua_total_debt_base u)), (''availableBorrowsBase'', JInt (ua_available_borrows_base u)),
         (''currentLiquidationThreshold'', JInt (ua_liquidation_threshold_bps u)), (''ltv'', JInt (ua_ltv_bps u)),
         (''healthFactor'', JInt (ua_health_factor u))]) \<and>
      list_all (\<lambda>x. 0 \<le> x \<and> x < 2 ^ 256) [ua_total_collateral_base u, ua_total_debt_base u, ua_available_borrows_base u,
         ua_liquidation_threshold_bps u, ua_ltv_bps u, ua_health_factor u])"
      unfolding eq by (rule io_post_bind [OF got]) (simp only: split_paired_all prod.case, intro io_post_return, simp)
    then show ?thesis unfolding io_post_def using Inr by blast
  qed (simp add: get_user_account_data_def io_post_def io_bind_def io_lift_def)
qed

lemma reserve_reads:
  assumes "decodes call"
  shows "io_post (get_reserve_info (web3_node provider quoter call nd) asset) (\<lambda>r. \<exists>pool c a d.
      answered call pool AAVE_POOL_ABI ''getReserveData'' [JStr (ri_asset r)]
        [(''configuration'', JList [JInt c]), (''aTokenAddress'', JStr a), (''variableDebtTokenAddress'', JStr d)] \<and>
      nd_checksum nd asset = Inr (ri_asset r) \<and>
      nd_checksum nd a = Inr (ri_aToken_address r) \<and> nd_checksum nd d = Inr (ri_variable_debt_token_address r) \<and>
      ri_liq_threshold_bps r = config_liq_threshold c \<and> ri_liq_bonus_bps r = liq_bonus_of_raw (config_bonus_raw c))"
proof -
  let ?nd = "web3_node provider quoter call nd"
  let ?P = "\<lambda>token (c, a, d). \<exists>pool. answered call pool AAVE_POOL_ABI ''getReserveData'' [JStr token]
      [(''configuration'', JList [JInt c]), (''aTokenAddress'', JStr a), (''variableDebtTokenAddress'', JStr d)]"
  have reserve: "io_post (nd_getReserveData ?nd pool token i) (?P token)" for pool token i
    unfolding web3_node_def
    by (simp, rule reading_post [OF assms lookups(2)]) (simp only: split_paired_all prod.case,
        intro exI, rule answeredI, assumption, rule reserve_named, assumption, assumption)
  have "io_post (via ?nd (\<lambda>i. io_bind (pool_address ?nd) (\<lambda>pool. nd_getReserveData ?nd pool token i))) (?P token)" for token
    by (rule call_post, rule io_post_bind_any, rule reserve)
  then show ?thesis
    unfolding get_reserve_info_def io_post_def io_bind_Inr_iff by (fastforce simp: io_bind_Inr_iff)
qed

lemma feed_reads:
  assumes "decodes call"
  shows "io_post (get_chainlink_price st (web3_node provider quoter call nd) feed) (\<lambda>p. \<exists>addr a answer.
      dict_get (CHAINLINK_FEEDS st) feed = Some addr \<and> nd_checksum nd addr = Inr a \<and>
      answered call a CHAINLINK_AGGREGATOR_ABI ''latestRoundData'' []
        [(''answer'', JInt answer), (''updatedAt'', JInt (op_updated_at p))] \<and>
      op_price p = max answer 0)"
proof -
  let ?nd = "web3_node provider quoter call nd"
  let ?P = "\<lambda>f (_, a, _, u, _). answered call f CHAINLINK_AGGREGATOR_ABI ''latestRoundData'' []
      [(''answer'', JInt a), (''updatedAt'', JInt u)]"
  have feeds: "io_post (nd_latestRoundData ?nd f i) (?P f)" for f i
    unfolding web3_node_def
    by (simp, rule reading_post [OF assms lookups(7)]) (simp only: split_paired_all prod.case,
        rule answeredI, assumption, rule round_named, assumption, assumption)
  have "io_post (io_bind (nd_latestRoundData ?nd f i) (\<lambda>round_data. io_bind (nd_feedDecimals ?nd f i) (\<lambda>decimals.
      io_bind (nd_latestTimestamp ?nd i) (\<lambda>now. io_return (round_data, decimals, now))))) (\<lambda>(x, _). ?P f x)" for f i
    by (rule io_post_bind [OF feeds]) (intro io_post_bind_any io_post_return, auto)
  then have read: "io_post (via ?nd (\<lambda>i. io_bind (nd_latestRoundData ?nd f i) (\<lambda>round_data. io_bind (nd_feedDecimals ?nd f i) (\<lambda>decimals.
      io_bind (nd_latestTimestamp ?nd i) (\<lambda>now. io_return (round_data, decimals, now)))))) (\<lambda>(x, _). ?P f x)" for f
    by (rule call_post)
  show ?thesis
  proof (cases "dict_get (CHAINLINK_FEEDS st) feed")
    case (Some addr)
    show ?thesis
    proof (cases "nd_checksum nd addr")
      case (Inr a)
      have "io_post (io_bind (via ?nd (\<lambda>i. io_bind (nd_latestRoundData ?nd a i) (\<lambda>round_data. io_bind (nd_feedDecimals ?nd a i) (\<lambda>decimals.
          io_bind (nd_latestTimestamp ?nd i) (\<lambda>now. io_return (round_data, decimals, now))))))
          (\<lambda>(round_data, decimals, now). io_return (chainlink_price st feed round_data decimals now)))
        (\<lambda>p. \<exists>answer. answered call a CHAINLINK_AGGREGATOR_ABI ''latestRoundData'' []
          [(''answer'', JInt answer), (''updatedAt'', JInt (op_updated_at p))] \<and> op_price p = max answer 0)"
        by (rule io_post_bind [OF read]) (auto intro!: io_post_return simp: chainlink_price_def Let_def split: prod.split)
      then show ?thesis using Some Inr by (simp add: get_chainlink_price_def lift_known)
    qed (simp add: Some get_chainlink_price_def io_post_def io_bind_def io_lift_def)
  qed (simp add: get_chainlink_price_def io_post_raise)
qed

lemma quote_reads:
  assumes "decodes call"
  shows "io_post (quote_exact_output_single (web3_node provider quoter call nd) t_in t_out amount fee) (\<lambda>x.
      nd_checksum nd t_in = Inr (qt_token_in x) \<and> nd_checksum nd t_out = Inr (qt_token_out x) \<and>
      answered call quoter QUOTER_V2_ABI ''quoteExactOutputSingle''
        [JList [JStr (qt_token_in x), JStr (qt_token_out x), JInt amount, JInt (qt_fee x), JInt 0]]
        [(''amountIn'', JInt (qt_amount_in x)),
         (''sqrtPriceX96After'', JInt (qt_sqrt_price_x96_after x)), (''initializedTicksCrossed'', JInt (qt_initialized_ticks_crossed x)),
         (''gasEstimate'', JInt (qt_gas_estimate x))] \<and> 0 \<le> qt_amount_in x)"
proof -
  let ?nd = "web3_node provider quoter call nd"
  let ?P = "\<lambda>(i, out, n, f, l) (a, p, t, g). answered call quoter QUOTER_V2_ABI ''quoteExactOutputSingle''
      [JList [JStr i, JStr out, JInt n, JInt f, JInt l]] [(''amountIn'', JInt a), (''sqrtPriceX96After'', JInt p),
        (''initializedTicksCrossed'', JInt t), (''gasEstimate'', JInt g)] \<and> 0 \<le> a"
  have quotes: "io_post (nd_quoteExactOutputSingle ?nd ps i) (?P ps)" for ps i
    unfolding web3_node_def
    by (cases ps, simp, rule reading_post [OF assms lookups(5)]) (simp only: split_paired_all prod.case,
        intro conjI, rule answeredI, assumption, rule quote_named(1), assumption, assumption, rule quote_named(2), assumption, assumption)
  have "io_post (via ?nd (nd_quoteExactOutputSingle ?nd ps)) (?P ps)" for ps
    by (rule call_post, rule quotes)
  then show ?thesis
    unfolding quote_exact_output_single_def io_post_def io_bind_Inr_iff by (fastforce simp: io_bind_Inr_iff)
qed

text \<open>
  C39: with contracts that answer in the declared output types, what the readers take by position is, in an answer that the contract really gave
  to the question for that account, token, feed or swap, what the interface names: every figure of
  the account under its own name and below 2 to the 256, the configuration word and the two token addresses of a reserve, the answer and
  the time of a feed, and the four results of a quote.
\<close>

theorem reads_match_abi:
  assumes "decodes call"
  shows "io_post (get_user_account_data (web3_node provider quoter call nd) b) (\<lambda>u.
      (\<exists>pool user. nd_checksum nd b = Inr user \<and> answered call pool AAVE_POOL_ABI ''getUserAccountData'' [JStr user]
        [(''totalCollateralBase'', JInt (ua_total_collateral_base u)),
         (''totalDebtBase'', JInt (ua_total_debt_base u)), (''availableBorrowsBase'', JInt (ua_available_borrows_base u)),
         (''currentLiquidationThreshold'', JInt (ua_liquidation_threshold_bps u)), (''ltv'', JInt (ua_ltv_bps u)),
         (''healthFactor'', JInt (ua_health_factor u))]) \<and>
      list_all (\<lambda>x. 0 \<le> x \<and> x < 2 ^ 256) [ua_total_collateral_base u, ua_total_debt_base u, ua_available_borrows_base u,
         ua_liquidation_threshold_bps u, ua_ltv_bps u, ua_health_factor u]) \<and>
    io_post (get_reserve_info (web3_node provider quoter call nd) asset) (\<lambda>r. \<exists>pool c a d.
      answered call pool AAVE_POOL_ABI ''getReserveData'' [JStr (ri_asset r)]
        [(''configuration'', JList [JInt c]), (''aTokenAddress'', JStr a), (''variableDebtTokenAddress'', JStr d)] \<and>
      nd_checksum nd asset = Inr (ri_asset r) \<and>
      nd_checksum nd a = Inr (ri_aToken_address r) \<and> nd_checksum nd d = Inr (ri_variable_debt_token_address r) \<and>
      ri_liq_threshold_bps r = config_liq_threshold c \<and> ri_liq_bonus_bps r = liq_bonus_of_raw (config_bonus_raw c)) \<and>
    io_post (get_chainlink_price st (web3_node provider quoter call nd) feed) (\<lambda>p. \<exists>addr a answer.
      dict_get (CHAINLINK_FEEDS st) feed = Some addr \<and> nd_checksum nd addr = Inr a \<and>
      answered call a CHAINLINK_AGGREGATOR_ABI ''latestRoundData'' []
        [(''answer'', JInt answer), (''updatedAt'', JInt (op_updated_at p))] \<and>
      op_price p = max answer 0) \<and>
    io_post (quote_exact_output_single (web3_node provider quoter call nd) t_in t_out amount fee) (\<lambda>x.
      nd_checksum nd t_in = Inr (qt_token_in x) \<and> nd_checksum nd t_out = Inr (qt_token_out x) \<and>
      answered call quoter QUOTER_V2_ABI ''quoteExactOutputSingle''
        [JList [JStr (qt_token_in x), JStr (qt_token_out x), JInt amount, JInt (qt_fee x), JInt 0]]
        [(''amountIn'', JInt (qt_amount_in x)),
         (''sqrtPriceX96After'', JInt (qt_sqrt_price_x96_after x)), (''initializedTicksCrossed'', JInt (qt_initialized_ticks_crossed x)),
         (''gasEstimate'', JInt (qt_gas_estimate x))] \<and> 0 \<le> qt_amount_in x)"
  by (intro conjI account_reads [OF assms] reserve_reads [OF assms] feed_reads [OF assms] quote_reads [OF assms])

section \<open>What the encoders accept\<close>

text \<open>
  web3's encoder finds the function by its name and takes the arguments that fit its inputs, addresses only in their checksummed
  form; the checksum routine returns an address in that form, which it leaves as it is.
\<close>

fun checksummed :: "(string \<Rightarrow> string res) \<Rightarrow> json \<Rightarrow> bool" where
  "checksummed checksum (JStr a) = (checksum a = Inr a)"
| "checksummed checksum (JList vs) = (\<forall>v\<in>set vs. checksummed checksum v)"
| "checksummed checksum v = True"

definition encodes :: "'s node \<Rightarrow> bool" where
  "encodes nd \<longleftrightarrow> (\<forall>fn args. is_ok (nd_encode_abi nd fn args) \<longleftrightarrow> checksummed (nd_checksum nd) (JList args) \<and>
     (case abi_lookup (AAVE_POOL_ABI @ SWAP_ROUTER_ABI) fn of None \<Rightarrow> False | Some f \<Rightarrow> fits_all (af_inputs f) args)) \<and>
     (\<forall>a b. nd_checksum nd a = Inr b \<longrightarrow> address_shape b \<and> nd_checksum nd b = Inr b)"

lemma encode_lookups:
  "abi_lookup (AAVE_POOL_ABI @ SWAP_ROUTER_ABI) ''repay'' = Some (AAVE_POOL_ABI ! 2)"
  "abi_lookup (AAVE_POOL_ABI @ SWAP_ROUTER_ABI) ''withdraw'' = Some (AAVE_POOL_ABI ! 3)"
  "abi_lookup (AAVE_POOL_ABI @ SWAP_ROUTER_ABI) ''exactOutputSingle'' = Some (SWAP_ROUTER_ABI ! 0)"
  by (simp_all add: abi_lookup_def abi_defs)

lemma encode_inputs:
  "af_inputs (AAVE_POOL_ABI ! 2) = [(''asset'', A_address), (''amount'', A_uint 256), (''interestRateMode'', A_uint 256), (''onBehalfOf'', A_address)]"
  "af_inputs (AAVE_POOL_ABI ! 3) = [(''asset'', A_address), (''amount'', A_uint 256), (''to'', A_address)]"
  "af_inputs (SWAP_ROUTER_ABI ! 0) = [(''params'', A_tuple [(''tokenIn'', A_address), (''tokenOut'', A_address), (''fee'', A_uint 24),
     (''recipient'', A_address), (''amountOut'', A_uint 256), (''amountInMaximum'', A_uint 256), (''sqrtPriceLimitX96'', A_uint 160)])]"
  by (simp_all add: abi_defs)

text \<open>
  The calldata of a repayment, a withdrawal or a swap is built exactly when every address can be checksummed and every amount
  is a word of 256 bits, for the swap also a fee of 24 bits: the arguments are in the order and of the types the interfaces declare, and a negative or
  larger amount raises before anything is sent.
\<close>

lemma encoders_total_on_words:
  assumes "encodes nd"
  shows "(is_ok (encode_repay nd asset n b) \<longleftrightarrow> is_ok (nd_checksum nd asset) \<and> is_ok (nd_checksum nd b) \<and> 0 \<le> n \<and> n < 2 ^ 256) \<and>
    (is_ok (encode_withdraw nd asset n b) \<longleftrightarrow> is_ok (nd_checksum nd asset) \<and> is_ok (nd_checksum nd b) \<and> 0 \<le> n \<and> n < 2 ^ 256) \<and>
    (is_ok (encode_exact_output_single nd asset c fee b n m) \<longleftrightarrow> is_ok (nd_checksum nd asset) \<and> is_ok (nd_checksum nd c) \<and>
       is_ok (nd_checksum nd b) \<and> 0 \<le> fee \<and> fee < 2 ^ 24 \<and> 0 \<le> n \<and> n < 2 ^ 256 \<and> 0 \<le> m \<and> m < 2 ^ 256)"
proof (intro conjI)
  note enc = assms [unfolded encodes_def, THEN conjunct1, rule_format]
  note addr = assms [unfolded encodes_def, THEN conjunct2, rule_format]
  note facts = enc encode_lookups encode_inputs fits_iff
  show "is_ok (encode_repay nd asset n b) \<longleftrightarrow> is_ok (nd_checksum nd asset) \<and> is_ok (nd_checksum nd b) \<and> 0 \<le> n \<and> n < 2 ^ 256"
    using addr [of asset] addr [of b] unfolding encode_repay_def
    by (cases "nd_checksum nd asset"; cases "nd_checksum nd b") (simp_all add: facts VARIABLE_RATE_MODE_def)
  show "is_ok (encode_withdraw nd asset n b) \<longleftrightarrow> is_ok (nd_checksum nd asset) \<and> is_ok (nd_checksum nd b) \<and> 0 \<le> n \<and> n < 2 ^ 256"
    using addr [of asset] addr [of b] unfolding encode_withdraw_def
    by (cases "nd_checksum nd asset"; cases "nd_checksum nd b") (simp_all add: facts)
  show "is_ok (encode_exact_output_single nd asset c fee b n m) \<longleftrightarrow> is_ok (nd_checksum nd asset) \<and> is_ok (nd_checksum nd c) \<and>
       is_ok (nd_checksum nd b) \<and> 0 \<le> fee \<and> fee < 2 ^ 24 \<and> 0 \<le> n \<and> n < 2 ^ 256 \<and> 0 \<le> m \<and> m < 2 ^ 256"
    using addr [of asset] addr [of b] addr [of c] unfolding encode_exact_output_single_def
    by (cases "nd_checksum nd asset"; cases "nd_checksum nd b"; cases "nd_checksum nd c") (auto simp: facts)
qed

section \<open>An example\<close>

definition ZERO_ADDRESS :: string where
  "ZERO_ADDRESS = ''0x'' @ replicate 40 (CHR ''0'')"

fun zero_of :: "abi_type \<Rightarrow> json" where
  "zero_of (A_uint n) = JInt 0"
| "zero_of (A_int n) = JInt 0"
| "zero_of A_address = JStr ZERO_ADDRESS"
| "zero_of A_bool = JBool False"
| "zero_of A_string = JStr []"
| "zero_of (A_tuple ps) = JList (map (\<lambda>p. zero_of (snd p)) ps)"

lemma zero_address: "address_shape ZERO_ADDRESS"
  by (simp add: address_shape_def ZERO_ADDRESS_def hex_digit_def list_all_iff)

lemma zeros_fit: "(\<And>p. p \<in> set ps \<Longrightarrow> fits (snd p) (zero_of (snd p))) \<Longrightarrow> fits_all ps (map (\<lambda>p. zero_of (snd p)) ps)"
  by (induction ps) (simp_all add: fits_all_Cons)

lemma zero_fits: "fits t (zero_of t)"
  by (induction t rule: zero_of.induct) (auto simp: fits_iff zero_address intro!: zeros_fit, simp_all add: fits.simps)

text \<open>Contracts on which everything is zero, but for one account.\<close>

definition quiet_call :: "'s contract_call" where
  "quiet_call a abi fn args i = io_return
     (if fn = ''getUserAccountData'' \<and> abi = AAVE_POOL_ABI then JList [JInt 8, JInt 6, JInt 0, JInt 8250, JInt 8000, JInt 11]
      else case abi_lookup abi fn of None \<Rightarrow> JNone | Some f \<Rightarrow> (case af_outputs f of [p] \<Rightarrow> zero_of (snd p) | ps \<Rightarrow> zero_of (A_tuple ps)))"

lemma quiet_decodes: "decodes quiet_call"
  unfolding decodes_def
proof (intro allI impI)
  fix a :: string and abi fn args i f
  assume f: "abi_lookup abi fn = Some f"
  have zero: "answers f (case af_outputs f of [p] \<Rightarrow> zero_of (snd p) | ps \<Rightarrow> zero_of (A_tuple ps))"
    by (auto simp: answers_def fits_iff zero_fits zeros_fit split: list.split)
  have "answers f (JList [JInt 8, JInt 6, JInt 0, JInt 8250, JInt 8000, JInt 11])" if "fn = ''getUserAccountData''" "abi = AAVE_POOL_ABI"
    using f that by (simp add: lookups) (auto simp: answers_def AAVE_POOL_ABI_def fits_iff)
  then show "io_post (quiet_call a abi fn args i) (answers f)"
    using f zero by (auto simp: quiet_call_def io_post_return)
qed

definition demo_reader :: "unit clients_state_scheme" where
  "demo_reader = \<lparr>ch_client = \<lparr>cl_urls = [''rpc''], cl_max_retries = 3, cl_active = 0, cl_contracts = []\<rparr>,
     ch_pool_address = Some ''pool'', ch_oracle_address = Some ''oracle'', ch_decimals = []\<rparr>"

lemma demo_reader_ready: "ready demo_reader"
  by (simp add: ready_def demo_reader_def)

theorem reads_match_abi_witness:
  "\<exists>u. fst (get_user_account_data (web3_node ''provider'' ''quoter'' quiet_call (const_node (0, 0, 0, 0, 0, 0) 0 0 0 0)) ''alice'' demo_reader) = Inr u \<and>
    ua_total_debt_base u = 6 \<and> (\<exists>pool. answered (quiet_call :: unit clients_state_scheme contract_call) pool AAVE_POOL_ABI ''getUserAccountData'' [JStr ''alice'']
      [(''totalCollateralBase'', JInt 8), (''totalDebtBase'', JInt 6),
      (''availableBorrowsBase'', JInt 0), (''currentLiquidationThreshold'', JInt 8250), (''ltv'', JInt 8000), (''healthFactor'', JInt 11)])"
proof -
  let ?base = "const_node (0, 0, 0, 0, 0, 0) 0 0 0 0 :: unit clients_state_scheme node"
  let ?nd = "web3_node ''provider'' ''quoter'' quiet_call ?base"
  have c: "nd_checksum ?base a = Inr a" "nd_checksum ?nd a = Inr a" for a
    by (simp_all add: const_node_def)
  have v: "via ?nd (\<lambda>i. io_bind (pool_address ?nd) (\<lambda>pool. nd_getUserAccountData ?nd pool ''alice'' i)) demo_reader =
      (Inr (8, 6, 0, 8250, 8000, 11), demo_reader)"
    by (intro via_ready demo_reader_ready)
      (simp add: io_bind_def pool_ready demo_reader_ready web3_node_def reading_def quiet_call_def io_return_def io_lift_def part_defs account_of_def
        int_at_def item_def as_int_def)
  let ?u = "\<lparr>ua_total_collateral_base = 8, ua_total_debt_base = 6, ua_available_borrows_base = 0,
     ua_liquidation_threshold_bps = 8250, ua_ltv_bps = 8000, ua_health_factor = 11\<rparr>"
  have u: "get_user_account_data ?nd ''alice'' demo_reader = (Inr ?u, demo_reader)"
    unfolding get_user_account_data_def by (simp add: io_bind_def io_lift_def v io_return_def c(2) del: web3_node_sel)
  show ?thesis
    using io_postD [OF conjunct1 [OF reads_match_abi [OF quiet_decodes]] u] u c(1) by (intro exI [of _ ?u]) auto
qed

definition word_checksum :: "string \<Rightarrow> string res" where
  "word_checksum a = (if address_shape a then Inr a else Inl (ValueError a))"

definition word_node :: "'s node" where
  "word_node = (const_node (0, 0, 0, 0, 0, 0) 0 0 0 0)\<lparr>nd_checksum := word_checksum,
     nd_encode_abi := (\<lambda>fn args. case abi_lookup (AAVE_POOL_ABI @ SWAP_ROUTER_ABI) fn of None \<Rightarrow> Inl (ValueError fn)
       | Some f \<Rightarrow> if fits_all (af_inputs f) args \<and> checksummed word_checksum (JList args) then Inr ''0x'' else Inl (ValueError fn))\<rparr>"

lemma word_node_encodes: "encodes word_node"
  by (auto simp: encodes_def word_node_def word_checksum_def split: option.split if_splits)

lemma encoders_total_on_words_witness:
  "is_ok (encode_repay (word_node :: unit node) ZERO_ADDRESS (2 ^ 256 - 1) ZERO_ADDRESS) \<and> \<not> is_ok (encode_repay (word_node :: unit node) ZERO_ADDRESS (2 ^ 256) ZERO_ADDRESS) \<and>
   \<not> is_ok (encode_withdraw (word_node :: unit node) ZERO_ADDRESS (- 1) ZERO_ADDRESS) \<and> \<not> is_ok (encode_repay (word_node :: unit node) ''alice'' 1 ZERO_ADDRESS) \<and>
   is_ok (encode_exact_output_single (word_node :: unit node) ZERO_ADDRESS ZERO_ADDRESS 500 ZERO_ADDRESS 1 2)"
proof -
  let ?nd = "word_node :: unit node"
  have c: "is_ok (nd_checksum ?nd ZERO_ADDRESS)" "\<not> is_ok (nd_checksum ?nd ''alice'')"
    by (simp_all add: word_node_def word_checksum_def zero_address) (simp add: address_shape_def)
  show ?thesis by (simp add: encoders_total_on_words [OF word_node_encodes] c)
qed
end
