(* ===== verification/Demo_ABI.thy ===== *)
theory Demo_ABI
  imports Contract_ABI
begin

text \<open>
  The interfaces the seeding script declares for itself (\<^verbatim>\<open>tools/seed_demo.py\<close>), next to those of the backend. The script lists the
  outputs of \<^verbatim>\<open>getReserveData\<close> one by one where the backend has one tuple of them; all of them are static, so the names stand at
  the same positions.
\<close>

definition SEED_WETH_ABI :: "abi_function list" where
  "SEED_WETH_ABI =
    [\<lparr>af_name = ''deposit'', af_mutability = ''payable'', af_inputs = [], af_outputs = []\<rparr>,
     \<lparr>af_name = ''approve'', af_mutability = ''nonpayable'', af_inputs = [(''s'', A_address), (''a'', A_uint 256)],
      af_outputs = [('''', A_bool)]\<rparr>]"

definition SEED_POOL_ABI :: "abi_function list" where
  "SEED_POOL_ABI =
    [\<lparr>af_name = ''supply'', af_mutability = ''nonpayable'',
      af_inputs = [(''a'', A_address), (''amt'', A_uint 256), (''o'', A_address), (''r'', A_uint 16)], af_outputs = []\<rparr>,
     \<lparr>af_name = ''borrow'', af_mutability = ''nonpayable'',
      af_inputs = [(''a'', A_address), (''amt'', A_uint 256), (''m'', A_uint 256), (''r'', A_uint 16), (''o'', A_address)], af_outputs = []\<rparr>,
     \<lparr>af_name = ''setUserUseReserveAsCollateral'', af_mutability = ''nonpayable'',
      af_inputs = [(''a'', A_address), (''u'', A_bool)], af_outputs = []\<rparr>,
     \<lparr>af_name = ''getUserAccountData'', af_mutability = ''view'', af_inputs = [(''user'', A_address)],
      af_outputs = [(''totalCollateralBase'', A_uint 256), (''totalDebtBase'', A_uint 256),
        (''availableBorrowsBase'', A_uint 256), (''currentLiquidationThreshold'', A_uint 256),
        (''ltv'', A_uint 256), (''healthFactor'', A_uint 256)]\<rparr>,
     \<lparr>af_name = ''getReserveData'', af_mutability = ''view'', af_inputs = [(''asset'', A_address)],
      af_outputs = [(''configuration'', A_tuple [(''data'', A_uint 256)]),
        (''liquidityIndex'', A_uint 128), (''currentLiquidityRate'', A_uint 128), (''variableBorrowIndex'', A_uint 128),
        (''currentVariableBorrowRate'', A_uint 128), (''currentStableBorrowRate'', A_uint 128),
        (''lastUpdateTimestamp'', A_uint 40), (''id'', A_uint 16), (''aTokenAddress'', A_address),
        (''stableDebtTokenAddress'', A_address), (''variableDebtTokenAddress'', A_address),
        (''interestRateStrategyAddress'', A_address), (''accruedToTreasury'', A_uint 128),
        (''unbacked'', A_uint 128), (''isolationModeTotalDebt'', A_uint 128)]\<rparr>]"

definition SEED_PROVIDER_ABI :: "abi_function list" where
  "SEED_PROVIDER_ABI =
    [\<lparr>af_name = ''getPool'', af_mutability = ''view'', af_inputs = [], af_outputs = [('''', A_address)]\<rparr>,
     \<lparr>af_name = ''getPriceOracle'', af_mutability = ''view'', af_inputs = [], af_outputs = [('''', A_address)]\<rparr>]"

definition SEED_ORACLE_ABI :: "abi_function list" where
  "SEED_ORACLE_ABI =
    [\<lparr>af_name = ''getAssetPrice'', af_mutability = ''view'', af_inputs = [(''asset'', A_address)], af_outputs = [('''', A_uint 256)]\<rparr>]"

definition SEED_ATOKEN_ABI :: "abi_function list" where
  "SEED_ATOKEN_ABI =
    [\<lparr>af_name = ''approve'', af_mutability = ''nonpayable'', af_inputs = [(''s'', A_address), (''a'', A_uint 256)],
      af_outputs = [('''', A_bool)]\<rparr>,
     \<lparr>af_name = ''allowance'', af_mutability = ''view'', af_inputs = [(''o'', A_address), (''s'', A_address)],
      af_outputs = [('''', A_uint 256)]\<rparr>]"

lemmas seed_abi_defs = SEED_WETH_ABI_def SEED_POOL_ABI_def SEED_PROVIDER_ABI_def SEED_ORACLE_ABI_def SEED_ATOKEN_ABI_def

text \<open>The same call: the types of the arguments, whatever their names, and the named outputs.\<close>

definition same_call :: "abi_function \<Rightarrow> abi_function \<Rightarrow> bool" where
  "same_call f g \<longleftrightarrow> map snd (af_inputs f) = map snd (af_inputs g) \<and> outputs_of f = outputs_of g \<and> af_mutability f = af_mutability g"

lemma seed_reads_as_backend:
  assumes "(nm, seed_abi, abi) \<in> {(''getUserAccountData'', SEED_POOL_ABI, AAVE_POOL_ABI), (''getReserveData'', SEED_POOL_ABI, AAVE_POOL_ABI),
    (''getPool'', SEED_PROVIDER_ABI, POOL_ADDRESSES_PROVIDER_ABI), (''getPriceOracle'', SEED_PROVIDER_ABI, POOL_ADDRESSES_PROVIDER_ABI),
    (''getAssetPrice'', SEED_ORACLE_ABI, AAVE_ORACLE_ABI), (''allowance'', SEED_ATOKEN_ABI, ERC20_ABI)}"
  shows "\<exists>f g. abi_lookup seed_abi nm = Some f \<and> abi_lookup abi nm = Some g \<and> same_call f g"
  using assms by (auto simp: abi_lookup_def abi_defs seed_abi_defs same_call_def outputs_of_def)

text \<open>\<^verbatim>\<open>reserve[8]\<close> of the script is the aToken the backend reads.\<close>

lemma seed_atoken:
  assumes "abi_lookup SEED_POOL_ABI ''getReserveData'' = Some f" "fits_all (outputs_of f) vs"
  shows "abi_field (outputs_of f) vs ''aTokenAddress'' = Some (vs ! 8)"
  using assms by (auto simp: abi_lookup_def SEED_POOL_ABI_def outputs_of_def abi_field_def fits_all_Cons)

end
