(* ===== verification/Demo_Seeding.thy ===== *)
theory Demo_Seeding
  imports Agent_Guard Agent_Tools
begin

text \<open>
  The scripts that set up the demonstration fork: \<^verbatim>\<open>tools/seed_demo.py\<close> and \<^verbatim>\<open>tools/seed_all_demo_wallets.py\<close>. The
  forked chain, its wallets and the build artifact are parameters; every transaction that is sent is written down in the state, as is the
  \<^verbatim>\<open>.env\<close> file, which the scripts read and write as text. What they print is left out.
\<close>

section \<open>The environment file\<close>

text \<open>
  The file as its lines, since neither regular expression crosses one. \<open>read_vault\<close> is
  \<^verbatim>\<open>re.search(r"^VAULT_ADDRESS=(.*)$", text, re.MULTILINE)\<close> with the group stripped, \<open>write_vault\<close> is
  \<^verbatim>\<open>re.sub(r"VAULT_ADDRESS=.*", ...)\<close>, which is not anchored at the start of a line.
\<close>

definition VAULT_KEY :: string where
  "VAULT_KEY = ''VAULT_ADDRESS=''"

definition read_vault :: "string list \<Rightarrow> string" where
  "read_vault ls = (case find (prefix VAULT_KEY) ls of None \<Rightarrow> [] | Some l \<Rightarrow> py_strip (drop (length VAULT_KEY) l))"

fun rewrite_line :: "string \<Rightarrow> string \<Rightarrow> string" where
  "rewrite_line v [] = []"
| "rewrite_line v (c # cs) = (if prefix VAULT_KEY (c # cs) then VAULT_KEY @ v else c # rewrite_line v cs)"

definition write_vault :: "string \<Rightarrow> string list \<Rightarrow> string list" where
  "write_vault v ls = map (rewrite_line v) ls"

lemma rewrite_line_cases: "rewrite_line v l = l \<or> (\<exists>pre r. l = pre @ VAULT_KEY @ r \<and> rewrite_line v l = pre @ VAULT_KEY @ v)"
proof (induction l)
  case (Cons c cs)
  show ?case
  proof (cases "prefix VAULT_KEY (c # cs)")
    case True
    then obtain r where "c # cs = [] @ VAULT_KEY @ r" by (auto elim: prefixE)
    moreover have "rewrite_line v (c # cs) = [] @ VAULT_KEY @ v" using True by simp
    ultimately show ?thesis by blast
  next
    case False
    then show ?thesis using Cons.IH by (auto intro: exI [of _ "c # _"])
  qed
qed simp

lemma prefix_take: "prefix k l \<longleftrightarrow> take (length k) l = k"
  by (metis append_eq_conv_conj append_take_drop_id prefixE prefixI)

lemma rewrite_same_key: "prefix VAULT_KEY (rewrite_line v l) \<longleftrightarrow> prefix VAULT_KEY l"
  using rewrite_line_cases [of v l] by (auto simp: prefix_take)

lemma rewrite_prefixed: "prefix VAULT_KEY l \<Longrightarrow> rewrite_line v l = VAULT_KEY @ v"
  by (cases l) (auto simp: VAULT_KEY_def)

lemma find_map_same: "(\<And>x. P (f x) = P x) \<Longrightarrow> find P (map f xs) = map_option f (find P xs)"
  by (induction xs) auto

text \<open>
  What is written is read back exactly when the file has a line for the address already; otherwise the address is lost, whatever
  the rest of the file says.
\<close>

lemma env_vault_roundtrip:
  assumes "py_strip v = v"
  shows "read_vault (write_vault v ls) = (if \<exists>l\<in>set ls. prefix VAULT_KEY l then v else [])"
proof -
  have "find (prefix VAULT_KEY) (write_vault v ls) = map_option (rewrite_line v) (find (prefix VAULT_KEY) ls)"
    unfolding write_vault_def by (rule find_map_same) (rule rewrite_same_key)
  note found = this
  show ?thesis
  proof (cases "find (prefix VAULT_KEY) ls")
    case None
    then show ?thesis by (simp add: read_vault_def found) (simp add: find_None_iff)
  next
    case (Some l)
    then have l: "l \<in> set ls" "prefix VAULT_KEY l" by (auto simp: find_Some_iff)
    then show ?thesis using assms Some by (auto simp: read_vault_def found rewrite_prefixed)
  qed
qed


section \<open>The fork\<close>

text \<open>What the scripts send; the first argument is the sender. The reads and the receipts are web3 and the forked chain.\<close>

datatype fork_tx =
    Deploy_vault string string
  | Deposit_weth string int | Approve_weth string string int | Supply_weth string int | Use_weth string
  | Borrow_usdc string int | Approve_atoken string string string int

record fork_state =
  fs_env :: "string list option"
  fs_sent :: "fork_tx list"

type_synonym 'z fs = "'z fork_state_scheme"

record 's fork =
  fk_accounts :: "('s, string list) io"
  fk_getPool :: "('s, string) io"
  fk_getPriceOracle :: "('s, string) io"
  fk_account_data :: "string \<Rightarrow> string \<Rightarrow> ('s, account_tuple) io"
  fk_price :: "string \<Rightarrow> string \<Rightarrow> ('s, int) io"
  fk_aToken :: "string \<Rightarrow> string \<Rightarrow> ('s, string) io"
  fk_allowance :: "string \<Rightarrow> string \<Rightarrow> string \<Rightarrow> ('s, int) io"
  fk_code :: "string \<Rightarrow> ('s, string) io"
  fk_artifact :: "('s, unit) io"
  fk_send :: "fork_tx \<Rightarrow> ('s, string) io"
  fk_wallet :: "nat \<Rightarrow> string"
  fk_checksum :: "string \<Rightarrow> string res"

text \<open>\<^verbatim>\<open>transact\<close> and the wait for the receipt, whose contract address matters for a deployment.\<close>

definition send :: "'z fs fork \<Rightarrow> fork_tx \<Rightarrow> ('z fs, string) io" where
  "send fk tx s = fk_send fk tx (s\<lparr>fs_sent := fs_sent s @ [tx]\<rparr>)"

definition MAX_ALLOWANCE :: int where "MAX_ALLOWANCE = 2 ^ 256 - 1"

section \<open>seed\_demo.py\<close>

definition TARGET_HF :: pyfloat where "TARGET_HF = to_float (114 / 100)"
definition HF_TOLERANCE :: pyfloat where "HF_TOLERANCE = to_float (2 / 100)"
definition SUPPLY_WETH :: int where "SUPPLY_WETH = 5"

text \<open>\<^verbatim>\<open>x / 1e18\<close>: the integer becomes a float before the division.\<close>

definition per_wad :: "int \<Rightarrow> pyfloat res" where
  "per_wad x = res_bind (float_of_int x) (\<lambda>f. fdiv f (to_float (10 ^ 18)))"

definition seed_hf :: "account_tuple \<Rightarrow> pyfloat res" where
  "seed_hf account_data = (case account_data of (_, debt, _, _, _, hf) \<Rightarrow>
     if debt = 0 then Inr PInf else per_wad hf)"

definition configured_vault :: "'z fs \<Rightarrow> string" where
  "configured_vault s = (case fs_env s of None \<Rightarrow> [] | Some ls \<Rightarrow> read_vault ls)"

definition write_vault_address :: "string \<Rightarrow> ('z fs, unit) io" where
  "write_vault_address v s = (case fs_env s of None \<Rightarrow> (Inr (), s) | Some ls \<Rightarrow> (Inr (), s\<lparr>fs_env := Some (write_vault v ls)\<rparr>))"

text \<open>Code is a string of bytes; the empty one and a single zero byte count as none.\<close>

definition has_code :: "string \<Rightarrow> bool" where
  "has_code code \<longleftrightarrow> code \<noteq> [] \<and> code \<noteq> [char_of (0 :: nat)]"

definition deploy_vault :: "'z fs fork \<Rightarrow> string \<Rightarrow> string \<Rightarrow> ('z fs, string) io" where
  "deploy_vault fk deployer keeper =
     io_bind (fk_artifact fk) (\<lambda>_.
     io_bind (send fk (Deploy_vault deployer keeper)) (\<lambda>vault_addr.
     io_bind (write_vault_address vault_addr) (\<lambda>_. io_return vault_addr)))"

definition ensure_vault :: "'z fs fork \<Rightarrow> string \<Rightarrow> string \<Rightarrow> ('z fs, string) io" where
  "ensure_vault fk deployer keeper s =
     (let existing = configured_vault s in
      if existing \<noteq> [] then
        io_bind (io_lift (fk_checksum fk existing)) (\<lambda>a. io_bind (fk_code fk a) (\<lambda>code.
          if has_code code then io_return existing else deploy_vault fk deployer keeper)) s
      else deploy_vault fk deployer keeper s)"

definition supply_collateral :: "'z fs fork \<Rightarrow> string \<Rightarrow> string \<Rightarrow> int \<Rightarrow> ('z fs, unit) io" where
  "supply_collateral fk pool borrower supply_wei =
     io_bind (send fk (Deposit_weth borrower supply_wei)) (\<lambda>_.
     io_bind (send fk (Approve_weth borrower pool MAX_ALLOWANCE)) (\<lambda>_.
     io_bind (send fk (Supply_weth borrower supply_wei)) (\<lambda>_.
     io_bind (send fk (Use_weth borrower)) (\<lambda>_. io_return ()))))"

definition debt_at_target :: "int \<Rightarrow> int \<Rightarrow> pyfloat \<Rightarrow> int res" where
  "debt_at_target collateral_base lt_bps target =
     res_bind (int_truediv lt_bps 10000) (\<lambda>lt. res_bind (int_fmul collateral_base lt) (\<lambda>limit.
     res_bind (fdiv limit target) int_of_float))"

definition borrow_shortfall :: "'z fs fork \<Rightarrow> string \<Rightarrow> string \<Rightarrow> int \<Rightarrow> ('z fs, unit) io" where
  "borrow_shortfall fk oracle borrower shortfall_base =
     io_bind (io_lift (fk_checksum fk (USDC))) (\<lambda>usdc.
     io_bind (fk_price fk oracle usdc) (\<lambda>usdc_price.
     if usdc_price = 0 then io_raise (ZeroDivisionError ''integer division or modulo by zero'') else
     io_bind (send fk (Borrow_usdc borrower (shortfall_base * 10 ^ 6 div usdc_price))) (\<lambda>_. io_return ())))"


text \<open>The part of \<^verbatim>\<open>seed\<close> after the vault is there: collateral only where there is none, debt up to the target, the allowance once.\<close>

definition seed_collateral :: "'z fs fork \<Rightarrow> string \<Rightarrow> string \<Rightarrow> account_tuple \<Rightarrow> ('z fs, unit) io" where
  "seed_collateral fk pool borrower before =
     (if fst before = 0 then supply_collateral fk pool borrower (SUPPLY_WETH * 10 ^ 18) else io_return ())"

definition seed_debt :: "'z fs fork \<Rightarrow> string \<Rightarrow> string \<Rightarrow> account_tuple \<Rightarrow> ('z fs, unit) io" where
  "seed_debt fk oracle borrower current = (case current of (collateral_base, debt_base, _, lt_bps, _, _) \<Rightarrow>
     io_bind (io_lift (debt_at_target collateral_base lt_bps TARGET_HF)) (\<lambda>target.
     io_bind (io_lift (seed_hf current)) (\<lambda>hf_now.
     if \<not> feq hf_now PInf \<and> fle (fabs (fsub hf_now TARGET_HF)) HF_TOLERANCE then io_return ()
     else if target - debt_base \<le> 0 then io_return ()
     else borrow_shortfall fk oracle borrower (target - debt_base))))"

definition seed_allowance :: "'z fs fork \<Rightarrow> string \<Rightarrow> string \<Rightarrow> string \<Rightarrow> ('z fs, unit) io" where
  "seed_allowance fk pool borrower vault =
     io_bind (io_lift (fk_checksum fk WETH)) (\<lambda>weth.
     io_bind (fk_aToken fk pool weth) (\<lambda>atoken.
     io_bind (io_lift (fk_checksum fk vault)) (\<lambda>spender.
     io_bind (fk_allowance fk atoken borrower spender) (\<lambda>a.
     if a = 0 then io_bind (send fk (Approve_atoken borrower atoken spender MAX_ALLOWANCE)) (\<lambda>_. io_return ())
     else io_return ()))))"

definition seed :: "'z fs fork \<Rightarrow> bool \<Rightarrow> ('z fs, unit) io" where
  "seed fk status_only =
     (let keeper = fk_wallet fk 0; borrower = fk_wallet fk 1 in
      io_bind (fk_accounts fk) (\<lambda>accounts.
      io_bind (fk_getPool fk) (\<lambda>pool.
      io_bind (fk_getPriceOracle fk) (\<lambda>oracle.
      io_bind (fk_account_data fk pool borrower) (\<lambda>before.
      io_bind (io_lift (seed_hf before)) (\<lambda>_.
      if status_only then io_return ()
      else case accounts of [] \<Rightarrow> io_raise (OtherError ''list index out of range'')
        | deployer # _ \<Rightarrow>
          io_bind (ensure_vault fk deployer keeper) (\<lambda>vault.
          io_bind (seed_collateral fk pool borrower before) (\<lambda>_.
          io_bind (fk_account_data fk pool borrower) (\<lambda>current.
          io_bind (seed_debt fk oracle borrower current) (\<lambda>_.
          io_bind (seed_allowance fk pool borrower vault) (\<lambda>_.
          io_bind (fk_account_data fk pool borrower) (\<lambda>after.
          io_bind (io_lift (seed_hf after)) (\<lambda>_. io_return ())))))))))))))"

section \<open>seed\_all\_demo\_wallets.py\<close>

text \<open>Wallet, collateral in wei and target of the four accounts.\<close>

definition WALLETS :: "(nat \<times> int \<times> pyfloat) list" where
  "WALLETS = [(1, 5 * 10 ^ 18, to_float (114 / 100)), (2, 10 * 10 ^ 18, to_float (1095 / 1000)),
     (3, 25 * 10 ^ 17, to_float (1075 / 1000)), (4, 8 * 10 ^ 18, to_float (1195 / 1000))]"

definition seed_wallet :: "'z fs fork \<Rightarrow> string \<Rightarrow> string \<Rightarrow> string \<Rightarrow> string \<Rightarrow> nat \<times> int \<times> pyfloat \<Rightarrow> ('z fs, unit) io" where
  "seed_wallet fk pool oracle aweth vault cfg = (case cfg of (idx, supply_wei, target) \<Rightarrow>
     let addr = fk_wallet fk idx in
     io_bind (fk_account_data fk pool addr) (\<lambda>uad.
     io_bind (if fst uad = 0 then supply_collateral fk pool addr supply_wei else io_return ()) (\<lambda>_.
     io_bind (fk_account_data fk pool addr) (\<lambda>uad_mid. case uad_mid of (col_base, debt_base, _, lt_bps, _, _) \<Rightarrow>
     io_bind (io_lift (debt_at_target col_base lt_bps target)) (\<lambda>target_debt_base.
     io_bind (if 0 < target_debt_base - debt_base then borrow_shortfall fk oracle addr (target_debt_base - debt_base)
       else io_return ()) (\<lambda>_.
     io_bind (if vault \<noteq> [] then io_bind (io_lift (fk_checksum fk vault)) (\<lambda>spender.
         io_bind (send fk (Approve_atoken addr aweth spender MAX_ALLOWANCE)) (\<lambda>_. io_return ()))
       else io_return ()) (\<lambda>_.
     io_bind (fk_account_data fk pool addr) (\<lambda>final. case final of (_, debt, _, _, _, hf) \<Rightarrow>
     io_bind (io_lift (if 0 < debt then per_wad hf else Inr (Fin 999))) (\<lambda>_. io_return ())))))))))"

fun seed_wallets :: "'z fs fork \<Rightarrow> string \<Rightarrow> string \<Rightarrow> string \<Rightarrow> string \<Rightarrow> (nat \<times> int \<times> pyfloat) list \<Rightarrow> ('z fs, unit) io" where
  "seed_wallets fk pool oracle aweth vault [] = io_return ()"
| "seed_wallets fk pool oracle aweth vault (cfg # cfgs) =
     io_bind (seed_wallet fk pool oracle aweth vault cfg) (\<lambda>_. seed_wallets fk pool oracle aweth vault cfgs)"

definition seed_all :: "'z fs fork \<Rightarrow> ('z fs, unit) io" where
  "seed_all fk =
     io_bind (fk_getPool fk) (\<lambda>pool.
     io_bind (fk_getPriceOracle fk) (\<lambda>oracle s. case fs_env s of
       None \<Rightarrow> (Inl (OSError ''No such file or directory''), s)
     | Some ls \<Rightarrow>
         io_bind (io_lift (fk_checksum fk WETH)) (\<lambda>weth.
         io_bind (fk_aToken fk pool weth) (\<lambda>aweth.
         seed_wallets fk pool oracle aweth (read_vault ls) WALLETS)) s))"

section \<open>Running the seed again\<close>

text \<open>
  The chain as a second run finds it: every read answers without changing anything, the borrower has collateral and is within
  the tolerance, the allowance stands, and the address in the file has code.
\<close>

definition seeded :: "'z fs fork \<Rightarrow> 'z fs \<Rightarrow> bool" where
  "seeded fk s \<longleftrightarrow> (\<exists>deployer rest pool oracle acc hf target a code weth atoken spender n.
     fk_accounts fk s = (Inr (deployer # rest), s) \<and> fk_getPool fk s = (Inr pool, s) \<and> fk_getPriceOracle fk s = (Inr oracle, s) \<and>
     fk_account_data fk pool (fk_wallet fk 1) s = (Inr acc, s) \<and> fst acc \<noteq> 0 \<and> seed_hf acc = Inr hf \<and> \<not> feq hf PInf \<and>
     fle (fabs (fsub hf TARGET_HF)) HF_TOLERANCE \<and> debt_at_target (fst acc) (fst (snd (snd (snd acc)))) TARGET_HF = Inr target \<and>
     configured_vault s \<noteq> [] \<and> fk_checksum fk (configured_vault s) = Inr a \<and> fk_code fk a s = (Inr code, s) \<and> has_code code \<and>
     fk_checksum fk WETH = Inr weth \<and> fk_aToken fk pool weth s = (Inr atoken, s) \<and> spender = a \<and>
     fk_allowance fk atoken (fk_wallet fk 1) spender s = (Inr n, s) \<and> n \<noteq> 0)"

lemma seed_again_sends_nothing:
  assumes "seeded fk s"
  shows "seed fk False s = (Inr (), s)"
  using assms unfolding seeded_def
  by (auto simp: seed_def seed_collateral_def seed_debt_def seed_allowance_def ensure_vault_def io_bind_def io_lift_def io_return_def Let_def
      split: prod.splits)

text \<open>Asking for the status sends nothing at all and writes nothing.\<close>

definition fork_reads :: "'z fs fork \<Rightarrow> bool" where
  "fork_reads fk \<longleftrightarrow> (\<forall>s r s'. (fk_accounts fk s = (r, s') \<longrightarrow> fs_sent s' = fs_sent s \<and> fs_env s' = fs_env s)) \<and>
     (\<forall>s r s'. fk_getPool fk s = (r, s') \<longrightarrow> fs_sent s' = fs_sent s \<and> fs_env s' = fs_env s) \<and>
     (\<forall>s r s'. fk_getPriceOracle fk s = (r, s') \<longrightarrow> fs_sent s' = fs_sent s \<and> fs_env s' = fs_env s) \<and>
     (\<forall>p b s r s'. fk_account_data fk p b s = (r, s') \<longrightarrow> fs_sent s' = fs_sent s \<and> fs_env s' = fs_env s)"

lemma seed_status_reads:
  assumes "fork_reads fk" "seed fk True s = (r, s')"
  shows "fs_sent s' = fs_sent s \<and> fs_env s' = fs_env s"
proof -
  obtain r1 s1 where 1: "fk_accounts fk s = (r1, s1)" by fastforce
  obtain r2 s2 where 2: "fk_getPool fk s1 = (r2, s2)" by fastforce
  obtain r3 s3 where 3: "fk_getPriceOracle fk s2 = (r3, s3)" by fastforce
  have "fs_sent s1 = fs_sent s \<and> fs_env s1 = fs_env s" "fs_sent s2 = fs_sent s1 \<and> fs_env s2 = fs_env s1"
    "fs_sent s3 = fs_sent s2 \<and> fs_env s3 = fs_env s2"
    using assms(1) 1 2 3 unfolding fork_reads_def by blast+
  moreover have "fs_sent s4 = fs_sent s3 \<and> fs_env s4 = fs_env s3" if "fk_account_data fk p b s3 = (x, s4)" for p b x s4
    using assms(1) that unfolding fork_reads_def by blast
  ultimately show ?thesis using assms(2) 1 2 3
    by (auto simp: seed_def io_bind_def io_lift_def io_return_def Let_def split: prod.splits sum.splits)
qed

text \<open>A file without a line for the address never gets one, so the next run deploys again.\<close>

lemma seed_redeploys:
  assumes "fs_env s = Some ls" "\<forall>l\<in>set ls. \<not> prefix VAULT_KEY l" "py_strip v = v"
  shows "configured_vault (snd (write_vault_address v s)) = []"
  using env_vault_roundtrip [OF assms(3), of ls] assms(1,2) by (auto simp: write_vault_address_def configured_vault_def)

text \<open>
  The amount borrowed is worth at most what is missing, in the base units the oracle prices in, and less than one unit of the token
  below it; it is zero exactly when the missing value is below the price of one unit, and a borrowing of zero is sent as well.
\<close>

lemma borrow_rounds_down:
  assumes "fk_checksum fk USDC = Inr usdc" "fk_price fk oracle usdc s = (Inr price, s)" "0 < price"
  shows "\<exists>n. borrow_shortfall fk oracle b missing s = io_bind (send fk (Borrow_usdc b n)) (\<lambda>_. io_return ()) s \<and>
     n * price \<le> missing * 10 ^ 6 \<and> missing * 10 ^ 6 < (n + 1) * price \<and> (n = 0 \<longleftrightarrow> 0 \<le> missing * 10 ^ 6 \<and> missing * 10 ^ 6 < price)"
proof -
  let ?n = "missing * 10 ^ 6 div price"
  have e: "?n * price = missing * 10 ^ 6 - missing * 10 ^ 6 mod price" by (rule minus_mod_eq_div_mult [symmetric])
  have m: "0 \<le> missing * 10 ^ 6 mod price" "missing * 10 ^ 6 mod price < price" using assms(3) by simp_all
  have "?n = 0 \<longleftrightarrow> 0 \<le> missing * 10 ^ 6 \<and> missing * 10 ^ 6 < price" using assms(3) by (auto simp: zdiv_eq_0_iff)
  moreover have "borrow_shortfall fk oracle b missing s = io_bind (send fk (Borrow_usdc b ?n)) (\<lambda>_. io_return ()) s"
    using assms by (simp add: borrow_shortfall_def io_bind_def io_lift_def)
  moreover have "?n * price \<le> missing * 10 ^ 6" using e m(1) by linarith
  moreover have "missing * 10 ^ 6 < (?n + 1) * price" using e m(2) unfolding distrib_right mult_1_left by linarith
  ultimately show ?thesis by blast
qed

end
