(* ===== verification/Demo_Stack.thy ===== *)
theory Demo_Stack
  imports Demo_Seeding
begin

text \<open>
  The other scripts of the demonstration: the JSON-RPC proxy in front of the archive node (\<^verbatim>\<open>tools/alchemy_fork_proxy.py\<close>), the signing of
  the mandates (\<^verbatim>\<open>tools/sign_demo_mandates.py\<close>) and the start of the whole stack (\<^verbatim>\<open>tools/run_demo_stack.py\<close>). Sockets, processes,
  the JSON parser, the signature scheme and the vault are parameters.
\<close>

section \<open>The fork proxy\<close>

definition LOCALLY_ANSWERED :: "string list" where
  "LOCALLY_ANSWERED = [''anvil_nodeInfo'', ''anvil_metadata'']"

datatype payload = Bytes string | Dumped json

text \<open>The parser fails with a \<^verbatim>\<open>JSONDecodeError\<close>, which is answered, or on bytes that are no text.\<close>

datatype parsed = Json json | Decode_error | Not_text exn

text \<open>\<^verbatim>\<open>urlopen\<close>: an answer with its status, an \<^verbatim>\<open>HTTPError\<close> with its body, or any other exception.\<close>

datatype upstream = Answered_with string int | Http_error string | Unreachable exn

fun hashable :: "json \<Rightarrow> bool" where
  "hashable (JList vs) = False"
| "hashable (JDict d) = False"
| "hashable v = True"

definition body_get :: "(string \<times> json) list \<Rightarrow> string \<Rightarrow> json" where
  "body_get d k = (case map_of (rev d) k of None \<Rightarrow> JNone | Some v \<Rightarrow> v)"

text \<open>Membership in the set of names hashes the value first.\<close>

definition shadowed :: "json \<Rightarrow> bool res" where
  "shadowed body = (case body of
       JDict d \<Rightarrow> (let m = body_get d ''method'' in
         if \<not> hashable m then Inl (OtherError ''unhashable type'')
         else Inr (case m of JStr nm \<Rightarrow> nm \<in> set LOCALLY_ANSWERED | _ \<Rightarrow> False))
     | _ \<Rightarrow> Inr False)"

definition rpc_error :: "json \<Rightarrow> int \<Rightarrow> string \<Rightarrow> payload" where
  "rpc_error i code message = Dumped (JDict [(''jsonrpc'', JStr ''2.0''), (''id'', i),
     (''error'', JDict [(''code'', JInt code), (''message'', JStr message)])])"

definition do_POST :: "(string \<Rightarrow> parsed) \<Rightarrow> (string \<Rightarrow> upstream) \<Rightarrow> string \<Rightarrow> (payload \<times> int) res" where
  "do_POST loads urlopen raw = (case loads raw of
       Not_text e \<Rightarrow> Inl e
     | Decode_error \<Rightarrow> Inr (rpc_error JNone (- 32700) ''Parse error'', 200)
     | Json body \<Rightarrow> res_bind (shadowed body) (\<lambda>own.
         if own then (case body of JDict d \<Rightarrow>
             Inr (rpc_error (body_get d ''id'') (- 32601)
               (''Unsupported method: '' @ (case body_get d ''method'' of JStr nm \<Rightarrow> nm | _ \<Rightarrow> [])), 200)
           | _ \<Rightarrow> Inl (OtherError []))
         else (case urlopen raw of
             Answered_with b status \<Rightarrow> Inr (Bytes b, status)
           | Http_error b \<Rightarrow> Inr (if b \<noteq> [] then Bytes b else rpc_error JNone (- 32603) ''upstream error'', 200)
           | Unreachable e \<Rightarrow> Inr (rpc_error JNone (- 32603) (''proxy error: '' @ exn_str e), 200))))"

text \<open>
  The probe of anvil is answered here and never reaches the archive node; everything else does, unchanged. A refusal of the archive
  node arrives as an answer with status 200.
\<close>

lemma proxy_answers:
  assumes "loads raw = Json body" "shadowed body = Inr own"
  shows "\<exists>p st. do_POST loads urlopen raw = Inr (p, st) \<and> (own \<longrightarrow> st = 200 \<and> do_POST loads urlopen' raw = Inr (p, st)) \<and>
    (\<not> own \<longrightarrow> (\<forall>b c. urlopen raw = Answered_with b c \<longrightarrow> p = Bytes b \<and> st = c)) \<and>
    (\<not> own \<longrightarrow> (\<forall>b. urlopen raw = Http_error b \<or> urlopen raw = Unreachable e \<longrightarrow> st = 200))"
proof (cases own)
  case True
  then obtain d where "body = JDict d" using assms(2) by (auto simp: shadowed_def split: json.splits)
  then show ?thesis using assms True by (auto simp: do_POST_def)
next
  case False
  then show ?thesis using assms by (cases "urlopen raw") (auto simp: do_POST_def)
qed

text \<open>A request whose method is a list or an object ends the handler without an answer.\<close>

lemma proxy_dies_on_method:
  "loads raw = Json (JDict [(''method'', JList vs)]) \<Longrightarrow> do_POST loads urlopen raw = Inl (OtherError ''unhashable type'')"
  by (simp add: do_POST_def shadowed_def body_get_def)


section \<open>Signing the mandates\<close>

definition NL :: string where "NL = [char_of (10 :: nat)]"

abbreviation QT :: string where "QT \<equiv> [char_of (34 :: nat)]"

definition ACCOUNTS :: "nat list" where "ACCOUNTS = [1 ..< 9]"
definition NONCES :: "int list" where "NONCES = [1, 2, 3, 4, 5]"

text \<open>\<^verbatim>\<open>RiskParams(borrower=acct.address, nonce=nonce, **BASE)\<close>.\<close>

definition demo_mandate :: "(string \<Rightarrow> string res) \<Rightarrow> string \<Rightarrow> int \<Rightarrow> RiskParams res" where
  "demo_mandate checksum address nonce = validate_risk_params checksum
     \<lparr>rp_borrower = address, rp_hf_trigger_bps = 11500, rp_hf_target_base_bps = 12500, rp_vol_coeff_k = 0, rp_hf_target_max_bps = 14000,
      rp_max_slippage_bps = 300, rp_max_cost_bps = 500, rp_allowed_collaterals = [WETH], rp_nonce = nonce, rp_deadline = 2000000000\<rparr>"

record 's signer =
  sg_address :: "nat \<Rightarrow> string"
  sg_hash :: "solidity_tuple \<Rightarrow> ('s, string) io"
  sg_sign :: "string \<Rightarrow> nat \<Rightarrow> string"
  sg_checksum :: "string \<Rightarrow> string res"

definition sign_nonce :: "'s signer \<Rightarrow> nat \<Rightarrow> int \<Rightarrow> ('s, string) io" where
  "sign_nonce sg idx nonce =
     io_bind (io_lift (demo_mandate (sg_checksum sg) (sg_address sg idx) nonce)) (\<lambda>params.
     io_bind (sg_hash sg (to_solidity_tuple params)) (\<lambda>digest.
     let sig0 = sg_sign sg digest idx; sig = (if prefix ''0x'' sig0 then sig0 else ''0x'' @ sig0) in
     io_return (''    { nonce: '' @ show_int nonce @ '', sig: '' @ QT @ sig @ QT @ '' },'')))"

fun io_all :: "('a \<Rightarrow> ('s, 'b) io) \<Rightarrow> 'a list \<Rightarrow> ('s, 'b list) io" where
  "io_all f [] = io_return []"
| "io_all f (x # xs) = io_bind (f x) (\<lambda>y. io_bind (io_all f xs) (\<lambda>ys. io_return (y # ys)))"

definition sign_account :: "'s signer \<Rightarrow> nat \<Rightarrow> ('s, string) io" where
  "sign_account sg idx = io_bind (io_all (sign_nonce sg idx) NONCES) (\<lambda>entries.
     io_return (''  '' @ QT @ str_lower (sg_address sg idx) @ QT @ '': ['' @ NL @ join NL entries @ NL @ ''  ],''))"

definition BLOCK_START :: string where "BLOCK_START = ''const DEMO_SIGNATURES = {''"
definition BLOCK_END :: string where "BLOCK_END = NL @ ''};''"

definition sign_all :: "'s signer \<Rightarrow> ('s, string) io" where
  "sign_all sg = io_bind (io_all (sign_account sg) ACCOUNTS) (\<lambda>blocks.
     io_return (BLOCK_START @ NL @ join NL blocks @ BLOCK_END))"

text \<open>
  The pattern \<^verbatim>\<open>const DEMO_SIGNATURES = \{.*?\n\};\<close> takes the text from the opening to the first closing after it;
  \<^verbatim>\<open>sub\<close> replaces every match.
\<close>

fun after_end :: "string \<Rightarrow> string option" where
  "after_end [] = None"
| "after_end (c # cs) = (if prefix BLOCK_END (c # cs) then Some (drop (length BLOCK_END) (c # cs)) else after_end cs)"

lemma after_end_shorter: "after_end s = Some r \<Longrightarrow> length r < length s"
  by (induction s) (auto simp: BLOCK_END_def NL_def split: if_splits)

function replace_blocks :: "string \<Rightarrow> string \<Rightarrow> string \<times> bool" where
  "replace_blocks js s = (case s of [] \<Rightarrow> ([], False)
     | c # cs \<Rightarrow> (case (if prefix BLOCK_START s then after_end (drop (length BLOCK_START) s) else None) of
         Some rest \<Rightarrow> (js @ fst (replace_blocks js rest), True)
       | None \<Rightarrow> (case replace_blocks js cs of (t, found) \<Rightarrow> (c # t, found))))"
  by pat_completeness auto

termination
  by (relation "measure (\<lambda>(js, s). length s)") (auto dest!: after_end_shorter split: if_splits)

declare replace_blocks.simps [simp del]

definition sign_main :: "'s signer \<Rightarrow> bool \<Rightarrow> string \<Rightarrow> ('s, string) io" where
  "sign_main sg write src = io_bind (sign_all sg) (\<lambda>js.
     if \<not> write then io_return src
     else case replace_blocks js src of (t, found) \<Rightarrow>
       if found then io_return t else io_raise (OtherError ''could not find DEMO_SIGNATURES in finax.js''))"

lemma nothing_found: "\<not> sublist BLOCK_START s \<Longrightarrow> replace_blocks js s = (s, False)"
proof (induction s)
  case (Cons c cs)
  then have "\<not> prefix BLOCK_START (c # cs)" "\<not> sublist BLOCK_START cs" by (auto simp: sublist_Cons_right)
  then show ?case using Cons.IH by (subst replace_blocks.simps) simp
qed (subst replace_blocks.simps, simp)

text \<open>Without the block the script stops and the file is not written; every signature is for the parameters of its own wallet.\<close>

lemma sign_needs_block: "\<not> sublist BLOCK_START src \<Longrightarrow> sign_main sg True src s \<noteq> (Inr t, s')"
  by (auto simp: sign_main_def io_bind_Inr_iff nothing_found)

lemma demo_mandate_valid: "demo_mandate checksum a n = Inr p \<Longrightarrow> 0 \<le> n \<Longrightarrow> n < 2 ^ 256 \<Longrightarrow> rp_nonce p = n \<and> checksum a = Inr (rp_borrower p)"
  by (auto simp: demo_mandate_def validate_risk_params_def res_bind_Inr_iff target_band_ordered_def split: if_splits)

section \<open>Starting the stack\<close>

text \<open>
  Processes, ports and probes; \<open>sh_run\<close> gives the exit code of a script. A \<^verbatim>\<open>sys.exit\<close> is an exception.
\<close>

record 's shell =
  sh_kill_port :: "nat \<Rightarrow> ('s, unit) io"
  sh_which :: "('s, string option) io"
  sh_fallback :: "('s, string option) io"
  sh_popen :: "string list \<Rightarrow> ('s, unit) io"
  sh_run :: "string \<Rightarrow> string list \<Rightarrow> ('s, int) io"
  sh_rpc :: "nat \<Rightarrow> string \<Rightarrow> ('s, bool) io"
  sh_http_ok :: "string \<Rightarrow> ('s, bool) io"
  sh_sleep :: "('s, unit) io"
  sh_fork_url :: string

definition ANVIL_PORT :: nat where "ANVIL_PORT = 8548"
definition API_PORT :: nat where "API_PORT = 8097"

definition SEEDERS :: "string list" where
  "SEEDERS = [''seed_demo.py'', ''seed_all_demo_wallets.py'', ''seed_more_wallets.py'']"

definition anvil :: "'s shell \<Rightarrow> ('s, string) io" where
  "anvil sh = io_bind (sh_which sh) (\<lambda>found. case found of Some p \<Rightarrow> io_return p
     | None \<Rightarrow> io_bind (sh_fallback sh) (\<lambda>f. case f of Some p \<Rightarrow> io_return p
         | None \<Rightarrow> io_raise (OtherError ''anvil not found. Install Foundry, or add ~/.foundry/bin to PATH.'')))"

fun wait_for :: "'s shell \<Rightarrow> ('s, bool) io \<Rightarrow> string \<Rightarrow> nat \<Rightarrow> ('s, unit) io" where
  "wait_for sh fn what 0 = io_raise (OtherError (''timed out waiting for '' @ what))"
| "wait_for sh fn what (Suc n) = io_bind fn (\<lambda>up. if up then io_return ()
     else io_bind (sh_sleep sh) (\<lambda>_. wait_for sh fn what n))"

definition run_script :: "'s shell \<Rightarrow> string \<Rightarrow> ('s, unit) io" where
  "run_script sh script = io_bind (sh_run sh script []) (\<lambda>code.
     if code \<noteq> 0 then io_raise (OtherError (script @ '' failed with exit code '' @ show_int code)) else io_return ())"

fun run_scripts :: "'s shell \<Rightarrow> string list \<Rightarrow> ('s, unit) io" where
  "run_scripts sh [] = io_return ()"
| "run_scripts sh (x # xs) = io_bind (run_script sh x) (\<lambda>_. run_scripts sh xs)"

definition start_fork :: "'s shell \<Rightarrow> ('s, unit) io" where
  "start_fork sh =
     io_bind (anvil sh) (\<lambda>binary.
     io_bind (sh_popen sh [binary, ''--fork-url'', sh_fork_url sh, ''--hardfork'', ''shanghai'', ''--port'', show_int (int ANVIL_PORT),
       ''--chain-id'', ''42161'', ''--no-rate-limit'']) (\<lambda>_.
     io_bind (wait_for sh (sh_rpc sh ANVIL_PORT ''eth_blockNumber'') ''anvil'' 30) (\<lambda>_.
     io_bind (run_scripts sh SEEDERS) (\<lambda>_.
     io_bind (sh_run sh ''sign_demo_mandates.py'' [''--write'']) (\<lambda>code.
     if code \<noteq> 0 then io_raise (OtherError ''signing failed'') else io_return ())))))"

definition start_api :: "'s shell \<Rightarrow> ('s, unit) io" where
  "start_api sh =
     io_bind (sh_popen sh [''uvicorn'', ''app.main:app'', ''--port'', show_int (int API_PORT)]) (\<lambda>_.
     wait_for sh (io_bind (sh_rpc sh API_PORT ''x'') (\<lambda>up. if up then io_return True else sh_http_ok sh ''/agent/status'')) ''API'' 30)"

definition stack_main :: "'s shell \<Rightarrow> bool \<Rightarrow> bool \<Rightarrow> ('s, unit) io" where
  "stack_main sh no_seed stop =
     io_bind (sh_kill_port sh API_PORT) (\<lambda>_.
     io_bind (if \<not> no_seed then sh_kill_port sh ANVIL_PORT else io_return ()) (\<lambda>_.
     if stop then io_return ()
     else io_bind (if \<not> no_seed then start_fork sh else io_return ()) (\<lambda>_. start_api sh)))"

text \<open>With a script that cannot succeed among the seeders, the full start never gets to the API.\<close>

lemma scripts_all_succeed: "run_scripts sh xs s = (Inr u, s') \<Longrightarrow> x \<in> set xs \<Longrightarrow> io_post (sh_run sh x []) (\<lambda>code. code \<noteq> 0) \<Longrightarrow> False"
  by (induction xs arbitrary: s) (auto simp: run_script_def io_bind_Inr_iff dest: io_postD split: if_splits)

lemma stack_needs_every_seeder:
  assumes "io_post (sh_run sh ''seed_more_wallets.py'' []) (\<lambda>code. code \<noteq> 0)"
  shows "stack_main sh False False s \<noteq> (Inr u, s')"
  using scripts_all_succeed [of sh SEEDERS, OF _ _ assms]
  by (auto simp: stack_main_def start_fork_def io_bind_Inr_iff SEEDERS_def)

lemma stop_only_kills: "stack_main sh no_seed True = io_bind (sh_kill_port sh API_PORT) (\<lambda>_.
    io_bind (if \<not> no_seed then sh_kill_port sh ANVIL_PORT else io_return ()) (\<lambda>_. io_return ()))"
  by (simp add: stack_main_def)

end
