(* ===== verification/Process_Setup.thy ===== *)
theory Process_Setup
  imports FinaX_Prelude Py_Text "HOL-Library.Multiset"
begin

text \<open>
  What is set up once per process outside the keeper's own state: the root logger (\<^verbatim>\<open>configure_logging\<close> of
  \<^verbatim>\<open>app/observability.py\<close>), the console served by \<^verbatim>\<open>app/main.py\<close>, the cached importer of the optional packages
  (\<^verbatim>\<open>app/agent/_lazy.py\<close>) and the source scan for blocking model calls (\<^verbatim>\<open>app/agent/llm.py\<close>). Python's import
  machinery and its parser are parameters: an import may raise, and running a module may change the state.
\<close>

section \<open>The root logger\<close>

record root_logger =
  rl_handlers :: "string list"
  rl_level :: int

definition LOG_FORMAT :: string where
  "LOG_FORMAT = ''%(asctime)s %(levelname)s %(name)s :: %(message)s''"

definition configure_logging :: "int \<Rightarrow> root_logger \<Rightarrow> root_logger" where
  "configure_logging level logger = (if rl_handlers logger \<noteq> [] then logger
     else \<lparr>rl_handlers = rl_handlers logger @ [LOG_FORMAT], rl_level = level\<rparr>)"

lemma configure_logging_once: "configure_logging l (configure_logging k logger) = configure_logging k logger"
  by (simp add: configure_logging_def)

section \<open>The cached importer\<close>

record lazy_state =
  lz_cache :: "string list"

text \<open>The module object carries no information here: the cache is the set of paths imported so far.\<close>

definition lazy_import :: "(string \<Rightarrow> ('z lazy_state_scheme, unit) io) \<Rightarrow> string \<Rightarrow> ('z lazy_state_scheme, unit) io" where
  "lazy_import imp path s =
     (if path \<in> set (lz_cache s) then (Inr (), s)
      else io_bind (imp path) (\<lambda>_ s'. (Inr (), s'\<lparr>lz_cache := (if path \<in> set (lz_cache s') then lz_cache s' else lz_cache s' @ [path])\<rparr>)) s)"

definition langgraph_graph :: "(string \<Rightarrow> ('z lazy_state_scheme, unit) io) \<Rightarrow> ('z lazy_state_scheme, unit) io" where
  "langgraph_graph imp = lazy_import imp ''langgraph.graph''"

definition langgraph_types :: "(string \<Rightarrow> ('z lazy_state_scheme, unit) io) \<Rightarrow> ('z lazy_state_scheme, unit) io" where
  "langgraph_types imp = lazy_import imp ''langgraph.types''"

definition lc_messages :: "(string \<Rightarrow> ('z lazy_state_scheme, unit) io) \<Rightarrow> ('z lazy_state_scheme, unit) io" where
  "lc_messages imp = lazy_import imp ''langchain_core.messages''"

definition lc_tools :: "(string \<Rightarrow> ('z lazy_state_scheme, unit) io) \<Rightarrow> ('z lazy_state_scheme, unit) io" where
  "lc_tools imp = lazy_import imp ''langchain_core.tools''"

definition google_genai_chat :: "(string \<Rightarrow> ('z lazy_state_scheme, unit) io) \<Rightarrow> ('z lazy_state_scheme, unit) io" where
  "google_genai_chat imp = lazy_import imp ''langchain_google_genai''"

definition agent_stack_available :: "(string \<Rightarrow> ('z lazy_state_scheme, unit) io) \<Rightarrow> ('z lazy_state_scheme, bool) io" where
  "agent_stack_available imp =
     io_try
       (io_bind (langgraph_graph imp) (\<lambda>_. io_bind (langgraph_types imp) (\<lambda>_. io_bind (lc_messages imp) (\<lambda>_.
        io_bind (lc_tools imp) (\<lambda>_. io_bind (google_genai_chat imp) (\<lambda>_. io_return True))))))
       (\<lambda>_. io_return False)"

lemmas stack_defs = langgraph_graph_def langgraph_types_def lc_messages_def lc_tools_def google_genai_chat_def

definition STACK :: "string list" where
  "STACK = [''langgraph.graph'', ''langgraph.types'', ''langchain_core.messages'', ''langchain_core.tools'', ''langchain_google_genai'']"

text \<open>Importing never forgets: the module code that runs meanwhile leaves the cache or adds to it.\<close>

definition keeps_cache :: "(string \<Rightarrow> ('z lazy_state_scheme, unit) io) \<Rightarrow> bool" where
  "keeps_cache imp \<longleftrightarrow> (\<forall>p s r s'. imp p s = (r, s') \<longrightarrow> set (lz_cache s) \<subseteq> set (lz_cache s'))"

lemma lazy_import_caches:
  assumes "keeps_cache imp" "lazy_import imp p s = (r, s')"
  shows "set (lz_cache s) \<subseteq> set (lz_cache s')" "r = Inr () \<Longrightarrow> p \<in> set (lz_cache s')"
proof -
  have "set (lz_cache s) \<subseteq> set (lz_cache s') \<and> (r = Inr () \<longrightarrow> p \<in> set (lz_cache s'))"
  proof (cases "p \<in> set (lz_cache s)")
    case False
    obtain q t where t: "imp p s = (q, t)" by fastforce
    then have "set (lz_cache s) \<subseteq> set (lz_cache t)" using assms(1) unfolding keeps_cache_def by blast
    then show ?thesis using assms(2) t False by (cases q) (auto simp: lazy_import_def io_bind_def split: if_splits)
  qed (use assms(2) in \<open>auto simp: lazy_import_def\<close>)
  then show "set (lz_cache s) \<subseteq> set (lz_cache s')" "r = Inr () \<Longrightarrow> p \<in> set (lz_cache s')" by blast+
qed

lemma lazy_import_hit: "p \<in> set (lz_cache s) \<Longrightarrow> lazy_import imp p s = (Inr (), s)"
  by (simp add: lazy_import_def)

text \<open>The probe answers without raising; once the stack is there it stays there, and asking again imports nothing.\<close>

lemma stack_probe_total: "\<exists>b s'. agent_stack_available imp s = (Inr b, s')"
  by (auto simp: agent_stack_available_def io_try_def io_return_def split: prod.splits sum.splits)

lemma stack_cached: "set STACK \<subseteq> set (lz_cache s) \<Longrightarrow> agent_stack_available imp s = (Inr True, s)"
  by (simp add: agent_stack_available_def stack_defs STACK_def lazy_import_hit io_bind_def io_try_def io_return_def)

lemma stack_available_sticks:
  assumes "keeps_cache imp" "agent_stack_available imp s = (Inr True, s')"
  shows "agent_stack_available imp' s' = (Inr True, s')"
proof (rule stack_cached)
  obtain s1 s2 s3 s4 where i: "langgraph_graph imp s = (Inr (), s1)" "langgraph_types imp s1 = (Inr (), s2)"
    "lc_messages imp s2 = (Inr (), s3)" "lc_tools imp s3 = (Inr (), s4)" "google_genai_chat imp s4 = (Inr (), s')"
    using assms(2) unfolding agent_stack_available_def io_try_def
    by (auto simp: io_bind_Inr_iff split: prod.splits sum.splits)
  note c = i [unfolded stack_defs, THEN lazy_import_caches(1) [OF assms(1)]]
    i [unfolded stack_defs, THEN lazy_import_caches(2) [OF assms(1)]]
  show "set STACK \<subseteq> set (lz_cache s')" using c unfolding STACK_def by (simp add: subset_iff)
qed


section \<open>The console\<close>

text \<open>\<^verbatim>\<open>_RevalidatingStatics.file_response\<close> on the headers of the response that \<^verbatim>\<open>StaticFiles\<close> made, and the redirect of the root.\<close>

definition file_response :: "(string, string) pydict \<Rightarrow> (string, string) pydict" where
  "file_response headers = dict_set ''Cache-Control'' ''no-cache'' headers"

definition root_redirect :: string where
  "root_redirect = ''/console/''"

lemma file_response_revalidates: "dict_get (file_response h) ''Cache-Control'' = Some ''no-cache''"
  "k \<noteq> ''Cache-Control'' \<Longrightarrow> dict_get (file_response h) k = dict_get h k"
  by (simp_all add: file_response_def dict_simps)

section \<open>The scan for blocking calls\<close>

text \<open>
  A node of a syntax tree: \<open>Some (attr, line)\<close> when it is a call of an attribute, and its children. \<^verbatim>\<open>ast.walk\<close> goes
  through the tree breadth first.
\<close>

datatype py_ast = Ast "(string \<times> int) option" "py_ast list"

fun ast_nodes :: "py_ast \<Rightarrow> py_ast list" where
  "ast_nodes (Ast a cs) = Ast a cs # concat (map ast_nodes cs)"

function walk :: "py_ast list \<Rightarrow> py_ast list" where
  "walk [] = []"
| "walk (Ast a cs # q) = Ast a cs # walk (q @ cs)"
  by pat_completeness auto

termination
  by (relation "measure (\<lambda>q. length (concat (map ast_nodes q)))") auto

definition SYNC_METHODS :: "string list" where
  "SYNC_METHODS = [''invoke'', ''batch'', ''stream'']"

fun offending :: "string \<Rightarrow> py_ast \<Rightarrow> string list" where
  "offending name (Ast None cs) = []"
| "offending name (Ast (Some (attr, line)) cs) =
     (if attr \<in> set SYNC_METHODS then [name @ '':'' @ show_int line @ '': .'' @ attr @ ''(...)''] else [])"

text \<open>A file that does not exist is \<open>None\<close>; one that does not parse has no tree. Both are skipped. The files are UTF-8, as the repository's are.\<close>

definition assert_async_only :: "(string \<times> py_ast option option) list \<Rightarrow> string list" where
  "assert_async_only paths = concat (map (\<lambda>(name, content). case content of
       Some (Some tree) \<Rightarrow> concat (map (offending name) (walk [tree])) | _ \<Rightarrow> []) paths)"

lemma walk_visits_all: "mset (walk q) = mset (concat (map ast_nodes q))"
  by (induction q rule: walk.induct) (simp_all add: ac_simps)

text \<open>The scan finds every blocking call of every file that parses, and nothing else.\<close>

lemma scan_complete:
  "x \<in> set (assert_async_only paths) \<longleftrightarrow> (\<exists>name tree attr line cs. (name, Some (Some tree)) \<in> set paths \<and>
     Ast (Some (attr, line)) cs \<in> set (ast_nodes tree) \<and> attr \<in> set SYNC_METHODS \<and>
     x = name @ '':'' @ show_int line @ '': .'' @ attr @ ''(...)'')"
proof -
  have w: "set (walk [tree]) = set (ast_nodes tree)" for tree
    using arg_cong [OF walk_visits_all [of "[tree]"], of set_mset] by simp
  have o: "x \<in> set (offending name t) \<longleftrightarrow> (\<exists>attr line cs. t = Ast (Some (attr, line)) cs \<and> attr \<in> set SYNC_METHODS \<and>
      x = name @ '':'' @ show_int line @ '': .'' @ attr @ ''(...)'')" for name t
    by (cases "(name, t)" rule: offending.cases) auto
  have "x \<in> set (assert_async_only paths) \<longleftrightarrow> (\<exists>name tree t. (name, Some (Some tree)) \<in> set paths \<and> t \<in> set (ast_nodes tree) \<and>
      x \<in> set (offending name t))"
    by (fastforce simp: assert_async_only_def w split: option.splits)
  then show ?thesis unfolding o by blast
qed

end
