(* ===== verification/Spec2Isabelle.thy ===== *)
theory Spec2Isabelle
  imports Approval_Concurrency Agent_Session App_Safety Contract_ABI Demo_ABI Demo_Stack Process_Setup Prompts
begin

text \<open>
  Verification of the FinaX keeper, the Python backend under \<^verbatim>\<open>src/backend\<close>. The keeper watches Aave V3 positions
  of borrowers who signed a risk mandate, and repays part of a debt before it is liquidated. An agent layer around
  it explains positions, proposes rescues and lets an operator approve them.

  \<^bold>\<open>The program.\<close> A client of the chain with retries and failover (\<^verbatim>\<open>chain/\<close>) feeds the decision pipeline (\<^verbatim>\<open>core/\<close>):
  monitoring, risk signal, sizing of the repayment, choice of a collateral, viability, dry run, submission. The
  protection service composes them, with a circuit breaker and an in-flight registry in front of every submission; the
  worker calls its \<^verbatim>\<open>tick\<close>, the routes its \<^verbatim>\<open>protect\<close>. The agent layer (\<^verbatim>\<open>agent/\<close>) has a SQLite store, a deterministic policy gate, a
  crew of nodes around a language model that ends in a proposal, a chat loop over read-only tools, and a guard that
  compares the figures of a text with those the backend produced. The routes (\<^verbatim>\<open>api/\<close>) expose all of it; the approval
  route is the only place of the agent layer where a transaction can start.

  \<^bold>\<open>How it is modelled.\<close> A Pydantic model is a record with a \<open>validate_\<close> function that accepts or raises. An exception is a
  value of \<open>exn\<close>, a fallible function returns \<open>exn + 'a\<close> (\<open>res\<close>), and an awaited or stateful operation is a function from the state to
  a result and the state after it (\<open>io\<close>), so that what an exception leaves behind is visible. Dictionaries are association
  lists in insertion order. The states nest as records: \<open>chain_state\<close>, \<open>clients_state\<close>, \<open>pipeline_state\<close>, \<open>service_state\<close>, \<open>agent_state\<close>,
  \<open>app_state\<close>; all of them are extensible, so a lemma about a component holds in every larger state. Python's integers are \<open>int\<close>, its
  floats are \<open>pyfloat\<close>, binary64 with rounding to nearest even over the rationals, infinities and nan; a zero has no sign.
  Solidity's integers are words. The node, the vault, the language model, the clock, the accounts library and the C library's \<^verbatim>\<open>log\<close> and \<^verbatim>\<open>erfc\<close> are
  parameters; what a property needs of them is a named hypothesis (\<open>calm_deps\<close>, \<open>quiet_deps\<close>, \<open>calm_crew\<close>, \<open>calm_chat\<close>: they run outside the
  keeper's own state; \<open>libm_ok\<close>: the logarithm and the error function are monotone and finite where they should be).

  \<^bold>\<open>The theories.\<close>

  \<^item> \<open>FinaX_Prelude\<close>, \<open>Py_Float\<close>, \<open>Py_Text\<close>, \<open>Py_Repr\<close>: results, the \<open>io\<close> functions, dictionaries; floats (locale \<open>rounding\<close>); the string
    methods and formats the code uses; \<^verbatim>\<open>repr\<close> and \<^verbatim>\<open>format\<close> of a float.
  \<^item> \<open>App_Settings\<close>, \<open>Arbitrum_Config\<close>, \<open>Position_State\<close>, \<open>Models\<close>: \<^verbatim>\<open>config/settings.py\<close>, \<^verbatim>\<open>config/arbitrum.py\<close>, \<^verbatim>\<open>core/state.py\<close>,
    \<^verbatim>\<open>core/models.py\<close>. Validation accepts exactly what satisfies the bounds and is idempotent; the typed-data layout agrees with
    the type string of the vault.
  \<^item> \<open>Sizing\<close>, \<open>Risk\<close>, \<open>Viability\<close>, \<open>Selector\<close>: the pure decision functions. Sizing is minimal and matches the Solidity reference of the
    parity test; the dynamic target stays in the signed band; a viable rescue is cheaper than the bonus it avoids; the
    ranking is an optimal permutation of the candidates.
  \<^item> \<open>Chain_Client\<close>, \<open>Chain_Reads\<close>, \<open>Chain_Frames\<close>: \<^verbatim>\<open>chain/client.py\<close> and the readers over it. Failover finds a healthy endpoint; the
    reserve bit-field is decoded as it is packed; \<open>Contract_ABI\<close> has the declared interfaces, with what the readers take by position being what
    they name in the answer that was given, and the arguments the encoders accept. The locale \<open>chain_frame\<close> proves once, for any relation the node keeps, that
    every read, the pipeline, the dry run and the submission keep it; it is interpreted for each frame the components need.
  \<^item> \<open>Monitor\<close>, \<open>Pipeline\<close>, \<open>Simulator\<close>, \<open>Submitter\<close>: polling, the evaluation with all its declines, the dry run with its bumps, and the
    submission with its fallback. A plan is made of the figures that were read, for the signed borrower, collaterals, slippage and band; the signed cost cap,
    nonce and deadline are not looked at here, the vault checks them. The bump loop ends within the configured bound.
  \<^item> \<open>Breaker\<close>, \<open>Inflight\<close>, \<open>Counters\<close>: the two guards, each with a contract as a locale (\<open>submission_gate\<close>, \<open>keyed_lock\<close>) that the
    implementation interprets.
  \<^item> \<open>Protection_Service\<close>, \<open>Service_Concurrency\<close>, \<open>Service_Refinement\<close>: \<^verbatim>\<open>core/protection_service.py\<close>. \<open>protect\<close> is cut at its awaits into
    segments; \<open>step\<close> interleaves the segments of any number of calls with operator actions, and the invariants (one
    submission per borrower, no start while paused, balanced counters) hold in every reachable state. The sequential functions
    are runs of these steps.
  \<^item> \<open>Agent_Models\<close>, \<open>Agent_Store\<close>, \<open>Policy\<close>, \<open>Agent_Tools\<close>, \<open>Agent_Routes\<close>: the rows, each SQL statement as a step on the tables (locale
    \<open>claim_table\<close>: a row is claimed once), the gate, the tools and the routes that decide proposals. The gate's verdict is
    characterised and monotone in the limits.
  \<^item> \<open>Approval_Flow\<close>, \<open>Approval_Concurrency\<close>: what an approval does on every branch, on which reads (\<open>gate_reads\<close>), and concurrent approvals as interleaved steps over the
    store: an action is started at most once. \<open>request_step\<close> cuts one request over keeper and store; the route is a run of it, and such a run
    is one of the interleaved steps.
  \<^item> \<open>Agent_Guard\<close>, \<open>Guard_Roundtrip\<close>, \<open>Agent_Facts\<close>, \<open>Agent_Model\<close>, \<open>Crew_Graph\<close>: the guard as scanners over the text, with what it flags and
    accepts; the fact sheet, the wrapper of the language model, and every node of the crew with its routing. \<open>Crew_Safety\<close>, \<open>Crew_Outcome\<close> and \<open>Crew_Example\<close>: for any model, a run leaves the keeper
    alone and proposes at most what the gate allowed; its terminal state is honest; without a model it is the run that never asks (\<open>crew_alone\<close>). That the
    keeper is left alone (\<open>same_keeper\<close>) speaks of the registered mandates, the locks, the breaker and the counters; reading a position refreshes
    the displayed states and the price windows.
  \<^item> \<open>Agent_Chat\<close>, \<open>Chat_Safety\<close>, \<open>Chat_Reply\<close>: the tool surface, dispatch and the loop of the chat. Whatever the model calls, a turn writes
    its own thread only, and its reply ends an \<open>exchange\<close> with the model whose calls it lists; an answer is flagged exactly when a figure is not backed by their results.
  \<^item> \<open>Agent_Session\<close>: the routes of the agent layer together, as a function from a request to the state after it. Whatever is asked, only an
    approval of a pending proposal that the gate allows at that moment reaches the keeper, and none does after the kill switch. The locale
    \<open>service_frame\<close> (in \<open>Approval_Flow\<close>) extends \<open>chain_frame\<close> to a whole protective action.
  \<^item> \<open>App_Routes\<close>, \<open>App_Safety\<close>: the remaining routes, the container built from the settings, the worker, the runtime of the agent layer and
    the start and end of the process.

  \<^item> \<open>Prompts\<close>, \<open>Process_Setup\<close>: \<^verbatim>\<open>agent/prompts.py\<close> line by line, with the tools, actions, fields and checks it names being those of the
    code; the root logger, the cached importer, the served console and the scan for blocking model calls.
  \<^item> \<open>Demo_ABI\<close>, \<open>Demo_Seeding\<close>, \<open>Demo_Stack\<close>: the scripts of \<^verbatim>\<open>src/backend/tools\<close>: their interfaces against the backend's, the
    seeding of the fork with every transaction written down, the environment file as text, the proxy, the signing and the start of the stack.

  \<^bold>\<open>Bounds and fuel.\<close> The dry run's \<^verbatim>\<open>while\<close> loop is the only one with fuel: it reads a limit that may change while it waits, and
  \<open>simulate_terminates\<close> shows that one iteration more than the bound on the configured bumps is enough, which every accepted configuration sets to at most ten;
  the definition has twelve. The retry loop of the
  client and the loop of the chat recurse on the number of attempts and steps the settings give, as the code's \<^verbatim>\<open>for\<close> loops
  do. The integer square root, the printing of integers and the scanners of the guard terminate by a measure. A square root of a float is rounded
  from an integer root of 600 binary places. \<open>shortest\<close> tries up to 17 significant digits, which determine a binary64 (\<open>shortest_reads_back\<close>). The
  worker's loop runs until it is stopped and takes the number of passes as an argument.

  \<^bold>\<open>What is not modelled.\<close> The construction of the Gemini client (a constructor call of a package), the vault's interface (a file its build
  exports), the warnings an import emits, FastAPI's mounting and parsing, the reading of the environment, what is printed or logged, the parsing of
  arguments and the freeing of ports by the scripts, and \<^verbatim>\<open>seed_extra_positions.py\<close>, which raises on import and is otherwise commented out. \<^verbatim>\<open>langgraph\<close> is its composition of the nodes along the
  edges. The guard's regular expressions are exact for ASCII text. Cancellation of the worker inside a pass is not
  a value of the model; it cuts a pass to a prefix of the interleaved steps. Solidity is modelled only where the backend is
  compared with it.
\<close>

end
